(* ===== verification/Prelude.thy ===== *)
theory Prelude
  imports Main "HOL-Library.Word" "HOL-Library.Product_Lexorder"
begin

unbundle bit_operations_syntax

text \<open>
  What every component of the model shares: the scalar types of the Rust code (bytes,
  UUIDs, instants), the Rust string operations the handlers call, big-endian integer
  encodings, and the reading of a SQL table as a list of rows in insertion order together
  with the lemmas on the four statements (select, insert, update, delete) that the store
  methods issue.  The collection \<open>row_simps\<close> holds the rewrite rules on tables.
\<close>

named_theorems row_simps \<open>rewrite rules on tables\<close>
named_theorems row_keys \<open>what an update statement keeps of a key column\<close>

section \<open>Scalar types\<close>

type_synonym bytes = "8 word list"
type_synonym uuid = "128 word"

text \<open>Instants (\<open>DateTime<Utc>\<close>, \<open>TIMESTAMPTZ\<close>) are microseconds since the epoch.\<close>

type_synonym instant = int

abbreviation seconds :: "int \<Rightarrow> int" where "seconds n \<equiv> n * 1000000"
abbreviation minutes :: "int \<Rightarrow> int" where "minutes n \<equiv> seconds (60 * n)"
abbreviation hours :: "int \<Rightarrow> int" where "hours n \<equiv> minutes (60 * n)"
abbreviation days :: "int \<Rightarrow> int" where "days n \<equiv> hours (24 * n)"

definition uuid_is_nil :: "uuid \<Rightarrow> bool" where
  "uuid_is_nil u \<longleftrightarrow> u = 0"

text \<open>\<open>Uuid::as_bytes\<close>: the 16 bytes, most significant first.\<close>

definition uuid_bytes :: "uuid \<Rightarrow> bytes" where
  "uuid_bytes u = map (\<lambda>i. ucast (drop_bit (8 * (15 - i)) u)) [0..<16]"

lemma length_uuid_bytes [simp]: "length (uuid_bytes u) = 16"
  by (simp add: uuid_bytes_def)

lemma uuid_bytes_inject: "uuid_bytes u = uuid_bytes v \<longleftrightarrow> u = v"
proof
  assume eq: "uuid_bytes u = uuid_bytes v"
  have byte: "(ucast (drop_bit (8 * (15 - i)) u) :: 8 word) = ucast (drop_bit (8 * (15 - i)) v)"
    if "i < 16" for i
    using arg_cong [OF eq, where f = "\<lambda>xs. xs ! i"] that by (simp add: uuid_bytes_def)
  show "u = v"
  proof (rule bit_word_eqI)
    fix n assume "n < LENGTH(128)"
    then have n: "n < 128" by simp
    define i where "i = 15 - n div 8"
    have i: "i < 16" "8 * (15 - i) + n mod 8 = n" using n by (auto simp: i_def)
    have "bit (ucast (drop_bit (8 * (15 - i)) u) :: 8 word) (n mod 8)
        = bit (ucast (drop_bit (8 * (15 - i)) v) :: 8 word) (n mod 8)"
      using byte [OF i(1)] by simp
    moreover have "n mod 8 < 8" by simp
    ultimately show "bit u n = bit v n"
      using i(2) n by (simp add: bit_simps add.commute del: mod_less_divisor)
  qed
qed simp

section \<open>Big-endian integers\<close>

text \<open>\<open>u16::to_be_bytes\<close>, \<open>u32::to_be_bytes\<close> and their inverses.\<close>

definition be16 :: "16 word \<Rightarrow> bytes" where
  "be16 w = [ucast (drop_bit 8 w), ucast w]"

definition of_be16 :: "8 word \<Rightarrow> 8 word \<Rightarrow> 16 word" where
  "of_be16 a b = push_bit 8 (ucast a) OR ucast b"

definition be32 :: "32 word \<Rightarrow> bytes" where
  "be32 w = [ucast (drop_bit 24 w), ucast (drop_bit 16 w), ucast (drop_bit 8 w), ucast w]"

definition of_be32 :: "8 word \<Rightarrow> 8 word \<Rightarrow> 8 word \<Rightarrow> 8 word \<Rightarrow> 32 word" where
  "of_be32 a b c d =
     push_bit 24 (ucast a) OR push_bit 16 (ucast b) OR push_bit 8 (ucast c) OR ucast d"

lemma length_be [simp]: "length (be16 w) = 2" "length (be32 v) = 4"
  by (simp_all add: be16_def be32_def)

lemma of_be16_be16 [simp]: "of_be16 (ucast (drop_bit 8 w)) (ucast w) = w"
  by (rule bit_word_eqI) (auto simp: of_be16_def bit_simps)

lemma byte_no_high_bit [simp]: "8 \<le> n \<Longrightarrow> \<not> bit (b :: 8 word) n"
  using bit_imp_le_length [of b n] by auto

lemma be16_of_be16 [simp]: "be16 (of_be16 a b) = [a, b]"
  unfolding be16_def of_be16_def
  by (auto intro!: bit_word_eqI simp: bit_simps)

lemma of_be32_be32 [simp]:
  "of_be32 (ucast (drop_bit 24 w)) (ucast (drop_bit 16 w)) (ucast (drop_bit 8 w)) (ucast w) = w"
proof (rule bit_word_eqI)
  fix n assume "n < LENGTH(32)"
  then consider "n < 8" | "8 \<le> n" "n < 16" | "16 \<le> n" "n < 24" | "24 \<le> n" "n < 32"
    by fastforce
  then show "bit (of_be32 (ucast (drop_bit 24 w)) (ucast (drop_bit 16 w))
      (ucast (drop_bit 8 w)) (ucast w)) n = bit w n"
    by cases (auto simp: of_be32_def bit_simps)
qed

lemma be32_of_be32 [simp]: "be32 (of_be32 a b c d) = [a, b, c, d]"
  unfolding be32_def of_be32_def
  by (auto intro!: bit_word_eqI simp: bit_simps)

lemma be16_inject: "be16 v = be16 w \<longleftrightarrow> v = w"
proof
  assume "be16 v = be16 w"
  then have "of_be16 (ucast (drop_bit 8 v)) (ucast v) = of_be16 (ucast (drop_bit 8 w)) (ucast w)"
    by (simp only: be16_def list.inject)
  then show "v = w" by (simp only: of_be16_be16)
qed simp

lemma be32_inject: "be32 v = be32 w \<longleftrightarrow> v = w"
proof
  assume "be32 v = be32 w"
  then have "of_be32 (ucast (drop_bit 24 v)) (ucast (drop_bit 16 v)) (ucast (drop_bit 8 v)) (ucast v)
      = of_be32 (ucast (drop_bit 24 w)) (ucast (drop_bit 16 w)) (ucast (drop_bit 8 w)) (ucast w)"
    by (simp only: be32_def list.inject)
  then show "v = w" by (simp only: of_be32_be32)
qed simp

lemma be16_eqI: "of_be16 a b = w \<Longrightarrow> be16 w = [a, b]"
  by auto

lemma be32_eqI: "of_be32 a b c d = w \<Longrightarrow> be32 w = [a, b, c, d]"
  by auto

section \<open>Rust strings\<close>

text \<open>
  A \<open>String\<close> is its UTF-8 bytes, so \<open>length\<close> is what \<open>str::len\<close> counts.
  \<open>str::trim\<close> removes the characters with the Unicode property White\_Space at both
  ends; \<open>white_space\<close> lists their UTF-8 encodings.  No encoding of one character is a
  proper suffix of another one's, so cutting encodings off the end is what \<open>trim\<close> does.
\<close>

definition utf8 :: "nat list \<Rightarrow> string" where
  "utf8 = map char_of"

definition white_space :: "string list" where
  "white_space =
     map (\<lambda>b. utf8 [b]) [9, 10, 11, 12, 13, 32] @
     [utf8 [194, 133], utf8 [194, 160], utf8 [225, 154, 128]] @
     map (\<lambda>b. utf8 [226, 128, b]) ([128..<139] @ [168, 169, 175]) @
     [utf8 [226, 129, 159], utf8 [227, 128, 128]]"

fun strip_prefix :: "string \<Rightarrow> string \<Rightarrow> string option" where
  "strip_prefix [] s = Some s"
| "strip_prefix (p # ps) [] = None"
| "strip_prefix (p # ps) (c # s) = (if p = c then strip_prefix ps s else None)"

fun strip_first :: "string list \<Rightarrow> string \<Rightarrow> string option" where
  "strip_first [] s = None"
| "strip_first (w # ws) s =
     (case strip_prefix w s of Some r \<Rightarrow> Some r | None \<Rightarrow> strip_first ws s)"

lemma strip_prefix_Some: "strip_prefix p s = Some r \<longleftrightarrow> s = p @ r"
  by (induction p s rule: strip_prefix.induct) auto

lemma strip_first_Some:
  "strip_first ws s = Some r \<Longrightarrow> \<exists>w \<in> set ws. s = w @ r"
  by (induction ws) (auto simp: strip_prefix_Some split: option.splits)

lemma strip_first_length:
  "strip_first ws s = Some r \<Longrightarrow> [] \<notin> set ws \<Longrightarrow> length r < length s"
  by (drule strip_first_Some) force

text \<open>Cutting leading encodings of \<open>ws\<close> until none is left, within \<open>length s\<close> cuts.\<close>

fun strip_all :: "string list \<Rightarrow> nat \<Rightarrow> string \<Rightarrow> string" where
  "strip_all ws 0 s = s"
| "strip_all ws (Suc n) s =
     (case strip_first ws s of Some r \<Rightarrow> strip_all ws n r | None \<Rightarrow> s)"

lemma strip_all_done:
  "[] \<notin> set ws \<Longrightarrow> length s \<le> n \<Longrightarrow> strip_first ws (strip_all ws n s) = None"
proof (induction n arbitrary: s)
  case 0
  then show ?case
    by (cases "strip_first ws s") (auto dest: strip_first_length)
next
  case (Suc n)
  show ?case
  proof (cases "strip_first ws s")
    case None
    then show ?thesis by simp
  next
    case (Some r)
    then have "length r \<le> n" using Suc.prems strip_first_length [OF Some] by simp
    with Suc Some show ?thesis by simp
  qed
qed

definition trim_start :: "string \<Rightarrow> string" where
  "trim_start s = strip_all white_space (length s) s"

definition trim_end :: "string \<Rightarrow> string" where
  "trim_end s = rev (strip_all (map rev white_space) (length s) (rev s))"

definition trim :: "string \<Rightarrow> string" where
  "trim s = trim_end (trim_start s)"

lemma trim_Nil [simp]: "trim [] = []"
  by (simp add: trim_def trim_end_def trim_start_def)

text \<open>Trimming what begins and ends with a printable ASCII character.\<close>

definition plain_char :: "char \<Rightarrow> bool" where
  "plain_char c \<longleftrightarrow> 33 \<le> (of_char c :: nat) \<and> (of_char c :: nat) < 128"

lemma strip_first_plain:
  assumes "plain_char c" "\<forall>w \<in> set ws. \<exists>k w'. w = k # w' \<and> \<not> plain_char k"
  shows "strip_first ws (c # s) = None"
  using assms(2)
proof (induction ws)
  case (Cons w ws)
  then obtain k w' where "w = k # w'" "\<not> plain_char k" by auto
  with assms(1) have "strip_prefix w (c # s) = None" by auto
  with Cons show ?case by simp
qed simp

lemma white_space_not_plain:
  "\<forall>w \<in> set white_space. \<exists>k w'. w = k # w' \<and> \<not> plain_char k"
  "\<forall>w \<in> set (map rev white_space). \<exists>k w'. w = k # w' \<and> \<not> plain_char k"
  by (simp_all add: white_space_def utf8_def plain_char_def upt_rec)

lemma strip_all_plain:
  "s = [] \<or> (\<exists>c r. s = c # r \<and> plain_char c) \<Longrightarrow> \<forall>w \<in> set ws. \<exists>k w'. w = k # w' \<and> \<not> plain_char k \<Longrightarrow>
   strip_all ws n s = s"
proof (cases n)
  case (Suc m)
  assume s: "s = [] \<or> (\<exists>c r. s = c # r \<and> plain_char c)" and ws: "\<forall>w \<in> set ws. \<exists>k w'. w = k # w' \<and> \<not> plain_char k"
  have "strip_first ws [] = None" using ws by (induction ws) auto
  then have "strip_first ws s = None" using s strip_first_plain [OF _ ws] by auto
  with Suc show ?thesis by simp
qed simp

lemma trim_plain: "plain_char (hd s) \<Longrightarrow> plain_char (last s) \<Longrightarrow> trim s = s"
proof (cases s rule: rev_cases)
  case (snoc r l)
  assume s: "plain_char (hd s)" "plain_char (last s)"
  obtain c t where ct: "s = c # t" using snoc by (metis append_is_Nil_conv list.exhaust not_Cons_self2)
  have "trim_start s = s" using s ct unfolding trim_start_def
    by (intro strip_all_plain white_space_not_plain) simp
  moreover have "strip_all (map rev white_space) (length s) (rev s) = rev s"
    using s snoc by (intro strip_all_plain white_space_not_plain) simp
  ultimately show ?thesis by (simp add: trim_def trim_end_def)
qed simp

text \<open>Trimming is idempotent.\<close>

lemma strip_prefix_self [simp]: "strip_prefix p (p @ r) = Some r"
  by (simp add: strip_prefix_Some)

lemma strip_first_no_match: "strip_first ws s = None \<longleftrightarrow> (\<forall>w \<in> set ws. \<forall>r. s \<noteq> w @ r)"
  by (induction ws) (auto simp: strip_prefix_Some split: option.splits)

lemma strip_all_suffix: "\<exists>p. s = p @ strip_all ws n s"
proof (induction n arbitrary: s)
  case (Suc n)
  show ?case
  proof (cases "strip_first ws s")
    case (Some r)
    then obtain w where "s = w @ r" using strip_first_Some by blast
    then show ?thesis using Suc [of r] Some by (metis append.assoc option.simps(5) strip_all.simps(2))
  qed simp
qed simp

lemma strip_all_fixed: "strip_first ws s = None \<Longrightarrow> strip_all ws n s = s"
  by (cases n) simp_all

lemma trim_end_prefix: "\<exists>u. s = trim_end s @ u"
  using strip_all_suffix [of "rev s" "map rev white_space" "length s"] unfolding trim_end_def
  by (metis rev_append rev_rev_ident)

lemma trim_trim: "trim (trim s) = trim s"
proof -
  have ws: "[] \<notin> set white_space" "[] \<notin> set (map rev white_space)" by (simp_all add: white_space_def utf8_def)
  have "strip_first white_space (trim_start s) = None"
    unfolding trim_start_def by (rule strip_all_done [OF ws(1)]) simp
  moreover obtain u where "trim_start s = trim s @ u" using trim_end_prefix unfolding trim_def by blast
  ultimately have "strip_first white_space (trim s) = None" by (auto simp: strip_first_no_match)
  then have "trim_start (trim s) = trim s" by (simp add: trim_start_def strip_all_fixed)
  moreover have "strip_first (map rev white_space) (rev (trim s)) = None"
    unfolding trim_def trim_end_def rev_rev_ident by (rule strip_all_done [OF ws(2)]) simp
  then have "trim_end (trim s) = trim s" by (simp add: trim_end_def strip_all_fixed)
  ultimately show ?thesis by (simp add: trim_def [of "trim s"])
qed

definition ascii_lower :: "char \<Rightarrow> char" where
  "ascii_lower c =
     (if 65 \<le> (of_char c :: nat) \<and> (of_char c :: nat) \<le> 90
      then char_of ((of_char c :: nat) + 32) else c)"

definition to_ascii_lowercase :: "string \<Rightarrow> string" where
  "to_ascii_lowercase = map ascii_lower"

text \<open>
  \<open>str::parse::<i64>\<close>: an optional sign, at least one digit, and a value in range.
\<close>

definition digit_value :: "char \<Rightarrow> int option" where
  "digit_value c =
     (let n = int (of_char c :: nat) in if 48 \<le> n \<and> n \<le> 57 then Some (n - 48) else None)"

fun parse_digits :: "int \<Rightarrow> string \<Rightarrow> int option" where
  "parse_digits acc [] = Some acc"
| "parse_digits acc (c # cs) =
     (case digit_value c of None \<Rightarrow> None | Some d \<Rightarrow> parse_digits (10 * acc + d) cs)"

definition in_i64 :: "int \<Rightarrow> bool" where
  "in_i64 n \<longleftrightarrow> - (2 ^ 63) \<le> n \<and> n < 2 ^ 63"

definition parse_i64 :: "string \<Rightarrow> int option" where
  "parse_i64 s =
     (let (negative, digits) =
        (case s of
           [] \<Rightarrow> (False, [])
         | c # cs \<Rightarrow>
             if c = CHR ''-'' then (True, cs)
             else if c = CHR ''+'' then (False, cs)
             else (False, s))
      in if digits = [] then None
         else case parse_digits 0 digits of
           None \<Rightarrow> None
         | Some n \<Rightarrow>
             (let v = (if negative then - n else n) in if in_i64 v then Some v else None))"

lemma parse_i64_range: "parse_i64 s = Some v \<Longrightarrow> in_i64 v"
  by (auto simp: parse_i64_def Let_def split: list.splits if_splits option.splits)

text \<open>\<open>str::parse::<u32>\<close> and \<open>::<u64>\<close>: an optional plus sign, at least one digit, in range.\<close>

definition parse_unsigned :: "nat \<Rightarrow> string \<Rightarrow> nat option" where
  "parse_unsigned bits s =
     (let digits = (case s of [] \<Rightarrow> [] | c # cs \<Rightarrow> if c = CHR ''+'' then cs else s) in
      if digits = [] then None
      else case parse_digits 0 digits of
        None \<Rightarrow> None
      | Some n \<Rightarrow> if n < 2 ^ bits then Some (nat n) else None)"

text \<open>\<open>str::split\<close> on one character.\<close>

fun split_on :: "char \<Rightarrow> string \<Rightarrow> string list" where
  "split_on sep [] = [[]]"
| "split_on sep (c # cs) =
     (if c = sep then [] # split_on sep cs
      else case split_on sep cs of [] \<Rightarrow> [[c]] | p # ps \<Rightarrow> (c # p) # ps)"

lemma split_on_nonempty [simp]: "split_on sep s \<noteq> []"
  by (induction s) (auto split: list.splits)

text \<open>
  What PostgreSQL counts against \<open>VARCHAR(n)\<close>: characters, that is the bytes that do not
  continue one; and \<open>btrim(s) <> ''\<close>, which strips spaces only.
\<close>

definition continues_char :: "char \<Rightarrow> bool" where
  "continues_char c \<longleftrightarrow> 128 \<le> (of_char c :: nat) \<and> (of_char c :: nat) < 192"

definition char_count :: "string \<Rightarrow> nat" where
  "char_count s = length (filter (\<lambda>c. \<not> continues_char c) s)"

definition btrim_blank :: "string \<Rightarrow> bool" where
  "btrim_blank s = list_all (\<lambda>c. c = CHR '' '') s"

section \<open>Tables\<close>

text \<open>
  A table is the list of its rows in insertion order.  \<open>fetch_optional\<close> is a \<open>SELECT\<close> whose
  predicate holds of at most one row, or of which any row does; \<open>exists_row\<close> is \<open>EXISTS\<close>;
  \<open>update_where\<close> and \<open>delete_where\<close> are \<open>UPDATE\<close> and \<open>DELETE\<close>, and \<open>rows_affected\<close> counts
  what they touch; an \<open>INSERT\<close> appends.
\<close>

abbreviation fetch_optional :: "('r \<Rightarrow> bool) \<Rightarrow> 'r list \<Rightarrow> 'r option" where
  "fetch_optional \<equiv> find"

abbreviation exists_row :: "('r \<Rightarrow> bool) \<Rightarrow> 'r list \<Rightarrow> bool" where
  "exists_row P t \<equiv> (\<exists>r \<in> set t. P r)"

definition rows_affected :: "('r \<Rightarrow> bool) \<Rightarrow> 'r list \<Rightarrow> nat" where
  "rows_affected P t = length (filter P t)"

definition update_where :: "('r \<Rightarrow> bool) \<Rightarrow> ('r \<Rightarrow> 'r) \<Rightarrow> 'r list \<Rightarrow> 'r list" where
  "update_where P f t = map (\<lambda>r. if P r then f r else r) t"

definition delete_where :: "('r \<Rightarrow> bool) \<Rightarrow> 'r list \<Rightarrow> 'r list" where
  "delete_where P t = filter (\<lambda>r. \<not> P r) t"

text \<open>A primary key or a unique index on the column \<open>k\<close>.\<close>

abbreviation unique_on :: "('r \<Rightarrow> 'k) \<Rightarrow> 'r list \<Rightarrow> bool" where
  "unique_on k t \<equiv> distinct (map k t)"

lemma set_update_where [row_simps]:
  "set (update_where P f t) = (\<lambda>r. if P r then f r else r) ` set t"
  by (simp add: update_where_def)

lemma update_where_cases:
  assumes "x \<in> set (update_where P f t)"
  obtains (kept) "x \<in> set t" "\<not> P x" | (changed) y where "y \<in> set t" "P y" "x = f y"
  using assms by (auto simp: update_where_def split: if_splits)

lemma exists_update_where:
  "exists_row Q (update_where P f t) \<longleftrightarrow> exists_row (\<lambda>r. Q (if P r then f r else r)) t"
  by (auto simp: update_where_def)

lemma set_delete_where [row_simps]: "set (delete_where P t) = {r \<in> set t. \<not> P r}"
  by (simp add: delete_where_def)

lemma update_where_Nil [simp]: "update_where P f [] = []"
  by (simp add: update_where_def)

lemma update_where_append [simp]:
  "update_where P f (s @ t) = update_where P f s @ update_where P f t"
  by (simp add: update_where_def)

lemma rows_affected_pos [row_simps]: "0 < rows_affected P t \<longleftrightarrow> exists_row P t"
  by (auto simp: rows_affected_def filter_empty_conv)

lemma rows_affected_0 [row_simps]: "rows_affected P t = 0 \<longleftrightarrow> \<not> exists_row P t"
  by (auto simp: rows_affected_def filter_empty_conv)

lemma update_where_none: "\<not> exists_row P t \<Longrightarrow> update_where P f t = t"
  by (auto simp: update_where_def intro: map_idI)

lemma column_update_where [row_keys]:
  "(\<And>r. P r \<Longrightarrow> k (f r) = k r) \<Longrightarrow> map k (update_where P f t) = map k t"
  by (auto simp: update_where_def)

lemma unique_on_delete_where [intro]: "unique_on k t \<Longrightarrow> unique_on k (delete_where P t)"
  by (simp add: delete_where_def distinct_map_filter)

lemma fetch_SomeD: "fetch_optional P t = Some r \<Longrightarrow> r \<in> set t \<and> P r"
  by (auto simp: find_Some_iff)

lemma fetch_None: "fetch_optional P t = None \<longleftrightarrow> \<not> exists_row P t"
  by (auto simp: find_None_iff)

lemma fetch_exists: "exists_row P t \<Longrightarrow> \<exists>r. fetch_optional P t = Some r"
  by (metis fetch_None not_None_eq)

lemma fetch_key_eq: "unique_on k t \<Longrightarrow> r \<in> set t \<Longrightarrow> s \<in> set t \<Longrightarrow> k r = k s \<Longrightarrow> r = s"
  by (simp add: distinct_map inj_on_def)

lemma fetch_unique:
  assumes "unique_on k t" "r \<in> set t" "P r" "\<And>x. P x \<Longrightarrow> k x = k r"
  shows "fetch_optional P t = Some r"
proof -
  have "exists_row P t" using assms(2,3) by (rule bexI [rotated])
  from fetch_exists [OF this] obtain s where s: "fetch_optional P t = Some s" ..
  then have st: "s \<in> set t" "P s" by (auto dest: fetch_SomeD)
  have "s = r" by (rule fetch_key_eq [OF assms(1) st(1) assms(2) assms(4) [OF st(2)]])
  with s show ?thesis by simp
qed

lemma fetch_cong:
  "(\<And>r. r \<in> set t \<Longrightarrow> P r \<longleftrightarrow> Q r) \<Longrightarrow> fetch_optional P t = fetch_optional Q t"
  by (induction t) auto

lemma fetch_update_where:
  "(\<And>r. P (if Q r then f r else r) \<longleftrightarrow> P r) \<Longrightarrow>
   fetch_optional P (update_where Q f t)
   = map_option (\<lambda>r. if Q r then f r else r) (fetch_optional P t)"
  by (induction t) (auto simp: update_where_def)

lemma fetch_append:
  "fetch_optional P (s @ t)
   = (case fetch_optional P s of Some r \<Rightarrow> Some r | None \<Rightarrow> fetch_optional P t)"
  by (induction s) auto

lemma length_filter_mono: "(\<And>x. P x \<Longrightarrow> Q x) \<Longrightarrow> length (filter P t) \<le> length (filter Q t)"
  by (induction t) (auto simp: le_SucI)

lemma fetch_inserted: "\<not> exists_row P t \<Longrightarrow> P r \<Longrightarrow> fetch_optional P (t @ [r]) = Some r"
  by (induction t) auto

lemma fetch_insert_other: "\<not> P r \<Longrightarrow> fetch_optional P (t @ [r]) = fetch_optional P t"
  by (induction t) auto

lemma fetch_key_update:
  "(\<And>r. k (f r) = k r) \<Longrightarrow>
   fetch_optional (\<lambda>r. k r = a) (update_where (\<lambda>r. k r = b) f t)
   = (if a = b then map_option f (fetch_optional (\<lambda>r. k r = a) t)
      else fetch_optional (\<lambda>r. k r = a) t)"
  by (induction t) (auto simp: update_where_def)

lemma filter_update_gone:
  "(\<And>r. P r \<Longrightarrow> \<not> Q (f r)) \<Longrightarrow> filter Q (update_where P f t) = filter (\<lambda>r. Q r \<and> \<not> P r) t"
  by (induction t) (auto simp: update_where_def)

lemma keys_filter_update:
  "(\<And>r. P r \<Longrightarrow> K (f r) = K r) \<Longrightarrow>
   K ` set (filter Q (update_where P f t)) = K ` set (filter (\<lambda>r. Q (if P r then f r else r)) t)"
  by (induction t) (auto simp: update_where_def)

lemma update_where_cong:
  "(\<And>r. r \<in> set t \<Longrightarrow> P r \<longleftrightarrow> Q r) \<Longrightarrow> update_where P f t = update_where Q f t"
  by (simp add: update_where_def)

lemma distinct_singleton: "distinct xs \<Longrightarrow> set xs = {r} \<Longrightarrow> xs = [r]"
  by (cases xs) (force simp: subset_singleton_iff insert_eq_iff)+

lemma filter_unique:
  assumes "unique_on k t" "r \<in> set t" "P r" "\<And>x. P x \<Longrightarrow> k x = k r"
  shows "filter P t = [r]"
proof (rule distinct_singleton)
  show "distinct (filter P t)"
    using assms(1) by (intro distinct_filter) (simp add: distinct_map)
  show "set (filter P t) = {r}"
  proof (intro equalityI subsetI)
    fix x assume "x \<in> set (filter P t)"
    then have x: "x \<in> set t" "P x" by simp_all
    have "x = r" by (rule fetch_key_eq [OF assms(1) x(1) assms(2) assms(4) [OF x(2)]])
    then show "x \<in> {r}" by simp
  next
    fix x assume "x \<in> {r}"
    then show "x \<in> set (filter P t)" using assms(2,3) by simp
  qed
qed
end
