(* ===== verification/AppErrors.thy ===== *)
theory AppErrors
  imports Prelude
begin

text \<open>
  The application error of \<open>api/src/error.rs\<close>: the enum \<open>AppError\<close>, its error code, its
  HTTP status, its text, the details it discloses, and the response built from them.  The
  texts of the code are Chinese or formatted; they stand here as ASCII tags, one tag per
  text, and an argument that is interpolated into a text is dropped unless it is compared
  somewhere.  \<open>sqlx::Error\<close> is reduced to the cases the code distinguishes.
\<close>

datatype sqlx_error =
  RowNotFound | ProtocolError string | UniqueViolation | ForeignKeyViolation | CheckViolation
  | ValueTooLong | InvalidRowCount

datatype app_error =
    DatabaseError sqlx_error
  | Unauthorized string
  | InvalidToken string
  | TokenExpired
  | InvalidCredentials
  | NotFound string
  | AlreadyExists string
  | MessageRuntimeConflict string
  | ValidationError string
  | InvalidInput string
  | Forbidden string
  | InsufficientPermission
  | BusinessError string
  | RateLimitExceeded string
  | TooManyRequests
  | CacheError string
  | InternalError string
  | ServiceUnavailable string

fun error_code :: "app_error \<Rightarrow> nat" where
  "error_code (Unauthorized _) = 40001"
| "error_code (InvalidToken _) = 40002"
| "error_code TokenExpired = 40003"
| "error_code InvalidCredentials = 40004"
| "error_code (Forbidden _) = 40301"
| "error_code InsufficientPermission = 40302"
| "error_code (NotFound _) = 40401"
| "error_code (ValidationError _) = 42201"
| "error_code (InvalidInput _) = 42202"
| "error_code (AlreadyExists _) = 40901"
| "error_code (MessageRuntimeConflict _) = 40902"
| "error_code (RateLimitExceeded _) = 42901"
| "error_code TooManyRequests = 42902"
| "error_code (BusinessError _) = 50001"
| "error_code (DatabaseError _) = 50101"
| "error_code (CacheError _) = 50201"
| "error_code (InternalError _) = 50301"
| "error_code (ServiceUnavailable _) = 50302"

fun status_code :: "app_error \<Rightarrow> nat" where
  "status_code (Unauthorized _) = 401"
| "status_code (InvalidToken _) = 401"
| "status_code TokenExpired = 401"
| "status_code InvalidCredentials = 401"
| "status_code (Forbidden _) = 403"
| "status_code InsufficientPermission = 403"
| "status_code (NotFound _) = 404"
| "status_code (ValidationError _) = 400"
| "status_code (InvalidInput _) = 400"
| "status_code (AlreadyExists _) = 409"
| "status_code (MessageRuntimeConflict _) = 409"
| "status_code (RateLimitExceeded _) = 429"
| "status_code TooManyRequests = 429"
| "status_code (BusinessError _) = 422"
| "status_code (ServiceUnavailable _) = 503"
| "status_code (DatabaseError _) = 500"
| "status_code (CacheError _) = 500"
| "status_code (InternalError _) = 500"

text \<open>\<open>Display\<close>: a constructor with a text shows it, or a fixed text when it is empty.\<close>

definition or_default :: "string \<Rightarrow> string \<Rightarrow> string" where
  "or_default msg d = (if msg = [] then d else msg)"

fun display_error :: "app_error \<Rightarrow> string" where
  "display_error (DatabaseError _) = ''database error''"
| "display_error (Unauthorized msg) = or_default msg ''not authorised''"
| "display_error (InvalidToken msg) = or_default msg ''invalid token''"
| "display_error TokenExpired = ''token expired''"
| "display_error InvalidCredentials = ''wrong user name or password''"
| "display_error (NotFound msg) = or_default msg ''no such resource''"
| "display_error (AlreadyExists msg) = or_default msg ''resource exists''"
| "display_error (MessageRuntimeConflict msg) = msg"
| "display_error (ValidationError msg) = or_default msg ''validation failed''"
| "display_error (InvalidInput msg) = or_default msg ''invalid input''"
| "display_error (Forbidden msg) = or_default msg ''access forbidden''"
| "display_error InsufficientPermission = ''insufficient permission''"
| "display_error (BusinessError msg) = or_default msg ''business error''"
| "display_error (RateLimitExceeded msg) = or_default msg ''too many requests''"
| "display_error TooManyRequests = ''too many requests''"
| "display_error (CacheError msg) = or_default msg ''cache error''"
| "display_error (InternalError msg) = or_default msg ''internal server error''"
| "display_error (ServiceUnavailable msg) = or_default msg ''service unavailable''"

fun error_details :: "app_error \<Rightarrow> string option" where
  "error_details (DatabaseError _) = None"
| "error_details (InternalError _) = None"
| "error_details e = Some (display_error e)"

record error_response =
  er_code :: nat
  er_message :: string
  er_details :: "string option"

definition into_response :: "app_error \<Rightarrow> nat \<times> error_response" where
  "into_response e =
     (status_code e,
      \<lparr>er_code = error_code e, er_message = display_error e, er_details = error_details e\<rparr>)"

text \<open>The result of an operation: an error, or a value.\<close>

type_synonym 'a result = "app_error + 'a"

text \<open>\<open>From<sqlx::Error>\<close>: the conversion that \<open>?\<close> makes on the result of a store call.\<close>

definition from_sqlx :: "sqlx_error + 'a \<Rightarrow> 'a result" where
  "from_sqlx r = (case r of Inl e \<Rightarrow> Inl (DatabaseError e) | Inr a \<Rightarrow> Inr a)"

lemma from_sqlx_simps [simp]:
  "from_sqlx (Inl e) = Inl (DatabaseError e)" "from_sqlx (Inr a) = Inr a"
  by (simp_all add: from_sqlx_def)

lemma from_sqlx_Inr [simp]: "from_sqlx r = Inr a \<longleftrightarrow> r = Inr a"
  by (auto simp: from_sqlx_def split: sum.splits)

text \<open>
  A transaction, \<open>'s \<Rightarrow> ('a \<times> 's) result\<close>, gives a new state only when it commits; a handler,
  \<open>'s \<Rightarrow> 'a result \<times> 's\<close>, also gives the state it leaves behind when it fails, since a store
  call that committed before the failing one stays.  \<open>atomically\<close> runs a transaction as a step
  of a handler.
\<close>

definition atomically :: "('s \<Rightarrow> ('a \<times> 's) result) \<Rightarrow> 's \<Rightarrow> 'a result \<times> 's" where
  "atomically t s = (case t s of Inl e \<Rightarrow> (Inl e, s) | Inr (a, s') \<Rightarrow> (Inr a, s'))"

lemma atomically_Inl [simp]: "atomically t s = (Inl e, s') \<longleftrightarrow> t s = Inl e \<and> s' = s"
  by (auto simp: atomically_def split: sum.splits)

lemma atomically_Inr [simp]: "atomically t s = (Inr a, s') \<longleftrightarrow> t s = Inr (a, s')"
  by (auto simp: atomically_def split: sum.splits)

text \<open>
  The contract of an operation that a client may retry: once it has succeeded, repeating it,
  at any later instant, gives the same answer and changes nothing.
\<close>

locale retryable =
  fixes op :: "instant \<Rightarrow> 's \<Rightarrow> ('a \<times> 's) result"
  assumes retry_same: "op t s = Inr (a, s') \<Longrightarrow> op t' s' = Inr (a, s')"
begin

fun retries :: "instant list \<Rightarrow> 's \<Rightarrow> 'a result list \<times> 's" where
  "retries [] s = ([], s)"
| "retries (t # ts) s =
     (let (r, s') = atomically (op t) s; (rs, s'') = retries ts s' in (r # rs, s''))"

text \<open>However often the call is repeated after it succeeded, every answer is the first one.\<close>

lemma retries_after_success:
  "op t s = Inr (a, s') \<Longrightarrow> retries ts s' = (replicate (length ts) (Inr a), s')"
proof (induction ts)
  case Nil
  then show ?case by simp
next
  case (Cons u us)
  have "op u s' = Inr (a, s')" using retry_same [OF Cons.prems] .
  with Cons show ?case by (simp add: atomically_def)
qed

lemma retries_state: "op t s = Inr (a, s') \<Longrightarrow> snd (retries ts s') = s'"
  by (simp add: retries_after_success)

end

end
