(* ===== verification/Envelope.thy ===== *)
theory Envelope
  imports AppErrors
begin

text \<open>
  The wire envelope of an encrypted message, \<open>"RCML" | version | kind | length | payload\<close>:
  the codec of the client core (\<open>e2ee-core/src/lib.rs\<close>) and the check that the server makes
  on the same bytes (\<open>api/src/services/e2ee_envelope.rs\<close>).  The locale \<open>byte_codec\<close> is the
  contract of an encoder and a decoder; the protocol state file of \<open>ProtocolState\<close> is a second
  instance of it.
\<close>

section \<open>The contract of a codec\<close>

locale byte_codec =
  fixes enc :: "'a \<Rightarrow> bytes"
    and dec :: "bytes \<Rightarrow> 'e + 'a"
    and wf :: "'a \<Rightarrow> bool"
  assumes dec_enc: "wf x \<Longrightarrow> dec (enc x) = Inr x"
    and enc_dec: "dec b = Inr x \<Longrightarrow> wf x \<and> enc x = b"
begin

lemma enc_inject: "wf x \<Longrightarrow> wf y \<Longrightarrow> enc x = enc y \<Longrightarrow> x = y"
  by (metis dec_enc sum.inject(2))

lemma dec_unique: "dec b = Inr x \<Longrightarrow> dec b' = Inr x \<Longrightarrow> b = b'"
  by (metis enc_dec)

lemma accepted_iff: "(\<exists>x. dec b = Inr x) \<longleftrightarrow> (\<exists>x. wf x \<and> b = enc x)"
  by (metis dec_enc enc_dec)

end

section \<open>The client's envelope\<close>

definition envelope_magic :: bytes where
  "envelope_magic = [82, 67, 77, 76]" \<comment> \<open>RCML\<close>

definition header_bytes :: nat where "header_bytes = 11"
definition protocol_version :: "16 word" where "protocol_version = 1"
definition max_payload_bytes :: nat where "max_payload_bytes = 16 * 1024 * 1024"

datatype envelope_kind = KApplication | KCommit | KWelcome

datatype envelope_error =
    InvalidMagic
  | InvalidLength
  | UnsupportedVersion "16 word"
  | UnknownKind "8 word"
  | PayloadTooLarge

definition kind_byte :: "envelope_kind \<Rightarrow> 8 word" where
  "kind_byte k = (case k of KApplication \<Rightarrow> 1 | KCommit \<Rightarrow> 2 | KWelcome \<Rightarrow> 3)"

definition kind_of_byte :: "8 word \<Rightarrow> envelope_error + envelope_kind" where
  "kind_of_byte b =
     (if b = 1 then Inr KApplication
      else if b = 2 then Inr KCommit
      else if b = 3 then Inr KWelcome
      else Inl (UnknownKind b))"

record envelope =
  env_version :: "16 word"
  env_kind :: envelope_kind
  env_payload :: bytes

definition envelope_try_new :: "envelope_kind \<Rightarrow> bytes \<Rightarrow> envelope_error + envelope" where
  "envelope_try_new k p =
     (if length p > max_payload_bytes then Inl PayloadTooLarge
      else Inr \<lparr>env_version = protocol_version, env_kind = k, env_payload = p\<rparr>)"

definition envelope_encode :: "envelope \<Rightarrow> bytes" where
  "envelope_encode e =
     envelope_magic @ be16 (env_version e) @ [kind_byte (env_kind e)]
     @ be32 (word_of_nat (length (env_payload e))) @ env_payload e"

definition envelope_decode :: "bytes \<Rightarrow> envelope_error + envelope" where
  "envelope_decode b =
     (if length b < header_bytes then Inl InvalidLength
      else if take 4 b \<noteq> envelope_magic then Inl InvalidMagic
      else
        let version = of_be16 (b ! 4) (b ! 5) in
        if version \<noteq> protocol_version then Inl (UnsupportedVersion version)
        else case kind_of_byte (b ! 6) of
          Inl e \<Rightarrow> Inl e
        | Inr kind \<Rightarrow>
            let payload_len = unat (of_be32 (b ! 7) (b ! 8) (b ! 9) (b ! 10)) in
            if payload_len > max_payload_bytes then Inl PayloadTooLarge
            else if length b \<noteq> header_bytes + payload_len then Inl InvalidLength
            else Inr \<lparr>env_version = version, env_kind = kind, env_payload = drop header_bytes b\<rparr>)"

definition envelope_wf :: "envelope \<Rightarrow> bool" where
  "envelope_wf e \<longleftrightarrow> env_version e = protocol_version \<and> length (env_payload e) \<le> max_payload_bytes"

lemmas envelope_consts = header_bytes_def envelope_magic_def protocol_version_def max_payload_bytes_def

lemma kind_round_trip [simp]: "kind_of_byte (kind_byte k) = Inr k"
  by (cases k) (simp_all add: kind_of_byte_def kind_byte_def)

lemma kind_of_byte_Inr: "kind_of_byte b = Inr k \<longleftrightarrow> b = kind_byte k"
  by (cases k) (auto simp: kind_of_byte_def kind_byte_def split: if_splits)

text \<open>A list of at least eleven bytes shows its header.\<close>

lemma header_cases:
  assumes "11 \<le> length b"
  obtains m0 m1 m2 m3 v0 v1 k l0 l1 l2 l3 p
  where "b = m0 # m1 # m2 # m3 # v0 # v1 # k # l0 # l1 # l2 # l3 # p"
  using assms by (auto simp: numeral_eq_Suc Suc_le_length_iff)

text \<open>The length field of an admissible payload reads back as its length.\<close>

lemma payload_len_round_trip:
  "length p \<le> max_payload_bytes \<Longrightarrow> unat (word_of_nat (length p) :: 32 word) = length p"
  by (simp add: unsigned_of_nat take_bit_nat_eq_self max_payload_bytes_def)

lemma envelope_decode_encode: "envelope_wf e \<Longrightarrow> envelope_decode (envelope_encode e) = Inr e"
  by (cases e)
    (simp add: envelope_decode_def envelope_encode_def envelope_wf_def header_bytes_def
      envelope_magic_def be16_def be32_def Let_def payload_len_round_trip)

lemma envelope_decode_Inr:
  assumes "envelope_decode b = Inr e"
  shows "envelope_wf e \<and> envelope_encode e = b"
proof -
  from assms have "11 \<le> length b"
    by (auto simp: envelope_decode_def header_bytes_def split: if_splits)
  then obtain m0 m1 m2 m3 v0 v1 k l0 l1 l2 l3 p
    where b: "b = m0 # m1 # m2 # m3 # v0 # v1 # k # l0 # l1 # l2 # l3 # p"
    by (rule header_cases)
  from assms show ?thesis
    by (auto simp: b envelope_decode_def envelope_encode_def envelope_wf_def header_bytes_def
        envelope_magic_def Let_def kind_of_byte_Inr
        split: if_splits sum.splits intro: be16_eqI)
qed

interpretation envelope_codec: byte_codec envelope_encode envelope_decode envelope_wf
  by unfold_locales (auto simp: envelope_decode_encode dest: envelope_decode_Inr)

section \<open>The server's check\<close>

datatype content_type = CtApplication | CtCommit | CtWelcome

definition wire_kind :: "content_type \<Rightarrow> 8 word" where
  "wire_kind c = (case c of CtApplication \<Rightarrow> 1 | CtCommit \<Rightarrow> 2 | CtWelcome \<Rightarrow> 3)"

text \<open>\<open>EncryptionProtocol\<close> has the one value \<open>Mls\<close>.\<close>

record encryption_metadata =
  em_version :: "16 word"
  em_epoch :: "64 word"
  em_sender_device :: uuid
  em_content_type :: content_type
  em_control_message :: "uuid option"

definition validate_envelope :: "bytes \<Rightarrow> encryption_metadata \<Rightarrow> string + unit" where
  "validate_envelope b m =
     (if length b < header_bytes then Inl ''envelope length''
      else if take 4 b \<noteq> envelope_magic then Inl ''envelope magic''
      else
        let version = of_be16 (b ! 4) (b ! 5) in
        if version \<noteq> protocol_version \<or> em_version m \<noteq> protocol_version
        then Inl ''protocol version''
        else if b ! 6 \<noteq> wire_kind (em_content_type m) then Inl ''envelope kind''
        else
          let payload_len = unat (of_be32 (b ! 7) (b ! 8) (b ! 9) (b ! 10)) in
          if payload_len > max_payload_bytes then Inl ''payload size''
          else if length b \<noteq> header_bytes + payload_len then Inl ''envelope length''
          else if em_epoch m = 0 then Inl ''epoch''
          else if uuid_is_nil (em_sender_device m) then Inl ''sender device''
          else Inr ())"

definition content_kind :: "content_type \<Rightarrow> envelope_kind" where
  "content_kind c = (case c of CtApplication \<Rightarrow> KApplication | CtCommit \<Rightarrow> KCommit | CtWelcome \<Rightarrow> KWelcome)"

definition metadata_ok :: "encryption_metadata \<Rightarrow> bool" where
  "metadata_ok m \<longleftrightarrow>
     em_version m = protocol_version \<and> em_epoch m \<noteq> 0 \<and> \<not> uuid_is_nil (em_sender_device m)"

lemma wire_kind_kind_byte: "wire_kind c = kind_byte (content_kind c)"
  by (cases c) (simp_all add: wire_kind_def kind_byte_def content_kind_def)

text \<open>The server accepts exactly what the client's decoder accepts, with matching metadata.\<close>

lemma validate_envelope_iff_decode:
  "validate_envelope b m = Inr () \<longleftrightarrow>
     metadata_ok m \<and> (\<exists>e. envelope_decode b = Inr e \<and> env_kind e = content_kind (em_content_type m))"
proof -
  have "envelope_decode b = Inr e \<Longrightarrow> env_kind e = content_kind (em_content_type m) \<Longrightarrow>
      b ! 6 = kind_byte (content_kind (em_content_type m))" for e
    by (auto simp: envelope_decode_def Let_def kind_of_byte_Inr split: if_splits sum.splits)
  then show ?thesis
    by (auto simp: validate_envelope_def envelope_decode_def metadata_ok_def wire_kind_kind_byte Let_def
        split: if_splits sum.splits)
qed

section \<open>Properties\<close>

text \<open>
  C21: The client's decoder accepts exactly the encodings of well-formed envelopes, each as the
  envelope it encodes: decoding inverts encoding, and no other byte string is accepted.
\<close>

theorem envelope_decode_iff:
  "envelope_decode b = Inr e \<longleftrightarrow> envelope_wf e \<and> b = envelope_encode e"
  using envelope_codec.dec_enc envelope_codec.enc_dec by metis

text \<open>
  C22: The server accepts the bytes of a message with given metadata exactly when the metadata
  carry the protocol version, a positive epoch and a sender, and the bytes are the client's
  encoding of some payload under the kind that the metadata name.
\<close>

theorem server_accepts_client_encodings:
  "validate_envelope b m = Inr () \<longleftrightarrow> metadata_ok m \<and>
     (\<exists>p. length p \<le> max_payload_bytes \<and>
       b = envelope_encode \<lparr>env_version = protocol_version,
             env_kind = content_kind (em_content_type m), env_payload = p\<rparr>)"
proof -
  have wf: "envelope_wf \<lparr>env_version = protocol_version, env_kind = k, env_payload = p\<rparr>
      \<longleftrightarrow> length p \<le> max_payload_bytes" for k p
    by (simp add: envelope_wf_def)
  have "(\<exists>e. envelope_decode b = Inr e \<and> env_kind e = k) \<longleftrightarrow>
      (\<exists>p. length p \<le> max_payload_bytes \<and>
         b = envelope_encode \<lparr>env_version = protocol_version, env_kind = k, env_payload = p\<rparr>)" for k
  proof
    assume "\<exists>e. envelope_decode b = Inr e \<and> env_kind e = k"
    then obtain e where e: "envelope_wf e" "b = envelope_encode e" "env_kind e = k"
      by (metis envelope_codec.enc_dec)
    then have "e = \<lparr>env_version = protocol_version, env_kind = k, env_payload = env_payload e\<rparr>"
      by (cases e) (simp add: envelope_wf_def)
    with e show "\<exists>p. length p \<le> max_payload_bytes \<and>
         b = envelope_encode \<lparr>env_version = protocol_version, env_kind = k, env_payload = p\<rparr>"
      by (metis envelope_wf_def)
  next
    assume "\<exists>p. length p \<le> max_payload_bytes \<and>
         b = envelope_encode \<lparr>env_version = protocol_version, env_kind = k, env_payload = p\<rparr>"
    then obtain p where "length p \<le> max_payload_bytes"
      and b: "b = envelope_encode \<lparr>env_version = protocol_version, env_kind = k, env_payload = p\<rparr>" by blast
    then have "envelope_decode b = Inr \<lparr>env_version = protocol_version, env_kind = k, env_payload = p\<rparr>"
      using wf envelope_codec.dec_enc by blast
    then show "\<exists>e. envelope_decode b = Inr e \<and> env_kind e = k" by force
  qed
  then show ?thesis by (simp add: validate_envelope_iff_decode)
qed

end
