(* ===== verification/ProtocolState.thy ===== *)
theory ProtocolState
  imports Envelope "HOL-Library.Multiset" "HOL-Library.List_Lexorder"
begin

text \<open>
  The serialised protocol state of the client core, \<open>ProtocolProvider::import_state\<close> and
  \<open>export_state\<close> of \<open>e2ee-core/src/lib.rs\<close>.  The hash map of the provider is an association
  list whose order stands for the unspecified iteration order of a \<open>HashMap\<close>; \<open>map_of\<close> reads
  it as a map.  Offsets are \<open>nat\<close>: \<open>checked_add\<close> on \<open>usize\<close> can only fail where the sum
  exceeds \<open>max_state_bytes\<close>, and both cases return \<open>StateTooLarge\<close>.
\<close>

section \<open>The operations\<close>

datatype state_error =
    InvalidHeader
  | UnsupportedStateVersion "16 word"
  | StateTooLarge
  | TooManyEntries
  | Truncated
  | TrailingBytes
  | DuplicateKey
  | StorageLockPoisoned

record provider =
  prov_values :: "(bytes \<times> bytes) list"
  prov_poisoned :: bool

definition state_magic :: bytes where "state_magic = [82, 67, 83, 84]" \<comment> \<open>RCST\<close>
definition state_header_bytes :: nat where "state_header_bytes = 10"
definition state_format_version :: "16 word" where "state_format_version = 1"
definition max_state_bytes :: nat where "max_state_bytes = 64 * 1024 * 1024"
definition max_state_entries :: nat where "max_state_entries = 100000"

lemmas state_consts = state_magic_def state_header_bytes_def state_format_version_def

text \<open>\<open>encoded.get(i..j)\<close>.\<close>

definition get_range :: "bytes \<Rightarrow> nat \<Rightarrow> nat \<Rightarrow> bytes option" where
  "get_range b i j = (if i \<le> j \<and> j \<le> length b then Some (take (j - i) (drop i b)) else None)"

definition read_state_length :: "bytes \<Rightarrow> nat \<Rightarrow> state_error + (nat \<times> nat)" where
  "read_state_length b off =
     (case get_range b off (off + 4) of
        None \<Rightarrow> Inl Truncated
      | Some w \<Rightarrow> Inr (unat (of_be32 (w ! 0) (w ! 1) (w ! 2) (w ! 3)), off + 4))"

definition read_state_field :: "bytes \<Rightarrow> nat \<Rightarrow> nat \<Rightarrow> state_error + (bytes \<times> nat)" where
  "read_state_field b off len =
     (if off + len > max_state_bytes then Inl StateTooLarge
      else case get_range b off (off + len) of
        None \<Rightarrow> Inl Truncated
      | Some f \<Rightarrow> Inr (f, off + len))"

text \<open>The loop \<open>for _ in 0..entry_count\<close> of \<open>import_state\<close>.\<close>

fun import_entries ::
  "nat \<Rightarrow> bytes \<Rightarrow> nat \<Rightarrow> (bytes \<times> bytes) list \<Rightarrow> state_error + ((bytes \<times> bytes) list \<times> nat)" where
  "import_entries 0 b off values = Inr (values, off)"
| "import_entries (Suc n) b off values =
     (case read_state_length b off of
        Inl e \<Rightarrow> Inl e
      | Inr (key_length, off1) \<Rightarrow>
     (case read_state_length b off1 of
        Inl e \<Rightarrow> Inl e
      | Inr (value_length, off2) \<Rightarrow>
     (case read_state_field b off2 key_length of
        Inl e \<Rightarrow> Inl e
      | Inr (key, off3) \<Rightarrow>
     (case read_state_field b off3 value_length of
        Inl e \<Rightarrow> Inl e
      | Inr (value, off4) \<Rightarrow>
          if key \<in> fst ` set values then Inl DuplicateKey
          else import_entries n b off4 (values @ [(key, value)])))))"

definition import_state :: "bytes \<Rightarrow> state_error + provider" where
  "import_state b =
     (if length b > max_state_bytes then Inl StateTooLarge
      else if length b < state_header_bytes \<or> take 4 b \<noteq> state_magic then Inl InvalidHeader
      else
        let version = of_be16 (b ! 4) (b ! 5) in
        if version \<noteq> state_format_version then Inl (UnsupportedStateVersion version)
        else
          let entry_count = unat (of_be32 (b ! 6) (b ! 7) (b ! 8) (b ! 9)) in
          if entry_count > max_state_entries then Inl TooManyEntries
          else case import_entries entry_count b state_header_bytes [] of
            Inl e \<Rightarrow> Inl e
          | Inr (values, off) \<Rightarrow>
              if off \<noteq> length b then Inl TrailingBytes
              else Inr \<lparr>prov_values = values, prov_poisoned = False\<rparr>)"

definition enc_entry :: "bytes \<times> bytes \<Rightarrow> bytes" where
  "enc_entry e = be32 (word_of_nat (length (fst e))) @ be32 (word_of_nat (length (snd e)))
     @ fst e @ snd e"

text \<open>The loop over the sorted entries of \<open>export_state\<close>, which stops at the first overflow.\<close>

fun export_entries :: "(bytes \<times> bytes) list \<Rightarrow> bytes \<Rightarrow> state_error + bytes" where
  "export_entries [] out = Inr out"
| "export_entries (e # es) out =
     (if length (fst e) \<ge> 2 ^ 32 then Inl StateTooLarge
      else if length (snd e) \<ge> 2 ^ 32 then Inl StateTooLarge
      else
        let out' = out @ enc_entry e in
        if length out' > max_state_bytes then Inl StateTooLarge else export_entries es out')"

definition state_header :: "nat \<Rightarrow> bytes" where
  "state_header n = state_magic @ be16 state_format_version @ be32 (word_of_nat n)"

definition export_state :: "provider \<Rightarrow> state_error + bytes" where
  "export_state p =
     (if prov_poisoned p then Inl StorageLockPoisoned
      else if length (prov_values p) > max_state_entries then Inl TooManyEntries
      else
        let entries = sort_key fst (prov_values p) in
        export_entries entries (state_header (length entries)))"

definition validate_protocol_state :: "bytes \<Rightarrow> bool" where
  "validate_protocol_state b = (case import_state b of Inl _ \<Rightarrow> False | Inr _ \<Rightarrow> True)"

definition new_protocol_state :: "state_error + bytes" where
  "new_protocol_state = export_state \<lparr>prov_values = [], prov_poisoned = False\<rparr>"

section \<open>Reading what was written\<close>

definition enc_entries :: "(bytes \<times> bytes) list \<Rightarrow> bytes" where
  "enc_entries es = concat (map enc_entry es)"

definition fields_fit :: "(bytes \<times> bytes) list \<Rightarrow> bool" where
  "fields_fit es \<longleftrightarrow> (\<forall>e \<in> set es. length (fst e) < 2 ^ 32 \<and> length (snd e) < 2 ^ 32)"

lemma enc_entries_simps [simp]:
  "enc_entries [] = []" "enc_entries (e # es) = enc_entry e @ enc_entries es"
  by (simp_all add: enc_entries_def)

lemma fields_fit_simps [simp]:
  "fields_fit []"
  "fields_fit (e # es) \<longleftrightarrow> length (fst e) < 2 ^ 32 \<and> length (snd e) < 2 ^ 32 \<and> fields_fit es"
  by (auto simp: fields_fit_def)

lemma length_state_header [simp]: "length (state_header n) = state_header_bytes"
  by (simp add: state_header_def state_consts)

lemma get_range_append [simp]:
  "i = length pre \<Longrightarrow> j = length pre + length x \<Longrightarrow> get_range (pre @ x @ post) i j = Some x"
  by (simp add: get_range_def)

lemma unat_len32: "n < 2 ^ 32 \<Longrightarrow> unat (word_of_nat n :: 32 word) = n"
  by (simp add: unsigned_of_nat take_bit_nat_eq_self)

lemma read_state_length_append:
  assumes "n < 2 ^ 32"
  shows "read_state_length (pre @ be32 (word_of_nat n) @ post) (length pre) = Inr (n, length pre + 4)"
  using assms by (simp add: read_state_length_def) (simp add: be32_def unat_len32)

lemma read_state_field_append:
  assumes "length pre + length f \<le> max_state_bytes"
  shows "read_state_field (pre @ f @ post) (length pre) (length f) = Inr (f, length pre + length f)"
  using assms by (simp add: read_state_field_def)

lemma import_entries_enc:
  assumes "fields_fit es" and "distinct (map fst (acc @ es))"
    and "length pre + length (enc_entries es) \<le> max_state_bytes"
  shows "import_entries (length es) (pre @ enc_entries es @ post) (length pre) acc
    = Inr (acc @ es, length pre + length (enc_entries es))"
  using assms
proof (induction es arbitrary: pre acc)
  case Nil
  then show ?case by simp
next
  case (Cons e es)
  obtain k v where e: "e = (k, v)" by (cases e)
  let ?kl = "be32 (word_of_nat (length k))" and ?vl = "be32 (word_of_nat (length v))"
  let ?rest = "enc_entries es @ post"
  have b: "pre @ enc_entries (e # es) @ post = pre @ ?kl @ ?vl @ k @ v @ ?rest"
    by (simp add: e enc_entry_def)
  from Cons.prems have small: "length k < 2 ^ 32" "length v < 2 ^ 32" by (auto simp: e)
  from Cons.prems have max: "length pre + 8 + length k + length v \<le> max_state_bytes"
    by (simp add: e enc_entry_def)
  have r1: "read_state_length (pre @ ?kl @ ?vl @ k @ v @ ?rest) (length pre)
      = Inr (length k, length pre + 4)"
    by (rule read_state_length_append [OF small(1)])
  have r2: "read_state_length (pre @ ?kl @ ?vl @ k @ v @ ?rest) (length pre + 4)
      = Inr (length v, length pre + 8)"
    using read_state_length_append [OF small(2), of "pre @ ?kl" "k @ v @ ?rest"] by simp
  have r3: "read_state_field (pre @ ?kl @ ?vl @ k @ v @ ?rest) (length pre + 8) (length k)
      = Inr (k, length pre + (8 + length k))"
    using read_state_field_append [of "pre @ ?kl @ ?vl" k "v @ ?rest"] max by simp
  have r4: "read_state_field (pre @ ?kl @ ?vl @ k @ v @ ?rest) (length pre + (8 + length k)) (length v)
      = Inr (v, length pre + (8 + (length k + length v)))"
    using read_state_field_append [of "pre @ ?kl @ ?vl @ k" v ?rest] max by (simp add: add.assoc)
  have fresh: "k \<notin> fst ` set acc" using Cons.prems(2) by (auto simp: e)
  have ih: "import_entries (length es) ((pre @ enc_entry e) @ enc_entries es @ post)
      (length (pre @ enc_entry e)) (acc @ [e])
      = Inr ((acc @ [e]) @ es, length (pre @ enc_entry e) + length (enc_entries es))"
    by (rule Cons.IH) (use Cons.prems in \<open>auto\<close>)
  show ?case
    unfolding b using ih fresh
    by (simp add: r1 r2 r3 r4 e enc_entry_def add.assoc)
qed

section \<open>Writing what was read\<close>

lemma get_range_SomeD:
  assumes "get_range b i j = Some x"
  shows "drop i b = x @ drop j b" "length x = j - i" "i \<le> j" "j \<le> length b"
proof -
  from assms have ij: "i \<le> j" "j \<le> length b" and x: "x = take (j - i) (drop i b)"
    by (auto simp: get_range_def split: if_splits)
  show "drop i b = x @ drop j b"
    using ij by (metis append_take_drop_id drop_drop le_add_diff_inverse2 x)
  show "length x = j - i" "i \<le> j" "j \<le> length b" using ij x by auto
qed

lemma read_state_length_Inr:
  assumes "read_state_length b off = Inr (n, off')"
  shows "off' = off + 4" "n < 2 ^ 32" "drop off b = be32 (word_of_nat n) @ drop off' b"
    "off' \<le> length b"
proof -
  from assms obtain w where w: "get_range b off (off + 4) = Some w"
    and n: "n = unat (of_be32 (w ! 0) (w ! 1) (w ! 2) (w ! 3))" and off': "off' = off + 4"
    by (auto simp: read_state_length_def split: option.splits)
  note r = get_range_SomeD [OF w]
  have "length w = 4" using r(2) by simp
  then obtain p q s t where wl: "w = [p, q, s, t]"
    by (auto simp: numeral_eq_Suc length_Suc_conv)
  show "off' = off + 4" by (rule off')
  show "n < 2 ^ 32" using unsigned_less [of "of_be32 p q s t"] by (simp add: n wl)
  show "drop off b = be32 (word_of_nat n) @ drop off' b"
    using r(1) by (simp add: n wl off')
  show "off' \<le> length b" using r(4) off' by simp
qed

lemma read_state_field_Inr:
  assumes "read_state_field b off len = Inr (f, off')"
  shows "off' = off + len" "length f = len" "drop off b = f @ drop off' b" "off' \<le> length b"
proof -
  from assms have f: "get_range b off (off + len) = Some f" and o: "off' = off + len"
    by (auto simp: read_state_field_def split: if_splits option.splits)
  note r = get_range_SomeD [OF f]
  show "off' = off + len" by (rule o)
  show "length f = len" using r(2) by simp
  show "drop off b = f @ drop off' b" "off' \<le> length b" using r(1,4) o by simp_all
qed

text \<open>An accepted entry list is read off the bytes entry by entry, with distinct keys.\<close>

lemma import_entries_Inr:
  assumes "import_entries n b off acc = Inr (values, off')" and "distinct (map fst acc)"
    and "off \<le> length b"
  shows "\<exists>es. values = acc @ es \<and> length es = n \<and> fields_fit es \<and> distinct (map fst values)
    \<and> drop off b = enc_entries es @ drop off' b \<and> off' \<le> length b"
  using assms
proof (induction n arbitrary: off acc)
  case 0
  then show ?case by auto
next
  case (Suc n)
  from Suc.prems(1) obtain kl o1 vl o2 k o3 v o4 where
    r1: "read_state_length b off = Inr (kl, o1)" and
    r2: "read_state_length b o1 = Inr (vl, o2)" and
    r3: "read_state_field b o2 kl = Inr (k, o3)" and
    r4: "read_state_field b o3 vl = Inr (v, o4)" and
    fresh: "k \<notin> fst ` set acc" and
    rest: "import_entries n b o4 (acc @ [(k, v)]) = Inr (values, off')"
    by (auto split: sum.splits prod.splits if_splits)
  note d = read_state_length_Inr [OF r1] read_state_length_Inr [OF r2]
    read_state_field_Inr [OF r3] read_state_field_Inr [OF r4]
  have "distinct (map fst (acc @ [(k, v)]))" using Suc.prems(2) fresh by auto
  from Suc.IH [OF rest this] d obtain es where es: "values = (acc @ [(k, v)]) @ es" "length es = n"
    "fields_fit es" "distinct (map fst values)" "drop o4 b = enc_entries es @ drop off' b"
    "off' \<le> length b" by auto
  have "drop off b = enc_entries ((k, v) # es) @ drop off' b"
    using d es(5) by (simp add: enc_entry_def)
  then show ?case using es d by (intro exI [of _ "(k, v) # es"]) auto
qed

lemma export_entries_eq:
  "export_entries es out =
     (if fields_fit es \<and> (es = [] \<or> length out + length (enc_entries es) \<le> max_state_bytes)
      then Inr (out @ enc_entries es) else Inl StateTooLarge)"
  by (induction es arbitrary: out) (auto simp: Let_def add.assoc)

lemma import_state_Inr:
  assumes "import_state b = Inr p"
  shows "b = state_header (length (prov_values p)) @ enc_entries (prov_values p)
    \<and> distinct (map fst (prov_values p)) \<and> fields_fit (prov_values p)
    \<and> length (prov_values p) \<le> max_state_entries \<and> length b \<le> max_state_bytes
    \<and> \<not> prov_poisoned p"
proof -
  let ?n = "unat (of_be32 (b ! 6) (b ! 7) (b ! 8) (b ! 9))"
  from assms obtain vs off where
    c: "length b \<le> max_state_bytes" "10 \<le> length b" "take 4 b = state_magic"
      "of_be16 (b ! 4) (b ! 5) = state_format_version" "?n \<le> max_state_entries" and
    i: "import_entries ?n b 10 [] = Inr (vs, off)" "off = length b" and
    p: "p = \<lparr>prov_values = vs, prov_poisoned = False\<rparr>"
    by (auto simp: import_state_def Let_def state_header_bytes_def split: if_splits sum.splits)
  from import_entries_Inr [OF i(1)] c(2) i(2) have
    e: "length vs = ?n" "fields_fit vs" "distinct (map fst vs)" "drop 10 b = enc_entries vs"
    by auto
  obtain m0 m1 m2 m3 v0 v1 l0 l1 l2 l3 r
    where b: "b = m0 # m1 # m2 # m3 # v0 # v1 # l0 # l1 # l2 # l3 # r"
    using c(2) by (auto simp: numeral_eq_Suc Suc_le_length_iff)
  have "take 10 b = state_header ?n"
    using c(3,4) by (auto simp: b state_header_def state_magic_def intro: be16_eqI [symmetric])
  then have "b = state_header ?n @ enc_entries vs"
    using e(4) by (metis append_take_drop_id)
  then show ?thesis using c e by (simp add: p)
qed

text \<open>A provider whose state file exists: what \<open>export_state\<close> succeeds on.\<close>

definition exportable :: "provider \<Rightarrow> bool" where
  "exportable p \<longleftrightarrow> \<not> prov_poisoned p \<and> length (prov_values p) \<le> max_state_entries
     \<and> distinct (map fst (prov_values p)) \<and> fields_fit (prov_values p)
     \<and> state_header_bytes + length (enc_entries (prov_values p)) \<le> max_state_bytes"

lemma length_enc_entries: "length (enc_entries es) = (\<Sum>e\<leftarrow>es. 8 + length (fst e) + length (snd e))"
  by (induction es) (simp_all add: enc_entry_def)

lemma length_enc_entries_sort [simp]: "length (enc_entries (sort_key f es)) = length (enc_entries es)"
proof -
  let ?w = "\<lambda>e :: bytes \<times> bytes. 8 + length (fst e) + length (snd e)"
  have "sum_list (map ?w (sort_key f es)) = sum_mset (mset (map ?w (sort_key f es)))"
    by (rule sum_mset_sum_list [symmetric])
  also have "mset (map ?w (sort_key f es)) = mset (map ?w es)" by simp
  also have "sum_mset (mset (map ?w es)) = sum_list (map ?w es)"
    by (rule sum_mset_sum_list)
  finally show ?thesis by (simp only: length_enc_entries)
qed

lemma fields_fit_sort [simp]: "fields_fit (sort_key f es) = fields_fit es"
  by (simp add: fields_fit_def)

lemma distinct_map_sort [simp]: "distinct (map g (sort_key f es)) = distinct (map g es)"
  by (metis mset_map mset_sort mset_eq_imp_distinct_iff)

lemma export_state_exportable:
  "exportable p \<Longrightarrow> export_state p
     = Inr (state_header (length (prov_values p)) @ enc_entries (sort_key fst (prov_values p)))"
  by (auto simp: exportable_def export_state_def export_entries_eq Let_def)

lemma import_state_of_entries:
  assumes "fields_fit es" "distinct (map fst es)" "length es \<le> max_state_entries"
    "state_header_bytes + length (enc_entries es) \<le> max_state_bytes"
  shows "import_state (state_header (length es) @ enc_entries es)
    = Inr \<lparr>prov_values = es, prov_poisoned = False\<rparr>"
proof -
  have n: "unat (word_of_nat (length es) :: 32 word) = length es"
    using assms(3) by (intro unat_len32) (simp add: max_state_entries_def)
  have "import_entries (length es) (state_header (length es) @ enc_entries es) state_header_bytes []
      = Inr (es, state_header_bytes + length (enc_entries es))"
    using import_entries_enc [of es "[]" "state_header (length es)" "[]"] assms by simp
  moreover have "\<exists>r. state_header (length es) @ enc_entries es = r" by simp
  ultimately show ?thesis
    using assms n
    by (simp add: import_state_def Let_def state_header_def state_consts be16_def be32_def
        of_be16_def)
qed

section \<open>Properties\<close>

lemma map_of_sort: "distinct (map fst es) \<Longrightarrow> map_of (sort_key fst es) = map_of es"
proof -
  assume d: "distinct (map fst es)"
  have "set (sort_key fst es) = set es" by simp
  then show ?thesis using d by (intro map_of_inject_set [THEN iffD2]) simp_all
qed

text \<open>
  C23: What the client saves it can load again: the state file of a store with distinct keys whose
  entries fit is at most 64 MiB, and importing it gives a store with the same contents.
\<close>

theorem state_round_trip:
  assumes "exportable p"
  shows "\<exists>b q. export_state p = Inr b \<and> import_state b = Inr q \<and> int (length b) \<le> int max_state_bytes
    \<and> map_of (prov_values q) = map_of (prov_values p) \<and> length (prov_values q) = length (prov_values p)
    \<and> \<not> prov_poisoned q"
proof -
  let ?es = "sort_key fst (prov_values p)"
  have e: "fields_fit ?es" "distinct (map fst ?es)" "length ?es \<le> max_state_entries"
    "state_header_bytes + length (enc_entries ?es) \<le> max_state_bytes"
    using assms by (simp_all add: exportable_def)
  have "import_state (state_header (length (prov_values p)) @ enc_entries ?es)
      = Inr \<lparr>prov_values = ?es, prov_poisoned = False\<rparr>"
    using import_state_of_entries [OF e] by simp
  then show ?thesis
    using export_state_exportable [OF assms] assms e(4) map_of_sort [of "prov_values p"]
    by (auto simp: exportable_def)
qed

theorem state_round_trip_witness:
  "\<exists>b q. export_state \<lparr>prov_values = [([2], [7, 8]), ([1], [])], prov_poisoned = False\<rparr> = Inr b
    \<and> import_state b = Inr q \<and> map_of (prov_values q) = [[2] \<mapsto> [7, 8], [1] \<mapsto> []]"
proof -
  have "exportable \<lparr>prov_values = [([2], [7, 8]), ([1], [])], prov_poisoned = False\<rparr>"
    by (simp add: exportable_def max_state_entries_def max_state_bytes_def state_header_bytes_def
        enc_entry_def)
  from state_round_trip [OF this] show ?thesis by (auto simp: fun_upd_twist)
qed

text \<open>
  A state file does not depend on the order in which the hash map of the store lists its
  entries: two listings of the same entries export to the same result, byte for byte.
\<close>

lemma export_order_independent:
  assumes "mset (prov_values p) = mset (prov_values q)" "distinct (map fst (prov_values p))"
    and "prov_poisoned p = prov_poisoned q"
  shows "export_state p = export_state q"
proof -
  have "length (prov_values p) = length (prov_values q)" by (metis assms(1) size_mset)
  moreover have "sort_key fst (prov_values p) = sort_key fst (prov_values q)"
  proof (rule properties_for_sort_key [OF _ _ sorted_sort_key])
    show "mset (sort_key fst (prov_values q)) = mset (prov_values p)" using assms(1) by simp
    fix x assume "x \<in> set (sort_key fst (prov_values q))"
    then have x: "x \<in> set (prov_values p)" using assms(1) by (metis mset_eq_setD set_sort)
    then have "filter (\<lambda>y. fst x = fst y) (prov_values p) = [x]"
      using filter_unique [OF assms(2) x, of "\<lambda>y. fst x = fst y"] by auto
    moreover have "filter (\<lambda>y. fst x = fst y) (sort_key fst (prov_values q)) = [x]"
    proof (rule filter_unique [where k = fst])
      show "distinct (map fst (sort_key fst (prov_values q)))"
        using assms(1,2) by (metis distinct_map_sort mset_eq_imp_distinct_iff mset_map)
      show "x \<in> set (sort_key fst (prov_values q))"
        using x assms(1) by (metis mset_eq_setD set_sort)
    qed simp_all
    ultimately show "filter (\<lambda>y. fst x = fst y) (sort_key fst (prov_values q))
        = filter (\<lambda>y. fst x = fst y) (prov_values p)" by simp
  qed
  ultimately show ?thesis using assms(3) by (simp add: export_state_def Let_def)
qed

text \<open>
  What the client accepts as a state file is a store with distinct keys, at most 100000
  entries and no more bytes than the limit, and it can be exported again to a file of the same
  length with the same contents.
\<close>

lemma import_state_sound:
  assumes "import_state b = Inr p"
  shows "exportable p \<and> (\<exists>b' q. export_state p = Inr b' \<and> length b' = length b
    \<and> import_state b' = Inr q \<and> map_of (prov_values q) = map_of (prov_values p))"
proof -
  note i = import_state_Inr [OF assms]
  then have "length b = state_header_bytes + length (enc_entries (prov_values p))"
    by (metis length_append length_state_header)
  then have "state_header_bytes + length (enc_entries (prov_values p)) \<le> max_state_bytes"
    using i by (metis (no_types))
  then have ex: "exportable p" using i by (simp add: exportable_def)
  moreover have "length (state_header (length (prov_values p)) @ enc_entries (sort_key fst (prov_values p))) = length b"
    using \<open>length b = _\<close> by simp
  ultimately show ?thesis
    using state_round_trip [OF ex] export_state_exportable [OF ex] by auto
qed

end
