(* ===== verification/Schema.thy ===== *)
theory Schema
  imports AppErrors
begin

text \<open>
  The rows of the PostgreSQL tables the modelled stores read and write, with the fields of
  the Rust records of \<open>api/src/database\<close> (the \<open>FromRow\<close> structs) and of the schema under
  \<open>api/sql\<close>.  A status column whose \<open>CHECK\<close> lists its values is a datatype of those values.
  Columns that no modelled operation reads (avatars, read markers, notification settings, the
  JSON details of a log entry, times of the last update and surrogate keys that are never looked
  up) are left out.  Instants are unbounded: times past the year 262142 are out of the model.  \<open>SMALLINT\<close>, \<open>INTEGER\<close> and
  \<open>BIGINT\<close> are \<open>int\<close>: the only arithmetic on them adds one to a counter that starts at 0 or 1.
\<close>

section \<open>JSON values\<close>

text \<open>\<open>serde_json::Value\<close>; an object lists its members in key order.\<close>

datatype json =
    JNull
  | JBool bool
  | JNumber int
  | JString string
  | JArray "json list"
  | JObject "(string \<times> json) list"

section \<open>End-to-end encryption\<close>

record account_identity =
  idn_user :: uuid
  idn_root_key :: bytes
  idn_root_fp :: bytes
  idn_version :: int

datatype device_status = PendingApproval | DeviceActive | Revoked

record device =
  dev_id :: uuid
  dev_user :: uuid
  dev_label :: string
  dev_credential :: bytes
  dev_cred_fp :: bytes
  dev_approval_key :: "bytes option"
  dev_version :: int
  dev_status :: device_status
  dev_approved_by :: "uuid option"
  dev_approved_at :: "instant option"
  dev_revoked_at :: "instant option"
  dev_created :: instant
  dev_updated :: instant
  dev_platform :: "string option"
  dev_client_version :: "string option"
  dev_client_build :: "string option"

record key_package =
  kp_id :: uuid
  kp_device :: uuid
  kp_ref :: bytes
  kp_payload :: bytes
  kp_version :: int
  kp_expires :: instant
  kp_consumed_at :: "instant option"
  kp_consumed_by :: "uuid option"
  kp_created :: instant

datatype epoch_status = Preparing | EpochActive | RekeyRequired

record room_epoch =
  ep_room :: uuid
  ep_revision :: int
  ep_active :: int
  ep_status :: epoch_status
  ep_updated :: instant

record control_message =
  cm_id :: uuid
  cm_room :: uuid
  cm_epoch :: int
  cm_revision :: int
  cm_sender :: uuid
  cm_recipient :: "uuid option"
  cm_type :: string
  cm_envelope :: bytes
  cm_idem :: uuid
  cm_seq :: int
  cm_created :: instant

record control_receipt =
  rc_message :: uuid
  rc_recipient :: uuid
  rc_delivered :: "instant option"
  rc_consumed :: "instant option"

datatype gate_state = GatePlaintext | GatePrepare | GateActive

record runtime_gate =
  gate_state :: gate_state
  gate_revision :: int
  gate_computed :: "instant option"
  gate_min_versions :: json
  gate_coverage :: int
  gate_watermark :: int
  gate_review_ok :: bool
  gate_updated :: instant
  gate_updated_by :: "uuid option"

record general_setting =
  gs_key :: string
  gs_value :: string
  gs_updated :: instant
  gs_updated_by :: "uuid option"

text \<open>The older pre-key bundles.\<close>

record identity_key =
  ik_user :: uuid
  ik_device :: string
  ik_public :: bytes
  ik_updated :: instant

record signed_pre_key =
  sk_user :: uuid
  sk_device :: string
  sk_key_id :: int
  sk_public :: bytes
  sk_signature :: bytes
  sk_expires :: instant
  sk_created :: instant

record one_time_pre_key =
  ok_user :: uuid
  ok_device :: string
  ok_key_id :: int
  ok_public :: bytes
  ok_used :: bool
  ok_used_at :: "instant option"
  ok_created :: instant

section \<open>Rooms, groups, friends, messages\<close>

datatype room_type = PublicRoom | GroupRoom | PrivateRoom | FavoriteRoom

datatype member_role = OwnerRole | AdminRole | MemberRole

record room =
  rm_id :: uuid
  rm_name :: string
  rm_type :: room_type
  rm_owner :: uuid
  rm_created :: instant
  rm_deleted :: "instant option"

record room_member =
  mb_room :: uuid
  mb_user :: uuid
  mb_role :: member_role
  mb_joined :: instant
  mb_deleted :: "instant option"

record group_settings =
  gset_room :: uuid
  gset_join_approval :: bool
  gset_member_can_invite :: bool
  gset_member_can_add_friends :: bool
  gset_require_admin_to_add_friends :: bool
  gset_max_members :: int
  gset_mute_enabled :: bool
  gset_mute_until :: "instant option"
  gset_mute_reason :: "string option"
  gset_mute_by :: "uuid option"

record group_admin =
  ga_room :: uuid
  ga_admin :: uuid
  ga_by :: uuid
  ga_role :: string
  ga_permissions :: "string list option"
  ga_appointed :: instant

record group_mute =
  gm_room :: uuid
  gm_user :: uuid
  gm_by :: uuid
  gm_reason :: "string option"
  gm_hours :: int
  gm_muted_at :: instant
  gm_unmuted_at :: "instant option"
  gm_active :: bool

datatype join_status = JoinPending | JoinApproved | JoinRejected

record join_request =
  jr_id :: uuid
  jr_room :: uuid
  jr_applicant :: uuid
  jr_message :: "string option"
  jr_status :: join_status
  jr_reviewer :: "uuid option"
  jr_review_message :: "string option"
  jr_created :: instant
  jr_reviewed :: "instant option"

datatype invitation_status = InvPending | InvAccepted | InvDeclined | InvExpired

record group_invitation =
  gi_id :: uuid
  gi_room :: uuid
  gi_inviter :: uuid
  gi_invitee :: uuid
  gi_message :: "string option"
  gi_status :: invitation_status
  gi_invited :: instant
  gi_responded :: "instant option"
  gi_expires :: instant

record operation_log =
  ol_room :: uuid
  ol_operator :: uuid
  ol_target :: "uuid option"
  ol_type :: string
  ol_created :: instant

record group_rule =
  gr_id :: uuid
  gr_room :: uuid
  gr_title :: string
  gr_content :: string
  gr_creator :: uuid
  gr_order :: int
  gr_active :: bool
  gr_created :: instant

datatype request_status = ReqPending | ReqAccepted | ReqDeclined

record friend_request =
  fr_id :: uuid
  fr_requester :: uuid
  fr_addressee :: uuid
  fr_status :: request_status
  fr_message :: "string option"
  fr_created :: instant
  fr_responded :: "instant option"

record friendship =
  fs_a :: uuid
  fs_b :: uuid
  fs_created :: instant

record friend_remark =
  fk_user :: uuid
  fk_friend :: uuid
  fk_remark :: string

record user_block =
  ub_blocker :: uuid
  ub_blocked :: uuid

datatype message_type = TextMsg | ImageMsg | FileMsg | SystemMsg | VideoMsg | AudioMsg | MixedMsg

record message =
  msg_id :: uuid
  msg_room :: uuid
  msg_sender :: uuid
  msg_content :: string
  msg_type :: message_type
  msg_encrypted :: "bytes option"
  msg_metadata :: "json option"
  msg_quoted :: "uuid option"
  msg_fwd_message :: "uuid option"
  msg_fwd_room :: "uuid option"
  msg_fwd_sender :: "uuid option"
  msg_idem :: "uuid option"
  msg_created :: instant
  msg_deleted :: "instant option"

section \<open>The database\<close>

record db =
  users :: "uuid list" \<comment> \<open>the ids that foreign keys to \<open>users\<close> may name\<close>
  identities :: "account_identity list"
  devices :: "device list"
  key_packages :: "key_package list"
  room_epochs :: "room_epoch list"
  control_messages :: "control_message list"
  control_receipts :: "control_receipt list"
  control_seq :: int \<comment> \<open>the identity sequence of \<open>e2ee_control_messages.sequence_no\<close>\<close>
  gate :: runtime_gate
  general_settings :: "general_setting list"
  identity_keys :: "identity_key list"
  signed_pre_keys :: "signed_pre_key list"
  one_time_pre_keys :: "one_time_pre_key list"
  rooms :: "room list"
  room_members :: "room_member list"
  room_preferences :: "(uuid \<times> uuid) list" \<comment> \<open>the keys (user, room)\<close>
  group_settings_rows :: "group_settings list"
  group_admins :: "group_admin list"
  group_mutes :: "group_mute list"
  join_requests :: "join_request list"
  group_invitations :: "group_invitation list"
  operation_logs :: "operation_log list"
  friend_requests :: "friend_request list"
  friendships :: "friendship list"
  friend_remarks :: "friend_remark list"
  user_blocks :: "user_block list"
  messages :: "message list"
  group_rules :: "group_rule list"

definition initial_gate :: runtime_gate where
  "initial_gate =
     \<lparr>gate_state = GatePlaintext, gate_revision = 0, gate_computed = None,
      gate_min_versions = JObject
        [(''android'', JString ''0.1.0''), (''desktop'', JString ''0.1.0''),
         (''h5'', JString ''0.1.0''), (''ios'', JString ''0.1.0'')],
      gate_coverage = 100, gate_watermark = 10, gate_review_ok = False,
      gate_updated = 0, gate_updated_by = None\<rparr>"

definition empty_db :: db where
  "empty_db =
     \<lparr>users = [], identities = [], devices = [], key_packages = [], room_epochs = [],
      control_messages = [], control_receipts = [], control_seq = 1,
      gate = initial_gate, general_settings = [],
      identity_keys = [], signed_pre_keys = [], one_time_pre_keys = [],
      rooms = [], room_members = [], room_preferences = [], group_settings_rows = [],
      group_admins = [], group_mutes = [], join_requests = [], group_invitations = [],
      operation_logs = [], friend_requests = [], friendships = [], friend_remarks = [],
      user_blocks = [], messages = [], group_rules = []\<rparr>"

end
