(* ===== verification/Membership.thy ===== *)
theory Membership
  imports Schema
begin

text \<open>
  Rooms and their members: the operations of \<open>api/src/database/room_store.rs\<close> on \<open>rooms\<close>
  and \<open>room_members\<close>, and the trigger of
  \<open>api/sql/migrations/20260804173000_e2ee_revision_deleted_room_guard.sql\<close> by which a change of
  a room's active members advances its end-to-end encryption revision.  The locale
  \<open>bump_closed\<close> is the interface that the encryption tables offer to these operations: what
  the trigger keeps of the encryption state, every operation here keeps.
\<close>

section \<open>The trigger\<close>

definition bump_epoch :: "instant \<Rightarrow> room_epoch \<Rightarrow> room_epoch" where
  "bump_epoch now e = e\<lparr>ep_revision := ep_revision e + 1,
     ep_status := (case ep_status e of EpochActive \<Rightarrow> RekeyRequired | s \<Rightarrow> s), ep_updated := now\<rparr>"

definition bump_membership_revision :: "instant \<Rightarrow> uuid \<Rightarrow> db \<Rightarrow> db" where
  "bump_membership_revision now room d =
     (if exists_row (\<lambda>r. rm_id r = room) (rooms d) then
        if exists_row (\<lambda>e. ep_room e = room) (room_epochs d)
        then d\<lparr>room_epochs := update_where (\<lambda>e. ep_room e = room) (bump_epoch now) (room_epochs d)\<rparr>
        else d\<lparr>room_epochs := room_epochs d @
          [\<lparr>ep_room = room, ep_revision = 1, ep_active = 0, ep_status = Preparing, ep_updated = now\<rparr>]\<rparr>
      else d)"

text \<open>\<open>OLD\<close> and \<open>NEW\<close> of the row trigger; an insert has no old row, a delete no new one.\<close>

definition active_membership_changed :: "room_member option \<Rightarrow> room_member option \<Rightarrow> bool" where
  "active_membership_changed old new =
     (case (old, new) of
        (None, Some n) \<Rightarrow> mb_deleted n = None
      | (Some p, None) \<Rightarrow> mb_deleted p = None
      | (Some p, Some n) \<Rightarrow> (mb_deleted p = None) \<noteq> (mb_deleted n = None)
      | (None, None) \<Rightarrow> False)"

definition fire_trigger :: "instant \<Rightarrow> room_member option \<Rightarrow> room_member option \<Rightarrow> db \<Rightarrow> db" where
  "fire_trigger now old new d =
     (if active_membership_changed old new then
        (case (old, new) of
           (_, Some n) \<Rightarrow> bump_membership_revision now (mb_room n) d
         | (Some p, None) \<Rightarrow> bump_membership_revision now (mb_room p) d
         | (None, None) \<Rightarrow> d)
      else d)"

text \<open>An \<open>UPDATE\<close> of \<open>deleted_at\<close> fires the trigger once for every row it touches.\<close>

definition update_members ::
  "instant \<Rightarrow> (room_member \<Rightarrow> bool) \<Rightarrow> (room_member \<Rightarrow> room_member) \<Rightarrow> db \<Rightarrow> db" where
  "update_members now P f d =
     fold (\<lambda>m. fire_trigger now (Some m) (Some (f m))) (filter P (room_members d))
       (d\<lparr>room_members := update_where P f (room_members d)\<rparr>)"

section \<open>The store operations\<close>

definition is_member :: "uuid \<Rightarrow> uuid \<Rightarrow> room_member \<Rightarrow> bool" where
  "is_member room user m \<longleftrightarrow> mb_room m = room \<and> mb_user m = user \<and> mb_deleted m = None"

definition is_user_in_room :: "uuid \<Rightarrow> uuid \<Rightarrow> db \<Rightarrow> bool" where
  "is_user_in_room room user d = exists_row (is_member room user) (room_members d)"

definition share_room_with :: "uuid \<Rightarrow> uuid \<Rightarrow> db \<Rightarrow> bool" where
  "share_room_with user other d =
     exists_row (\<lambda>mine. mb_user mine = user \<and> mb_deleted mine = None \<and>
       exists_row (\<lambda>theirs. mb_room theirs = mb_room mine \<and> mb_user theirs = other
         \<and> mb_deleted theirs = None) (room_members d)) (room_members d)"

definition list_members :: "uuid \<Rightarrow> db \<Rightarrow> room_member list" where
  "list_members room d =
     sort_key mb_joined (filter (\<lambda>m. mb_room m = room \<and> mb_deleted m = None) (room_members d))"

definition list_member_ids :: "uuid \<Rightarrow> db \<Rightarrow> uuid list" where
  "list_member_ids room d = map mb_user (list_members room d)"

definition get_member :: "uuid \<Rightarrow> uuid \<Rightarrow> db \<Rightarrow> room_member option" where
  "get_member room user d = fetch_optional (is_member room user) (room_members d)"

definition get_room :: "uuid \<Rightarrow> db \<Rightarrow> sqlx_error + room" where
  "get_room room d =
     (case fetch_optional (\<lambda>r. rm_id r = room \<and> rm_deleted r = None) (rooms d) of
        None \<Rightarrow> Inl RowNotFound
      | Some r \<Rightarrow> Inr r)"

definition upsert_member_conn ::
  "instant \<Rightarrow> uuid \<Rightarrow> uuid \<Rightarrow> member_role \<Rightarrow> db \<Rightarrow> sqlx_error + (room_member \<times> db)" where
  "upsert_member_conn now room user role d =
     (let same = (\<lambda>m. mb_room m = room \<and> mb_user m = user);
          renew = (\<lambda>m. m\<lparr>mb_role := role, mb_joined := now, mb_deleted := None\<rparr>)
      in case fetch_optional same (room_members d) of
        Some m \<Rightarrow> Inr (renew m, update_members now same renew d)
      | None \<Rightarrow>
          if \<not> exists_row (\<lambda>r. rm_id r = room) (rooms d) \<or> user \<notin> set (users d)
          then Inl ForeignKeyViolation
          else
            let m = \<lparr>mb_room = room, mb_user = user, mb_role = role, mb_joined = now,
                     mb_deleted = None\<rparr>
            in Inr (m, fire_trigger now None (Some m)
                 (d\<lparr>room_members := room_members d @ [m]\<rparr>)))"

definition add_member ::
  "instant \<Rightarrow> uuid \<Rightarrow> uuid \<Rightarrow> member_role option \<Rightarrow> db \<Rightarrow> sqlx_error + (room_member \<times> db)" where
  "add_member now room user role d =
     upsert_member_conn now room user (case role of None \<Rightarrow> MemberRole | Some r \<Rightarrow> r) d"

definition remove_member :: "instant \<Rightarrow> uuid \<Rightarrow> uuid \<Rightarrow> db \<Rightarrow> bool \<times> db" where
  "remove_member now room user d =
     (if is_user_in_room room user d then
        let d1 = update_members now (is_member room user) (\<lambda>m. m\<lparr>mb_deleted := Some now\<rparr>) d in
        (True, d1
          \<lparr>group_admins := delete_where (\<lambda>a. ga_room a = room \<and> ga_admin a = user) (group_admins d1),
           group_mutes := update_where (\<lambda>m. gm_room m = room \<and> gm_user m = user \<and> gm_active m)
             (\<lambda>m. m\<lparr>gm_active := False,
                    gm_unmuted_at := (case gm_unmuted_at m of None \<Rightarrow> Some now | Some t \<Rightarrow> Some t)\<rparr>)
             (group_mutes d1),
           room_preferences := delete_where (\<lambda>p. p = (user, room)) (room_preferences d1)\<rparr>)
      else (False, d))"

fun upsert_members ::
  "instant \<Rightarrow> uuid \<Rightarrow> uuid \<Rightarrow> uuid list \<Rightarrow> db \<Rightarrow> sqlx_error + db" where
  "upsert_members now room owner [] d = Inr d"
| "upsert_members now room owner (u # us) d =
     (if u = owner then upsert_members now room owner us d
      else case upsert_member_conn now room u MemberRole d of
        Inl e \<Rightarrow> Inl e
      | Inr (_, d') \<Rightarrow> upsert_members now room owner us d')"

definition create_room_with_members ::
  "instant \<Rightarrow> uuid \<Rightarrow> uuid \<Rightarrow> string \<Rightarrow> room_type option \<Rightarrow> uuid list \<Rightarrow> db
     \<Rightarrow> sqlx_error + (room \<times> db)" where
  "create_room_with_members now new_id owner name rtype member_ids d =
     (let r = \<lparr>rm_id = new_id, rm_name = name,
               rm_type = (case rtype of None \<Rightarrow> GroupRoom | Some t \<Rightarrow> t),
               rm_owner = owner, rm_created = now, rm_deleted = None\<rparr>
      in if char_count name > 100 then Inl ValueTooLong
         else if exists_row (\<lambda>r. rm_id r = new_id) (rooms d) then Inl UniqueViolation
         else if owner \<notin> set (users d) then Inl ForeignKeyViolation
         else case upsert_member_conn now new_id owner OwnerRole (d\<lparr>rooms := rooms d @ [r]\<rparr>) of
           Inl e \<Rightarrow> Inl e
         | Inr (_, d1) \<Rightarrow>
             (case upsert_members now new_id owner member_ids d1 of
                Inl e \<Rightarrow> Inl e
              | Inr d2 \<Rightarrow> Inr (r, d2)))"

definition dissolve_room_rows :: "instant \<Rightarrow> uuid \<Rightarrow> uuid \<Rightarrow> db \<Rightarrow> bool \<times> db" where
  "dissolve_room_rows now room operator d =
     (case fetch_optional (\<lambda>r. rm_id r = room \<and> rm_deleted r = None) (rooms d) of
        None \<Rightarrow> (False, d)
      | Some r \<Rightarrow>
          if rm_owner r \<noteq> operator then (False, d)
          else
            let d1 = d\<lparr>rooms := update_where (\<lambda>r. rm_id r = room \<and> rm_deleted r = None)
                                (\<lambda>r. r\<lparr>rm_deleted := Some now\<rparr>) (rooms d)\<rparr>;
                d2 = update_members now (\<lambda>m. mb_room m = room \<and> mb_deleted m = None)
                       (\<lambda>m. m\<lparr>mb_deleted := Some now\<rparr>) d1
            in (True, d2\<lparr>room_preferences := delete_where (\<lambda>p. snd p = room) (room_preferences d2)\<rparr>))"

text \<open>\<open>UPDATE\<close>s of the role alone are not updates of \<open>deleted_at\<close>: no trigger fires.\<close>

definition set_role :: "uuid \<Rightarrow> uuid \<Rightarrow> member_role \<Rightarrow> db \<Rightarrow> db" where
  "set_role room user role d =
     d\<lparr>room_members := update_where (is_member room user) (\<lambda>m. m\<lparr>mb_role := role\<rparr>) (room_members d)\<rparr>"

definition transfer_room_owner_rows ::
  "uuid \<Rightarrow> uuid \<Rightarrow> uuid \<Rightarrow> db \<Rightarrow> sqlx_error + (room \<times> db)" where
  "transfer_room_owner_rows room operator new_owner d =
     (case fetch_optional (\<lambda>r. rm_id r = room \<and> rm_deleted r = None) (rooms d) of
        None \<Rightarrow> Inl RowNotFound
      | Some r \<Rightarrow>
          if rm_owner r \<noteq> operator then Inl (ProtocolError ''only the owner can transfer'')
          else if \<not> exists_row (is_member room new_owner) (room_members d) then Inl RowNotFound
          else
            let d1 = set_role room operator MemberRole d;
                d2 = set_role room new_owner OwnerRole d1
            in Inr (r\<lparr>rm_owner := new_owner\<rparr>,
                 d2\<lparr>rooms := update_where (\<lambda>r. rm_id r = room \<and> rm_deleted r = None)
                      (\<lambda>r. r\<lparr>rm_owner := new_owner\<rparr>) (rooms d2)\<rparr>))"

definition find_private_room :: "uuid \<Rightarrow> uuid \<Rightarrow> db \<Rightarrow> room option" where
  "find_private_room a b d =
     (let (first, second) = (if a \<le> b then (a, b) else (b, a));
          has = (\<lambda>r u. exists_row (\<lambda>m. mb_room m = rm_id r \<and> mb_user m = u) (room_members d));
          found = filter (\<lambda>r. rm_type r = PrivateRoom \<and> rm_deleted r = None \<and> has r first \<and> has r second)
                    (rooms d)
      in case sort_key (\<lambda>r. - rm_created r) found of [] \<Rightarrow> None | r # _ \<Rightarrow> Some r)"

section \<open>What the trigger touches\<close>

definition epoch_row :: "uuid \<Rightarrow> db \<Rightarrow> room_epoch option" where
  "epoch_row room d = fetch_optional (\<lambda>e. ep_room e = room) (room_epochs d)"

definition room_exists :: "uuid \<Rightarrow> db \<Rightarrow> bool" where
  "room_exists room d = exists_row (\<lambda>r. rm_id r = room) (rooms d)"

text \<open>The trigger writes \<open>room_epochs\<close> and nothing else.\<close>

lemma fire_trigger_frame: "\<exists>x. fire_trigger now p n d = d\<lparr>room_epochs := x\<rparr>"
proof -
  have "\<exists>x. bump_membership_revision now r d = d\<lparr>room_epochs := x\<rparr>" for r
    unfolding bump_membership_revision_def
    by (metis (no_types, lifting) db.surjective db.update_convs(5))
  moreover have "\<exists>x. d = d\<lparr>room_epochs := x\<rparr>" by (metis db.surjective db.update_convs(5))
  ultimately show ?thesis
    by (auto simp: fire_trigger_def split: option.splits)
qed

lemma fire_trigger_fields [simp]:
  "users (fire_trigger now p n d) = users d"
  "identities (fire_trigger now p n d) = identities d"
  "devices (fire_trigger now p n d) = devices d"
  "key_packages (fire_trigger now p n d) = key_packages d"
  "control_messages (fire_trigger now p n d) = control_messages d"
  "control_receipts (fire_trigger now p n d) = control_receipts d"
  "control_seq (fire_trigger now p n d) = control_seq d"
  "rooms (fire_trigger now p n d) = rooms d"
  "room_members (fire_trigger now p n d) = room_members d"
  "group_settings_rows (fire_trigger now p n d) = group_settings_rows d"
  "group_admins (fire_trigger now p n d) = group_admins d"
  "group_mutes (fire_trigger now p n d) = group_mutes d"
  "join_requests (fire_trigger now p n d) = join_requests d"
  "group_invitations (fire_trigger now p n d) = group_invitations d"
  "messages (fire_trigger now p n d) = messages d"
  using fire_trigger_frame [of now p n d] by auto

lemma update_members_frame:
  "\<exists>x. update_members now P f d
     = d\<lparr>room_members := update_where P f (room_members d), room_epochs := x\<rparr>"
proof -
  have "\<exists>x. fold (\<lambda>m. fire_trigger now (Some m) (Some (f m))) ms d'
      = d'\<lparr>room_epochs := x\<rparr>" for ms d'
  proof (induction ms arbitrary: d')
    case Nil
    then show ?case by (metis db.surjective db.update_convs(5) fold_simps(1))
  next
    case (Cons m ms)
    obtain y where y: "fire_trigger now (Some m) (Some (f m)) d' = d'\<lparr>room_epochs := y\<rparr>"
      using fire_trigger_frame by blast
    obtain x where "fold (\<lambda>m. fire_trigger now (Some m) (Some (f m))) ms (d'\<lparr>room_epochs := y\<rparr>)
        = d'\<lparr>room_epochs := y\<rparr>\<lparr>room_epochs := x\<rparr>"
      using Cons.IH by blast
    with y show ?case by auto
  qed
  then show ?thesis by (auto simp: update_members_def)
qed

lemma update_members_fields [simp]:
  "users (update_members now P f d) = users d"
  "identities (update_members now P f d) = identities d"
  "devices (update_members now P f d) = devices d"
  "key_packages (update_members now P f d) = key_packages d"
  "control_messages (update_members now P f d) = control_messages d"
  "control_receipts (update_members now P f d) = control_receipts d"
  "control_seq (update_members now P f d) = control_seq d"
  "rooms (update_members now P f d) = rooms d"
  "room_members (update_members now P f d) = update_where P f (room_members d)"
  "group_settings_rows (update_members now P f d) = group_settings_rows d"
  "group_admins (update_members now P f d) = group_admins d"
  "group_mutes (update_members now P f d) = group_mutes d"
  "join_requests (update_members now P f d) = join_requests d"
  "group_invitations (update_members now P f d) = group_invitations d"
  "messages (update_members now P f d) = messages d"
  using update_members_frame [of now P f d] by auto

definition fresh_epoch :: "instant \<Rightarrow> uuid \<Rightarrow> room_epoch" where
  "fresh_epoch now room =
     \<lparr>ep_room = room, ep_revision = 1, ep_active = 0, ep_status = Preparing, ep_updated = now\<rparr>"

lemma ep_room_bump_epoch [simp]: "ep_room (bump_epoch now e) = ep_room e"
  by (simp add: bump_epoch_def)

lemma bump_first: "epoch_row room d = None \<Longrightarrow> room_exists room d \<Longrightarrow>
  bump_membership_revision now room d = d\<lparr>room_epochs := room_epochs d @ [fresh_epoch now room]\<rparr>"
  by (simp add: bump_membership_revision_def epoch_row_def room_exists_def fetch_None fresh_epoch_def)
lemma bump_again: "epoch_row room d = Some e \<Longrightarrow> room_exists room d \<Longrightarrow>
  bump_membership_revision now room d = d\<lparr>room_epochs := update_where (\<lambda>e. ep_room e = room) (bump_epoch now) (room_epochs d)\<rparr>"
  unfolding bump_membership_revision_def room_exists_def epoch_row_def
  using fetch_SomeD [of "\<lambda>e. ep_room e = room" "room_epochs d" e] by auto
lemma bump_no_room: "\<not> room_exists room d \<Longrightarrow> bump_membership_revision now room d = d"
  by (simp add: bump_membership_revision_def room_exists_def)
lemma epoch_row_bump:
  "epoch_row r (bump_membership_revision now room d) =
     (if r = room \<and> room_exists room d then
        Some (case epoch_row room d of None \<Rightarrow> fresh_epoch now room | Some e \<Rightarrow> bump_epoch now e)
      else epoch_row r d)"
proof (cases "room_exists room d")
  case ex: True
  show ?thesis
  proof (cases "epoch_row room d")
    case None
    then show ?thesis using ex
      by (auto simp: bump_first epoch_row_def fetch_append fresh_epoch_def split: option.splits)
  next
    case (Some e)
    then show ?thesis using ex
      by (auto simp: bump_again epoch_row_def fetch_key_update)
  qed
qed (simp add: bump_no_room)
section \<open>Membership and the revision\<close>

text \<open>One row per room and user, deleted or not.\<close>

definition unique_members :: "db \<Rightarrow> bool" where
  "unique_members d \<longleftrightarrow> unique_on (\<lambda>m. (mb_room m, mb_user m)) (room_members d)"

definition active_members :: "uuid \<Rightarrow> db \<Rightarrow> uuid set" where
  "active_members room d = {u. is_user_in_room room u d}"

lemma unique_members_update:
  "(\<And>m. mb_room (f m) = mb_room m \<and> mb_user (f m) = mb_user m) \<Longrightarrow>
   unique_members (update_members now P f d) = unique_members d"
  by (simp add: unique_members_def column_update_where)

text \<open>An update of the one row of a room and a user fires the trigger once.\<close>

lemma update_members_single:
  assumes "unique_members d" and "m \<in> set (room_members d)" and "P m"
    and "\<And>x. P x \<Longrightarrow> mb_room x = mb_room m \<and> mb_user x = mb_user m"
  shows "update_members now P f d = fire_trigger now (Some m) (Some (f m))
    (d\<lparr>room_members := update_where P f (room_members d)\<rparr>)"
proof -
  have "filter P (room_members d) = [m]"
  proof (rule filter_unique [where k = "\<lambda>m. (mb_room m, mb_user m)"])
    show "(mb_room x, mb_user x) = (mb_room m, mb_user m)" if "P x" for x
      using assms(4) [OF that] by simp
  qed (use assms(1-3) in \<open>simp_all add: unique_members_def\<close>)
  then show ?thesis by (simp add: update_members_def)
qed

lemma epoch_row_members [simp]: "epoch_row r (d\<lparr>room_members := x\<rparr>) = epoch_row r d"
  by (simp add: epoch_row_def)

lemma room_exists_members [simp]: "room_exists r (d\<lparr>room_members := x\<rparr>) = room_exists r d"
  by (simp add: room_exists_def)

lemma is_member_simps:
  "is_member room user m \<Longrightarrow> mb_room m = room \<and> mb_user m = user \<and> mb_deleted m = None"
  by (simp add: is_member_def)

definition advanced :: "instant \<Rightarrow> uuid \<Rightarrow> db \<Rightarrow> room_epoch" where
  "advanced now room d =
     (case epoch_row room d of None \<Rightarrow> fresh_epoch now room | Some e \<Rightarrow> bump_epoch now e)"

text \<open>The rows are unique and name rooms that exist (the foreign key of \<open>room_members\<close>).\<close>

definition members_wf :: "db \<Rightarrow> bool" where
  "members_wf d \<longleftrightarrow> unique_members d \<and> (\<forall>m \<in> set (room_members d). room_exists (mb_room m) d)"

lemma epoch_row_fire:
  "epoch_row r (fire_trigger now p (Some n) d) =
     (if active_membership_changed p (Some n) \<and> r = mb_room n \<and> room_exists r d
      then Some (advanced now r d) else epoch_row r d)"
  by (cases p) (auto simp: fire_trigger_def epoch_row_bump advanced_def)

lemma room_exists_trigger [simp]:
  "room_exists r (fire_trigger now p n d) = room_exists r d"
  "room_exists r (update_members now P f d) = room_exists r d"
  by (simp_all add: room_exists_def)

lemma advanced_members [simp]: "advanced now r (d\<lparr>room_members := x\<rparr>) = advanced now r d"
  by (simp add: advanced_def)

lemma members_wf_update:
  assumes "\<And>m. mb_room (f m) = mb_room m \<and> mb_user (f m) = mb_user m"
  shows "members_wf (update_members now P f d) = members_wf d"
proof -
  have "map mb_room (update_where P f (room_members d)) = map mb_room (room_members d)"
    using assms by (simp add: column_update_where)
  then have "mb_room ` set (update_where P f (room_members d)) = mb_room ` set (room_members d)"
    by (metis set_map)
  then have "(\<forall>m \<in> set (update_where P f (room_members d)). room_exists (mb_room m) d)
      = (\<forall>m \<in> set (room_members d). room_exists (mb_room m) d)"
    by (metis (no_types, lifting) image_iff)
  then show ?thesis
    using assms by (simp add: members_wf_def unique_members_update)
qed

lemma user_in_room_iff:
  "is_user_in_room room user d \<longleftrightarrow> (\<exists>m \<in> set (room_members d). is_member room user m)"
  by (simp add: is_user_in_room_def)

text \<open>The one row of a room and a user tells whether the user is in the room.\<close>

lemma user_in_room_row:
  assumes "unique_members d" "m \<in> set (room_members d)" "mb_room m = room" "mb_user m = user"
  shows "is_user_in_room room user d \<longleftrightarrow> mb_deleted m = None"
proof
  assume "is_user_in_room room user d"
  then obtain x where x: "x \<in> set (room_members d)" "is_member room user x"
    by (auto simp: user_in_room_iff)
  have "x = m"
    by (rule fetch_key_eq [OF assms(1) [unfolded unique_members_def] x(1) assms(2)])
      (use assms(3,4) x(2) in \<open>simp add: is_member_def\<close>)
  with x show "mb_deleted m = None" by (simp add: is_member_def)
next
  assume "mb_deleted m = None"
  with assms show "is_user_in_room room user d" by (auto simp: user_in_room_iff is_member_def)
qed

text \<open>What joining does: the members gain one user, and the revision follows exactly that.\<close>

lemma upsert_member_effect:
  assumes wf: "members_wf d" and ok: "upsert_member_conn now room user role d = Inr (m, d')"
  shows upsert_member_wf: "members_wf d'"
    and upsert_member_row: "mb_room m = room \<and> mb_user m = user \<and> mb_role m = role \<and> mb_deleted m = None"
    and upsert_member_in: "is_user_in_room r u d' \<longleftrightarrow> is_user_in_room r u d \<or> (r = room \<and> u = user)"
    and upsert_member_epoch: "epoch_row r d' =
      (if r = room \<and> \<not> is_user_in_room room user d then Some (advanced now room d)
       else epoch_row r d)"
    and upsert_member_room: "room_exists room d"
proof -
  let ?same = "\<lambda>m. mb_room m = room \<and> mb_user m = user"
  let ?renew = "\<lambda>m. m\<lparr>mb_role := role, mb_joined := now, mb_deleted := None\<rparr>"
  have uniq: "unique_members d" using wf by (simp add: members_wf_def)
  have "members_wf d' \<and> (mb_room m = room \<and> mb_user m = user \<and> mb_role m = role \<and> mb_deleted m = None)
    \<and> (is_user_in_room r u d' \<longleftrightarrow> is_user_in_room r u d \<or> (r = room \<and> u = user))
    \<and> (epoch_row r d' = (if r = room \<and> \<not> is_user_in_room room user d then Some (advanced now room d)
         else epoch_row r d)) \<and> room_exists room d"
  proof (cases "fetch_optional ?same (room_members d)")
    case None
    then have none: "\<not> exists_row ?same (room_members d)" by (rule fetch_None [THEN iffD1])
    from None ok have ex: "room_exists room d"
      and m: "m = \<lparr>mb_room = room, mb_user = user, mb_role = role, mb_joined = now, mb_deleted = None\<rparr>"
      and d': "d' = fire_trigger now None (Some m) (d\<lparr>room_members := room_members d @ [m]\<rparr>)"
      by (auto simp: upsert_member_conn_def Let_def room_exists_def split: if_splits)
    have "\<not> is_user_in_room room user d" using none by (auto simp: user_in_room_iff is_member_def)
    moreover have "members_wf d'"
      using wf none ex by (auto simp: members_wf_def unique_members_def d' m)
    moreover have "is_user_in_room r u d' \<longleftrightarrow> is_user_in_room r u d \<or> (r = room \<and> u = user)"
      by (auto simp: user_in_room_iff d' m is_member_def)
    moreover have "epoch_row r d' = (if r = room then Some (advanced now room d) else epoch_row r d)"
      using ex by (simp add: d' epoch_row_fire m active_membership_changed_def)
    ultimately show ?thesis using ex by (simp add: m)
  next
    case (Some p)
    then have p: "p \<in> set (room_members d)" "mb_room p = room" "mb_user p = user"
      by (auto dest: fetch_SomeD)
    have ex: "room_exists room d" using wf p by (auto simp: members_wf_def)
    from Some ok have m: "m = ?renew p" and d': "d' = update_members now ?same ?renew d"
      by (auto simp: upsert_member_conn_def Let_def)
    have single: "d' = fire_trigger now (Some p) (Some (?renew p))
        (d\<lparr>room_members := update_where ?same ?renew (room_members d)\<rparr>)"
      unfolding d' by (rule update_members_single [OF uniq p(1)]) (use p in auto)
    have inr: "is_user_in_room room user d \<longleftrightarrow> mb_deleted p = None"
      by (rule user_in_room_row [OF uniq p])
    have "members_wf d'" unfolding d' using wf by (subst members_wf_update) auto
    moreover have "is_user_in_room r u d' \<longleftrightarrow> is_user_in_room r u d \<or> (r = room \<and> u = user)"
    proof -
      have "is_user_in_room r u d'
          \<longleftrightarrow> exists_row (\<lambda>x. is_member r u (if ?same x then ?renew x else x)) (room_members d)"
        by (simp only: user_in_room_iff d' update_members_fields exists_update_where)
      also have "\<dots> \<longleftrightarrow> is_user_in_room r u d \<or> (r = room \<and> u = user)"
        (is "?L \<longleftrightarrow> ?R")
      proof
        assume ?L then show ?R by (auto simp: user_in_room_iff is_member_def split: if_splits)
      next
        assume ?R
        then show ?L
        proof (cases "r = room \<and> u = user")
          case True
          then show ?thesis using p by (intro bexI [of _ p]) (auto simp: is_member_def)
        next
          case False
          with \<open>?R\<close> obtain x where "x \<in> set (room_members d)" "is_member r u x"
            by (auto simp: user_in_room_iff)
          with False show ?thesis by (intro bexI [of _ x]) (auto simp: is_member_def)
        qed
      qed
      finally show ?thesis .
    qed
    moreover have "epoch_row r d' =
        (if r = room \<and> mb_deleted p \<noteq> None then Some (advanced now room d) else epoch_row r d)"
      using ex p unfolding single epoch_row_fire by (auto simp: active_membership_changed_def)
    ultimately show ?thesis using ex inr p by (simp add: m)
  qed
  then show "members_wf d'"
    "mb_room m = room \<and> mb_user m = user \<and> mb_role m = role \<and> mb_deleted m = None"
    "is_user_in_room r u d' \<longleftrightarrow> is_user_in_room r u d \<or> (r = room \<and> u = user)"
    "epoch_row r d' = (if r = room \<and> \<not> is_user_in_room room user d then Some (advanced now room d)
       else epoch_row r d)"
    "room_exists room d"
    by blast+
qed

text \<open>What leaving does.\<close>

lemma remove_member_effect:
  assumes wf: "members_wf d" and ok: "remove_member now room user d = (b, d')"
  shows remove_member_wf: "members_wf d'"
    and remove_member_result: "b = is_user_in_room room user d"
    and remove_member_in: "is_user_in_room r u d' \<longleftrightarrow> is_user_in_room r u d \<and> \<not> (r = room \<and> u = user)"
    and remove_member_epoch: "epoch_row r d' =
      (if r = room \<and> is_user_in_room room user d then Some (advanced now room d) else epoch_row r d)"
proof -
  let ?P = "is_member room user" and ?f = "\<lambda>m. m\<lparr>mb_deleted := Some now\<rparr>"
  let ?d1 = "update_members now ?P ?f d"
  have uniq: "unique_members d" using wf by (simp add: members_wf_def)
  have *: "members_wf d' \<and> b = is_user_in_room room user d
    \<and> (is_user_in_room r u d' \<longleftrightarrow> is_user_in_room r u d \<and> \<not> (r = room \<and> u = user))
    \<and> epoch_row r d' =
      (if r = room \<and> is_user_in_room room user d then Some (advanced now room d) else epoch_row r d)"
  proof (cases "is_user_in_room room user d")
    case False
    with ok wf show ?thesis by (auto simp: remove_member_def)
  next
    case True
    then obtain p where p: "p \<in> set (room_members d)" "is_member room user p"
      by (auto simp: user_in_room_iff)
    have ex: "room_exists room d" using wf p by (auto simp: members_wf_def is_member_def)
    from True ok have b: "b" and same: "room_members d' = room_members ?d1"
      "room_epochs d' = room_epochs ?d1" "rooms d' = rooms ?d1"
      by (auto simp: remove_member_def Let_def)
    have single: "?d1 = fire_trigger now (Some p) (Some (?f p))
        (d\<lparr>room_members := update_where ?P ?f (room_members d)\<rparr>)"
      by (rule update_members_single [where P = ?P, OF uniq p]) (use p(2) in \<open>auto simp: is_member_def\<close>)
    have "members_wf ?d1" using wf by (subst members_wf_update) auto
    then have "members_wf d'"
      using same by (simp add: members_wf_def unique_members_def room_exists_def)
    moreover have "epoch_row r ?d1 = (if r = room then Some (advanced now room d) else epoch_row r d)"
      using ex p(2) unfolding single epoch_row_fire
      by (auto simp: active_membership_changed_def is_member_def)
    moreover have "epoch_row r d' = epoch_row r ?d1" by (simp add: epoch_row_def same)
    moreover have "is_user_in_room r u d'
        \<longleftrightarrow> exists_row (\<lambda>x. is_member r u (if ?P x then ?f x else x)) (room_members d)"
      by (simp only: user_in_room_iff same update_members_fields exists_update_where)
    moreover have "\<dots> \<longleftrightarrow> is_user_in_room r u d \<and> \<not> (r = room \<and> u = user)"
      by (auto simp: user_in_room_iff is_member_def split: if_splits)
    ultimately show ?thesis using b True by simp
  qed
  show "members_wf d'" "b = is_user_in_room room user d"
    "is_user_in_room r u d' \<longleftrightarrow> is_user_in_room r u d \<and> \<not> (r = room \<and> u = user)"
    "epoch_row r d' =
      (if r = room \<and> is_user_in_room room user d then Some (advanced now room d) else epoch_row r d)"
    using * by blast+
qed

section \<open>What the encryption tables see of membership\<close>

definition e2ee_view where
  "e2ee_view d = (identities d, devices d, key_packages d, room_epochs d, control_messages d,
     control_receipts d, control_seq d)"

text \<open>
  An invariant of the encryption tables that the trigger keeps.  Every operation on rooms and
  members keeps it too, because those tables see nothing of the operation but the trigger.
\<close>

locale bump_closed =
  fixes I :: "db \<Rightarrow> bool"
  assumes frame: "e2ee_view d = e2ee_view d' \<Longrightarrow> I d \<Longrightarrow> I d'"
    and bump: "I d \<Longrightarrow> I (bump_membership_revision now room d)"
begin

lemma fire: "I d \<Longrightarrow> I (fire_trigger now p n d)"
  by (auto simp: fire_trigger_def bump split: option.splits)

lemma update: "I d \<Longrightarrow> I (update_members now P f d)"
proof -
  have fold: "I d' \<Longrightarrow> I (fold (\<lambda>m. fire_trigger now (Some m) (Some (f m))) ms d')" for ms d'
    by (induction ms arbitrary: d') (simp_all add: fire)
  assume "I d"
  then have "I (d\<lparr>room_members := update_where P f (room_members d)\<rparr>)"
    by (rule frame [rotated]) (simp add: e2ee_view_def)
  then show ?thesis by (simp add: update_members_def fold)
qed

lemma upsert:
  assumes "I d" and "upsert_member_conn now room user role d = Inr (m, d')"
  shows "I d'"
proof (cases "fetch_optional (\<lambda>m. mb_room m = room \<and> mb_user m = user) (room_members d)")
  case None
  let ?m = "\<lparr>mb_room = room, mb_user = user, mb_role = role, mb_joined = now, mb_deleted = None\<rparr>"
  have "I (d\<lparr>room_members := room_members d @ [?m]\<rparr>)"
    by (rule frame [OF _ assms(1)]) (simp add: e2ee_view_def)
  with None assms(2) show ?thesis
    by (auto simp: upsert_member_conn_def Let_def fire split: if_splits)
next
  case (Some p)
  with assms show ?thesis by (auto simp: upsert_member_conn_def Let_def update)
qed

lemma remove:
  assumes "I d" and "remove_member now room user d = (b, d')"
  shows "I d'"
proof (cases "is_user_in_room room user d")
  case True
  let ?d1 = "update_members now (is_member room user) (\<lambda>m. m\<lparr>mb_deleted := Some now\<rparr>) d"
  have "e2ee_view ?d1 = e2ee_view d'"
    using True assms(2) by (auto simp: remove_member_def Let_def e2ee_view_def)
  then show ?thesis using frame update [OF assms(1)] by blast
qed (use assms in \<open>auto simp: remove_member_def\<close>)

lemma upserts: "I d \<Longrightarrow> upsert_members now room owner us d = Inr d' \<Longrightarrow> I d'"
  by (induction now room owner us d rule: upsert_members.induct)
    (auto split: if_splits sum.splits prod.splits dest: upsert)

lemma create:
  assumes "I d" and "create_room_with_members now new_id owner name rtype ids d = Inr (r, d')"
  shows "I d'"
proof -
  have "I (d\<lparr>rooms := x\<rparr>)" for x
    by (rule frame [OF _ assms(1)]) (simp add: e2ee_view_def)
  moreover obtain x m d1 where "upsert_member_conn now new_id owner OwnerRole (d\<lparr>rooms := x\<rparr>) = Inr (m, d1)"
    and "upsert_members now new_id owner ids d1 = Inr d'"
    using assms(2) by (auto simp: create_room_with_members_def Let_def
        split: if_splits sum.splits prod.splits)
  ultimately show ?thesis using upsert upserts by blast
qed

lemma dissolve:
  assumes "I d" and "dissolve_room_rows now room operator d = (b, d')"
  shows "I d'"
proof -
  have rooms: "I (d\<lparr>rooms := x\<rparr>)" for x
    by (rule frame [OF _ assms(1)]) (simp add: e2ee_view_def)
  have prefs: "I x \<Longrightarrow> I (x\<lparr>room_preferences := y\<rparr>)" for x y
    by (rule frame [rotated], assumption) (simp add: e2ee_view_def)
  show ?thesis using assms
    by (auto simp: dissolve_room_rows_def Let_def split: option.splits if_splits
        intro!: prefs update rooms)
qed

lemma transfer:
  assumes "I d" and "transfer_room_owner_rows room operator new_owner d = Inr (r, d')"
  shows "I d'"
proof -
  have "e2ee_view d = e2ee_view d'"
    using assms(2) by (auto simp: transfer_room_owner_rows_def set_role_def Let_def e2ee_view_def
        split: option.splits if_splits)
  from frame [OF this assms(1)] show ?thesis .
qed

end

section \<open>Creating, dissolving and handing over a room\<close>

text \<open>The revision of a room, 0 before its first member.\<close>

definition revision :: "uuid \<Rightarrow> db \<Rightarrow> int" where
  "revision room d = (case epoch_row room d of None \<Rightarrow> 0 | Some e \<Rightarrow> ep_revision e)"

lemma revision_advanced [simp]: "ep_revision (advanced now room d) = revision room d + 1"
  by (simp add: revision_def advanced_def fresh_epoch_def bump_epoch_def split: option.split)

lemma advanced_status: "ep_status (advanced now room d) \<noteq> EpochActive"
  by (simp add: advanced_def fresh_epoch_def bump_epoch_def split: option.split epoch_status.split)

lemma upsert_revision:
  assumes "members_wf d" "upsert_member_conn now room user role d = Inr (m, d')"
  shows "revision r d' = revision r d + (if r = room \<and> \<not> is_user_in_room room user d then 1 else 0)"
  using upsert_member_epoch [OF assms, of r] by (simp add: revision_def [of r d']) (simp add: revision_def)

lemma remove_revision:
  assumes "members_wf d" "remove_member now room user d = (b, d')"
  shows "revision r d' = revision r d + (if r = room \<and> is_user_in_room room user d then 1 else 0)"
  using remove_member_epoch [OF assms, of r] by (simp add: revision_def [of r d']) (simp add: revision_def)

lemma active_members_upsert:
  assumes "members_wf d" "upsert_member_conn now room user role d = Inr (m, d')"
  shows "active_members r d' = active_members r d \<union> (if r = room then {user} else {})"
  using upsert_member_in [OF assms] by (auto simp: active_members_def)

lemma upsert_members_effect:
  assumes "upsert_members now room owner us d = Inr d'" "members_wf d"
  shows "members_wf d' \<and> active_members r d' = active_members r d \<union> (if r = room then set us - {owner} else {})
    \<and> rooms d' = rooms d \<and> users d' = users d
    \<and> revision r d' - int (card (active_members r d')) = revision r d - int (card (active_members r d))"
  using assms
proof (induction now room owner us d rule: upsert_members.induct)
  case (2 now room owner u us d)
  show ?case
  proof (cases "u = owner")
    case True
    have ups: "upsert_members now room owner us d = Inr d'" using 2(3) True by simp
    have eq: "set (owner # us) - {owner} = set us - {owner}" by auto
    show ?thesis unfolding True eq by (rule 2(1) [OF True ups 2(4)])
  next
    case False
    then obtain m d1 where up: "upsert_member_conn now room u MemberRole d = Inr (m, d1)"
      and rest: "upsert_members now room owner us d1 = Inr d'"
      using 2(3) by (auto split: sum.splits)
    have wf1: "members_wf d1" by (rule upsert_member_wf [OF 2(4) up])
    have ih: "members_wf d' \<and> active_members r d' = active_members r d1 \<union> (if r = room then set us - {owner} else {})
      \<and> rooms d' = rooms d1 \<and> users d' = users d1
      \<and> revision r d' - int (card (active_members r d')) = revision r d1 - int (card (active_members r d1))"
      by (rule 2(2) [OF False up refl rest wf1])
    have fields: "rooms d1 = rooms d" "users d1 = users d"
      using up by (auto simp: upsert_member_conn_def Let_def split: option.splits if_splits)
    have in1: "active_members r d1 = active_members r d \<union> (if r = room then {u} else {})"
      by (rule active_members_upsert [OF 2(4) up])
    have "revision r d1 - int (card (active_members r d1)) = revision r d - int (card (active_members r d))"
      using upsert_revision [OF 2(4) up, of r] in1
      by (auto simp: active_members_def insert_absorb)
    with ih have "revision r d' - int (card (active_members r d')) = revision r d - int (card (active_members r d))"
      by (metis (no_types))
    moreover have "active_members r d' = active_members r d \<union> (if r = room then set (u # us) - {owner} else {})"
      using ih in1 False by auto
    ultimately show ?thesis using ih fields by (metis (no_types))
  qed
qed simp

lemma members_wf_new_room:
  "members_wf d \<Longrightarrow> members_wf (d\<lparr>rooms := rooms d @ [r]\<rparr>)"
  by (auto simp: members_wf_def unique_members_def room_exists_def)

lemma no_members_of_new_room:
  "members_wf d \<Longrightarrow> \<not> exists_row (\<lambda>r. rm_id r = new) (rooms d) \<Longrightarrow> active_members new d = {}"
  by (auto simp: members_wf_def room_exists_def active_members_def is_user_in_room_def is_member_def)

lemma create_room_effect:
  assumes wf: "members_wf d"
    and ok: "create_room_with_members now new owner name ty ids d = Inr (r, d')"
  shows "members_wf d'" and "active_members new d' = insert owner (set ids)"
    and "r' \<noteq> new \<Longrightarrow> active_members r' d' = active_members r' d"
    and "rm_owner r = owner" and "r \<in> set (rooms d')"
    and "epoch_row new d = None \<Longrightarrow> revision new d' = int (card (insert owner (set ids)))"
proof -
  let ?d0 = "d\<lparr>rooms := rooms d @ [r]\<rparr>"
  from ok obtain m d1 where r: "rm_id r = new" "rm_owner r = owner"
    and fresh: "\<not> exists_row (\<lambda>r. rm_id r = new) (rooms d)"
    and up: "upsert_member_conn now new owner OwnerRole ?d0 = Inr (m, d1)"
    and ups: "upsert_members now new owner ids d1 = Inr d'"
    by (auto simp: create_room_with_members_def Let_def split: if_splits sum.splits)
  have wf0: "members_wf ?d0" by (rule members_wf_new_room [OF wf])
  have same0: "active_members x ?d0 = active_members x d" for x
    by (simp add: active_members_def is_user_in_room_def)
  have empty0: "active_members new ?d0 = {}"
    unfolding same0 by (rule no_members_of_new_room [OF wf fresh])
  note e1 = upsert_member_wf [OF wf0 up] active_members_upsert [OF wf0 up] upsert_revision [OF wf0 up]
  note e2 = upsert_members_effect [OF ups e1(1)]
  have fields: "rooms d1 = rooms d @ [r]"
    using up by (auto simp: upsert_member_conn_def Let_def split: option.splits if_splits)
  show "members_wf d'" using e2 by blast
  show mem: "active_members new d' = insert owner (set ids)" using e2 [of new] e1(2) [of new] empty0 by auto
  show "r' \<noteq> new \<Longrightarrow> active_members r' d' = active_members r' d"
    using e2 [of r'] e1(2) [of r'] same0 by simp
  show "rm_owner r = owner" by (rule r(2))
  show "r \<in> set (rooms d')" using e2 fields by simp
  assume "epoch_row new d = None"
  then have "revision new ?d0 = 0" by (simp add: revision_def epoch_row_def)
  then have "revision new d1 = 1"
    using e1(3) [of new] empty0 by (auto simp: active_members_def)
  moreover have "active_members new d1 = {owner}" using e1(2) [of new] empty0 by simp
  ultimately show "revision new d' = int (card (insert owner (set ids)))"
    using e2 [of new] unfolding mem by simp
qed

lemma members_wf_rooms:
  "map rm_id (rooms d') = map rm_id (rooms d) \<Longrightarrow> room_members d' = room_members d \<Longrightarrow>
   members_wf d' = members_wf d"
proof -
  assume ids: "map rm_id (rooms d') = map rm_id (rooms d)" and m: "room_members d' = room_members d"
  from ids have "rm_id ` set (rooms d') = rm_id ` set (rooms d)" by (metis set_map)
  then have "room_exists r d' = room_exists r d" for r
    unfolding room_exists_def by (metis (no_types, lifting) image_iff)
  then show ?thesis by (simp add: members_wf_def unique_members_def m)
qed

lemma dissolve_room_effect:
  assumes wf: "members_wf d" and ok: "dissolve_room_rows now room operator d = (b, d')"
  shows "members_wf d'"
    and "b \<longleftrightarrow> (\<exists>r. fetch_optional (\<lambda>r. rm_id r = room \<and> rm_deleted r = None) (rooms d) = Some r
      \<and> rm_owner r = operator)"
    and "b \<Longrightarrow> active_members room d' = {}"
    and "r \<noteq> room \<Longrightarrow> active_members r d' = active_members r d"
    and "\<not> b \<Longrightarrow> d' = d"
proof -
  let ?live = "\<lambda>r. rm_id r = room \<and> rm_deleted r = None"
  let ?P = "\<lambda>m. mb_room m = room \<and> mb_deleted m = None" and ?f = "\<lambda>m. m\<lparr>mb_deleted := Some now\<rparr>"
  let ?owned = "\<exists>r. fetch_optional ?live (rooms d) = Some r \<and> rm_owner r = operator"
  let ?d1 = "d\<lparr>rooms := update_where ?live (\<lambda>r. r\<lparr>rm_deleted := Some now\<rparr>) (rooms d)\<rparr>"
  let ?d2 = "update_members now ?P ?f ?d1"
  have b: "b \<longleftrightarrow> ?owned" and no: "\<not> b \<Longrightarrow> d' = d"
    using ok by (auto simp: dissolve_room_rows_def Let_def split: option.splits if_splits)
  have yes: "b \<Longrightarrow> d' = ?d2\<lparr>room_preferences := delete_where (\<lambda>p. snd p = room) (room_preferences ?d2)\<rparr>"
    using ok by (auto simp: dissolve_room_rows_def Let_def split: option.splits if_splits)
  have wf1: "members_wf ?d1" using wf by (subst members_wf_rooms [of _ d]) (simp_all add: column_update_where)
  have wf2: "members_wf ?d2" using wf1 by (subst members_wf_update) auto
  have members1: "room_members ?d1 = room_members d" by simp
  have act: "is_user_in_room r u ?d2 \<longleftrightarrow> r \<noteq> room \<and> is_user_in_room r u d" for r u
  proof -
    have "is_user_in_room r u ?d2
        \<longleftrightarrow> exists_row (\<lambda>x. is_member r u (if ?P x then ?f x else x)) (room_members d)"
      by (simp only: user_in_room_iff update_members_fields exists_update_where members1)
    also have "\<dots> \<longleftrightarrow> r \<noteq> room \<and> is_user_in_room r u d"
      by (auto simp: user_in_room_iff is_member_def split: if_splits)
    finally show ?thesis .
  qed
  show "members_wf d'"
  proof (cases b)
    case True
    then show ?thesis using wf2 by (subst members_wf_rooms [of _ ?d2]) (simp_all add: yes)
  qed (use no wf in simp)
  show "b \<longleftrightarrow> ?owned" by (rule b)
  show "\<not> b \<Longrightarrow> d' = d" by (rule no)
  have same: "b \<Longrightarrow> is_user_in_room r u d' = is_user_in_room r u ?d2" for r u
    by (simp add: yes is_user_in_room_def)
  show "b \<Longrightarrow> active_members room d' = {}" by (simp add: active_members_def same act)
  show "r \<noteq> room \<Longrightarrow> active_members r d' = active_members r d"
    by (cases b) (simp_all add: active_members_def same act no)
qed

lemma room_members_set_role:
  "room_members (set_role room user role d) =
     update_where (is_member room user) (\<lambda>m. m\<lparr>mb_role := role\<rparr>) (room_members d)"
  by (simp add: set_role_def)

lemma in_room_set_role [simp]: "is_user_in_room r u (set_role room user role d) = is_user_in_room r u d"
proof -
  have "is_user_in_room r u (set_role room user role d) \<longleftrightarrow>
      exists_row (\<lambda>x. is_member r u (if is_member room user x then x\<lparr>mb_role := role\<rparr> else x)) (room_members d)"
    by (simp only: user_in_room_iff room_members_set_role exists_update_where)
  also have "\<dots> \<longleftrightarrow> is_user_in_room r u d"
    by (auto simp: user_in_room_iff is_member_def split: if_splits)
  finally show ?thesis .
qed

lemma members_wf_set_role [simp]: "members_wf (set_role room user role d) = members_wf d"
proof -
  have "map mb_room (room_members (set_role room user role d)) = map mb_room (room_members d)"
    by (simp add: set_role_def column_update_where)
  then have "mb_room ` set (room_members (set_role room user role d)) = mb_room ` set (room_members d)"
    by (metis set_map)
  then have "(\<forall>m \<in> set (room_members (set_role room user role d)). room_exists (mb_room m) d)
      = (\<forall>m \<in> set (room_members d). room_exists (mb_room m) d)"
    by (metis (no_types, lifting) image_iff)
  moreover have "room_exists r (set_role room user role d) = room_exists r d" for r
    by (simp add: room_exists_def set_role_def)
  moreover have "unique_members (set_role room user role d) = unique_members d"
    by (simp add: unique_members_def set_role_def column_update_where)
  ultimately show ?thesis by (simp add: members_wf_def)
qed

lemma get_member_set_role:
  "get_member r u (set_role room user role d) =
     map_option (\<lambda>m. if is_member room user m then m\<lparr>mb_role := role\<rparr> else m) (get_member r u d)"
  unfolding get_member_def room_members_set_role
  by (rule fetch_update_where) (simp add: is_member_def)

lemma is_user_in_room_get: "is_user_in_room r u d \<longleftrightarrow> get_member r u d \<noteq> None"
  by (auto simp: is_user_in_room_def get_member_def find_None_iff)

text \<open>Handing over a room: the roles are swapped and nothing else about the members changes.\<close>

lemma transfer_effect:
  assumes wf: "members_wf d" and ok: "transfer_room_owner_rows room operator new d = Inr (r, d')"
  shows "members_wf d'" and "rm_owner r = new"
    and "fetch_optional (\<lambda>r. rm_id r = room \<and> rm_deleted r = None) (rooms d') = Some r"
    and "\<exists>m. get_member room new d' = Some m \<and> mb_role m = OwnerRole"
    and "operator \<noteq> new \<Longrightarrow> get_member room operator d' = Some m \<Longrightarrow> mb_role m = MemberRole"
    and "is_user_in_room x u d' = is_user_in_room x u d"
    and "u \<noteq> operator \<or> x \<noteq> room \<Longrightarrow> u \<noteq> new \<or> x \<noteq> room \<Longrightarrow> get_member x u d' = get_member x u d"
    and "epoch_row x d' = epoch_row x d"
proof -
  let ?live = "\<lambda>r. rm_id r = room \<and> rm_deleted r = None"
  let ?d2 = "set_role room new OwnerRole (set_role room operator MemberRole d)"
  from ok obtain r0 where r0: "fetch_optional ?live (rooms d) = Some r0" and r: "r = r0\<lparr>rm_owner := new\<rparr>"
    and mem: "exists_row (is_member room new) (room_members d)"
    and d': "d' = ?d2\<lparr>rooms := update_where ?live (\<lambda>r. r\<lparr>rm_owner := new\<rparr>) (rooms ?d2)\<rparr>"
    by (auto simp: transfer_room_owner_rows_def Let_def split: option.splits if_splits)
  have gm: "get_member x u d' = get_member x u ?d2" for x u by (simp add: d' get_member_def)
  have rooms2: "rooms ?d2 = rooms d" by (simp add: set_role_def)
  show "members_wf d'"
    using wf by (subst members_wf_rooms [of _ ?d2]) (simp_all add: d' column_update_where)
  show "rm_owner r = new" by (simp add: r)
  show "fetch_optional ?live (rooms d') = Some r"
    using r0 fetch_SomeD [OF r0] by (simp add: d' rooms2 r fetch_update_where)
  from mem obtain m0 where m0: "get_member room new d = Some m0"
    using is_user_in_room_get [of room new d] by (auto simp: is_user_in_room_def)
  then have "is_member room new m0" by (auto simp: get_member_def dest: fetch_SomeD)
  then show "\<exists>m. get_member room new d' = Some m \<and> mb_role m = OwnerRole"
    using m0 by (auto simp: gm get_member_set_role is_member_def)
  show "mb_role m = MemberRole" if "operator \<noteq> new" "get_member room operator d' = Some m"
  proof -
    from that obtain m1 where "get_member room operator d = Some m1"
      by (auto simp: gm get_member_set_role)
    moreover then have "is_member room operator m1" by (auto simp: get_member_def dest: fetch_SomeD)
    ultimately show ?thesis using that by (auto simp: gm get_member_set_role is_member_def)
  qed
  show "is_user_in_room x u d' = is_user_in_room x u d"
    by (simp add: is_user_in_room_get gm get_member_set_role)
  show "get_member x u d' = get_member x u d"
    if "u \<noteq> operator \<or> x \<noteq> room" "u \<noteq> new \<or> x \<noteq> room"
  proof (cases "get_member x u d")
    case (Some m)
    then have "is_member x u m" by (auto simp: get_member_def dest: fetch_SomeD)
    then show ?thesis using that Some by (auto simp: gm get_member_set_role is_member_def)
  qed (simp add: gm get_member_set_role)
  show "epoch_row x d' = epoch_row x d" by (simp add: epoch_row_def d' set_role_def)
qed

section \<open>Properties\<close>

text \<open>A sequence of joins and leaves; a join that fails changes nothing.\<close>

datatype change = Join uuid uuid "member_role option" | Leave uuid uuid

fun apply_change :: "change \<Rightarrow> instant \<Rightarrow> db \<Rightarrow> db" where
  "apply_change (Join r u role) t d = (case add_member t r u role d of Inl _ \<Rightarrow> d | Inr (_, d') \<Rightarrow> d')"
| "apply_change (Leave r u) t d = snd (remove_member t r u d)"

fun apply_changes :: "(instant \<times> change) list \<Rightarrow> db \<Rightarrow> db" where
  "apply_changes [] d = d"
| "apply_changes ((t, c) # cs) d = apply_changes cs (apply_change c t d)"

text \<open>How often the set of active members of a room changes along the sequence.\<close>

fun count_changes :: "uuid \<Rightarrow> (instant \<times> change) list \<Rightarrow> db \<Rightarrow> nat" where
  "count_changes r [] d = 0"
| "count_changes r ((t, c) # cs) d =
     (let d' = apply_change c t d in
      (if set (list_member_ids r d') = set (list_member_ids r d) then 0 else 1) + count_changes r cs d')"

lemma set_list_member_ids: "set (list_member_ids r d) = active_members r d"
  by (auto simp: list_member_ids_def list_members_def active_members_def is_user_in_room_def is_member_def)

lemma apply_change_effect:
  assumes "members_wf d"
  shows "members_wf (apply_change c t d) \<and> revision r (apply_change c t d) = revision r d
    + (if active_members r (apply_change c t d) = active_members r d then 0 else 1)"
proof (cases c)
  case (Join room u role)
  show ?thesis
  proof (cases "add_member t room u role d")
    case (Inr p)
    then obtain m d' where p: "upsert_member_conn t room u (case role of None \<Rightarrow> MemberRole | Some r \<Rightarrow> r) d = Inr (m, d')"
      "apply_change c t d = d'"
      using Join by (cases p) (simp add: add_member_def)
    have "active_members r d' = active_members r d \<longleftrightarrow> \<not> (r = room \<and> \<not> is_user_in_room room u d)"
      using active_members_upsert [OF assms p(1), of r] by (auto simp: active_members_def)
    then show ?thesis
      using upsert_revision [OF assms p(1), of r] upsert_member_wf [OF assms p(1)] p(2) by simp
  qed (simp add: Join assms)
next
  case (Leave room u)
  obtain b d' where p: "remove_member t room u d = (b, d')" by fastforce
  have "active_members r d' = active_members r d \<longleftrightarrow> \<not> (r = room \<and> is_user_in_room room u d)"
    using remove_member_in [OF assms p] by (auto simp: active_members_def)
  then show ?thesis
    using remove_revision [OF assms p, of r] remove_member_wf [OF assms p] Leave p by simp
qed

lemma apply_changes_revision:
  "members_wf d \<Longrightarrow> revision r (apply_changes cs d) = revision r d + int (count_changes r cs d)"
proof (induction cs arbitrary: d)
  case (Cons p cs)
  obtain t c where "p = (t, c)" by (cases p)
  with Cons.IH [of "apply_change c t d"] apply_change_effect [OF Cons.prems, of c t r]
  show ?case by (simp add: Let_def set_list_member_ids)
qed simp

text \<open>Three users, one room of the first of them.\<close>

definition two_rooms :: db where
  "two_rooms = (case create_room_with_members 1 10 1 ''r'' None [2] (empty_db\<lparr>users := [1, 2, 3]\<rparr>) of
     Inl _ \<Rightarrow> empty_db | Inr (_, d) \<Rightarrow> d)"

lemma members_wf_start: "members_wf (empty_db\<lparr>users := us\<rparr>)"
  by (simp add: members_wf_def unique_members_def empty_db_def)

lemma two_rooms_created:
  "\<exists>r. create_room_with_members 1 10 1 ''r'' None [2] (empty_db\<lparr>users := [1, 2, 3]\<rparr>) = Inr (r, two_rooms)"
  by (cases "create_room_with_members 1 10 1 ''r'' None [2] (empty_db\<lparr>users := [1, 2, 3]\<rparr>)")
    (auto simp: two_rooms_def, code_simp)

lemma two_rooms_wf: "members_wf two_rooms"
  using two_rooms_created create_room_effect(1) [OF members_wf_start] by blast

text \<open>
  Along every sequence of joins and leaves, successful or not, repeated or not, the revision
  of a room grows by exactly the number of times that its set of active members changed.
\<close>

lemma revision_counts_changes:
  assumes "members_wf d"
  shows "revision r (apply_changes cs d) = revision r d + int (count_changes r cs d)"
  by (rule apply_changes_revision [OF assms])

text \<open>
  Creating a room makes its creator the owner and a member, makes exactly the named users
  members beside, touches no other room, and gives the new room the revision that the number of
  its members asks for.
\<close>

lemma create_room_members:
  assumes "members_wf d" "epoch_row new d = None"
    and "create_room_with_members now new owner name ty ids d = Inr (r, d')"
  shows "active_members new d' = insert owner (set ids) \<and> rm_owner r = owner \<and> r \<in> set (rooms d')
    \<and> revision new d' = int (card (insert owner (set ids)))
    \<and> (\<forall>x. x \<noteq> new \<longrightarrow> active_members x d' = active_members x d)"
  using create_room_effect(2-6) [OF assms(1,3)] assms(2) by blast

text \<open>
  Handing over a room makes the new owner's membership the owner's one and the old owner an
  ordinary member, and changes nothing else: neither who is a member, nor any other role, nor
  the room's encryption state.
\<close>

lemma transfer_swaps_roles:
  assumes "members_wf d" "transfer_room_owner_rows room operator new d = Inr (r, d')"
  shows "rm_owner r = new \<and> get_room room d' = Inr r
    \<and> (\<exists>m. get_member room new d' = Some m \<and> mb_role m = OwnerRole)
    \<and> (operator \<noteq> new \<longrightarrow> (\<forall>m. get_member room operator d' = Some m \<longrightarrow> mb_role m = MemberRole))
    \<and> (\<forall>x u. is_user_in_room x u d' = is_user_in_room x u d)
    \<and> (\<forall>x u. x \<noteq> room \<or> u \<noteq> operator \<and> u \<noteq> new \<longrightarrow> get_member x u d' = get_member x u d)
    \<and> (\<forall>x. epoch_row x d' = epoch_row x d)"
proof -
  note e = transfer_effect [OF assms]
  have "get_room room d' = Inr r" using e(3) by (simp add: get_room_def)
  then show ?thesis using e(2,4-8) by blast
qed

text \<open>
  Only the owner of a live room dissolves it; then nobody is an active member of it any more
  and every other room keeps its members.  Otherwise nothing changes.
\<close>

lemma dissolve_empties_room:
  assumes "members_wf d" "dissolve_room_rows now room operator d = (b, d')"
  shows "(b \<longleftrightarrow> (\<exists>r. get_room room d = Inr r \<and> rm_owner r = operator))
    \<and> (b \<longrightarrow> active_members room d' = {}) \<and> (\<not> b \<longrightarrow> d' = d)
    \<and> (\<forall>x. x \<noteq> room \<longrightarrow> active_members x d' = active_members x d)"
proof -
  note e = dissolve_room_effect [OF assms]
  have "(\<exists>r. get_room room d = Inr r \<and> rm_owner r = operator) \<longleftrightarrow> b"
    unfolding e(2) by (auto simp: get_room_def split: option.splits)
  then show ?thesis using e(3-5) by blast
qed

end
