(* ===== verification/Devices.thy ===== *)
theory Devices
  imports Membership
begin

text \<open>
  Accounts' root identities and MLS devices: \<open>get_account_identity\<close>, \<open>register_device\<close>,
  \<open>approve_device\<close>, \<open>revoke_device\<close> and the queries of
  \<open>api/src/database/e2ee_mls_store.rs\<close>, with the constraints of the tables
  \<open>e2ee_account_identities\<close> and \<open>e2ee_devices\<close> (\<open>api/sql/migrations\<close>).  The three updates are
  instances of \<open>retryable\<close>; \<open>devices_wf\<close> is their invariant, whose heart is the chain of trust
  from every approved device of an account to the account's first one.
\<close>

section \<open>The constraints\<close>

text \<open>\<open>octet_length(b) BETWEEN lo AND hi\<close>; \<open>octet_length\<close> is an integer.\<close>

definition size_between :: "int \<Rightarrow> int \<Rightarrow> bytes \<Rightarrow> bool" where
  "size_between lo hi b \<longleftrightarrow> lo \<le> int (length b) \<and> int (length b) \<le> hi"

definition identity_row_ok :: "account_identity \<Rightarrow> bool" where
  "identity_row_ok i \<longleftrightarrow> size_between 1 4096 (idn_root_key i)
     \<and> size_between 16 128 (idn_root_fp i) \<and> 0 < idn_version i"

definition approval_state_ok :: "device \<Rightarrow> bool" where
  "approval_state_ok x = (case dev_status x of
     PendingApproval \<Rightarrow> dev_approved_at x = None \<and> dev_revoked_at x = None
   | DeviceActive \<Rightarrow> dev_approved_at x \<noteq> None \<and> dev_revoked_at x = None
   | Revoked \<Rightarrow> dev_revoked_at x \<noteq> None)"

definition client_platforms :: "string list" where
  "client_platforms = [''android'', ''ios'', ''h5'', ''desktop'']"

definition too_long :: "nat \<Rightarrow> string option \<Rightarrow> bool" where
  "too_long n s = (case s of None \<Rightarrow> False | Some t \<Rightarrow> n < char_count t)"

definition device_too_long :: "device \<Rightarrow> bool" where
  "device_too_long x \<longleftrightarrow> 128 < char_count (dev_label x) \<or> too_long 32 (dev_platform x)
     \<or> too_long 64 (dev_client_version x) \<or> too_long 128 (dev_client_build x)"

definition device_row_ok :: "device \<Rightarrow> bool" where
  "device_row_ok x \<longleftrightarrow>
     \<not> btrim_blank (dev_label x)
     \<and> size_between 1 65536 (dev_credential x)
     \<and> size_between 16 128 (dev_cred_fp x)
     \<and> 0 < dev_version x
     \<and> approval_state_ok x
     \<and> (case dev_approval_key x of None \<Rightarrow> True | Some k \<Rightarrow> length k = 32)
     \<and> (case dev_platform x of None \<Rightarrow> True | Some p \<Rightarrow> p \<in> set client_platforms)
     \<and> (case dev_client_version x of None \<Rightarrow> True | Some v \<Rightarrow> \<not> btrim_blank v)"

definition insert_identity :: "account_identity \<Rightarrow> db \<Rightarrow> sqlx_error + db" where
  "insert_identity i d =
     (if \<not> identity_row_ok i then Inl CheckViolation
      else if exists_row (\<lambda>j. idn_user j = idn_user i) (identities d) then Inl UniqueViolation
      else if idn_user i \<notin> set (users d) then Inl ForeignKeyViolation
      else Inr (d\<lparr>identities := identities d @ [i]\<rparr>))"

definition insert_device :: "device \<Rightarrow> db \<Rightarrow> sqlx_error + db" where
  "insert_device x d =
     (if device_too_long x then Inl ValueTooLong
      else if \<not> device_row_ok x then Inl CheckViolation
      else if exists_row (\<lambda>y. dev_id y = dev_id x) (devices d) then Inl UniqueViolation
      else if exists_row (\<lambda>y. dev_user y = dev_user x \<and> dev_cred_fp y = dev_cred_fp x) (devices d)
      then Inl UniqueViolation
      else if dev_user x \<notin> set (users d) then Inl ForeignKeyViolation
      else Inr (d\<lparr>devices := devices d @ [x]\<rparr>))"

section \<open>The store operations\<close>

record register_input =
  ri_device_id :: uuid
  ri_label :: string
  ri_root_key :: bytes
  ri_root_fp :: bytes
  ri_credential :: bytes
  ri_cred_fp :: bytes
  ri_approval_key :: bytes
  ri_version :: int
  ri_platform :: "string option"
  ri_client_version :: "string option"
  ri_client_build :: "string option"

definition get_account_identity :: "uuid \<Rightarrow> db \<Rightarrow> account_identity option" where
  "get_account_identity user d = fetch_optional (\<lambda>i. idn_user i = user) (identities d)"

definition find_device :: "uuid \<Rightarrow> db \<Rightarrow> device option" where
  "find_device i d = fetch_optional (\<lambda>x. dev_id x = i) (devices d)"

definition find_user_device :: "uuid \<Rightarrow> uuid \<Rightarrow> db \<Rightarrow> device option" where
  "find_user_device user i d =
     fetch_optional (\<lambda>x. dev_id x = i \<and> dev_user x = user) (devices d)"

definition new_device :: "instant \<Rightarrow> uuid \<Rightarrow> register_input \<Rightarrow> device_status \<Rightarrow> device" where
  "new_device now user inp st =
     \<lparr>dev_id = ri_device_id inp, dev_user = user, dev_label = ri_label inp,
      dev_credential = ri_credential inp, dev_cred_fp = ri_cred_fp inp,
      dev_approval_key = Some (ri_approval_key inp), dev_version = ri_version inp,
      dev_status = st, dev_approved_by = None,
      dev_approved_at = (if st = DeviceActive then Some now else None),
      dev_revoked_at = None, dev_created = now, dev_updated = now,
      dev_platform = ri_platform inp, dev_client_version = ri_client_version inp,
      dev_client_build = ri_client_build inp\<rparr>"

definition same_device :: "register_input \<Rightarrow> device \<Rightarrow> bool" where
  "same_device inp x \<longleftrightarrow>
     dev_label x = ri_label inp \<and> dev_credential x = ri_credential inp
     \<and> dev_cred_fp x = ri_cred_fp inp \<and> dev_approval_key x = Some (ri_approval_key inp)
     \<and> dev_version x = ri_version inp"

definition same_identity :: "register_input \<Rightarrow> account_identity \<Rightarrow> bool" where
  "same_identity inp i \<longleftrightarrow> idn_root_key i = ri_root_key inp \<and> idn_root_fp i = ri_root_fp inp
     \<and> idn_version i = ri_version inp"

definition register_device ::
  "uuid \<Rightarrow> register_input \<Rightarrow> instant \<Rightarrow> db \<Rightarrow> (device \<times> db) result" where
  "register_device user inp now d =
     (let identity = get_account_identity user d;
          first_device = (identity = None);
          with_identity =
            (case identity of
               Some i \<Rightarrow>
                 if \<not> same_identity inp i
                 then Inl (MessageRuntimeConflict ''root identity differs'') else Inr d
             | None \<Rightarrow> from_sqlx (insert_identity
                 \<lparr>idn_user = user, idn_root_key = ri_root_key inp, idn_root_fp = ri_root_fp inp,
                  idn_version = ri_version inp\<rparr> d))
      in case with_identity of
        Inl e \<Rightarrow> Inl e
      | Inr d1 \<Rightarrow>
          (case find_device (ri_device_id inp) d1 of
             Some x \<Rightarrow>
               if dev_user x \<noteq> user then Inl (AlreadyExists ''device of another account'')
               else if \<not> same_device inp x
               then Inl (MessageRuntimeConflict ''device credential differs'')
               else Inr (x, d1)
           | None \<Rightarrow>
               let x = new_device now user inp (if first_device then DeviceActive else PendingApproval)
               in case from_sqlx (insert_device x d1) of
                 Inl e \<Rightarrow> Inl e
               | Inr d2 \<Rightarrow> Inr (x, d2)))"

text \<open>\<open>UPDATE e2ee_room_epochs ... FROM room_members\<close>: the rooms the user is in.\<close>

definition rekey_rooms_of :: "instant \<Rightarrow> uuid \<Rightarrow> (room_epoch \<Rightarrow> bool) \<Rightarrow> db \<Rightarrow> db" where
  "rekey_rooms_of now user also_if d =
     d\<lparr>room_epochs := update_where
        (\<lambda>e. exists_row (\<lambda>m. mb_room m = ep_room e \<and> mb_user m = user \<and> mb_deleted m = None)
               (room_members d) \<and> also_if e)
        (\<lambda>e. e\<lparr>ep_status := RekeyRequired, ep_updated := now\<rparr>) (room_epochs d)\<rparr>"

definition approve_device ::
  "uuid \<Rightarrow> uuid \<Rightarrow> uuid \<Rightarrow> instant \<Rightarrow> db \<Rightarrow> (device \<times> db) result" where
  "approve_device user approver target now d =
     (if approver = target then Inl (ValidationError ''a device cannot approve itself'')
      else case find_user_device user approver d of
        None \<Rightarrow> Inl (NotFound ''approving device'')
      | Some a \<Rightarrow>
          if dev_status a \<noteq> DeviceActive then Inl (Forbidden ''only a trusted device approves'')
          else case find_user_device user target d of
            None \<Rightarrow> Inl (NotFound ''device to approve'')
          | Some t \<Rightarrow>
              if dev_status t = DeviceActive then Inr (t, d)
              else if dev_status t \<noteq> PendingApproval
              then Inl (MessageRuntimeConflict ''device is not pending'')
              else
                let f = (\<lambda>x. x\<lparr>dev_status := DeviceActive, dev_approved_by := Some approver,
                               dev_approved_at := Some now, dev_updated := now\<rparr>);
                    d1 = d\<lparr>devices := update_where (\<lambda>x. dev_id x = target) f (devices d)\<rparr>
                in Inr (f t, rekey_rooms_of now user (\<lambda>e. ep_status e = EpochActive) d1))"

definition revoke_device ::
  "uuid \<Rightarrow> uuid \<Rightarrow> instant \<Rightarrow> db \<Rightarrow> (device \<times> db) result" where
  "revoke_device user device_id now d =
     (case find_user_device user device_id d of
        None \<Rightarrow> Inl (NotFound ''device to revoke'')
      | Some x \<Rightarrow>
          if dev_status x = Revoked then Inr (x, d)
          else if dev_status x = PendingApproval
          then Inl (MessageRuntimeConflict ''a pending device is not revoked'')
          else
            let f = (\<lambda>x. x\<lparr>dev_status := Revoked,
                           dev_revoked_at := (case dev_revoked_at x of None \<Rightarrow> Some now | Some t \<Rightarrow> Some t),
                           dev_updated := now\<rparr>);
                d1 = d\<lparr>devices := update_where (\<lambda>x. dev_id x = device_id \<and> dev_user x = user) f (devices d)\<rparr>
            in Inr (f x, rekey_rooms_of now user (\<lambda>_. True) d1))"

definition is_active_device :: "uuid \<Rightarrow> uuid \<Rightarrow> db \<Rightarrow> bool" where
  "is_active_device user device_id d =
     exists_row (\<lambda>x. dev_id x = device_id \<and> dev_user x = user \<and> dev_status x = DeviceActive) (devices d)"

definition ensure_active_device :: "uuid \<Rightarrow> uuid \<Rightarrow> db \<Rightarrow> unit result" where
  "ensure_active_device user device_id d =
     (if is_active_device user device_id d then Inr ()
      else Inl (Forbidden ''sending device is not trusted''))"

abbreviation device_order :: "device \<Rightarrow> instant \<times> uuid" where
  "device_order x \<equiv> (dev_created x, dev_id x)"

definition list_devices :: "uuid \<Rightarrow> db \<Rightarrow> device list" where
  "list_devices user d = sort_key device_order (filter (\<lambda>x. dev_user x = user) (devices d))"

definition list_active_devices :: "uuid \<Rightarrow> db \<Rightarrow> device list" where
  "list_active_devices user d =
     sort_key device_order (filter (\<lambda>x. dev_user x = user \<and> dev_status x = DeviceActive) (devices d))"

record member_device =
  md_user :: uuid
  md_device :: "uuid option"
  md_version :: "int option"
  md_cred_fp :: "bytes option"

text \<open>The \<open>LEFT JOIN\<close>: a member without an active device gives one row of nulls.\<close>

definition member_device_rows :: "db \<Rightarrow> uuid \<Rightarrow> member_device list" where
  "member_device_rows d user =
     (case list_active_devices user d of
        [] \<Rightarrow> [\<lparr>md_user = user, md_device = None, md_version = None, md_cred_fp = None\<rparr>]
      | xs \<Rightarrow> map (\<lambda>x. \<lparr>md_user = user, md_device = Some (dev_id x),
                       md_version = Some (dev_version x), md_cred_fp = Some (dev_cred_fp x)\<rparr>) xs)"

definition list_room_member_devices :: "uuid \<Rightarrow> uuid \<Rightarrow> db \<Rightarrow> member_device list" where
  "list_room_member_devices room viewer d =
     (if is_user_in_room room viewer d
      then concat (map (member_device_rows d)
             (sort (map mb_user (filter (\<lambda>m. mb_room m = room \<and> mb_deleted m = None) (room_members d)))))
      else [])"

definition get_device :: "uuid \<Rightarrow> uuid \<Rightarrow> db \<Rightarrow> device result" where
  "get_device user device_id d =
     (case find_user_device user device_id d of
        None \<Rightarrow> Inl (NotFound ''E2EE device'')
      | Some x \<Rightarrow> Inr x)"

section \<open>Retries\<close>

lemma rekey_rooms_of_fields [simp]:
  "users (rekey_rooms_of now u P d) = users d"
  "identities (rekey_rooms_of now u P d) = identities d"
  "devices (rekey_rooms_of now u P d) = devices d"
  "key_packages (rekey_rooms_of now u P d) = key_packages d"
  "control_messages (rekey_rooms_of now u P d) = control_messages d"
  "control_receipts (rekey_rooms_of now u P d) = control_receipts d"
  "control_seq (rekey_rooms_of now u P d) = control_seq d"
  "rooms (rekey_rooms_of now u P d) = rooms d"
  "room_members (rekey_rooms_of now u P d) = room_members d"
  "messages (rekey_rooms_of now u P d) = messages d"
  by (simp_all add: rekey_rooms_of_def)

lemma insert_identity_Inr: "insert_identity i d = Inr d' \<longleftrightarrow>
    identity_row_ok i \<and> \<not> exists_row (\<lambda>j. idn_user j = idn_user i) (identities d)
    \<and> idn_user i \<in> set (users d) \<and> d' = d\<lparr>identities := identities d @ [i]\<rparr>"
  by (auto simp: insert_identity_def)

lemma insert_device_Inr: "insert_device x d = Inr d' \<longleftrightarrow>
    \<not> device_too_long x \<and> device_row_ok x \<and> \<not> exists_row (\<lambda>y. dev_id y = dev_id x) (devices d)
    \<and> \<not> exists_row (\<lambda>y. dev_user y = dev_user x \<and> dev_cred_fp y = dev_cred_fp x) (devices d)
    \<and> dev_user x \<in> set (users d) \<and> d' = d\<lparr>devices := devices d @ [x]\<rparr>"
  by (auto simp: insert_device_def)

lemmas device_finders = find_device_def find_user_device_def get_account_identity_def

text \<open>The cases in which registration succeeds.\<close>

lemma register_device_cases:
  assumes "register_device user inp now d = Inr (x, d')"
  obtains (again) i where "get_account_identity user d = Some i" "same_identity inp i"
      "find_device (ri_device_id inp) d = Some x" "dev_user x = user" "same_device inp x" "d' = d"
    | (pending) i where "get_account_identity user d = Some i" "same_identity inp i"
      "find_device (ri_device_id inp) d = None" "x = new_device now user inp PendingApproval"
      "insert_device x d = Inr d'"
    | (first) i d1 where "get_account_identity user d = None"
      "i = \<lparr>idn_user = user, idn_root_key = ri_root_key inp, idn_root_fp = ri_root_fp inp,
            idn_version = ri_version inp\<rparr>" "insert_identity i d = Inr d1"
      "find_device (ri_device_id inp) d1 = None" "x = new_device now user inp DeviceActive"
      "insert_device x d1 = Inr d'"
    | (adopted) i where "get_account_identity user d = None"
      "i = \<lparr>idn_user = user, idn_root_key = ri_root_key inp, idn_root_fp = ri_root_fp inp,
            idn_version = ri_version inp\<rparr>" "insert_identity i d = Inr d'"
      "find_device (ri_device_id inp) d = Some x" "dev_user x = user" "same_device inp x"
proof (cases "get_account_identity user d")
  case (Some i)
  with assms that(1,2) show ?thesis
    by (auto simp: register_device_def Let_def split: if_splits option.splits sum.splits
        simp: from_sqlx_def)
next
  case None
  let ?i = "\<lparr>idn_user = user, idn_root_key = ri_root_key inp, idn_root_fp = ri_root_fp inp,
            idn_version = ri_version inp\<rparr>"
  from None assms obtain d1 where d1: "insert_identity ?i d = Inr d1"
    by (auto simp: register_device_def Let_def from_sqlx_def split: sum.splits)
  then have "find_device j d1 = find_device j d" for j
    by (simp add: insert_identity_Inr find_device_def)
  with None d1 assms that(3,4) show ?thesis
    by (auto simp: register_device_def Let_def from_sqlx_def split: if_splits option.splits sum.splits)
qed

lemma same_new_device [simp]: "same_device inp (new_device now user inp st)"
  by (simp add: same_device_def new_device_def)

lemma new_device_fields [simp]:
  "dev_id (new_device now user inp st) = ri_device_id inp"
  "dev_user (new_device now user inp st) = user"
  "dev_status (new_device now user inp st) = st"
  "dev_approved_by (new_device now user inp st) = None"
  "dev_approved_at (new_device now user inp st) = (if st = DeviceActive then Some now else None)"
  "dev_version (new_device now user inp st) = ri_version inp"
  by (simp_all add: new_device_def)

text \<open>A registration that finds its own row and identity again.\<close>

lemma register_device_known:
  assumes "get_account_identity user d = Some i" "same_identity inp i"
    and "find_device (ri_device_id inp) d = Some x" "dev_user x = user" "same_device inp x"
  shows "register_device user inp now d = Inr (x, d)"
  using assms by (simp add: register_device_def)

lemma find_inserted_device:
  "insert_device x d = Inr d' \<Longrightarrow> find_device (dev_id x) d' = Some x"
  by (auto simp: insert_device_Inr find_device_def intro: fetch_inserted)

lemma identity_inserted:
  "insert_identity i d = Inr d' \<Longrightarrow> get_account_identity (idn_user i) d' = Some i"
  by (auto simp: insert_identity_Inr get_account_identity_def intro: fetch_inserted)

lemma insert_device_identity [simp]:
  "insert_device x d = Inr d' \<Longrightarrow> get_account_identity user d' = get_account_identity user d"
  by (auto simp: insert_device_Inr get_account_identity_def)

lemma register_retry:
  assumes "register_device user inp t d = Inr (x, d')"
  shows "register_device user inp t' d' = Inr (x, d')"
  using assms
proof (cases rule: register_device_cases)
  case (again i)
  then show ?thesis by (simp add: register_device_known)
next
  case (pending i)
  then show ?thesis using find_inserted_device [OF pending(5)]
    by (intro register_device_known [of _ _ i]) auto
next
  case (first i d1)
  then show ?thesis using find_inserted_device [OF first(6)] identity_inserted [OF first(3)]
    by (intro register_device_known [of _ _ i]) (auto simp: same_identity_def)
next
  case (adopted i)
  then have "find_device (ri_device_id inp) d' = Some x"
    by (simp add: insert_identity_Inr find_device_def)
  with adopted identity_inserted [OF adopted(3)] show ?thesis
    by (intro register_device_known [of _ _ i]) (auto simp: same_identity_def)
qed

definition approved :: "uuid \<Rightarrow> instant \<Rightarrow> device \<Rightarrow> device" where
  "approved approver now x = x\<lparr>dev_status := DeviceActive, dev_approved_by := Some approver,
     dev_approved_at := Some now, dev_updated := now\<rparr>"

definition revoked :: "instant \<Rightarrow> device \<Rightarrow> device" where
  "revoked now x = x\<lparr>dev_status := Revoked,
     dev_revoked_at := (case dev_revoked_at x of None \<Rightarrow> Some now | Some t \<Rightarrow> Some t),
     dev_updated := now\<rparr>"

lemma approved_fields [simp]:
  "dev_id (approved a t x) = dev_id x" "dev_user (approved a t x) = dev_user x"
  "dev_status (approved a t x) = DeviceActive" "dev_approved_by (approved a t x) = Some a"
  "dev_approved_at (approved a t x) = Some t" "dev_version (approved a t x) = dev_version x"
  "dev_cred_fp (approved a t x) = dev_cred_fp x" "dev_revoked_at (approved a t x) = dev_revoked_at x"
  by (simp_all add: approved_def)

lemma revoked_fields [simp]:
  "dev_id (revoked t x) = dev_id x" "dev_user (revoked t x) = dev_user x"
  "dev_status (revoked t x) = Revoked" "dev_approved_by (revoked t x) = dev_approved_by x"
  "dev_approved_at (revoked t x) = dev_approved_at x" "dev_version (revoked t x) = dev_version x"
  "dev_cred_fp (revoked t x) = dev_cred_fp x" "dev_revoked_at (revoked t x) \<noteq> None"
  by (simp_all add: revoked_def split: option.splits)

lemma approve_device_alt:
  "approve_device user approver target now d =
     (if approver = target then Inl (ValidationError ''a device cannot approve itself'')
      else case find_user_device user approver d of
        None \<Rightarrow> Inl (NotFound ''approving device'')
      | Some a \<Rightarrow>
          if dev_status a \<noteq> DeviceActive then Inl (Forbidden ''only a trusted device approves'')
          else case find_user_device user target d of
            None \<Rightarrow> Inl (NotFound ''device to approve'')
          | Some t \<Rightarrow>
              if dev_status t = DeviceActive then Inr (t, d)
              else if dev_status t \<noteq> PendingApproval
              then Inl (MessageRuntimeConflict ''device is not pending'')
              else Inr (approved approver now t,
                rekey_rooms_of now user (\<lambda>e. ep_status e = EpochActive)
                  (d\<lparr>devices := update_where (\<lambda>x. dev_id x = target) (approved approver now) (devices d)\<rparr>)))"
  by (simp only: approve_device_def approved_def [abs_def] Let_def)

lemma revoke_device_alt:
  "revoke_device user i now d =
     (case find_user_device user i d of
        None \<Rightarrow> Inl (NotFound ''device to revoke'')
      | Some x \<Rightarrow>
          if dev_status x = Revoked then Inr (x, d)
          else if dev_status x = PendingApproval
          then Inl (MessageRuntimeConflict ''a pending device is not revoked'')
          else Inr (revoked now x, rekey_rooms_of now user (\<lambda>_. True)
            (d\<lparr>devices := update_where (\<lambda>x. dev_id x = i \<and> dev_user x = user) (revoked now) (devices d)\<rparr>)))"
  by (simp only: revoke_device_def revoked_def [abs_def] Let_def)

lemma approve_device_cases:
  assumes "approve_device user approver target now d = Inr (x, d')"
  obtains (again) a where "approver \<noteq> target" "find_user_device user approver d = Some a"
      "dev_status a = DeviceActive" "find_user_device user target d = Some x"
      "dev_status x = DeviceActive" "d' = d"
    | (approve) a p where "approver \<noteq> target" "find_user_device user approver d = Some a"
      "dev_status a = DeviceActive" "find_user_device user target d = Some p"
      "dev_status p = PendingApproval" "x = approved approver now p"
      "d' = rekey_rooms_of now user (\<lambda>e. ep_status e = EpochActive)
         (d\<lparr>devices := update_where (\<lambda>x. dev_id x = target) (approved approver now) (devices d)\<rparr>)"
proof -
  from assms have ne: "approver \<noteq> target" by (auto simp: approve_device_alt)
  from assms ne obtain a where a: "find_user_device user approver d = Some a"
    by (cases "find_user_device user approver d") (simp_all add: approve_device_alt)
  from assms ne a have act: "dev_status a = DeviceActive"
    by (cases "dev_status a = DeviceActive") (simp_all add: approve_device_alt)
  from assms ne a act obtain p where p: "find_user_device user target d = Some p"
    by (cases "find_user_device user target d") (simp_all add: approve_device_alt)
  show thesis
  proof (cases "dev_status p = DeviceActive")
    case True
    with assms ne a act p have "p = x" "d = d'" by (simp_all add: approve_device_alt)
    with ne a act p True show ?thesis using that(1) by blast
  next
    case False
    with assms have "dev_status p = PendingApproval"
      unfolding approve_device_alt by (simp add: ne a act p split: if_splits)
    with assms ne a act p have "x = approved approver now p"
      "d' = rekey_rooms_of now user (\<lambda>e. ep_status e = EpochActive)
         (d\<lparr>devices := update_where (\<lambda>x. dev_id x = target) (approved approver now) (devices d)\<rparr>)"
      by (simp_all add: approve_device_alt)
    with ne a act p \<open>dev_status p = PendingApproval\<close> show ?thesis using that(2) by blast
  qed
qed

lemma revoke_device_cases:
  assumes "revoke_device user i now d = Inr (x, d')"
  obtains (again) "find_user_device user i d = Some x" "dev_status x = Revoked" "d' = d"
    | (revoke) p where "find_user_device user i d = Some p" "dev_status p = DeviceActive"
      "x = revoked now p"
      "d' = rekey_rooms_of now user (\<lambda>_. True)
         (d\<lparr>devices := update_where (\<lambda>x. dev_id x = i \<and> dev_user x = user) (revoked now) (devices d)\<rparr>)"
proof -
  from assms obtain p where p: "find_user_device user i d = Some p"
    by (cases "find_user_device user i d") (simp_all add: revoke_device_alt)
  show thesis
  proof (cases "dev_status p = Revoked")
    case True
    with assms p have "p = x" "d' = d" by (simp_all add: revoke_device_alt)
    with p True show ?thesis using that(1) by blast
  next
    case False
    with assms have act: "dev_status p = DeviceActive"
      unfolding revoke_device_alt by (cases "dev_status p") (simp_all add: p)
    with assms p have "x = revoked now p"
      "d' = rekey_rooms_of now user (\<lambda>_. True)
         (d\<lparr>devices := update_where (\<lambda>x. dev_id x = i \<and> dev_user x = user) (revoked now) (devices d)\<rparr>)"
      by (simp_all add: revoke_device_alt)
    with p act show ?thesis using that(2) by blast
  qed
qed

lemma find_user_device_update:
  assumes "\<And>x. dev_id (f x) = dev_id x \<and> dev_user (f x) = dev_user x"
  shows "find_user_device user i (d\<lparr>devices := update_where P f (devices d)\<rparr>)
    = map_option (\<lambda>x. if P x then f x else x) (find_user_device user i d)"
  using assms by (simp add: find_user_device_def fetch_update_where)

lemma find_user_device_rekey [simp]:
  "find_user_device user i (rekey_rooms_of now u P d) = find_user_device user i d"
  by (simp add: find_user_device_def)

lemma find_user_deviceD:
  "find_user_device user i d = Some x \<Longrightarrow> x \<in> set (devices d) \<and> dev_id x = i \<and> dev_user x = user"
  by (auto simp: find_user_device_def dest: fetch_SomeD)

lemma approve_retry:
  assumes "approve_device user a b t d = Inr (x, d')"
  shows "approve_device user a b t' d' = Inr (x, d')"
  using assms
proof (cases rule: approve_device_cases)
  case (again p)
  then show ?thesis by (simp add: approve_device_def)
next
  case (approve p q)
  from approve(1,2,4) have "find_user_device user a d' = Some p" "find_user_device user b d' = Some x"
    by (simp_all add: approve(6,7) find_user_device_update)
      (auto dest: find_user_deviceD)
  with approve show ?thesis by (simp add: approve_device_def)
qed

lemma revoke_retry:
  assumes "revoke_device user i t d = Inr (x, d')"
  shows "revoke_device user i t' d' = Inr (x, d')"
  using assms
proof (cases rule: revoke_device_cases)
  case again
  then show ?thesis by (simp add: revoke_device_def)
next
  case (revoke p)
  then have "find_user_device user i d' = Some x"
    by (auto simp: find_user_device_update dest: find_user_deviceD)
  with revoke show ?thesis by (simp add: revoke_device_def)
qed

interpretation register: retryable "register_device user inp" for user inp
  by unfold_locales (rule register_retry)

interpretation approve: retryable "approve_device user approver target" for user approver target
  by unfold_locales (rule approve_retry)

interpretation revoke: retryable "revoke_device user device_id" for user device_id
  by unfold_locales (rule revoke_retry)

section \<open>The chain of trust\<close>

text \<open>
  A device is trusted when it was approved as the first of its account, or by a trusted device
  of the same account.  Being inductive, the relation has no cycles: every chain of approvals
  ends at a first device.
\<close>

inductive trusted :: "device list \<Rightarrow> device \<Rightarrow> bool" for xs :: "device list" where
  root: "x \<in> set xs \<Longrightarrow> dev_approved_at x \<noteq> None \<Longrightarrow> dev_approved_by x = None \<Longrightarrow> trusted xs x"
| link: "x \<in> set xs \<Longrightarrow> dev_approved_at x \<noteq> None \<Longrightarrow> dev_approved_by x = Some (dev_id y) \<Longrightarrow>
    trusted xs y \<Longrightarrow> dev_user y = dev_user x \<Longrightarrow> trusted xs x"

text \<open>What holds of every device row, given the identities and the other devices.\<close>

definition device_ok :: "account_identity list \<Rightarrow> device list \<Rightarrow> device \<Rightarrow> bool" where
  "device_ok ids xs x \<longleftrightarrow> approval_state_ok x
     \<and> (\<exists>i \<in> set ids. idn_user i = dev_user x \<and> idn_version i = dev_version x)
     \<and> (dev_status x = PendingApproval \<longrightarrow> dev_approved_by x = None)
     \<and> (dev_status x \<noteq> PendingApproval \<longrightarrow> trusted xs x)"

definition device_keys :: "db \<Rightarrow> bool" where
  "device_keys d \<longleftrightarrow> unique_on idn_user (identities d) \<and> unique_on dev_id (devices d)
     \<and> unique_on (\<lambda>x. (dev_user x, dev_cred_fp x)) (devices d)"

definition devices_wf :: "db \<Rightarrow> bool" where
  "devices_wf d \<longleftrightarrow> device_keys d \<and> (\<forall>x \<in> set (devices d). device_ok (identities d) (devices d) x)"

lemma trusted_approved: "trusted xs x \<Longrightarrow> x \<in> set xs \<and> dev_approved_at x \<noteq> None"
  by (induction rule: trusted.induct) simp_all

lemma trusted_append: "trusted xs x \<Longrightarrow> trusted (xs @ ys) x"
  by (induction rule: trusted.induct) (auto intro: trusted.intros)

lemma trusted_active: "devices_wf d \<Longrightarrow> x \<in> set (devices d) \<Longrightarrow> dev_status x = DeviceActive \<Longrightarrow>
    trusted (devices d) x"
  by (simp add: devices_wf_def device_ok_def)

text \<open>A change of rows that keeps the approval columns of the approved ones keeps the chains.\<close>

lemma trusted_update:
  assumes "trusted xs x"
    and "\<And>x. x \<in> set xs \<Longrightarrow> dev_id (f x) = dev_id x \<and> dev_user (f x) = dev_user x"
    and "\<And>x. x \<in> set xs \<Longrightarrow> dev_approved_at x \<noteq> None \<Longrightarrow>
      dev_approved_at (f x) = dev_approved_at x \<and> dev_approved_by (f x) = dev_approved_by x"
  shows "trusted (map f xs) (f x)"
  using assms(1)
proof (induction rule: trusted.induct)
  case (root x)
  then show ?case using assms(3) [of x] by (auto intro: trusted.root)
next
  case (link x y)
  have y: "y \<in> set xs" using trusted_approved [OF link(4)] by simp
  show ?case
    by (rule trusted.link [where y = "f y"])
      (use link y assms(2) [of x] assms(2) [of y] assms(3) [of x] in simp_all)
qed

lemma device_ok_more: "device_ok ids xs x \<Longrightarrow> device_ok (ids @ js) (xs @ ys) x"
  by (auto simp: device_ok_def intro: trusted_append)

lemma devices_wf_identity:
  assumes "devices_wf d" "insert_identity i d = Inr d'" shows "devices_wf d'"
proof -
  have "device_ok (identities d @ [i]) (devices d) x" if "x \<in> set (devices d)" for x
    using device_ok_more [of "identities d" "devices d" x "[i]" "[]"] that assms(1)
    by (simp add: devices_wf_def)
  then show ?thesis
    using assms by (auto simp: devices_wf_def device_keys_def insert_identity_Inr)
qed

lemma devices_wf_insert:
  assumes wf: "devices_wf d" and ins: "insert_device x d = Inr d'"
    and idn: "\<exists>i \<in> set (identities d). idn_user i = dev_user x \<and> idn_version i = dev_version x"
    and st: "dev_approved_by x = None" "dev_status x = DeviceActive \<or> dev_status x = PendingApproval"
  shows "devices_wf d'"
proof -
  from ins have d': "d' = d\<lparr>devices := devices d @ [x]\<rparr>" and ok: "approval_state_ok x"
    and new: "\<not> exists_row (\<lambda>y. dev_id y = dev_id x) (devices d)"
      "\<not> exists_row (\<lambda>y. dev_user y = dev_user x \<and> dev_cred_fp y = dev_cred_fp x) (devices d)"
    by (auto simp: insert_device_Inr device_row_ok_def)
  have "device_keys d'" using wf new by (auto simp: devices_wf_def device_keys_def d')
  moreover have "trusted (devices d @ [x]) x" if "dev_status x = DeviceActive"
    using that ok st(1) by (intro trusted.root) (auto simp: approval_state_ok_def)
  then have "device_ok (identities d) (devices d @ [x]) x"
    using ok idn st by (auto simp: device_ok_def)
  moreover have "device_ok (identities d) (devices d @ [x]) y" if "y \<in> set (devices d)" for y
    using device_ok_more [of "identities d" "devices d" y "[]" "[x]"] wf that
    by (simp add: devices_wf_def)
  ultimately show ?thesis by (auto simp: devices_wf_def d')
qed

lemma devices_wf_register:
  assumes wf: "devices_wf d" and reg: "register_device user inp now d = Inr (x, d')"
  shows "devices_wf d'"
  using reg
proof (cases rule: register_device_cases)
  case (pending i)
  have "i \<in> set (identities d) \<and> idn_user i = user"
    using pending(1) by (auto simp: get_account_identity_def dest: fetch_SomeD)
  then show ?thesis using pending(2,4,5) wf
    by (intro devices_wf_insert [of d x d']) (auto simp: same_identity_def)
next
  case (first i d1)
  have "devices_wf d1" using devices_wf_identity [OF wf first(3)] .
  then show ?thesis using first(2,3,5,6)
    by (intro devices_wf_insert [of d1 x d']) (auto simp: insert_identity_Inr)
next
  case (adopted i)
  then show ?thesis using devices_wf_identity [OF wf] by blast
qed (use wf in simp)

lemma devices_wf_rekey [simp]: "devices_wf (rekey_rooms_of now u P d) = devices_wf d"
  by (simp add: devices_wf_def device_keys_def)

text \<open>A row update that keeps the identity of rows and the approval of approved rows.\<close>

lemma devices_wf_update:
  assumes wf: "devices_wf d"
    and keep: "\<And>x. dev_id (f x) = dev_id x \<and> dev_user (f x) = dev_user x \<and> dev_cred_fp (f x) = dev_cred_fp x
      \<and> dev_version (f x) = dev_version x"
    and appr: "\<And>x. x \<in> set (devices d) \<Longrightarrow> P x \<Longrightarrow> dev_approved_at x \<noteq> None \<Longrightarrow>
      dev_approved_at (f x) = dev_approved_at x \<and> dev_approved_by (f x) = dev_approved_by x"
    and new: "\<And>x. x \<in> set (devices d) \<Longrightarrow> P x \<Longrightarrow> approval_state_ok (f x) \<and> dev_status (f x) \<noteq> PendingApproval"
    and trust: "\<And>x. x \<in> set (devices d) \<Longrightarrow> P x \<Longrightarrow> trusted (update_where P f (devices d)) (f x)"
  shows "devices_wf (d\<lparr>devices := update_where P f (devices d)\<rparr>)"
proof -
  let ?g = "\<lambda>x. if P x then f x else x"
  have "device_keys (d\<lparr>devices := update_where P f (devices d)\<rparr>)"
    using wf keep by (simp add: devices_wf_def device_keys_def column_update_where)
  moreover have "device_ok (identities d) (map ?g (devices d)) (?g x)" if x: "x \<in> set (devices d)" for x
  proof -
    have old: "device_ok (identities d) (devices d) x" using wf x by (simp add: devices_wf_def)
    have "trusted (map ?g (devices d)) (?g x)" if "trusted (devices d) x"
      by (rule trusted_update [OF that]) (use keep appr in auto)
    then show ?thesis
      using old keep [of x] new [OF x] trust [OF x]
      by (auto simp: device_ok_def update_where_def)
  qed
  then have "\<forall>y \<in> set (update_where P f (devices d)).
      device_ok (identities d) (update_where P f (devices d)) y"
    unfolding update_where_def set_map by blast
  ultimately show ?thesis by (simp add: devices_wf_def)
qed

lemma device_ok_in: "devices_wf d \<Longrightarrow> x \<in> set (devices d) \<Longrightarrow> device_ok (identities d) (devices d) x"
  by (simp add: devices_wf_def)

lemma device_id_unique: "devices_wf d \<Longrightarrow> x \<in> set (devices d) \<Longrightarrow> y \<in> set (devices d) \<Longrightarrow>
    dev_id x = dev_id y \<Longrightarrow> x = y"
  by (rule fetch_key_eq [where k = dev_id]) (simp_all add: devices_wf_def device_keys_def)

lemma devices_wf_approve:
  assumes wf: "devices_wf d" and ok: "approve_device user approver target now d = Inr (x, d')"
  shows "devices_wf d'"
  using ok
proof (cases rule: approve_device_cases)
  case (approve a p)
  let ?P = "\<lambda>x. dev_id x = target" and ?f = "approved approver now"
  let ?xs = "update_where ?P ?f (devices d)"
  from approve have a: "a \<in> set (devices d)" "dev_id a = approver" "dev_user a = user"
    and p: "p \<in> set (devices d)" "dev_id p = target" "dev_user p = user"
    by (auto dest: find_user_deviceD)
  have only: "x = p" if "x \<in> set (devices d)" "?P x" for x
    using device_id_unique [OF wf that(1) p(1)] that p by simp
  have pend: "dev_approved_at p = None" "dev_revoked_at p = None"
    using device_ok_in [OF wf p(1)] approve(5) by (auto simp: device_ok_def approval_state_ok_def)
  have "trusted ?xs (if ?P a then ?f a else a)"
    unfolding update_where_def
    by (rule trusted_update [OF trusted_active [OF wf a(1)]])
      (use approve(3) pend only in \<open>auto split: if_splits\<close>)
  then have ta: "trusted ?xs a" using a approve(1) by simp
  have tp: "trusted ?xs (?f p)"
    by (rule trusted.link [OF _ _ _ ta]) (use a p in \<open>auto simp: update_where_def\<close>)
  have "devices_wf (d\<lparr>devices := ?xs\<rparr>)"
  proof (rule devices_wf_update [OF wf])
    fix x assume x: "x \<in> set (devices d)" "?P x"
    have "x = p" by (rule only [OF x])
    then show "trusted ?xs (?f x)" "approval_state_ok (?f x) \<and> dev_status (?f x) \<noteq> PendingApproval"
      "dev_approved_at x \<noteq> None \<Longrightarrow> dev_approved_at (?f x) = dev_approved_at x
         \<and> dev_approved_by (?f x) = dev_approved_by x"
      using tp pend by (simp_all add: approval_state_ok_def)
  qed simp
  then show ?thesis by (simp add: approve(7))
qed (use wf in simp)

lemma devices_wf_revoke:
  assumes wf: "devices_wf d" and ok: "revoke_device user i now d = Inr (x, d')"
  shows "devices_wf d'"
  using ok
proof (cases rule: revoke_device_cases)
  case (revoke p)
  let ?P = "\<lambda>x. dev_id x = i \<and> dev_user x = user" and ?f = "revoked now"
  from revoke have p: "p \<in> set (devices d)" "dev_id p = i" "dev_user p = user"
    by (auto dest: find_user_deviceD)
  have only: "x = p" if "x \<in> set (devices d)" "?P x" for x
    using device_id_unique [OF wf that(1) p(1)] that p by simp
  have "trusted (update_where ?P ?f (devices d)) (if ?P p then ?f p else p)"
    unfolding update_where_def
    by (rule trusted_update [OF trusted_active [OF wf p(1) revoke(2)]]) auto
  then have tp: "trusted (update_where ?P ?f (devices d)) (?f p)" using p by simp
  have "devices_wf (d\<lparr>devices := update_where ?P ?f (devices d)\<rparr>)"
  proof (rule devices_wf_update [OF wf])
    fix x assume x: "x \<in> set (devices d)" "?P x"
    have "x = p" by (rule only [OF x])
    then show "trusted (update_where ?P ?f (devices d)) (?f x)"
      "approval_state_ok (?f x) \<and> dev_status (?f x) \<noteq> PendingApproval"
      using tp by (simp_all add: approval_state_ok_def)
  qed simp_all
  then show ?thesis by (simp add: revoke(4))
qed (use wf in simp)

lemmas devices_wf_intros = devices_wf_register devices_wf_approve devices_wf_revoke

lemma devices_wf_empty: "devices_wf (empty_db\<lparr>users := us\<rparr>)"
  by (simp add: devices_wf_def device_keys_def empty_db_def)

end
