(* ===== verification/KeyPackages.thy ===== *)
theory KeyPackages
  imports Devices
begin

text \<open>
  The one-time key packages of a device: \<open>publish_key_packages\<close>,
  \<open>count_available_key_packages\<close>, \<open>take_key_package\<close> and \<open>take_key_package_for_room\<close> of
  \<open>api/src/database/e2ee_mls_store.rs\<close> with the constraints of \<open>e2ee_key_packages\<close>.  The locale
  \<open>one_time_store\<close> is the contract of a store that hands every item out once; both ways of
  taking a key package are instances, and so are the one-time pre-keys of \<open>PreKeys\<close>.
\<close>

section \<open>Handing out items once\<close>

locale one_time_store =
  fixes take_one :: "instant \<Rightarrow> 's \<Rightarrow> ('a \<times> 's) option"
    and avail :: "instant \<Rightarrow> 's \<Rightarrow> 'k set"
    and key :: "'a \<Rightarrow> 'k"
    and inv :: "'s \<Rightarrow> bool"
  assumes take_avail: "inv s \<Longrightarrow> take_one t s = Some (a, s') \<Longrightarrow> key a \<in> avail t s"
    and take_gone: "inv s \<Longrightarrow> take_one t s = Some (a, s') \<Longrightarrow> avail t' s' = avail t' s - {key a}"
    and take_inv: "inv s \<Longrightarrow> take_one t s = Some (a, s') \<Longrightarrow> inv s'"
begin

fun drain :: "instant list \<Rightarrow> 's \<Rightarrow> 'a list \<times> 's" where
  "drain [] s = ([], s)"
| "drain (t # ts) s =
     (case take_one t s of
        None \<Rightarrow> drain ts s
      | Some (a, s') \<Rightarrow> let (as, s'') = drain ts s' in (a # as, s''))"

lemma drain_ever: "inv s \<Longrightarrow> drain ts s = (as, s') \<Longrightarrow> key ` set as \<subseteq> (\<Union>t \<in> set ts. avail t s)"
proof (induction ts arbitrary: s as s')
  case (Cons t ts)
  show ?case
  proof (cases "take_one t s")
    case (Some p)
    obtain a s1 where p: "p = (a, s1)" by (cases p)
    obtain bs where bs: "drain ts s1 = (bs, s')" "as = a # bs"
      using Cons.prems(2) Some p by (auto split: prod.splits)
    have "key ` set bs \<subseteq> (\<Union>t \<in> set ts. avail t s1)"
      using Cons.IH [OF take_inv bs(1)] Cons.prems(1) Some p by auto
    then show ?thesis
      using take_avail take_gone Cons.prems(1) Some p bs(2) by fastforce
  next
    case None
    then have "drain ts s = (as, s')" using Cons.prems(2) by simp
    from Cons.IH [OF Cons.prems(1) this] show ?thesis by auto
  qed
qed simp

text \<open>Nothing is handed out twice, at whatever instants the takes happen.\<close>

lemma drain_distinct: "inv s \<Longrightarrow> drain ts s = (as, s') \<Longrightarrow> distinct (map key as)"
proof (induction ts arbitrary: s as s')
  case (Cons t ts)
  show ?case
  proof (cases "take_one t s")
    case (Some p)
    obtain a s1 where p: "p = (a, s1)" by (cases p)
    obtain bs where bs: "drain ts s1 = (bs, s')" "as = a # bs"
      using Cons.prems(2) Some p by (auto split: prod.splits)
    have inv1: "inv s1" using take_inv Cons.prems(1) Some p by blast
    have "key a \<notin> key ` set bs"
      using drain_ever [OF inv1 bs(1)] take_gone [OF Cons.prems(1), of t a s1] Some p by auto
    then show ?thesis using Cons.IH [OF inv1 bs(1)] bs(2) by simp
  qed (use Cons in auto)
qed simp

text \<open>The store shrinks by exactly what it hands out.\<close>

lemma drain_rest: "inv s \<Longrightarrow> drain ts s = (as, s') \<Longrightarrow> avail t s' = avail t s - key ` set as"
proof (induction ts arbitrary: s as s')
  case (Cons u ts)
  show ?case
  proof (cases "take_one u s")
    case (Some p)
    obtain a s1 where p: "p = (a, s1)" by (cases p)
    obtain bs where bs: "drain ts s1 = (bs, s')" "as = a # bs"
      using Cons.prems(2) Some p by (auto split: prod.splits)
    have "inv s1" using take_inv Cons.prems(1) Some p by blast
    from Cons.IH [OF this bs(1)] show ?thesis
      using take_gone [OF Cons.prems(1), of u a s1] Some p bs(2) by auto
  qed (use Cons in auto)
qed simp

end

section \<open>The store operations\<close>

definition max_available_key_packages :: nat where
  "max_available_key_packages = 500"

record new_key_package =
  nk_id :: uuid
  nk_ref :: bytes
  nk_payload :: bytes
  nk_version :: int
  nk_expires :: instant

definition key_package_row_ok :: "key_package \<Rightarrow> bool" where
  "key_package_row_ok k \<longleftrightarrow>
     size_between 16 128 (kp_ref k) \<and> size_between 1 1048576 (kp_payload k)
     \<and> 0 < kp_version k \<and> kp_created k < kp_expires k
     \<and> (kp_consumed_at k = None \<longleftrightarrow> kp_consumed_by k = None)"

text \<open>\<open>INSERT ... ON CONFLICT (package_ref) DO NOTHING\<close>, with the number of rows inserted.\<close>

definition insert_key_package :: "key_package \<Rightarrow> db \<Rightarrow> sqlx_error + (nat \<times> db)" where
  "insert_key_package k d =
     (if \<not> key_package_row_ok k then Inl CheckViolation
      else if exists_row (\<lambda>j. kp_ref j = kp_ref k) (key_packages d) then Inr (0, d)
      else if exists_row (\<lambda>j. kp_id j = kp_id k) (key_packages d) then Inl UniqueViolation
      else if \<not> exists_row (\<lambda>x. dev_id x = kp_device k) (devices d) then Inl ForeignKeyViolation
      else Inr (1, d\<lparr>key_packages := key_packages d @ [k]\<rparr>))"

definition new_row :: "instant \<Rightarrow> uuid \<Rightarrow> new_key_package \<Rightarrow> key_package" where
  "new_row now dev p =
     \<lparr>kp_id = nk_id p, kp_device = dev, kp_ref = nk_ref p, kp_payload = nk_payload p,
      kp_version = nk_version p, kp_expires = nk_expires p,
      kp_consumed_at = None, kp_consumed_by = None, kp_created = now\<rparr>"

fun insert_key_packages ::
  "instant \<Rightarrow> uuid \<Rightarrow> new_key_package list \<Rightarrow> nat \<Rightarrow> db \<Rightarrow> sqlx_error + (nat \<times> db)" where
  "insert_key_packages now dev [] n d = Inr (n, d)"
| "insert_key_packages now dev (p # ps) n d =
     (case insert_key_package (new_row now dev p) d of
        Inl e \<Rightarrow> Inl e
      | Inr (k, d') \<Rightarrow> insert_key_packages now dev ps (n + k) d')"

definition kp_available :: "instant \<Rightarrow> uuid \<Rightarrow> key_package \<Rightarrow> bool" where
  "kp_available now dev k \<longleftrightarrow> kp_device k = dev \<and> kp_consumed_at k = None \<and> now < kp_expires k"

definition available_count :: "instant \<Rightarrow> uuid \<Rightarrow> db \<Rightarrow> nat" where
  "available_count now dev d = length (filter (kp_available now dev) (key_packages d))"

definition publish_key_packages ::
  "uuid \<Rightarrow> uuid \<Rightarrow> new_key_package list \<Rightarrow> instant \<Rightarrow> db \<Rightarrow> (nat \<times> db) result" where
  "publish_key_packages user dev packages now d =
     (case find_user_device user dev d of
        None \<Rightarrow> Inl (Forbidden ''publishing device'')
      | Some x \<Rightarrow>
          if dev_status x \<noteq> DeviceActive
          then Inl (Forbidden ''only a trusted device publishes'')
          else if list_ex (\<lambda>p. nk_version p \<noteq> dev_version x) packages
          then Inl (ValidationError ''key package protocol version'')
          else case from_sqlx (insert_key_packages now dev packages 0 d) of
            Inl e \<Rightarrow> Inl e
          | Inr (n, d') \<Rightarrow>
              if available_count now dev d' > max_available_key_packages
              then Inl (RateLimitExceeded ''too many available key packages'')
              else Inr (n, d'))"

definition count_available_key_packages ::
  "uuid \<Rightarrow> uuid \<Rightarrow> instant \<Rightarrow> db \<Rightarrow> nat result" where
  "count_available_key_packages user dev now d =
     (case find_user_device user dev d of
        None \<Rightarrow> Inl (Forbidden ''device of this account'')
      | Some x \<Rightarrow>
          if dev_status x \<noteq> DeviceActive
          then Inl (Forbidden ''only a trusted device reads the stock'')
          else Inr (available_count now dev d))"

text \<open>
  \<open>UPDATE ... WHERE id = (SELECT ... ORDER BY created_at, id LIMIT 1 FOR UPDATE SKIP LOCKED)\<close>:
  the oldest available row, if the guard of the join holds, is marked and returned.
\<close>

definition oldest_available :: "instant \<Rightarrow> uuid \<Rightarrow> db \<Rightarrow> key_package option" where
  "oldest_available now dev d =
     (case sort_key (\<lambda>k. (kp_created k, kp_id k)) (filter (kp_available now dev) (key_packages d)) of
        [] \<Rightarrow> None
      | k # _ \<Rightarrow> Some k)"

definition consumed :: "instant \<Rightarrow> uuid \<Rightarrow> key_package \<Rightarrow> key_package" where
  "consumed now consumer k = k\<lparr>kp_consumed_at := Some now, kp_consumed_by := Some consumer\<rparr>"

definition consume_oldest ::
  "instant \<Rightarrow> uuid \<Rightarrow> uuid \<Rightarrow> db \<Rightarrow> (key_package \<times> db) option" where
  "consume_oldest now target consumer d =
     (case oldest_available now target d of
        None \<Rightarrow> None
      | Some k \<Rightarrow> Some (consumed now consumer k,
          d\<lparr>key_packages := update_where (\<lambda>j. kp_id j = kp_id k) (consumed now consumer) (key_packages d)\<rparr>))"

definition take_key_package ::
  "uuid \<Rightarrow> uuid \<Rightarrow> uuid \<Rightarrow> instant \<Rightarrow> db \<Rightarrow> (key_package \<times> db) option" where
  "take_key_package consumer_user target consumer now d =
     (if exists_row (\<lambda>x. dev_id x = target \<and> dev_status x = DeviceActive) (devices d)
         \<and> is_active_device consumer_user consumer d
      then consume_oldest now target consumer d else None)"

definition take_key_package_for_room ::
  "uuid \<Rightarrow> uuid \<Rightarrow> uuid \<Rightarrow> uuid \<Rightarrow> instant \<Rightarrow> db \<Rightarrow> (key_package \<times> db) option" where
  "take_key_package_for_room room consumer_user target consumer now d =
     (if exists_row (\<lambda>x. dev_id x = target \<and> dev_status x = DeviceActive
           \<and> is_user_in_room room (dev_user x) d) (devices d)
         \<and> is_active_device consumer_user consumer d
         \<and> is_user_in_room room consumer_user d
      then consume_oldest now target consumer d else None)"

section \<open>The invariant\<close>

definition key_packages_wf :: "db \<Rightarrow> bool" where
  "key_packages_wf d \<longleftrightarrow>
     unique_on kp_id (key_packages d) \<and> unique_on kp_ref (key_packages d)
     \<and> (\<forall>k \<in> set (key_packages d). key_package_row_ok k
         \<and> exists_row (\<lambda>x. dev_id x = kp_device k) (devices d))"

lemma consumed_fields [simp]:
  "kp_id (consumed t c k) = kp_id k" "kp_ref (consumed t c k) = kp_ref k"
  "kp_device (consumed t c k) = kp_device k" "kp_payload (consumed t c k) = kp_payload k"
  "kp_version (consumed t c k) = kp_version k" "kp_expires (consumed t c k) = kp_expires k"
  "kp_created (consumed t c k) = kp_created k" "kp_consumed_at (consumed t c k) = Some t"
  "kp_consumed_by (consumed t c k) = Some c"
  by (simp_all add: consumed_def)

lemma consumed_row_ok: "key_package_row_ok k \<Longrightarrow> key_package_row_ok (consumed t c k)"
  by (simp add: key_package_row_ok_def)

lemma oldest_availableD:
  "oldest_available now dev d = Some k \<Longrightarrow> k \<in> set (key_packages d) \<and> kp_available now dev k"
proof -
  assume "oldest_available now dev d = Some k"
  then obtain ks where "sort_key (\<lambda>k. (kp_created k, kp_id k))
      (filter (kp_available now dev) (key_packages d)) = k # ks"
    by (auto simp: oldest_available_def split: list.splits)
  then have "k \<in> set (sort_key (\<lambda>k. (kp_created k, kp_id k)) (filter (kp_available now dev) (key_packages d)))"
    by (metis list.set_intros(1))
  then show ?thesis by simp
qed

lemma oldest_available_None:
  "oldest_available now dev d = None \<longleftrightarrow> available_count now dev d = 0"
proof -
  have "sort_key f xs = [] \<longleftrightarrow> xs = []" for f :: "key_package \<Rightarrow> instant \<times> uuid" and xs
    by (metis length_0_conv length_sort)
  then show ?thesis
    by (auto simp: oldest_available_def available_count_def split: list.splits)
qed

text \<open>The row taken is the oldest: none that is available was created before it.\<close>

lemma oldest_available_least:
  assumes "oldest_available now dev d = Some k" "j \<in> set (key_packages d)" "kp_available now dev j"
  shows "(kp_created k, kp_id k) \<le> (kp_created j, kp_id j)"
proof -
  let ?f = "\<lambda>k. (kp_created k, kp_id k)"
  let ?xs = "sort_key ?f (filter (kp_available now dev) (key_packages d))"
  obtain ys where ys: "?xs = k # ys"
    using assms(1) by (auto simp: oldest_available_def split: list.splits)
  have "sorted (map ?f (k # ys))" unfolding ys [symmetric] by simp
  moreover have "j \<in> set ?xs" using assms(2,3) by simp
  ultimately show ?thesis unfolding ys by (auto simp del: less_eq_prod_simp)
qed

lemma consume_oldest_cases:
  assumes "consume_oldest now target consumer d = Some (a, d')"
  obtains k where "k \<in> set (key_packages d)" "kp_available now target k" "a = consumed now consumer k"
    "d' = d\<lparr>key_packages := update_where (\<lambda>j. kp_id j = kp_id k) (consumed now consumer) (key_packages d)\<rparr>"
    "oldest_available now target d = Some k"
  using assms by (auto simp: consume_oldest_def split: option.splits dest: oldest_availableD)

lemma consume_oldest_row:
  assumes "consume_oldest now target consumer d = Some (a, d')"
  shows "\<exists>k :: key_package. d' = d\<lparr>key_packages :=
    update_where (\<lambda>j. kp_id j = kp_id k) (consumed now consumer) (key_packages d)\<rparr>"
  by (rule consume_oldest_cases [OF assms]) blast

lemma consume_oldest_effect:
  assumes "unique_on kp_id (key_packages d)"
    and "consume_oldest now target consumer d = Some (a, d')"
  shows "kp_id a \<in> kp_id ` set (filter (kp_available now target) (key_packages d))"
    and "kp_id ` set (filter (kp_available t dev) (key_packages d'))
      = kp_id ` set (filter (kp_available t dev) (key_packages d)) - {kp_id a}"
    and "unique_on kp_id (key_packages d')"
proof -
  from assms(2) obtain k where k: "k \<in> set (key_packages d)" "kp_available now target k"
    and a: "a = consumed now consumer k"
    and d': "key_packages d'
      = update_where (\<lambda>j. kp_id j = kp_id k) (consumed now consumer) (key_packages d)"
    by (rule consume_oldest_cases) simp
  show "kp_id a \<in> kp_id ` set (filter (kp_available now target) (key_packages d))"
    using k by (simp add: a)
  show "unique_on kp_id (key_packages d')"
    using assms(1) by (simp add: d' column_update_where)
  have gone: "kp_available t dev (consumed now consumer j) = False" for j
    by (simp add: kp_available_def)
  show "kp_id ` set (filter (kp_available t dev) (key_packages d'))
      = kp_id ` set (filter (kp_available t dev) (key_packages d)) - {kp_id a}"
    by (auto simp: d' a update_where_def gone)
qed

lemma take_key_package_consumes:
  "take_key_package u target c now d = Some (a, d') \<Longrightarrow> consume_oldest now target c d = Some (a, d')"
  by (simp add: take_key_package_def split: if_splits)

lemma take_for_room_consumes:
  "take_key_package_for_room r u target c now d = Some (a, d') \<Longrightarrow>
   consume_oldest now target c d = Some (a, d')"
  by (simp add: take_key_package_for_room_def split: if_splits)

abbreviation available_ids :: "uuid \<Rightarrow> instant \<Rightarrow> db \<Rightarrow> uuid set" where
  "available_ids dev t d \<equiv> kp_id ` set (filter (kp_available t dev) (key_packages d))"

text \<open>Both ways of taking a key package hand every one out once.\<close>

lemmas take_effect = consume_oldest_effect [OF _ take_key_package_consumes]
lemmas take_for_room_effect = consume_oldest_effect [OF _ take_for_room_consumes]

interpretation packages: one_time_store "take_key_package consumer_user target consumer"
  "available_ids target" kp_id "\<lambda>d. unique_on kp_id (key_packages d)"
  for consumer_user target consumer
  by unfold_locales (rule take_effect, assumption, assumption)+

interpretation room_packages: one_time_store
  "take_key_package_for_room room consumer_user target consumer"
  "available_ids target" kp_id "\<lambda>d. unique_on kp_id (key_packages d)"
  for room consumer_user target consumer
  by unfold_locales (rule take_for_room_effect, assumption, assumption)+

section \<open>Every operation keeps the invariant and the bound\<close>

text \<open>From the instant \<open>t\<close> on, no device has more than 500 available key packages.\<close>

definition stock_bounded :: "instant \<Rightarrow> db \<Rightarrow> bool" where
  "stock_bounded t d \<longleftrightarrow> (\<forall>dev. available_count t dev d \<le> max_available_key_packages)"

lemma available_later: "t \<le> t' \<Longrightarrow> available_count t' dev d \<le> available_count t dev d"
  unfolding available_count_def by (rule length_filter_mono) (simp add: kp_available_def)

lemma stock_bounded_later: "stock_bounded t d \<Longrightarrow> t \<le> t' \<Longrightarrow> stock_bounded t' d"
  unfolding stock_bounded_def using available_later order_trans by meson

lemma insert_key_package_cases:
  assumes "insert_key_package k d = Inr (n, d')"
  obtains (skip) "n = 0" "d' = d"
    | (new) "n = 1" "key_package_row_ok k" "\<not> exists_row (\<lambda>j. kp_ref j = kp_ref k) (key_packages d)"
      "\<not> exists_row (\<lambda>j. kp_id j = kp_id k) (key_packages d)"
      "exists_row (\<lambda>x. dev_id x = kp_device k) (devices d)"
      "d' = d\<lparr>key_packages := key_packages d @ [k]\<rparr>"
proof (cases "exists_row (\<lambda>j. kp_ref j = kp_ref k) (key_packages d)")
  case True
  with assms have "n = 0" "d' = d" by (simp_all add: insert_key_package_def split: if_splits)
  then show ?thesis by (rule skip)
next
  case False
  with assms have "n = 1" "key_package_row_ok k" "\<not> exists_row (\<lambda>j. kp_id j = kp_id k) (key_packages d)"
    "exists_row (\<lambda>x. dev_id x = kp_device k) (devices d)"
    "d' = d\<lparr>key_packages := key_packages d @ [k]\<rparr>"
    by (simp_all add: insert_key_package_def split: if_splits)
  with False new show ?thesis by blast
qed

lemma insert_key_packages_effect:
  assumes "insert_key_packages now dev ps n d = Inr (m, d')" and "key_packages_wf d"
  shows "key_packages_wf d' \<and> (\<exists>ks. d' = d\<lparr>key_packages := key_packages d @ ks\<rparr> \<and> m = n + length ks
    \<and> (\<forall>k \<in> set ks. kp_device k = dev))"
  using assms
proof (induction ps arbitrary: n d)
  case Nil
  then have "m = n" "d' = d" by simp_all
  show ?case
    unfolding \<open>m = n\<close> \<open>d' = d\<close> by (rule conjI [OF Nil.prems(2)], rule exI [of _ "[]"]) simp
next
  case (Cons p ps)
  let ?k = "new_row now dev p"
  obtain i d1 where i: "insert_key_package ?k d = Inr (i, d1)"
    and rest: "insert_key_packages now dev ps (n + i) d1 = Inr (m, d')"
    using Cons.prems(1) by (auto split: sum.splits)
  from i show ?case
  proof (cases rule: insert_key_package_cases)
    case skip
    with Cons.IH [OF rest] Cons.prems(2) show ?thesis by simp
  next
    case new
    have "key_packages_wf d1"
      using Cons.prems(2) new(2-5) unfolding key_packages_wf_def new(6) by auto
    from Cons.IH [OF rest this] obtain ks where ks: "key_packages_wf d'"
      "d' = d1\<lparr>key_packages := key_packages d1 @ ks\<rparr>" "m = n + i + length ks"
      "\<forall>k \<in> set ks. kp_device k = dev" by blast
    have "d' = d\<lparr>key_packages := key_packages d @ (?k # ks)\<rparr> \<and> m = n + length (?k # ks)
        \<and> (\<forall>k \<in> set (?k # ks). kp_device k = dev)"
      using ks(2-4) new(1) unfolding new(6) by (simp add: new_row_def)
    with ks(1) show ?thesis by blast
  qed
qed

lemma publish_effect:
  assumes wf: "key_packages_wf d" and ok: "publish_key_packages user dev ps now d = Inr (n, d')"
  shows "key_packages_wf d'" and "\<exists>x. find_user_device user dev d = Some x \<and> dev_status x = DeviceActive"
    and "\<exists>ks. d' = d\<lparr>key_packages := key_packages d @ ks\<rparr> \<and> n = length ks \<and> (\<forall>k \<in> set ks. kp_device k = dev)"
    and "available_count now dev d' \<le> max_available_key_packages"
proof -
  from ok have ins: "insert_key_packages now dev ps 0 d = Inr (n, d')"
    and *: "\<exists>x. find_user_device user dev d = Some x \<and> dev_status x = DeviceActive"
      "available_count now dev d' \<le> max_available_key_packages"
    by (auto simp: publish_key_packages_def from_sqlx_def split: option.splits if_splits sum.splits)
  from insert_key_packages_effect [OF ins wf] *
  show "key_packages_wf d'" "\<exists>x. find_user_device user dev d = Some x \<and> dev_status x = DeviceActive"
    "\<exists>ks. d' = d\<lparr>key_packages := key_packages d @ ks\<rparr> \<and> n = length ks \<and> (\<forall>k \<in> set ks. kp_device k = dev)"
    "available_count now dev d' \<le> max_available_key_packages"
    by auto
qed

lemma publish_bounded:
  assumes "key_packages_wf d" "publish_key_packages user dev ps now d = Inr (n, d')"
    and "stock_bounded now d"
  shows "stock_bounded now d'"
  unfolding stock_bounded_def
proof
  fix dev'
  obtain ks where ks: "d' = d\<lparr>key_packages := key_packages d @ ks\<rparr>" "\<forall>k \<in> set ks. kp_device k = dev"
    using publish_effect(3) [OF assms(1,2)] by auto
  show "available_count now dev' d' \<le> max_available_key_packages"
  proof (cases "dev' = dev")
    case True
    then show ?thesis using publish_effect(4) [OF assms(1,2)] by simp
  next
    case False
    then have "filter (kp_available now dev') ks = []"
      using ks(2) by (auto simp: filter_empty_conv kp_available_def)
    then show ?thesis using assms(3) by (simp add: ks(1) stock_bounded_def available_count_def)
  qed
qed

lemma consume_wf:
  assumes wf: "key_packages_wf d" and ok: "consume_oldest now target consumer d = Some (a, d')"
  shows "key_packages_wf d'"
proof -
  from consume_oldest_row [OF ok] obtain k :: key_package where k: "d' = d\<lparr>key_packages :=
      update_where (\<lambda>j. kp_id j = kp_id k) (consumed now consumer) (key_packages d)\<rparr>" ..
  let ?ks = "update_where (\<lambda>j. kp_id j = kp_id k) (consumed now consumer) (key_packages d)"
  have "map kp_ref ?ks = map kp_ref (key_packages d)" "map kp_id ?ks = map kp_id (key_packages d)"
    by (simp_all add: column_update_where)
  moreover have "key_package_row_ok j \<and> exists_row (\<lambda>x. dev_id x = kp_device j) (devices d)"
    if "j \<in> set ?ks" for j
    using wf that by (auto simp: key_packages_wf_def update_where_def consumed_row_ok)
  ultimately show ?thesis using wf by (simp add: key_packages_wf_def k)
qed

lemma consume_bounded:
  assumes ok: "consume_oldest now target consumer d = Some (a, d')" and "stock_bounded t d"
  shows "stock_bounded t d'"
proof -
  from consume_oldest_row [OF ok] obtain k :: key_package where k: "d' = d\<lparr>key_packages :=
      update_where (\<lambda>j. kp_id j = kp_id k) (consumed now consumer) (key_packages d)\<rparr>" ..
  have "length (filter (kp_available t dev) (map (\<lambda>j. if P j then consumed now consumer j else j) ks))
      \<le> length (filter (kp_available t dev) ks)" for P dev ks
    by (induction ks) (auto simp: kp_available_def)
  then have "available_count t dev d' \<le> available_count t dev d" for dev
    by (simp add: available_count_def k update_where_def)
  with assms(2) show ?thesis unfolding stock_bounded_def using order_trans by meson
qed

text \<open>The tables of key packages and of devices are only tied by the foreign key.\<close>

lemma key_packages_wf_devices:
  "key_packages_wf d \<Longrightarrow> key_packages d' = key_packages d \<Longrightarrow>
   dev_id ` set (devices d) \<subseteq> dev_id ` set (devices d') \<Longrightarrow> key_packages_wf d'"
  by (fastforce simp: key_packages_wf_def)

lemma stock_bounded_frame:
  "stock_bounded t d \<Longrightarrow> key_packages d' = key_packages d \<Longrightarrow> stock_bounded t d'"
  by (simp add: stock_bounded_def available_count_def)

end
