(* ===== verification/ControlLog.thy ===== *)
theory ControlLog
  imports Devices
begin

text \<open>
  The queue of Commit and Welcome messages of a room and its epoch:
  \<open>api/src/database/e2ee_control_store.rs\<close> with the constraints of \<open>e2ee_room_epochs\<close>,
  \<open>e2ee_control_messages\<close> and \<open>e2ee_control_receipts\<close>.  The sequence behind \<open>sequence_no\<close>
  advances only with a message that stays; in PostgreSQL a rolled-back insert leaves a gap,
  which no operation can tell from the gaps that other rooms leave.  \<open>control_wf\<close> is the
  invariant; it is an instance of \<open>bump_closed\<close>.
\<close>

section \<open>The operations\<close>

definition get_room_epoch :: "uuid \<Rightarrow> uuid \<Rightarrow> db \<Rightarrow> room_epoch result" where
  "get_room_epoch room user d =
     (case fetch_optional (\<lambda>e. ep_room e = room \<and> is_user_in_room (ep_room e) user d) (room_epochs d) of
        None \<Rightarrow> Inl (NotFound ''room E2EE state'')
      | Some e \<Rightarrow> Inr e)"

record control_input =
  ci_id :: uuid
  ci_epoch :: int
  ci_revision :: int
  ci_sender :: uuid
  ci_recipient :: "uuid option"
  ci_type :: string
  ci_envelope :: bytes
  ci_idem :: uuid

text \<open>An active device whose owner, \<open>user\<close>, is in the room.\<close>

definition device_in_room :: "uuid \<Rightarrow> uuid \<Rightarrow> uuid \<Rightarrow> db \<Rightarrow> bool" where
  "device_in_room room user dev d \<longleftrightarrow>
     exists_row (\<lambda>x. dev_id x = dev \<and> dev_user x = user \<and> dev_status x = DeviceActive
       \<and> is_user_in_room room (dev_user x) d) (devices d)"

definition trusted_device_in_room :: "uuid \<Rightarrow> uuid \<Rightarrow> db \<Rightarrow> bool" where
  "trusted_device_in_room room dev d \<longleftrightarrow>
     exists_row (\<lambda>x. dev_id x = dev \<and> dev_status x = DeviceActive
       \<and> is_user_in_room room (dev_user x) d) (devices d)"

definition control_message_matches :: "control_message \<Rightarrow> control_input \<Rightarrow> bool" where
  "control_message_matches m inp \<longleftrightarrow>
     cm_id m = ci_id inp \<and> cm_epoch m = ci_epoch inp \<and> cm_revision m = ci_revision inp
     \<and> cm_sender m = ci_sender inp \<and> cm_recipient m = ci_recipient inp
     \<and> cm_type m = ci_type inp \<and> cm_envelope m = ci_envelope inp \<and> cm_idem m = ci_idem inp"

definition control_row_ok :: "control_message \<Rightarrow> bool" where
  "control_row_ok m \<longleftrightarrow> 0 < cm_epoch m \<and> 0 < cm_revision m
     \<and> (cm_type m = ''commit'' \<or> cm_type m = ''welcome'')
     \<and> size_between 12 16777227 (cm_envelope m)"

definition insert_control_message :: "control_message \<Rightarrow> db \<Rightarrow> sqlx_error + db" where
  "insert_control_message m d =
     (if \<not> control_row_ok m then Inl CheckViolation
      else if exists_row (\<lambda>n. cm_id n = cm_id m) (control_messages d) then Inl UniqueViolation
      else if exists_row (\<lambda>n. cm_room n = cm_room m \<and> cm_idem n = cm_idem m) (control_messages d)
      then Inl UniqueViolation
      else Inr (d\<lparr>control_messages := control_messages d @ [m], control_seq := control_seq d + 1\<rparr>))"

text \<open>\<open>INSERT INTO e2ee_control_receipts ... ON CONFLICT DO NOTHING\<close>.\<close>

definition insert_receipt :: "uuid \<Rightarrow> uuid \<Rightarrow> control_receipt list \<Rightarrow> control_receipt list" where
  "insert_receipt msg dev rs =
     (if exists_row (\<lambda>r. rc_message r = msg \<and> rc_recipient r = dev) rs then rs
      else rs @ [\<lparr>rc_message = msg, rc_recipient = dev, rc_delivered = None, rc_consumed = None\<rparr>])"

definition commit_recipients :: "uuid \<Rightarrow> uuid \<Rightarrow> db \<Rightarrow> uuid list" where
  "commit_recipients room sender d =
     map dev_id (filter (\<lambda>x. is_user_in_room room (dev_user x) d \<and> dev_status x = DeviceActive
       \<and> dev_id x \<noteq> sender) (devices d))"

text \<open>The check on the kind and the epoch of a message against the room's state.\<close>

definition check_control_epoch :: "room_epoch \<Rightarrow> control_input \<Rightarrow> unit result" where
  "check_control_epoch st inp =
     (if ci_type inp = ''commit'' then
        if ci_epoch inp = ep_active st + 1 then Inr ()
        else Inl (MessageRuntimeConflict ''commit epoch'')
      else if ci_type inp = ''welcome'' then
        if 0 < ep_active st \<and> ci_epoch inp = ep_active st then Inr ()
        else Inl (MessageRuntimeConflict ''welcome epoch'')
      else Inl (ValidationError ''control message type''))"

definition existing_control_message :: "uuid \<Rightarrow> control_input \<Rightarrow> db \<Rightarrow> control_message option" where
  "existing_control_message room inp d =
     fetch_optional (\<lambda>m. (cm_room m = room \<and> cm_idem m = ci_idem inp) \<or> cm_id m = ci_id inp)
       (control_messages d)"

definition activate_epoch :: "instant \<Rightarrow> uuid \<Rightarrow> int \<Rightarrow> db \<Rightarrow> db" where
  "activate_epoch now room ep d =
     d\<lparr>room_epochs := update_where (\<lambda>e. ep_room e = room)
        (\<lambda>e. e\<lparr>ep_active := ep, ep_status := EpochActive, ep_updated := now\<rparr>) (room_epochs d)\<rparr>"

definition control_row :: "instant \<Rightarrow> uuid \<Rightarrow> control_input \<Rightarrow> int \<Rightarrow> control_message" where
  "control_row now room inp n =
     \<lparr>cm_id = ci_id inp, cm_room = room, cm_epoch = ci_epoch inp, cm_revision = ci_revision inp,
      cm_sender = ci_sender inp, cm_recipient = ci_recipient inp, cm_type = ci_type inp,
      cm_envelope = ci_envelope inp, cm_idem = ci_idem inp, cm_seq = n, cm_created = now\<rparr>"

text \<open>A Commit activates its epoch and is addressed to the room's other devices.\<close>

definition after_commit :: "instant \<Rightarrow> uuid \<Rightarrow> control_input \<Rightarrow> control_message \<Rightarrow> db \<Rightarrow> db" where
  "after_commit now room inp m d =
     (let d2 = activate_epoch now room (ci_epoch inp) d in
      d2\<lparr>control_receipts :=
        fold (insert_receipt (cm_id m)) (commit_recipients room (ci_sender inp) d2) (control_receipts d2)\<rparr>)"

definition after_welcome :: "control_input \<Rightarrow> control_message \<Rightarrow> db \<Rightarrow> db" where
  "after_welcome inp m d =
     (case ci_recipient inp of
        Some r \<Rightarrow> d\<lparr>control_receipts := insert_receipt (cm_id m) r (control_receipts d)\<rparr>
      | None \<Rightarrow> d)"

definition submit_control_message ::
  "uuid \<Rightarrow> uuid \<Rightarrow> control_input \<Rightarrow> instant \<Rightarrow> db \<Rightarrow> (control_message \<times> db) result" where
  "submit_control_message room user inp now d =
     (if \<not> device_in_room room user (ci_sender inp) d
      then Inl (Forbidden ''sending device'')
      else if (case ci_recipient inp of None \<Rightarrow> False | Some r \<Rightarrow> \<not> trusted_device_in_room room r d)
      then Inl (Forbidden ''receiving device'')
      else case epoch_row room d of
        None \<Rightarrow> Inl (NotFound ''room E2EE state'')
      | Some st \<Rightarrow>
     (case existing_control_message room inp d of
        Some m \<Rightarrow>
          if cm_room m = room \<and> control_message_matches m inp then Inr (m, d)
          else Inl (MessageRuntimeConflict ''id or idempotency_key is taken'')
      | None \<Rightarrow>
          if ep_revision st \<noteq> ci_revision inp then Inl (MessageRuntimeConflict ''membership revision'')
          else case check_control_epoch st inp of
            Inl e \<Rightarrow> Inl e
          | Inr _ \<Rightarrow>
              let m = control_row now room inp (control_seq d)
              in case from_sqlx (insert_control_message m d) of
                Inl e \<Rightarrow> Inl e
              | Inr d1 \<Rightarrow>
                  Inr (m, if ci_type inp = ''commit'' then after_commit now room inp m d1
                          else after_welcome inp m d1)))"

text \<open>\<open>LIMIT\<close> refuses a negative count.\<close>

definition addressed_to :: "uuid \<Rightarrow> uuid \<Rightarrow> int \<Rightarrow> db \<Rightarrow> control_message list" where
  "addressed_to room dev after d =
     sort_key cm_seq (filter (\<lambda>m. cm_room m = room \<and> after < cm_seq m
       \<and> exists_row (\<lambda>r. rc_message r = cm_id m \<and> rc_recipient r = dev) (control_receipts d))
       (control_messages d))"

definition mark_delivered :: "instant \<Rightarrow> uuid \<Rightarrow> uuid list \<Rightarrow> db \<Rightarrow> db" where
  "mark_delivered now dev ids d =
     d\<lparr>control_receipts := update_where (\<lambda>r. rc_recipient r = dev \<and> rc_message r \<in> set ids)
        (\<lambda>r. r\<lparr>rc_delivered := (case rc_delivered r of None \<Rightarrow> Some now | Some t \<Rightarrow> Some t)\<rparr>)
        (control_receipts d)\<rparr>"

definition list_control_messages ::
  "uuid \<Rightarrow> uuid \<Rightarrow> uuid \<Rightarrow> int \<Rightarrow> int \<Rightarrow> instant \<Rightarrow> db \<Rightarrow> (control_message list \<times> db) result" where
  "list_control_messages room user dev after limit now d =
     (if \<not> device_in_room room user dev d then Inl (Forbidden ''receiving device'')
      else if limit < 0 then Inl (DatabaseError (ProtocolError ''LIMIT must not be negative''))
      else
        let ms = take (nat limit) (addressed_to room dev after d) in
        Inr (ms, if ms = [] then d else mark_delivered now dev (map cm_id ms) d))"

definition receipt_row_ok :: "control_receipt \<Rightarrow> bool" where
  "receipt_row_ok r = (case rc_consumed r of
     None \<Rightarrow> True
   | Some c \<Rightarrow> (case rc_delivered r of None \<Rightarrow> False | Some t \<Rightarrow> t \<le> c))"

definition consume_receipt :: "instant \<Rightarrow> control_receipt \<Rightarrow> control_receipt" where
  "consume_receipt now r =
     r\<lparr>rc_consumed := (case rc_consumed r of None \<Rightarrow> Some now | Some t \<Rightarrow> Some t)\<rparr>"

definition consumable :: "uuid \<Rightarrow> uuid \<Rightarrow> uuid \<Rightarrow> uuid \<Rightarrow> db \<Rightarrow> control_receipt \<Rightarrow> bool" where
  "consumable room user dev msg d r \<longleftrightarrow> rc_message r = msg \<and> rc_recipient r = dev
     \<and> exists_row (\<lambda>m. cm_id m = msg \<and> cm_room m = room) (control_messages d)
     \<and> is_active_device user dev d \<and> rc_delivered r \<noteq> None \<and> is_user_in_room room user d"

definition consume_control_message ::
  "uuid \<Rightarrow> uuid \<Rightarrow> uuid \<Rightarrow> uuid \<Rightarrow> instant \<Rightarrow> db \<Rightarrow> (unit \<times> db) result" where
  "consume_control_message room user dev msg now d =
     (let rs = update_where (consumable room user dev msg d) (consume_receipt now) (control_receipts d)
      in if \<not> list_all receipt_row_ok rs then Inl (DatabaseError CheckViolation)
         else if rows_affected (consumable room user dev msg d) (control_receipts d) = 0
         then Inl (NotFound ''control message'')
         else Inr ((), d\<lparr>control_receipts := rs\<rparr>))"

definition validate_application_send_conn ::
  "uuid \<Rightarrow> uuid \<Rightarrow> uuid \<Rightarrow> int \<Rightarrow> uuid \<Rightarrow> db \<Rightarrow> unit result" where
  "validate_application_send_conn room user sender ep control_id d =
     (if \<not> is_active_device user sender d then Inl (Forbidden ''sending device is not trusted'')
      else case epoch_row room d of
        None \<Rightarrow> Inl (MessageRuntimeConflict ''room has no epoch'')
      | Some st \<Rightarrow>
          if ep_status st \<noteq> EpochActive then Inl (MessageRuntimeConflict ''room needs a rekey'')
          else if ep_active st \<noteq> ep then Inl (MessageRuntimeConflict ''message epoch'')
          else if \<not> exists_row (\<lambda>m. cm_id m = control_id \<and> cm_room m = room \<and> cm_type m = ''commit''
                   \<and> cm_epoch m = ep \<and> cm_revision m = ep_revision st) (control_messages d)
          then Inl (MessageRuntimeConflict ''control_message_id is not the current Commit'')
          else Inr ())"

section \<open>The invariant\<close>

definition commits :: "uuid \<Rightarrow> db \<Rightarrow> control_message list" where
  "commits room d = filter (\<lambda>m. cm_room m = room \<and> cm_type m = ''commit'') (control_messages d)"

text \<open>Messages have one id and one idempotency key in their room, and increasing numbers.\<close>

definition log_wf :: "db \<Rightarrow> bool" where
  "log_wf d \<longleftrightarrow> unique_on cm_id (control_messages d)
     \<and> unique_on (\<lambda>m. (cm_room m, cm_idem m)) (control_messages d)
     \<and> sorted_wrt (<) (map cm_seq (control_messages d))
     \<and> (\<forall>m \<in> set (control_messages d). cm_seq m < control_seq d \<and> control_row_ok m)"

text \<open>
  The Commits of a room are numbered from 1 to its active epoch without gap or fork, no message
  is ahead of the room's revision, and an active room has a Commit of its active epoch that was
  made at its current revision.
\<close>

definition epoch_log_ok :: "control_message list \<Rightarrow> room_epoch \<Rightarrow> bool" where
  "epoch_log_ok ms e \<longleftrightarrow> 1 \<le> ep_revision e \<and> 0 \<le> ep_active e
     \<and> map cm_epoch (filter (\<lambda>m. cm_type m = ''commit'') ms) = [1..ep_active e]
     \<and> (\<forall>m \<in> set ms. cm_revision m \<le> ep_revision e)
     \<and> (ep_status e = EpochActive \<longrightarrow>
         (\<exists>m \<in> set ms. cm_type m = ''commit'' \<and> cm_epoch m = ep_active e
            \<and> cm_revision m = ep_revision e))"

abbreviation room_messages :: "uuid \<Rightarrow> db \<Rightarrow> control_message list" where
  "room_messages room d \<equiv> filter (\<lambda>m. cm_room m = room) (control_messages d)"

definition epochs_wf :: "db \<Rightarrow> bool" where
  "epochs_wf d \<longleftrightarrow> unique_on ep_room (room_epochs d)
     \<and> (\<forall>r. epoch_row r d = None \<longrightarrow> room_messages r d = [])
     \<and> (\<forall>r e. epoch_row r d = Some e \<longrightarrow> epoch_log_ok (room_messages r d) e)"

definition receipts_wf :: "db \<Rightarrow> bool" where
  "receipts_wf d \<longleftrightarrow> unique_on (\<lambda>r. (rc_message r, rc_recipient r)) (control_receipts d)
     \<and> (\<forall>r \<in> set (control_receipts d). receipt_row_ok r
         \<and> exists_row (\<lambda>m. cm_id m = rc_message r) (control_messages d))"

definition control_wf :: "db \<Rightarrow> bool" where
  "control_wf d \<longleftrightarrow> log_wf d \<and> epochs_wf d \<and> receipts_wf d"

lemma commits_room: "commits r d = filter (\<lambda>m. cm_type m = ''commit'') (room_messages r d)"
  by (simp add: commits_def conj_commute)

lemma epoch_log_okD:
  "epochs_wf d \<Longrightarrow> epoch_row r d = Some e \<Longrightarrow> epoch_log_ok (room_messages r d) e"
  by (simp add: epochs_wf_def)

lemma epoch_none_log: "epochs_wf d \<Longrightarrow> epoch_row r d = None \<Longrightarrow> room_messages r d = []"
  by (simp add: epochs_wf_def)

lemma epochs_wfI:
  assumes "unique_on ep_room (room_epochs d)"
    and "\<And>r. epoch_row r d = None \<Longrightarrow> room_messages r d = []"
    and "\<And>r e. epoch_row r d = Some e \<Longrightarrow> epoch_log_ok (room_messages r d) e"
  shows "epochs_wf d"
  using assms by (simp add: epochs_wf_def)

lemma epoch_log_ok_bump: "epoch_log_ok ms e \<Longrightarrow> epoch_log_ok ms (bump_epoch now e)"
  by (auto simp: epoch_log_ok_def bump_epoch_def split: epoch_status.splits)

lemma epoch_log_ok_fresh: "epoch_log_ok [] (fresh_epoch now r)"
  by (simp add: epoch_log_ok_def fresh_epoch_def)

lemma epoch_log_ok_rekey: "epoch_log_ok ms e \<Longrightarrow> epoch_log_ok ms (e\<lparr>ep_status := RekeyRequired, ep_updated := t\<rparr>)"
  by (simp add: epoch_log_ok_def)

lemma bump_fields:
  "control_messages (bump_membership_revision now room d) = control_messages d"
  "control_receipts (bump_membership_revision now room d) = control_receipts d"
  "control_seq (bump_membership_revision now room d) = control_seq d"
  by (simp_all add: bump_membership_revision_def)

lemma unique_epochs_bump:
  "unique_on ep_room (room_epochs d) \<Longrightarrow> unique_on ep_room (room_epochs (bump_membership_revision now room d))"
  by (auto simp: bump_membership_revision_def column_update_where)

lemma epochs_wf_bump:
  assumes wf: "epochs_wf d" shows "epochs_wf (bump_membership_revision now room d)"
proof (rule epochs_wfI)
  show "unique_on ep_room (room_epochs (bump_membership_revision now room d))"
    using wf by (intro unique_epochs_bump) (simp add: epochs_wf_def)
next
  fix r assume "epoch_row r (bump_membership_revision now room d) = None"
  then show "room_messages r (bump_membership_revision now room d) = []"
    using epoch_none_log [OF wf] by (simp add: bump_fields epoch_row_bump split: if_splits)
next
  fix r e assume e: "epoch_row r (bump_membership_revision now room d) = Some e"
  show "epoch_log_ok (room_messages r (bump_membership_revision now room d)) e"
  proof (cases "r = room \<and> room_exists room d")
    case True
    show ?thesis
    proof (cases "epoch_row room d")
      case None
      then show ?thesis
        using e True epoch_none_log [OF wf None] epoch_log_ok_fresh [of now room]
        by (simp add: bump_fields epoch_row_bump)
    next
      case (Some x)
      then show ?thesis using e True epoch_log_ok_bump [OF epoch_log_okD [OF wf Some], of now]
        by (simp add: bump_fields epoch_row_bump)
    qed
  next
    case False
    then have "epoch_row r d = Some e" using e by (auto simp: epoch_row_bump split: if_splits)
    then show ?thesis using epoch_log_okD [OF wf] by (simp add: bump_fields)
  qed
qed

lemma control_wf_bump: "control_wf d \<Longrightarrow> control_wf (bump_membership_revision now room d)"
  by (simp add: control_wf_def epochs_wf_bump log_wf_def receipts_wf_def bump_fields)

lemma control_wf_frame:
  assumes "control_wf d" "room_epochs d' = room_epochs d" "control_messages d' = control_messages d"
    "control_receipts d' = control_receipts d" "control_seq d' = control_seq d"
  shows "control_wf d'"
  using assms by (simp add: control_wf_def log_wf_def epochs_wf_def receipts_wf_def epoch_row_def)

interpretation control_membership: bump_closed control_wf
  by unfold_locales (auto simp: e2ee_view_def intro: control_wf_frame control_wf_bump)

lemma epoch_row_rekey:
  "epoch_row r (rekey_rooms_of now user P d) = map_option (\<lambda>e.
     if exists_row (\<lambda>m. mb_room m = ep_room e \<and> mb_user m = user \<and> mb_deleted m = None) (room_members d) \<and> P e
     then e\<lparr>ep_status := RekeyRequired, ep_updated := now\<rparr> else e) (epoch_row r d)"
  by (simp add: epoch_row_def rekey_rooms_of_def fetch_update_where)

lemma control_wf_rekey:
  assumes "control_wf d" shows "control_wf (rekey_rooms_of now user P d)"
proof -
  have wf: "epochs_wf d" using assms by (simp add: control_wf_def)
  have "epochs_wf (rekey_rooms_of now user P d)"
  proof (rule epochs_wfI)
    show "unique_on ep_room (room_epochs (rekey_rooms_of now user P d))"
      using wf by (simp add: epochs_wf_def rekey_rooms_of_def column_update_where)
  next
    fix r assume "epoch_row r (rekey_rooms_of now user P d) = None"
    then show "room_messages r (rekey_rooms_of now user P d) = []"
      using epoch_none_log [OF wf] by (simp add: epoch_row_rekey)
  next
    fix r e assume "epoch_row r (rekey_rooms_of now user P d) = Some e"
    then show "epoch_log_ok (room_messages r (rekey_rooms_of now user P d)) e"
      using epoch_log_okD [OF wf, of r] epoch_log_ok_rekey
      by (auto simp: epoch_row_rekey split: if_splits)
  qed
  then show ?thesis
    using assms by (simp add: control_wf_def log_wf_def receipts_wf_def)
qed

section \<open>Submitting a control message\<close>

lemma control_row_fields [simp]:
  "cm_id (control_row now room inp n) = ci_id inp" "cm_room (control_row now room inp n) = room"
  "cm_epoch (control_row now room inp n) = ci_epoch inp"
  "cm_revision (control_row now room inp n) = ci_revision inp"
  "cm_sender (control_row now room inp n) = ci_sender inp"
  "cm_type (control_row now room inp n) = ci_type inp"
  "cm_idem (control_row now room inp n) = ci_idem inp" "cm_seq (control_row now room inp n) = n"
  "control_message_matches (control_row now room inp n) inp"
  by (simp_all add: control_row_def control_message_matches_def)

definition may_submit :: "uuid \<Rightarrow> uuid \<Rightarrow> control_input \<Rightarrow> db \<Rightarrow> bool" where
  "may_submit room user inp d \<longleftrightarrow> device_in_room room user (ci_sender inp) d
     \<and> (case ci_recipient inp of None \<Rightarrow> True | Some r \<Rightarrow> trusted_device_in_room room r d)"

definition log_append :: "control_message \<Rightarrow> db \<Rightarrow> db" where
  "log_append m d = d\<lparr>control_messages := control_messages d @ [m], control_seq := control_seq d + 1\<rparr>"

lemma insert_control_message_Inr: "insert_control_message m d = Inr d' \<longleftrightarrow>
    control_row_ok m \<and> \<not> exists_row (\<lambda>n. cm_id n = cm_id m) (control_messages d)
    \<and> \<not> exists_row (\<lambda>n. cm_room n = cm_room m \<and> cm_idem n = cm_idem m) (control_messages d)
    \<and> d' = log_append m d"
  by (auto simp: insert_control_message_def log_append_def)

definition fresh_control :: "control_message \<Rightarrow> db \<Rightarrow> bool" where
  "fresh_control m d \<longleftrightarrow> control_row_ok m
     \<and> \<not> exists_row (\<lambda>n. cm_id n = cm_id m) (control_messages d)
     \<and> \<not> exists_row (\<lambda>n. cm_room n = cm_room m \<and> cm_idem n = cm_idem m) (control_messages d)"

lemma insert_control_fresh: "insert_control_message m d = Inr d' \<longleftrightarrow> fresh_control m d \<and> d' = log_append m d"
  by (auto simp: insert_control_message_Inr fresh_control_def)

lemma check_control_epoch_Inr: "check_control_epoch st inp = Inr u \<longleftrightarrow>
    (ci_type inp = ''commit'' \<and> ci_epoch inp = ep_active st + 1)
    \<or> (ci_type inp = ''welcome'' \<and> 0 < ep_active st \<and> ci_epoch inp = ep_active st)"
  by (auto simp: check_control_epoch_def)

text \<open>The three ways in which a submission succeeds.\<close>

lemma submit_cases:
  assumes "submit_control_message room user inp now d = Inr (m, d')"
  obtains (again) st where "may_submit room user inp d" "epoch_row room d = Some st"
      "existing_control_message room inp d = Some m" "cm_room m = room"
      "control_message_matches m inp" "d' = d"
    | (commit) st where "may_submit room user inp d" "epoch_row room d = Some st"
      "existing_control_message room inp d = None" "ep_revision st = ci_revision inp"
      "ci_type inp = ''commit''" "ci_epoch inp = ep_active st + 1"
      "m = control_row now room inp (control_seq d)" "fresh_control m d"
      "d' = after_commit now room inp m (log_append m d)"
    | (invite) st where "may_submit room user inp d" "epoch_row room d = Some st"
      "existing_control_message room inp d = None" "ep_revision st = ci_revision inp"
      "ci_type inp = ''welcome''" "0 < ep_active st" "ci_epoch inp = ep_active st"
      "m = control_row now room inp (control_seq d)" "fresh_control m d"
      "d' = after_welcome inp m (log_append m d)"
proof -
  have may: "may_submit room user inp d"
    using assms by (auto simp: submit_control_message_def may_submit_def split: if_splits option.splits)
  then have guards: "device_in_room room user (ci_sender inp) d"
    "\<not> (case ci_recipient inp of None \<Rightarrow> False | Some r \<Rightarrow> \<not> trusted_device_in_room room r d)"
    by (auto simp: may_submit_def split: option.splits)
  from assms guards obtain st where st: "epoch_row room d = Some st"
    by (cases "epoch_row room d") (simp_all add: submit_control_message_def)
  note main = assms [unfolded submit_control_message_def]
  show thesis
  proof (cases "existing_control_message room inp d")
    case (Some x)
    with main guards st have "x = m" "cm_room m = room" "control_message_matches m inp" "d' = d"
      by (simp_all split: if_splits)
    with may st Some that(1) show ?thesis by blast
  next
    case None
    let ?m = "control_row now room inp (control_seq d)"
    from None main guards st have rev: "ep_revision st = ci_revision inp"
      by (simp split: if_splits)
    from None main guards st rev obtain u where u: "check_control_epoch st inp = Inr u"
      by (cases "check_control_epoch st inp") simp_all
    from None main guards st rev u obtain d1 where ins: "insert_control_message ?m d = Inr d1"
      by (cases "insert_control_message ?m d") (simp_all add: Let_def)
    then have fresh: "fresh_control ?m d" "d1 = log_append ?m d" by (simp_all add: insert_control_fresh)
    from None main guards st rev u ins fresh(2)
    have m: "m = ?m" and d': "d' = (if ci_type inp = ''commit''
        then after_commit now room inp ?m (log_append ?m d) else after_welcome inp ?m (log_append ?m d))"
      by (simp_all add: Let_def)
    from u consider "ci_type inp = ''commit'' \<and> ci_epoch inp = ep_active st + 1"
      | "ci_type inp = ''welcome'' \<and> 0 < ep_active st \<and> ci_epoch inp = ep_active st"
      by (auto simp: check_control_epoch_Inr)
    then show ?thesis
    proof cases
      case 1
      with that(2) [OF may st None rev] fresh(1) m d' show ?thesis by simp
    next
      case 2
      with that(3) [OF may st None rev] fresh(1) m d' show ?thesis by simp
    qed
  qed
qed

text \<open>Appending a fresh message.\<close>

lemma log_append_fields [simp]:
  "control_messages (log_append m d) = control_messages d @ [m]"
  "control_receipts (log_append m d) = control_receipts d"
  "control_seq (log_append m d) = control_seq d + 1"
  "room_epochs (log_append m d) = room_epochs d" "room_members (log_append m d) = room_members d"
  "devices (log_append m d) = devices d" "users (log_append m d) = users d"
  "identities (log_append m d) = identities d" "key_packages (log_append m d) = key_packages d"
  "rooms (log_append m d) = rooms d"
  by (simp_all add: log_append_def)

lemma epoch_row_append [simp]: "epoch_row r (log_append m d) = epoch_row r d"
  by (simp add: epoch_row_def)

lemma log_wf_append:
  assumes "log_wf d" "fresh_control m d" "cm_seq m = control_seq d"
  shows "log_wf (log_append m d)"
  using assms
  by (auto simp: log_wf_def fresh_control_def sorted_wrt_append less_le_trans intro: less_trans)

lemma insert_receipt_mono: "r \<in> set rs \<Longrightarrow> r \<in> set (insert_receipt m x rs)"
  by (simp add: insert_receipt_def)

lemma insert_receipt_has: "exists_row (\<lambda>r. rc_message r = m \<and> rc_recipient r = x) (insert_receipt m x rs)"
  by (auto simp: insert_receipt_def)

definition receipts_ok :: "control_message list \<Rightarrow> control_receipt list \<Rightarrow> bool" where
  "receipts_ok ms rs \<longleftrightarrow> unique_on (\<lambda>r. (rc_message r, rc_recipient r)) rs
     \<and> (\<forall>r \<in> set rs. receipt_row_ok r \<and> exists_row (\<lambda>m. cm_id m = rc_message r) ms)"

lemma receipts_wf_alt: "receipts_wf d = receipts_ok (control_messages d) (control_receipts d)"
  by (simp add: receipts_wf_def receipts_ok_def)

lemma insert_receipt_ok:
  assumes "receipts_ok ms rs" "exists_row (\<lambda>n. cm_id n = i) ms"
  shows "receipts_ok ms (insert_receipt i x rs)"
  using assms by (auto simp: insert_receipt_def receipts_ok_def receipt_row_ok_def)

lemma insert_receipts_ok:
  "receipts_ok ms rs \<Longrightarrow> exists_row (\<lambda>n. cm_id n = i) ms \<Longrightarrow>
   receipts_ok ms (fold (insert_receipt i) xs rs)"
  by (induction xs arbitrary: rs) (simp_all add: insert_receipt_ok)

lemma receipts_ok_append: "receipts_ok ms rs \<Longrightarrow> receipts_ok (ms @ [m]) rs"
  by (auto simp: receipts_ok_def)

lemma insert_receipts_mono: "r \<in> set rs \<Longrightarrow> r \<in> set (fold (insert_receipt m) xs rs)"
  by (induction xs arbitrary: rs) (simp_all add: insert_receipt_mono)

lemma insert_receipts_has:
  "x \<in> set xs \<Longrightarrow> exists_row (\<lambda>r. rc_message r = m \<and> rc_recipient r = x) (fold (insert_receipt m) xs rs)"
proof (induction xs arbitrary: rs)
  case (Cons y ys)
  show ?case
  proof (cases "x = y")
    case True
    then obtain r where "r \<in> set (insert_receipt m y rs)" "rc_message r = m" "rc_recipient r = x"
      using insert_receipt_has by meson
    then show ?thesis using insert_receipts_mono by fastforce
  next
    case False
    then show ?thesis using Cons by simp
  qed
qed simp

lemma insert_receipts_only:
  "r \<in> set (fold (insert_receipt m) xs rs) \<Longrightarrow> r \<in> set rs \<or> (rc_message r = m \<and> rc_recipient r \<in> set xs)"
proof (induction xs arbitrary: rs)
  case (Cons x xs)
  then have "r \<in> set (insert_receipt m x rs) \<or> (rc_message r = m \<and> rc_recipient r \<in> set xs)"
    by simp
  then show ?case by (auto simp: insert_receipt_def split: if_splits)
qed simp

text \<open>What the acceptance of a Commit or a Welcome does to the state.\<close>

lemma after_commit_fields [simp]:
  "control_messages (after_commit now room inp m d) = control_messages d"
  "control_seq (after_commit now room inp m d) = control_seq d"
  "room_members (after_commit now room inp m d) = room_members d"
  "devices (after_commit now room inp m d) = devices d"
  "users (after_commit now room inp m d) = users d"
  "identities (after_commit now room inp m d) = identities d"
  "key_packages (after_commit now room inp m d) = key_packages d"
  "rooms (after_commit now room inp m d) = rooms d"
  by (simp_all add: after_commit_def activate_epoch_def Let_def)

lemma commit_recipients_activate [simp]:
  "commit_recipients room sender (activate_epoch now r ep d) = commit_recipients room sender d"
  by (simp add: commit_recipients_def activate_epoch_def is_user_in_room_def)

lemma commit_recipients_append [simp]:
  "commit_recipients room sender (log_append m d) = commit_recipients room sender d"
  by (simp add: commit_recipients_def is_user_in_room_def)

lemma receipts_after_commit:
  "control_receipts (after_commit now room inp m d)
   = fold (insert_receipt (cm_id m)) (commit_recipients room (ci_sender inp) d) (control_receipts d)"
  by (simp add: after_commit_def Let_def) (simp add: activate_epoch_def)

lemma epoch_row_after_commit:
  "epoch_row r (after_commit now room inp m d) =
     (if r = room then map_option
        (\<lambda>e. e\<lparr>ep_active := ci_epoch inp, ep_status := EpochActive, ep_updated := now\<rparr>) (epoch_row r d)
      else epoch_row r d)"
  by (simp add: epoch_row_def after_commit_def activate_epoch_def Let_def fetch_key_update)

lemma after_welcome_fields [simp]:
  "control_messages (after_welcome inp m d) = control_messages d"
  "control_seq (after_welcome inp m d) = control_seq d"
  "room_epochs (after_welcome inp m d) = room_epochs d"
  "room_members (after_welcome inp m d) = room_members d"
  "devices (after_welcome inp m d) = devices d"
  "users (after_welcome inp m d) = users d"
  "identities (after_welcome inp m d) = identities d"
  "key_packages (after_welcome inp m d) = key_packages d"
  "rooms (after_welcome inp m d) = rooms d"
  by (simp_all add: after_welcome_def split: option.split)

lemma epoch_row_after_welcome [simp]: "epoch_row r (after_welcome inp m d) = epoch_row r d"
  by (simp add: epoch_row_def)

lemma epoch_log_ok_commit:
  assumes "epoch_log_ok ms st" "cm_type m = ''commit''" "cm_epoch m = ep_active st + 1"
    "cm_revision m = ep_revision st"
  shows "epoch_log_ok (ms @ [m])
    (st\<lparr>ep_active := cm_epoch m, ep_status := EpochActive, ep_updated := now\<rparr>)"
proof -
  have "0 \<le> ep_active st" using assms(1) by (simp add: epoch_log_ok_def)
  then have "[1..ep_active st + 1] = [1..ep_active st] @ [ep_active st + 1]"
    by (simp add: upto_rec2)
  then show ?thesis
    using assms by (auto simp: epoch_log_ok_def)
qed

lemma epoch_log_ok_welcome:
  assumes "epoch_log_ok ms st" "cm_type m = ''welcome''" "cm_revision m = ep_revision st"
  shows "epoch_log_ok (ms @ [m]) st"
  using assms by (auto simp: epoch_log_ok_def)

lemma room_messages_append:
  "room_messages r (log_append m d) = room_messages r d @ (if cm_room m = r then [m] else [])"
  by simp

lemma epochs_wf_commit:
  assumes wf: "epochs_wf d" and st: "epoch_row room d = Some st" and rev: "ep_revision st = ci_revision inp"
    and ty: "ci_type inp = ''commit''" and ep: "ci_epoch inp = ep_active st + 1"
    and m: "m = control_row now room inp n"
  shows "epochs_wf (after_commit now room inp m (log_append m d))"
proof (rule epochs_wfI)
  show "unique_on ep_room (room_epochs (after_commit now room inp m (log_append m d)))"
    using wf by (simp add: epochs_wf_def after_commit_def activate_epoch_def Let_def column_update_where)
next
  fix r assume "epoch_row r (after_commit now room inp m (log_append m d)) = None"
  then have "epoch_row r d = None" "r \<noteq> room"
    using st by (auto simp: epoch_row_after_commit split: if_splits)
  then show "room_messages r (after_commit now room inp m (log_append m d)) = []"
    using epoch_none_log [OF wf] by (simp add: m)
next
  fix r e assume e: "epoch_row r (after_commit now room inp m (log_append m d)) = Some e"
  show "epoch_log_ok (room_messages r (after_commit now room inp m (log_append m d))) e"
  proof (cases "r = room")
    case True
    then have "e = st\<lparr>ep_active := cm_epoch m, ep_status := EpochActive, ep_updated := now\<rparr>"
      using e st by (simp add: epoch_row_after_commit m)
    moreover have "epoch_log_ok (room_messages room d @ [m])
        (st\<lparr>ep_active := cm_epoch m, ep_status := EpochActive, ep_updated := now\<rparr>)"
      by (rule epoch_log_ok_commit [OF epoch_log_okD [OF wf st]]) (simp_all add: m ty ep rev)
    ultimately show ?thesis using True by (simp add: m)
  next
    case False
    then show ?thesis using e epoch_log_okD [OF wf, of r e] by (simp add: epoch_row_after_commit m)
  qed
qed

lemma epochs_wf_welcome:
  assumes wf: "epochs_wf d" and st: "epoch_row room d = Some st" and rev: "ep_revision st = ci_revision inp"
    and ty: "ci_type inp = ''welcome''" and m: "m = control_row now room inp n"
  shows "epochs_wf (after_welcome inp m (log_append m d))"
proof (rule epochs_wfI)
  show "unique_on ep_room (room_epochs (after_welcome inp m (log_append m d)))"
    using wf by (simp add: epochs_wf_def)
next
  fix r assume "epoch_row r (after_welcome inp m (log_append m d)) = None"
  then show "room_messages r (after_welcome inp m (log_append m d)) = []"
    using epoch_none_log [OF wf, of r] st by (auto simp: m)
next
  fix r e assume e: "epoch_row r (after_welcome inp m (log_append m d)) = Some e"
  show "epoch_log_ok (room_messages r (after_welcome inp m (log_append m d))) e"
  proof (cases "r = room")
    case True
    then have "e = st" using e st by simp
    moreover have "epoch_log_ok (room_messages room d @ [m]) st"
      by (rule epoch_log_ok_welcome [OF epoch_log_okD [OF wf st]]) (simp_all add: m ty rev)
    ultimately show ?thesis using True by (simp add: m)
  next
    case False
    then show ?thesis using e epoch_log_okD [OF wf, of r e] by (simp add: m)
  qed
qed

lemma control_wf_submit:
  assumes wf: "control_wf d" and ok: "submit_control_message room user inp now d = Inr (m, d')"
  shows "control_wf d'"
proof -
  have lw: "log_wf d" and ew: "epochs_wf d"
    and rw: "receipts_ok (control_messages d) (control_receipts d)"
    using wf by (simp_all add: control_wf_def receipts_wf_alt)
  have rw': "receipts_ok (control_messages (log_append m d)) (control_receipts d)"
    using receipts_ok_append [OF rw] by simp
  have has: "exists_row (\<lambda>n. cm_id n = cm_id m) (control_messages (log_append m d))" by simp
  from ok show ?thesis
  proof (cases rule: submit_cases)
    case (again st)
    then show ?thesis using wf by simp
  next
    case (commit st)
    have "log_wf (log_append m d)"
      by (rule log_wf_append [OF lw commit(8)]) (simp add: commit(7))
    then have "log_wf d'" by (simp add: commit(9) log_wf_def)
    moreover have "epochs_wf d'"
      unfolding commit(9) by (rule epochs_wf_commit [OF ew commit(2,4,5,6,7)])
    moreover have "receipts_wf d'"
      using insert_receipts_ok [OF rw' has]
      by (simp add: commit(9) receipts_wf_alt receipts_after_commit)
    ultimately show ?thesis by (simp add: control_wf_def)
  next
    case (invite st)
    have "log_wf (log_append m d)"
      by (rule log_wf_append [OF lw invite(9)]) (simp add: invite(8))
    then have "log_wf d'" by (simp add: invite(10) log_wf_def)
    moreover have "epochs_wf d'"
      unfolding invite(10) by (rule epochs_wf_welcome [OF ew invite(2,4,5,8)])
    moreover have "receipts_wf d'"
      using insert_receipt_ok [OF rw' has] rw'
      by (auto simp: invite(10) receipts_wf_alt after_welcome_def split: option.split)
    ultimately show ?thesis by (simp add: control_wf_def)
  qed
qed

section \<open>Delivery and consumption\<close>

lemma mark_delivered_fields [simp]:
  "control_messages (mark_delivered now dev ids d) = control_messages d"
  "control_seq (mark_delivered now dev ids d) = control_seq d"
  "room_epochs (mark_delivered now dev ids d) = room_epochs d"
  "room_members (mark_delivered now dev ids d) = room_members d"
  "devices (mark_delivered now dev ids d) = devices d"
  "users (mark_delivered now dev ids d) = users d"
  "identities (mark_delivered now dev ids d) = identities d"
  "key_packages (mark_delivered now dev ids d) = key_packages d"
  "rooms (mark_delivered now dev ids d) = rooms d"
  by (simp_all add: mark_delivered_def)

lemma receipts_mark_delivered:
  "control_receipts (mark_delivered now dev ids d) =
     update_where (\<lambda>r. rc_recipient r = dev \<and> rc_message r \<in> set ids)
       (\<lambda>r. r\<lparr>rc_delivered := (case rc_delivered r of None \<Rightarrow> Some now | Some t \<Rightarrow> Some t)\<rparr>)
       (control_receipts d)"
  by (simp add: mark_delivered_def)

lemma receipts_ok_update:
  assumes "receipts_ok ms rs"
    and "\<And>r. rc_message (f r) = rc_message r \<and> rc_recipient (f r) = rc_recipient r"
    and "\<And>r. r \<in> set rs \<Longrightarrow> P r \<Longrightarrow> receipt_row_ok (f r)"
  shows "receipts_ok ms (update_where P f rs)"
proof -
  have "map (\<lambda>r. (rc_message r, rc_recipient r)) (update_where P f rs)
      = map (\<lambda>r. (rc_message r, rc_recipient r)) rs"
    using assms(2) by (simp add: column_update_where)
  moreover have "receipt_row_ok r \<and> exists_row (\<lambda>m. cm_id m = rc_message r) ms"
    if "r \<in> set (update_where P f rs)" for r
    using assms that by (auto simp: receipts_ok_def update_where_def)
  ultimately show ?thesis using assms(1) by (simp add: receipts_ok_def)
qed

lemma control_wf_list:
  assumes wf: "control_wf d"
    and ok: "list_control_messages room user dev after limit now d = Inr (ms, d')"
  shows "control_wf d'"
proof -
  have ro: "receipts_ok (control_messages d) (control_receipts d)"
    using wf by (simp add: control_wf_def receipts_wf_alt)
  have "receipts_ok (control_messages d) (control_receipts (mark_delivered now dev ids d))" for ids
    unfolding receipts_mark_delivered
    by (rule receipts_ok_update [OF ro])
      (use ro in \<open>auto simp: receipts_ok_def receipt_row_ok_def split: option.splits\<close>)
  then have "receipts_wf (mark_delivered now dev ids d)" for ids by (simp add: receipts_wf_alt)
  then have "control_wf (mark_delivered now dev ids d)" for ids
    using wf by (simp add: control_wf_def log_wf_def epochs_wf_def epoch_row_def)
  with ok wf show ?thesis
    by (auto simp: list_control_messages_def Let_def split: if_splits)
qed

lemma consume_control_Inr: "consume_control_message room user dev msg now d = Inr (u, d') \<longleftrightarrow>
    exists_row (consumable room user dev msg d) (control_receipts d)
    \<and> list_all receipt_row_ok
        (update_where (consumable room user dev msg d) (consume_receipt now) (control_receipts d))
    \<and> d' = d\<lparr>control_receipts :=
        update_where (consumable room user dev msg d) (consume_receipt now) (control_receipts d)\<rparr>"
  unfolding consume_control_message_def Let_def rows_affected_0 by auto

lemma control_wf_consume:
  assumes wf: "control_wf d" and ok: "consume_control_message room user dev msg now d = Inr (u, d')"
  shows "control_wf d'"
proof -
  let ?P = "consumable room user dev msg d"
  from ok have d': "d' = d\<lparr>control_receipts := update_where ?P (consume_receipt now) (control_receipts d)\<rparr>"
    and rows: "list_all receipt_row_ok (control_receipts d')"
    by (simp_all add: consume_control_Inr)
  have ro: "receipts_ok (control_messages d) (control_receipts d)"
    using wf by (simp add: control_wf_def receipts_wf_alt)
  have "receipts_ok (control_messages d) (update_where ?P (consume_receipt now) (control_receipts d))"
  proof (rule receipts_ok_update [OF ro])
    show "receipt_row_ok (consume_receipt now r)" if "r \<in> set (control_receipts d)" "?P r" for r
      using rows that by (auto simp: d' list_all_iff update_where_def)
  qed (simp add: consume_receipt_def)
  then show ?thesis
    using wf by (simp add: control_wf_def receipts_wf_alt log_wf_def epochs_wf_def epoch_row_def d')
qed

lemma submit_again:
  assumes "may_submit room user inp d" "epoch_row room d \<noteq> None"
    and "existing_control_message room inp d = Some m" "cm_room m = room" "control_message_matches m inp"
  shows "submit_control_message room user inp now d = Inr (m, d)"
  using assms by (auto simp: submit_control_message_def may_submit_def split: option.splits)

lemma may_submit_frame:
  "devices d' = devices d \<Longrightarrow> room_members d' = room_members d \<Longrightarrow>
   may_submit room user inp d' = may_submit room user inp d"
  by (simp add: may_submit_def device_in_room_def trusted_device_in_room_def is_user_in_room_def
      split: option.split)

lemma existing_appended:
  assumes "existing_control_message room inp d = None"
  shows "fetch_optional (\<lambda>m. (cm_room m = room \<and> cm_idem m = ci_idem inp) \<or> cm_id m = ci_id inp)
    (control_messages d @ [control_row now room inp n]) = Some (control_row now room inp n)"
  using assms by (intro fetch_inserted) (auto simp: existing_control_message_def find_None_iff)

lemma submit_retry:
  assumes "submit_control_message room user inp t d = Inr (m, d')"
  shows "submit_control_message room user inp t' d' = Inr (m, d')"
  using assms
proof (cases rule: submit_cases)
  case (again st)
  then show ?thesis by (intro submit_again) simp_all
next
  case (commit st)
  show ?thesis
  proof (rule submit_again)
    show "may_submit room user inp d'" using commit(1) by (subst may_submit_frame [of _ d]) (simp_all add: commit(9))
    show "epoch_row room d' \<noteq> None" using commit(2) by (simp add: commit(9) epoch_row_after_commit)
    show "existing_control_message room inp d' = Some m"
      using existing_appended [OF commit(3)] by (simp add: existing_control_message_def commit(7,9))
  qed (simp_all add: commit(7))
next
  case (invite st)
  show ?thesis
  proof (rule submit_again)
    show "may_submit room user inp d'" using invite(1) by (subst may_submit_frame [of _ d]) (simp_all add: invite(10))
    show "epoch_row room d' \<noteq> None" using invite(2) by (simp add: invite(10))
    show "existing_control_message room inp d' = Some m"
      using existing_appended [OF invite(3)] by (simp add: existing_control_message_def invite(8,10))
  qed (simp_all add: invite(8))
qed

interpretation submit: retryable "submit_control_message room user inp" for room user inp
  by unfold_locales (rule submit_retry)

section \<open>Reading the queue page by page\<close>

lemma sorted_filter_after_page:
  assumes "sorted_wrt (<) (map k ys)" "0 < n" "ys \<noteq> []"
  shows "filter (\<lambda>y. (k (last (take n ys)) :: int) < k y) ys = drop n ys"
proof -
  let ?l = "last (take n ys)"
  have ne: "take n ys \<noteq> []" using assms(2,3) by simp
  have split: "sorted_wrt (<) (map k (take n ys) @ map k (drop n ys))"
    using assms(1) by (metis append_take_drop_id map_append)
  then have later: "k ?l < k y" if "y \<in> set (drop n ys)" for y
    using that ne by (auto simp: sorted_wrt_append)
  have "sorted_wrt (<) (map k (butlast (take n ys) @ [?l]))"
    using split ne by (simp add: sorted_wrt_append)
  then have "k y < k ?l" if "y \<in> set (butlast (take n ys))" for y
    using that by (auto simp: sorted_wrt_append)
  then have earlier: "\<not> k ?l < k y" if "y \<in> set (take n ys)" for y
    using that ne by (metis append_butlast_last_id less_asym less_irrefl rotate1.simps(2)
        set_ConsD set_rotate1)
  have "filter (\<lambda>y. k ?l < k y) (take n ys) = []" "filter (\<lambda>y. k ?l < k y) (drop n ys) = drop n ys"
    using earlier later by (simp_all add: filter_empty_conv filter_id_conv)
  then show ?thesis by (metis append_Nil append_take_drop_id filter_append)
qed

lemma log_in_order:
  assumes "log_wf d"
  shows "addressed_to room dev after d = filter (\<lambda>m. cm_room m = room \<and> after < cm_seq m
    \<and> exists_row (\<lambda>r. rc_message r = cm_id m \<and> rc_recipient r = dev) (control_receipts d))
    (control_messages d)" (is "_ = filter ?P _")
    and "sorted_wrt (<) (map cm_seq (addressed_to room dev after d))"
proof -
  have s: "sorted_wrt (<) (map cm_seq (control_messages d))" using assms by (simp add: log_wf_def)
  then have sf: "sorted_wrt (<) (map cm_seq (filter ?P (control_messages d)))"
    unfolding sorted_wrt_map by (rule sorted_wrt_filter)
  then have "sorted (map cm_seq (filter ?P (control_messages d)))"
    by (rule strict_sorted_imp_sorted)
  then show *: "addressed_to room dev after d = filter ?P (control_messages d)"
    unfolding addressed_to_def by (rule sort_key_id_if_sorted)
  show "sorted_wrt (<) (map cm_seq (addressed_to room dev after d))" unfolding * by (rule sf)
qed

lemma addressed_to_delivered [simp]:
  "addressed_to room dev after (mark_delivered now dv ids d) = addressed_to room dev after d"
proof -
  have "exists_row (\<lambda>r. rc_message r = i \<and> rc_recipient r = dev) (control_receipts (mark_delivered now dv ids d))
      = exists_row (\<lambda>r. rc_message r = i \<and> rc_recipient r = dev) (control_receipts d)" for i
    unfolding receipts_mark_delivered exists_update_where by auto
  then show ?thesis by (simp add: addressed_to_def)
qed

lemma device_in_room_delivered [simp]:
  "device_in_room room user dev (mark_delivered now dv ids d) = device_in_room room user dev d"
  by (simp add: device_in_room_def is_user_in_room_def)

lemma log_wf_delivered [simp]: "log_wf (mark_delivered now dv ids d) = log_wf d"
  by (simp add: log_wf_def)

text \<open>A client that asks for the messages after the last one it has, until it gets none.\<close>

fun pull_pages :: "nat \<Rightarrow> uuid \<Rightarrow> uuid \<Rightarrow> uuid \<Rightarrow> int \<Rightarrow> int \<Rightarrow> instant \<Rightarrow> db \<Rightarrow> control_message list" where
  "pull_pages 0 room user dev after limit now d = []"
| "pull_pages (Suc n) room user dev after limit now d =
     (case list_control_messages room user dev after limit now d of
        Inl _ \<Rightarrow> []
      | Inr (ms, d') \<Rightarrow>
          if ms = [] then []
          else ms @ pull_pages n room user dev (cm_seq (last ms)) limit now d')"

lemma addressed_after_page:
  assumes wf: "log_wf d" and n: "0 < n" and ne: "addressed_to room dev after d \<noteq> []"
  shows "addressed_to room dev (cm_seq (last (take n (addressed_to room dev after d)))) d
    = drop n (addressed_to room dev after d)"
proof -
  let ?ys = "addressed_to room dev after d"
  define l where "l = cm_seq (last (take n ?ys))"
  have "take n ?ys \<noteq> []" using n ne by simp
  then have "last (take n ?ys) \<in> set ?ys" by (meson in_set_takeD last_in_set)
  then have after: "after < l" unfolding l_def log_in_order(1) [OF wf] by simp
  have "addressed_to room dev l d = filter (\<lambda>y. l < cm_seq y) ?ys"
    unfolding log_in_order(1) [OF wf] filter_filter
    using after by (intro filter_cong) auto
  also have "\<dots> = drop n ?ys"
    unfolding l_def by (rule sorted_filter_after_page [OF log_in_order(2) [OF wf] n ne])
  finally show ?thesis unfolding l_def .
qed

lemma pull_pages_all:
  assumes "log_wf d" "device_in_room room user dev d" "0 < limit"
    and "length (addressed_to room dev after d) < n"
  shows "pull_pages n room user dev after limit now d = addressed_to room dev after d"
  using assms
proof (induction n arbitrary: after d)
  case (Suc n)
  let ?ys = "addressed_to room dev after d" and ?k = "nat limit"
  have l: "list_control_messages room user dev after limit now d
      = Inr (take ?k ?ys, if take ?k ?ys = [] then d else mark_delivered now dev (map cm_id (take ?k ?ys)) d)"
    using Suc.prems by (simp add: list_control_messages_def Let_def)
  show ?case
  proof (cases "?ys = []")
    case True
    then show ?thesis using l by simp
  next
    case False
    let ?d' = "mark_delivered now dev (map cm_id (take ?k ?ys)) d"
    have k: "0 < ?k" using Suc.prems(3) by simp
    have ne: "take ?k ?ys \<noteq> []" using False k by simp
    have pos: "0 < length ?ys" using False by simp
    have rest: "addressed_to room dev (cm_seq (last (take ?k ?ys))) ?d' = drop ?k ?ys"
      using addressed_after_page [OF Suc.prems(1) k False] by simp
    have "pull_pages n room user dev (cm_seq (last (take ?k ?ys))) limit now ?d' = drop ?k ?ys"
      unfolding rest [symmetric]
      by (rule Suc.IH) (use Suc.prems rest k pos in \<open>simp_all, linarith\<close>)
    then show ?thesis using l ne by simp
  qed
qed simp

end
