(* ===== verification/E2eeSystem.thy ===== *)
theory E2eeSystem
  imports KeyPackages ControlLog
begin

text \<open>
  The encryption service as one state machine: every store operation of \<open>Devices\<close>,
  \<open>KeyPackages\<close>, \<open>ControlLog\<close> and \<open>Membership\<close> is a call, a run is a sequence of calls at
  non-decreasing instants, and a call that fails leaves the database as it was (its transaction
  is rolled back).  The invariants of the four components hold in every reachable state; the
  properties that span components follow from them.
\<close>

section \<open>Calls and runs\<close>

datatype e2ee_call =
    Register uuid register_input
  | Approve uuid uuid uuid
  | Revoke uuid uuid
  | Publish uuid uuid "new_key_package list"
  | Take uuid uuid uuid
  | TakeForRoom uuid uuid uuid uuid
  | Submit uuid uuid control_input
  | ListControl uuid uuid uuid int int
  | Consume uuid uuid uuid uuid
  | AddMember uuid uuid "member_role option"
  | RemoveMember uuid uuid
  | CreateRoom uuid uuid string "room_type option" "uuid list"
  | Dissolve uuid uuid
  | Transfer uuid uuid uuid

definition state_after :: "db \<Rightarrow> 'e + ('a \<times> db) \<Rightarrow> db" where
  "state_after d r = (case r of Inl _ \<Rightarrow> d | Inr (_, d') \<Rightarrow> d')"

lemma state_after_simps [simp]:
  "state_after d (Inl e) = d" "state_after d (Inr (a, d')) = d'"
  by (simp_all add: state_after_def)

lemma state_after_cases: "(\<And>a d'. r = Inr (a, d') \<Longrightarrow> P d') \<Longrightarrow> P d \<Longrightarrow> P (state_after d r)"
  by (cases r) (auto simp: state_after_def)

definition taken :: "db \<Rightarrow> ('a \<times> db) option \<Rightarrow> db" where
  "taken d r = (case r of None \<Rightarrow> d | Some (_, d') \<Rightarrow> d')"

lemma taken_cases: "(\<And>a d'. r = Some (a, d') \<Longrightarrow> P d') \<Longrightarrow> P d \<Longrightarrow> P (taken d r)"
  by (cases r) (auto simp: taken_def)

fun perform :: "e2ee_call \<Rightarrow> instant \<Rightarrow> db \<Rightarrow> db" where
  "perform (Register u inp) t d = state_after d (register_device u inp t d)"
| "perform (Approve u a b) t d = state_after d (approve_device u a b t d)"
| "perform (Revoke u i) t d = state_after d (revoke_device u i t d)"
| "perform (Publish u i ps) t d = state_after d (publish_key_packages u i ps t d)"
| "perform (Take u i c) t d = taken d (take_key_package u i c t d)"
| "perform (TakeForRoom r u i c) t d = taken d (take_key_package_for_room r u i c t d)"
| "perform (Submit r u inp) t d = state_after d (submit_control_message r u inp t d)"
| "perform (ListControl r u i a l) t d = state_after d (list_control_messages r u i a l t d)"
| "perform (Consume r u i m) t d = state_after d (consume_control_message r u i m t d)"
| "perform (AddMember r u role) t d = state_after d (add_member t r u role d)"
| "perform (RemoveMember r u) t d = snd (remove_member t r u d)"
| "perform (CreateRoom r u n ty ids) t d = state_after d (create_room_with_members t r u n ty ids d)"
| "perform (Dissolve r u) t d = snd (dissolve_room_rows t r u d)"
| "perform (Transfer r u v) t d = state_after d (transfer_room_owner_rows r u v d)"

fun run :: "(instant \<times> e2ee_call) list \<Rightarrow> db \<Rightarrow> db" where
  "run [] d = d"
| "run ((t, c) # tcs) d = run tcs (perform c t d)"

inductive reachable :: "uuid list \<Rightarrow> instant \<Rightarrow> db \<Rightarrow> bool" for us :: "uuid list" where
  start: "reachable us t (empty_db\<lparr>users := us\<rparr>)"
| call: "reachable us t d \<Longrightarrow> t \<le> t' \<Longrightarrow> reachable us t' (perform c t' d)"

inductive_cases reachable_elims: "reachable us t d"

section \<open>The invariant of the tables\<close>

definition tables_ok :: "instant \<Rightarrow> db \<Rightarrow> bool" where
  "tables_ok t d \<longleftrightarrow> devices_wf d \<and> key_packages_wf d \<and> control_wf d \<and> stock_bounded t d"

lemma tables_frame: "e2ee_view d = e2ee_view d' \<Longrightarrow> tables_ok t d \<Longrightarrow> tables_ok t d'"
  using control_wf_frame [of d d'] stock_bounded_frame [of t d d']
    key_packages_wf_devices [of d d']
  by (simp add: tables_ok_def e2ee_view_def devices_wf_def device_keys_def)

lemma bump_view: "\<exists>x. bump_membership_revision now room d = d\<lparr>room_epochs := x\<rparr>"
proof (cases "bump_membership_revision now room d = d")
  case True
  have "d = d\<lparr>room_epochs := room_epochs d\<rparr>" by simp
  with True show ?thesis by metis
next
  case False
  then show ?thesis by (auto simp: bump_membership_revision_def split: if_splits)
qed

lemma tables_bump: "tables_ok t d \<Longrightarrow> tables_ok t (bump_membership_revision now room d)"
proof -
  assume ok: "tables_ok t d"
  obtain x where x: "bump_membership_revision now room d = d\<lparr>room_epochs := x\<rparr>"
    using bump_view by blast
  have "control_wf (d\<lparr>room_epochs := x\<rparr>)"
    using control_wf_bump [of d now room] ok x by (simp add: tables_ok_def)
  then show ?thesis
    using ok by (simp add: x tables_ok_def devices_wf_def device_keys_def key_packages_wf_def
        stock_bounded_def available_count_def)
qed

interpretation tables: bump_closed "tables_ok t" for t
  by unfold_locales (auto intro: tables_frame tables_bump)

lemma tables_later: "tables_ok t d \<Longrightarrow> t \<le> t' \<Longrightarrow> tables_ok t' d"
  by (auto simp: tables_ok_def intro: stock_bounded_later)

section \<open>Every call keeps the invariant\<close>

lemma register_frame:
  assumes "register_device u inp t d = Inr (x, d')"
  shows "key_packages d' = key_packages d \<and> room_epochs d' = room_epochs d
    \<and> control_messages d' = control_messages d \<and> control_receipts d' = control_receipts d
    \<and> control_seq d' = control_seq d \<and> rooms d' = rooms d \<and> room_members d' = room_members d
    \<and> set (devices d) \<subseteq> set (devices d')"
  using assms
  by (cases rule: register_device_cases) (auto simp: insert_device_Inr insert_identity_Inr)

lemma approve_frame:
  assumes "approve_device u a b t d = Inr (x, d')"
  shows "key_packages d' = key_packages d \<and> rooms d' = rooms d \<and> room_members d' = room_members d
    \<and> map dev_id (devices d') = map dev_id (devices d) \<and> (control_wf d \<longrightarrow> control_wf d')"
  using assms
proof (cases rule: approve_device_cases)
  case (approve p q)
  then show ?thesis
    using control_wf_rekey control_wf_frame
      [of d "d\<lparr>devices := update_where (\<lambda>x. dev_id x = b) (approved a t) (devices d)\<rparr>"]
    by (simp add: column_update_where)
qed simp

lemma revoke_frame:
  assumes "revoke_device u i t d = Inr (x, d')"
  shows "key_packages d' = key_packages d \<and> rooms d' = rooms d \<and> room_members d' = room_members d
    \<and> map dev_id (devices d') = map dev_id (devices d) \<and> (control_wf d \<longrightarrow> control_wf d')"
  using assms
proof (cases rule: revoke_device_cases)
  case (revoke p)
  then show ?thesis
    using control_wf_rekey control_wf_frame
      [of d "d\<lparr>devices := update_where (\<lambda>x. dev_id x = i \<and> dev_user x = u) (revoked t) (devices d)\<rparr>"]
    by (simp add: column_update_where)
qed simp

lemma device_ids_image: "map dev_id xs = map dev_id ys \<Longrightarrow> dev_id ` set ys \<subseteq> dev_id ` set xs"
proof -
  assume "map dev_id xs = map dev_id ys"
  then have "set (map dev_id xs) = set (map dev_id ys)" by (rule arg_cong)
  then show ?thesis unfolding list.set_map by (rule equalityD2)
qed

lemma members_wf_frame:
  "rooms d' = rooms d \<Longrightarrow> room_members d' = room_members d \<Longrightarrow> members_wf d' = members_wf d"
  by (rule members_wf_rooms) simp_all

definition e2ee_inv :: "instant \<Rightarrow> db \<Rightarrow> bool" where
  "e2ee_inv t d \<longleftrightarrow> tables_ok t d \<and> members_wf d"

lemma inv_register:
  assumes "e2ee_inv t d" "register_device u inp t d = Inr (x, d')" shows "e2ee_inv t d'"
proof -
  note f = register_frame [OF assms(2)]
  have "devices_wf d'" using devices_wf_register assms by (auto simp: e2ee_inv_def tables_ok_def)
  moreover have "dev_id ` set (devices d) \<subseteq> dev_id ` set (devices d')" using f by (intro image_mono) simp
  ultimately show ?thesis
    using assms(1) f key_packages_wf_devices [of d d'] control_wf_frame [of d d']
      stock_bounded_frame [of t d d'] members_wf_frame [of d' d]
    by (simp add: e2ee_inv_def tables_ok_def)
qed

lemma inv_approve:
  assumes "e2ee_inv t d" "approve_device u a b t d = Inr (x, d')" shows "e2ee_inv t d'"
proof -
  note f = approve_frame [OF assms(2)]
  have "devices_wf d'" using devices_wf_approve assms by (auto simp: e2ee_inv_def tables_ok_def)
  moreover have "dev_id ` set (devices d) \<subseteq> dev_id ` set (devices d')"
    using f by (intro device_ids_image) simp
  ultimately show ?thesis
    using assms(1) f key_packages_wf_devices [of d d']
      stock_bounded_frame [of t d d'] members_wf_frame [of d' d]
    by (simp add: e2ee_inv_def tables_ok_def)
qed

lemma inv_revoke:
  assumes "e2ee_inv t d" "revoke_device u i t d = Inr (x, d')" shows "e2ee_inv t d'"
proof -
  note f = revoke_frame [OF assms(2)]
  have "devices_wf d'" using devices_wf_revoke assms by (auto simp: e2ee_inv_def tables_ok_def)
  moreover have "dev_id ` set (devices d) \<subseteq> dev_id ` set (devices d')"
    using f by (intro device_ids_image) simp
  ultimately show ?thesis
    using assms(1) f key_packages_wf_devices [of d d']
      stock_bounded_frame [of t d d'] members_wf_frame [of d' d]
    by (simp add: e2ee_inv_def tables_ok_def)
qed

text \<open>An operation that only writes key packages.\<close>

lemma inv_key_packages:
  assumes "e2ee_inv t d" "d' = d\<lparr>key_packages := ks\<rparr>" "key_packages_wf d'" "stock_bounded t d'"
  shows "e2ee_inv t d'"
  using assms control_wf_frame [of d d'] members_wf_frame [of d' d]
  by (simp add: e2ee_inv_def tables_ok_def devices_wf_def device_keys_def)

lemma inv_publish:
  assumes "e2ee_inv t d" "publish_key_packages u i ps t d = Inr (n, d')" shows "e2ee_inv t d'"
proof -
  have wf: "key_packages_wf d" "stock_bounded t d" using assms(1) by (simp_all add: e2ee_inv_def tables_ok_def)
  obtain ks where "d' = d\<lparr>key_packages := key_packages d @ ks\<rparr>" using publish_effect(3) [OF wf(1) assms(2)] by blast
  then show ?thesis
    using inv_key_packages [OF assms(1)] publish_effect(1) [OF wf(1) assms(2)]
      publish_bounded [OF wf(1) assms(2) wf(2)] by blast
qed

lemma inv_consume_package:
  assumes "e2ee_inv t d" "consume_oldest now target c d = Some (a, d')" shows "e2ee_inv t d'"
proof -
  have wf: "key_packages_wf d" "stock_bounded t d" using assms(1) by (simp_all add: e2ee_inv_def tables_ok_def)
  show ?thesis
    using consume_oldest_row [OF assms(2)] inv_key_packages [OF assms(1)]
      consume_wf [OF wf(1) assms(2)] consume_bounded [OF assms(2) wf(2)] by blast
qed

text \<open>An operation that only writes the control tables.\<close>

lemma inv_control:
  assumes "e2ee_inv t d" "control_wf d'" "devices d' = devices d" "identities d' = identities d"
    "key_packages d' = key_packages d" "rooms d' = rooms d" "room_members d' = room_members d"
  shows "e2ee_inv t d'"
  using assms stock_bounded_frame [of t d d'] members_wf_frame [of d' d]
    key_packages_wf_devices [of d d']
  by (simp add: e2ee_inv_def tables_ok_def devices_wf_def device_keys_def)

lemma submit_frame:
  assumes "submit_control_message r u inp t d = Inr (m, d')"
  shows "devices d' = devices d \<and> identities d' = identities d \<and> key_packages d' = key_packages d
    \<and> rooms d' = rooms d \<and> room_members d' = room_members d"
  using assms by (cases rule: submit_cases) simp_all

lemma list_frame:
  assumes "list_control_messages r u i a l t d = Inr (m, d')"
  shows "devices d' = devices d \<and> identities d' = identities d \<and> key_packages d' = key_packages d
    \<and> rooms d' = rooms d \<and> room_members d' = room_members d"
  using assms by (auto simp: list_control_messages_def Let_def split: if_splits)

lemma consume_frame:
  assumes "consume_control_message r u i m t d = Inr (v, d')"
  shows "devices d' = devices d \<and> identities d' = identities d \<and> key_packages d' = key_packages d
    \<and> rooms d' = rooms d \<and> room_members d' = room_members d"
  using assms by (simp add: consume_control_Inr)

text \<open>Membership operations keep the tables by the interface and the rows by their effects.\<close>

lemma inv_members:
  assumes "e2ee_inv t d"
  shows "upsert_member_conn now r u role d = Inr (m, d1) \<Longrightarrow> e2ee_inv t d1"
    and "remove_member now r u d = (b, d2) \<Longrightarrow> e2ee_inv t d2"
    and "create_room_with_members now r u n ty ids d = Inr (x, d3) \<Longrightarrow> e2ee_inv t d3"
    and "dissolve_room_rows now r u d = (b, d4) \<Longrightarrow> e2ee_inv t d4"
    and "transfer_room_owner_rows r u v d = Inr (x, d5) \<Longrightarrow> e2ee_inv t d5"
proof -
  have ok: "tables_ok t d" and wf: "members_wf d" using assms by (simp_all add: e2ee_inv_def)
  show "e2ee_inv t d1" if "upsert_member_conn now r u role d = Inr (m, d1)"
    using tables.upsert [OF ok that] upsert_member_wf [OF wf that] by (simp add: e2ee_inv_def)
  show "e2ee_inv t d2" if "remove_member now r u d = (b, d2)"
    using tables.remove [OF ok that] remove_member_wf [OF wf that] by (simp add: e2ee_inv_def)
  show "e2ee_inv t d3" if "create_room_with_members now r u n ty ids d = Inr (x, d3)"
    using tables.create [OF ok that] create_room_effect(1) [OF wf that] by (simp add: e2ee_inv_def)
  show "e2ee_inv t d4" if "dissolve_room_rows now r u d = (b, d4)"
    using tables.dissolve [OF ok that] dissolve_room_effect(1) [OF wf that] by (simp add: e2ee_inv_def)
  show "e2ee_inv t d5" if "transfer_room_owner_rows r u v d = Inr (x, d5)"
    using tables.transfer [OF ok that] transfer_effect(1) [OF wf that] by (simp add: e2ee_inv_def)
qed

lemma inv_submit: "e2ee_inv t d \<Longrightarrow> submit_control_message r u inp now d = Inr (m, d') \<Longrightarrow> e2ee_inv t d'"
  using submit_frame [of r u inp now d m d'] control_wf_submit [of d r u inp now m d']
  by (intro inv_control [of t d d']) (simp_all add: e2ee_inv_def tables_ok_def)

lemma inv_list: "e2ee_inv t d \<Longrightarrow> list_control_messages r u i a l now d = Inr (m, d') \<Longrightarrow> e2ee_inv t d'"
  using list_frame [of r u i a l now d m d'] control_wf_list [of d r u i a l now m d']
  by (intro inv_control [of t d d']) (simp_all add: e2ee_inv_def tables_ok_def)

lemma inv_consume: "e2ee_inv t d \<Longrightarrow> consume_control_message r u i m now d = Inr (v, d') \<Longrightarrow> e2ee_inv t d'"
  using consume_frame [of r u i m now d v d'] control_wf_consume [of d r u i m now v d']
  by (intro inv_control [of t d d']) (simp_all add: e2ee_inv_def tables_ok_def)

lemma inv_perform:
  assumes inv: "e2ee_inv t d" shows "e2ee_inv t (perform c t d)"
proof (cases c)
  case (Register u inp)
  show ?thesis unfolding Register perform.simps
    by (rule state_after_cases [of _ "e2ee_inv t"]) (rule inv_register [OF inv], assumption, rule inv)
next
  case (Approve u a b)
  show ?thesis unfolding Approve perform.simps
    by (rule state_after_cases [of _ "e2ee_inv t"]) (rule inv_approve [OF inv], assumption, rule inv)
next
  case (Revoke u i)
  show ?thesis unfolding Revoke perform.simps
    by (rule state_after_cases [of _ "e2ee_inv t"]) (rule inv_revoke [OF inv], assumption, rule inv)
next
  case (Publish u i ps)
  show ?thesis unfolding Publish perform.simps
    by (rule state_after_cases [of _ "e2ee_inv t"]) (rule inv_publish [OF inv], assumption, rule inv)
next
  case (Take u i x)
  show ?thesis unfolding Take perform.simps
    by (rule taken_cases [of _ "e2ee_inv t"])
      (rule inv_consume_package [OF inv take_key_package_consumes], assumption, rule inv)
next
  case (TakeForRoom r u i x)
  show ?thesis unfolding TakeForRoom perform.simps
    by (rule taken_cases [of _ "e2ee_inv t"])
      (rule inv_consume_package [OF inv take_for_room_consumes], assumption, rule inv)
next
  case (Submit r u inp)
  show ?thesis unfolding Submit perform.simps
    by (rule state_after_cases [of _ "e2ee_inv t"]) (rule inv_submit [OF inv], assumption, rule inv)
next
  case (ListControl r u i a l)
  show ?thesis unfolding ListControl perform.simps
    by (rule state_after_cases [of _ "e2ee_inv t"]) (rule inv_list [OF inv], assumption, rule inv)
next
  case (Consume r u i m)
  show ?thesis unfolding Consume perform.simps
    by (rule state_after_cases [of _ "e2ee_inv t"]) (rule inv_consume [OF inv], assumption, rule inv)
next
  case (AddMember r u role)
  show ?thesis unfolding AddMember perform.simps add_member_def
    by (rule state_after_cases [of _ "e2ee_inv t"]) (rule inv_members(1) [OF inv], assumption, rule inv)
next
  case (RemoveMember r u)
  show ?thesis unfolding RemoveMember perform.simps
    using inv_members(2) [OF inv, of t r u] by (metis prod.collapse)
next
  case (CreateRoom r u n ty ids)
  show ?thesis unfolding CreateRoom perform.simps
    by (rule state_after_cases [of _ "e2ee_inv t"]) (rule inv_members(3) [OF inv], assumption, rule inv)
next
  case (Dissolve r u)
  show ?thesis unfolding Dissolve perform.simps
    using inv_members(4) [OF inv, of t r u] by (metis prod.collapse)
next
  case (Transfer r u v)
  show ?thesis unfolding Transfer perform.simps
    by (rule state_after_cases [of _ "e2ee_inv t"]) (rule inv_members(5) [OF inv], assumption, rule inv)
qed

lemma inv_later: "e2ee_inv t d \<Longrightarrow> t \<le> t' \<Longrightarrow> e2ee_inv t' d"
  by (auto simp: e2ee_inv_def intro: tables_later)

lemma inv_start: "e2ee_inv t (empty_db\<lparr>users := us\<rparr>)"
  by (simp add: e2ee_inv_def tables_ok_def devices_wf_def device_keys_def key_packages_wf_def control_wf_def log_wf_def
      epochs_wf_def receipts_wf_def stock_bounded_def available_count_def max_available_key_packages_def
      members_wf_def unique_members_def epoch_row_def empty_db_def)

lemma reachable_inv: "reachable us t d \<Longrightarrow> e2ee_inv t d"
proof (induction rule: reachable.induct)
  case (start t)
  then show ?case by (rule inv_start)
next
  case (call t d t' c)
  show ?case by (rule inv_perform [OF inv_later [OF call(3,2)]])
qed

lemma run_reachable:
  "reachable us t d \<Longrightarrow> sorted (t # map fst tcs) \<Longrightarrow> reachable us (last (t # map fst tcs)) (run tcs d)"
proof (induction tcs arbitrary: t d)
  case (Cons p tcs)
  obtain u c where p: "p = (u, c)" by (cases p)
  with Cons.prems have "reachable us u (perform c u d)" by (intro reachable.call) auto
  with Cons p show ?case by simp
qed simp

section \<open>Rooms without an active epoch\<close>

definition room_active :: "uuid \<Rightarrow> db \<Rightarrow> bool" where
  "room_active r d = (case epoch_row r d of None \<Rightarrow> False | Some e \<Rightarrow> ep_status e = EpochActive)"

lemma room_active_bump: "\<not> room_active r d \<Longrightarrow> \<not> room_active r (bump_membership_revision now room d)"
  by (auto simp: room_active_def epoch_row_bump fresh_epoch_def bump_epoch_def
      split: option.splits if_splits epoch_status.splits)

text \<open>Membership operations never activate a room: \<open>bump_closed\<close> again.\<close>

interpretation dormant: bump_closed "\<lambda>d. \<not> room_active r d" for r
proof unfold_locales
  fix d d' :: db assume "e2ee_view d = e2ee_view d'" "\<not> room_active r d"
  then show "\<not> room_active r d'" by (simp add: e2ee_view_def room_active_def epoch_row_def)
qed (rule room_active_bump)

lemma room_active_frame: "room_epochs d' = room_epochs d \<Longrightarrow> room_active r d' = room_active r d"
  by (simp add: room_active_def epoch_row_def)

lemma room_active_rekey: "room_active r (rekey_rooms_of now u P d) \<Longrightarrow> room_active r d"
  by (auto simp: room_active_def epoch_row_rekey split: option.splits if_splits)

lemma room_active_approve:
  "approve_device u a b t d = Inr (x, d') \<Longrightarrow> room_active r d' \<Longrightarrow> room_active r d"
proof (erule approve_device_cases)
  let ?d = "d\<lparr>devices := update_where (\<lambda>x. dev_id x = b) (approved a t) (devices d)\<rparr>"
  assume d': "d' = rekey_rooms_of t u (\<lambda>e. ep_status e = EpochActive) ?d" and "room_active r d'"
  then have "room_active r ?d" using room_active_rekey by blast
  then show ?thesis using room_active_frame [of ?d d r] by simp
qed simp

lemma room_active_revoke:
  "revoke_device u i t d = Inr (x, d') \<Longrightarrow> room_active r d' \<Longrightarrow> room_active r d"
proof (erule revoke_device_cases)
  let ?d = "d\<lparr>devices := update_where (\<lambda>x. dev_id x = i \<and> dev_user x = u) (revoked t) (devices d)\<rparr>"
  assume d': "d' = rekey_rooms_of t u (\<lambda>_. True) ?d" and "room_active r d'"
  then have "room_active r ?d" using room_active_rekey by blast
  then show ?thesis using room_active_frame [of ?d d r] by simp
qed simp

lemma room_active_submit:
  "submit_control_message r' u inp t d = Inr (m, d') \<Longrightarrow> r \<noteq> r' \<Longrightarrow> room_active r d' \<Longrightarrow> room_active r d"
  by (erule submit_cases) (simp_all add: room_active_def epoch_row_after_commit)

fun submits_to :: "uuid \<Rightarrow> e2ee_call \<Rightarrow> bool" where
  "submits_to r (Submit r' u inp) = (r' = r)"
| "submits_to r c = False"

lemma dormant_epochs:
  "\<not> room_active r d \<Longrightarrow> room_epochs d' = room_epochs d \<Longrightarrow> \<not> room_active r d'"
  by (simp add: room_active_def epoch_row_def)

lemma insert_key_packages_epochs:
  "insert_key_packages now dev ps n d = Inr (m, d') \<Longrightarrow> room_epochs d' = room_epochs d"
proof (induction ps arbitrary: n d)
  case (Cons p ps)
  obtain k d1 where "insert_key_package (new_row now dev p) d = Inr (k, d1)"
    and rest: "insert_key_packages now dev ps (n + k) d1 = Inr (m, d')"
    using Cons.prems by (auto split: sum.splits)
  then have "room_epochs d1 = room_epochs d" by (auto elim: insert_key_package_cases)
  with Cons.IH [OF rest] show ?case by simp
qed simp

lemma publish_epochs: "publish_key_packages u i ps t d = Inr (n, d') \<Longrightarrow> room_epochs d' = room_epochs d"
  by (auto simp: publish_key_packages_def from_sqlx_def split: option.splits if_splits sum.splits
      dest: insert_key_packages_epochs)

lemma list_epochs: "list_control_messages r u i a l t d = Inr (m, d') \<Longrightarrow> room_epochs d' = room_epochs d"
  by (auto simp: list_control_messages_def Let_def split: if_splits)

lemma consume_oldest_epochs:
  assumes "consume_oldest now i c d = Some (x, d')" shows "room_epochs d' = room_epochs d"
proof -
  from consume_oldest_row [OF assms] obtain k :: key_package where "d' = d\<lparr>key_packages :=
      update_where (\<lambda>j. kp_id j = kp_id k) (consumed now c) (key_packages d)\<rparr>" ..
  then show ?thesis by simp
qed

lemma dormant_perform:
  assumes no: "\<not> room_active r d" and c: "\<not> submits_to r c"
  shows "\<not> room_active r (perform c t d)"
proof (cases c)
  case (Register u inp)
  show ?thesis unfolding Register perform.simps
    by (rule state_after_cases, rule dormant_epochs [OF no], drule register_frame, simp, rule no)
next
  case (Approve u a b)
  show ?thesis unfolding Approve perform.simps
    by (rule state_after_cases) (use no room_active_approve in blast)+
next
  case (Revoke u i)
  show ?thesis unfolding Revoke perform.simps
    by (rule state_after_cases) (use no room_active_revoke in blast)+
next
  case (Publish u i ps)
  show ?thesis unfolding Publish perform.simps
    by (rule state_after_cases, rule dormant_epochs [OF no], erule publish_epochs, rule no)
next
  case (Take u i x)
  show ?thesis unfolding Take perform.simps
    by (rule taken_cases, rule dormant_epochs [OF no],
        erule consume_oldest_epochs [OF take_key_package_consumes], rule no)
next
  case (TakeForRoom r u i x)
  show ?thesis unfolding TakeForRoom perform.simps
    by (rule taken_cases, rule dormant_epochs [OF no],
        erule consume_oldest_epochs [OF take_for_room_consumes], rule no)
next
  case (Submit r' u inp)
  with c have "r \<noteq> r'" by simp
  then show ?thesis unfolding Submit perform.simps
    by (intro state_after_cases [of _ "\<lambda>d. \<not> room_active r d"]) (use no room_active_submit in blast)+
next
  case (ListControl r u i a l)
  show ?thesis unfolding ListControl perform.simps
    by (rule state_after_cases, rule dormant_epochs [OF no], erule list_epochs, rule no)
next
  case (Consume r u i m)
  show ?thesis unfolding Consume perform.simps
    by (rule state_after_cases, rule dormant_epochs [OF no], simp add: consume_control_Inr, rule no)
next
  case (AddMember r u role)
  show ?thesis unfolding AddMember perform.simps add_member_def
    by (rule state_after_cases, erule dormant.upsert [OF no], rule no)
next
  case (RemoveMember r u)
  show ?thesis unfolding RemoveMember perform.simps
    using dormant.remove [OF no] by (metis prod.collapse)
next
  case (CreateRoom r u n ty ids)
  show ?thesis unfolding CreateRoom perform.simps
    by (rule state_after_cases, erule dormant.create [OF no], rule no)
next
  case (Dissolve r u)
  show ?thesis unfolding Dissolve perform.simps
    using dormant.dissolve [OF no] by (metis prod.collapse)
next
  case (Transfer r u v)
  show ?thesis unfolding Transfer perform.simps
    by (rule state_after_cases, erule dormant.transfer [OF no], rule no)
qed

lemma dormant_run:
  "\<not> room_active r d \<Longrightarrow> \<forall>tc \<in> set tcs. \<not> submits_to r (snd tc) \<Longrightarrow> \<not> room_active r (run tcs d)"
proof (induction tcs arbitrary: d)
  case (Cons p tcs)
  obtain t c where p: "p = (t, c)" by (cases p)
  have "\<not> room_active r (perform c t d)" using Cons.prems p by (intro dormant_perform) auto
  with Cons p show ?case by simp
qed simp

lemma dormant_no_send: "\<not> room_active r d \<Longrightarrow> validate_application_send_conn r u dev ep cid d \<noteq> Inr ()"
  by (auto simp: validate_application_send_conn_def room_active_def split: option.splits)

lemma change_makes_dormant:
  assumes "members_wf d"
  shows "remove_member now r u d = (True, d1) \<Longrightarrow> \<not> room_active r d1"
    and "upsert_member_conn now r u role d = Inr (m, d2) \<Longrightarrow> \<not> is_user_in_room r u d \<Longrightarrow> \<not> room_active r d2"
  using remove_member_epoch [OF assms, of now r u True d1 r] remove_member_result [OF assms, of now r u True d1]
    upsert_member_epoch [OF assms, of now r u role m d2 r] advanced_status [of now r d]
  by (auto simp: room_active_def)

section \<open>Invariants of the device table\<close>

text \<open>
  A predicate on identities and devices alone that the three operations on devices keep is kept
  by every call, because no other call writes those tables.
\<close>

locale device_invariant =
  fixes J :: "db \<Rightarrow> bool"
  assumes same_tables: "identities d = identities d' \<Longrightarrow> devices d = devices d' \<Longrightarrow> J d \<Longrightarrow> J d'"
    and register: "J d \<Longrightarrow> register_device u inp t d = Inr (x, d') \<Longrightarrow> J d'"
    and approve: "J d \<Longrightarrow> approve_device u a b t d = Inr (x, d') \<Longrightarrow> J d'"
    and revoke: "J d \<Longrightarrow> revoke_device u i t d = Inr (x, d') \<Longrightarrow> J d'"

lemma publish_tables:
  "publish_key_packages u i ps t d = Inr (n, d') \<Longrightarrow> identities d' = identities d \<and> devices d' = devices d"
proof -
  have ins: "insert_key_packages now dev ps n d = Inr (m, d') \<Longrightarrow>
      identities d' = identities d \<and> devices d' = devices d" for now dev ps n m d
  proof (induction ps arbitrary: n d)
    case (Cons p ps)
    obtain k d1 where "insert_key_package (new_row now dev p) d = Inr (k, d1)"
      and rest: "insert_key_packages now dev ps (n + k) d1 = Inr (m, d')"
      using Cons.prems by (auto split: sum.splits)
    then have "identities d1 = identities d \<and> devices d1 = devices d" by (auto elim: insert_key_package_cases)
    with Cons.IH [OF rest] show ?case by simp
  qed simp
  assume "publish_key_packages u i ps t d = Inr (n, d')"
  then show ?thesis
    by (auto simp: publish_key_packages_def from_sqlx_def split: option.splits if_splits sum.splits
        dest: ins)
qed

lemma consume_oldest_tables:
  assumes "consume_oldest now i c d = Some (x, d')"
  shows "identities d' = identities d \<and> devices d' = devices d"
proof -
  from consume_oldest_row [OF assms] obtain k :: key_package where "d' = d\<lparr>key_packages :=
      update_where (\<lambda>j. kp_id j = kp_id k) (consumed now c) (key_packages d)\<rparr>" ..
  then show ?thesis by simp
qed

lemma bump_devices:
  "identities (bump_membership_revision now room d) = identities d"
  "devices (bump_membership_revision now room d) = devices d"
  by (simp_all add: bump_membership_revision_def)

context device_invariant begin

lemma keep: "J d \<Longrightarrow> identities d' = identities d \<and> devices d' = devices d \<Longrightarrow> J d'"
  using same_tables [of d d'] by simp

sublocale members: bump_closed J
  by unfold_locales (auto simp: e2ee_view_def bump_devices intro: keep)

lemma perform_keeps:
  assumes j: "J d" shows "J (perform c t d)"
proof (cases c)
  case (Register u inp)
  show ?thesis unfolding Register perform.simps by (rule state_after_cases, erule register [OF j], rule j)
next
  case (Approve u a b)
  show ?thesis unfolding Approve perform.simps by (rule state_after_cases, erule approve [OF j], rule j)
next
  case (Revoke u i)
  show ?thesis unfolding Revoke perform.simps by (rule state_after_cases, erule revoke [OF j], rule j)
next
  case (Publish u i ps)
  show ?thesis unfolding Publish perform.simps
    by (rule state_after_cases, rule keep [OF j], erule publish_tables, rule j)
next
  case (Take u i x)
  show ?thesis unfolding Take perform.simps
    by (rule taken_cases, rule keep [OF j],
        erule consume_oldest_tables [OF take_key_package_consumes], rule j)
next
  case (TakeForRoom r u i x)
  show ?thesis unfolding TakeForRoom perform.simps
    by (rule taken_cases, rule keep [OF j],
        erule consume_oldest_tables [OF take_for_room_consumes], rule j)
next
  case (Submit r' u inp)
  show ?thesis unfolding Submit perform.simps
    by (rule state_after_cases, rule keep [OF j], drule submit_frame, simp, rule j)
next
  case (ListControl r u i a l)
  show ?thesis unfolding ListControl perform.simps
    by (rule state_after_cases, rule keep [OF j], drule list_frame, simp, rule j)
next
  case (Consume r u i m)
  show ?thesis unfolding Consume perform.simps
    by (rule state_after_cases, rule keep [OF j], drule consume_frame, simp, rule j)
next
  case (AddMember r u role)
  show ?thesis unfolding AddMember perform.simps add_member_def
    by (rule state_after_cases, erule members.upsert [OF j], rule j)
next
  case (RemoveMember r u)
  show ?thesis unfolding RemoveMember perform.simps using members.remove [OF j] by (metis prod.collapse)
next
  case (CreateRoom r u n ty ids)
  show ?thesis unfolding CreateRoom perform.simps
    by (rule state_after_cases, erule members.create [OF j], rule j)
next
  case (Dissolve r u)
  show ?thesis unfolding Dissolve perform.simps using members.dissolve [OF j] by (metis prod.collapse)
next
  case (Transfer r u v)
  show ?thesis unfolding Transfer perform.simps
    by (rule state_after_cases, erule members.transfer [OF j], rule j)
qed

lemma run_keeps: "J d \<Longrightarrow> J (run tcs d)"
proof (induction tcs arbitrary: d)
  case (Cons p tcs)
  then show ?case by (cases p) (simp add: perform_keeps)
qed simp

end


text \<open>An account that has an identity but no active device.\<close>

definition locked_out :: "uuid \<Rightarrow> db \<Rightarrow> bool" where
  "locked_out user d \<longleftrightarrow> devices_wf d \<and> exists_row (\<lambda>i. idn_user i = user) (identities d)
     \<and> (\<forall>x \<in> set (devices d). dev_user x = user \<longrightarrow> dev_status x \<noteq> DeviceActive)"

lemma devices_wf_cong:
  "identities d = identities d' \<Longrightarrow> devices d = devices d' \<Longrightarrow> devices_wf d = devices_wf d'"
  by (simp add: devices_wf_def device_keys_def)





lemma locked_register:
  assumes l: "locked_out user d" and ok: "register_device u inp t d = Inr (y, d')"
  shows "locked_out user d'"
proof -
  have wf: "devices_wf d'" using devices_wf_register [OF _ ok] l by (simp add: locked_out_def)
  from l have has: "get_account_identity user d \<noteq> None"
    by (auto simp: locked_out_def get_account_identity_def find_None_iff)
  from ok show ?thesis
  proof (cases rule: register_device_cases)
    case (first i d1)
    then have "u \<noteq> user" using has by auto
    with first wf l show ?thesis by (auto simp: locked_out_def insert_device_Inr insert_identity_Inr)
  qed (use wf l in \<open>auto simp: locked_out_def insert_device_Inr insert_identity_Inr\<close>)
qed

lemma locked_approve:
  assumes l: "locked_out user d" and ok: "approve_device u a b t d = Inr (y, d')"
  shows "locked_out user d'"
  using ok
proof (cases rule: approve_device_cases)
  case (approve p q)
  have wf: "devices_wf d" using l by (simp add: locked_out_def)
  have p: "p \<in> set (devices d)" "dev_user p = u" and q: "q \<in> set (devices d)" "dev_id q = b" "dev_user q = u"
    using approve(2,4) by (auto dest: find_user_deviceD)
  have "u \<noteq> user" using l p approve(3) by (auto simp: locked_out_def)
  have "dev_user x = u" if "x \<in> set (devices d)" "dev_id x = b" for x
    using device_id_unique [OF wf that(1) q(1)] that q by simp
  with \<open>u \<noteq> user\<close> show ?thesis
    using l devices_wf_approve [OF wf ok] by (auto simp: locked_out_def approve(7) update_where_def)
qed (use l in simp)

lemma locked_revoke:
  assumes l: "locked_out user d" and ok: "revoke_device u i t d = Inr (y, d')"
  shows "locked_out user d'"
  using ok
proof (cases rule: revoke_device_cases)
  case (revoke q)
  have "devices_wf d'" using devices_wf_revoke [OF _ ok] l by (simp add: locked_out_def)
  then show ?thesis using l by (auto simp: locked_out_def revoke(4) update_where_def)
qed (use l in simp)

interpretation locked_accounts: device_invariant "locked_out user" for user
proof unfold_locales
  fix d d' :: db assume "identities d = identities d'" "devices d = devices d'" "locked_out user d"
  then show "locked_out user d'" using devices_wf_cong [of d d'] by (simp add: locked_out_def)
qed (fact locked_register locked_approve locked_revoke)+

section \<open>The current Commit of a room\<close>

lemma commits_epochs:
  assumes "control_wf d"
  shows "map cm_epoch (commits r d) = (case epoch_row r d of None \<Rightarrow> [] | Some e \<Rightarrow> [1..ep_active e])"
proof (cases "epoch_row r d")
  case None
  then show ?thesis using assms epoch_none_log [of d r] by (simp add: control_wf_def commits_room)
next
  case (Some e)
  then show ?thesis using assms epoch_log_okD [of d r e] by (simp add: control_wf_def commits_room epoch_log_ok_def)
qed

lemma last_commit:
  assumes wf: "control_wf d" and e: "epoch_row r d = Some e" and m: "m \<in> set (commits r d)"
    and ep: "cm_epoch m = ep_active e"
  shows "m = last (commits r d)"
proof -
  have ce: "map cm_epoch (commits r d) = [1..ep_active e]" using commits_epochs [OF wf, of r] e by simp
  have ne: "commits r d \<noteq> []" using m by auto
  then have "0 < ep_active e" using ce by (cases "0 < ep_active e") auto
  have "cm_epoch (last (commits r d)) = last [1..ep_active e]" using ne ce by (metis last_map)
  also have "\<dots> = ep_active e" using \<open>0 < ep_active e\<close> by (simp add: upto_rec2)
  finally have "cm_epoch m = cm_epoch (last (commits r d))" using ep by simp
  moreover have "distinct (map cm_epoch (commits r d))" using ce by simp
  ultimately show ?thesis using m ne by (metis fetch_key_eq last_in_set)
qed

lemma application_send_current:
  assumes wf: "control_wf d"
  shows "validate_application_send_conn r u dev ep cid d = Inr () \<longleftrightarrow>
    is_active_device u dev d \<and> room_active r d \<and> commits r d \<noteq> []
    \<and> cid = cm_id (last (commits r d)) \<and> ep = cm_epoch (last (commits r d))"
proof (cases "epoch_row r d")
  case None
  then show ?thesis by (simp add: validate_application_send_conn_def room_active_def)
next
  case (Some e)
  show ?thesis
  proof (cases "ep_status e = EpochActive")
    case False
    then show ?thesis using Some by (simp add: validate_application_send_conn_def room_active_def)
  next
    case act: True
    have "epoch_log_ok (room_messages r d) e" using wf Some epoch_log_okD by (simp add: control_wf_def)
    then obtain m where m: "m \<in> set (commits r d)" "cm_epoch m = ep_active e" "cm_revision m = ep_revision e"
      using act by (auto simp: epoch_log_ok_def commits_room)
    have last: "m = last (commits r d)" by (rule last_commit [OF wf Some m(1,2)])
    have ne: "commits r d \<noteq> []" using m(1) by auto
    have mm: "m \<in> set (control_messages d)" "cm_room m = r" "cm_type m = ''commit''"
      using m(1) by (auto simp: commits_def)
    have only: "x = m" if "x \<in> set (control_messages d)" "cm_room x = r" "cm_type x = ''commit''"
      "cm_epoch x = ep_active e" for x
      using last_commit [OF wf Some _ that(4)] that last by (simp add: commits_def)
    have "exists_row (\<lambda>x. cm_id x = cid \<and> cm_room x = r \<and> cm_type x = ''commit''
        \<and> cm_epoch x = ep_active e \<and> cm_revision x = ep_revision e) (control_messages d)
      \<longleftrightarrow> cid = cm_id m"
      using only mm m by blast
    then show ?thesis
      using Some act ne last m(2) by (auto simp: validate_application_send_conn_def room_active_def)
  qed
qed

text \<open>Every other trusted device of a member finds an accepted Commit in its queue.\<close>

lemma commit_delivered:
  assumes ok: "submit_control_message r u inp t d = Inr (m, d')" and new: "existing_control_message r inp d = None"
    and ty: "ci_type inp = ''commit''" and x: "x \<in> set (devices d)" "dev_status x = DeviceActive"
      "is_user_in_room r (dev_user x) d" "dev_id x \<noteq> ci_sender inp" and after: "after < control_seq d"
  shows "m \<in> set (addressed_to r (dev_id x) after d')"
  using ok
proof (cases rule: submit_cases)
  case (commit st)
  have "dev_id x \<in> set (commit_recipients r (ci_sender inp) d)" using x by (auto simp: commit_recipients_def)
  then have "exists_row (\<lambda>q. rc_message q = cm_id m \<and> rc_recipient q = dev_id x) (control_receipts d')"
    using insert_receipts_has by (simp add: commit(9) receipts_after_commit)
  moreover have "m \<in> set (control_messages d')" by (simp add: commit(9))
  moreover have "cm_room m = r" "after < cm_seq m" using after by (simp_all add: commit(7))
  ultimately show ?thesis by (simp add: addressed_to_def)
qed (use new ty in simp_all)

section \<open>A sample run\<close>

text \<open>
  Two users in a room, a device each, a key package of the second one, and the first Commit.
\<close>

definition sample_input :: "uuid \<Rightarrow> 8 word \<Rightarrow> register_input" where
  "sample_input dev n =
     \<lparr>ri_device_id = dev, ri_label = ''phone'', ri_root_key = [n], ri_root_fp = replicate 16 n,
      ri_credential = [n], ri_cred_fp = replicate 16 n, ri_approval_key = replicate 32 n,
      ri_version = 1, ri_platform = None, ri_client_version = None, ri_client_build = None\<rparr>"

definition sample_package :: new_key_package where
  "sample_package = \<lparr>nk_id = 90, nk_ref = replicate 16 9, nk_payload = [9], nk_version = 1, nk_expires = 1000\<rparr>"

definition sample_commit :: control_input where
  "sample_commit =
     \<lparr>ci_id = 70, ci_epoch = 1, ci_revision = 2, ci_sender = 101, ci_recipient = None,
      ci_type = ''commit'', ci_envelope = replicate 12 0, ci_idem = 71\<rparr>"

definition sample_calls :: "(instant \<times> e2ee_call) list" where
  "sample_calls =
     [(1, CreateRoom 10 1 ''r'' None [2]),
      (2, Register 1 (sample_input 101 1)),
      (3, Register 2 (sample_input 201 2)),
      (4, Publish 2 201 [sample_package])]"

definition sample_start :: db where
  "sample_start = run sample_calls (empty_db\<lparr>users := [1, 2, 3]\<rparr>)"

definition sample_db :: db where
  "sample_db = perform (Submit 10 1 sample_commit) 5 sample_start"

lemma sample_start_reachable: "reachable [1, 2, 3] 4 sample_start"
proof -
  have "sorted (0 # map fst sample_calls)" "last (0 # map fst sample_calls) = 4" by code_simp+
  then show ?thesis
    using run_reachable [OF reachable.start, of 0 sample_calls "[1, 2, 3]"] by (simp add: sample_start_def)
qed

lemma sample_reachable: "reachable [1, 2, 3] 5 sample_db"
  unfolding sample_db_def by (rule reachable.call [OF sample_start_reachable]) simp

section \<open>Properties\<close>

text \<open>
  C2: In every reachable state the Commits of a room, in the order in which they were accepted,
  carry the epochs 1, 2, ... up to the room's active epoch: the history has no gap and no fork.
\<close>

theorem commit_history_linear:
  assumes "reachable us t d"
  shows "map cm_epoch (commits r d) = (case epoch_row r d of None \<Rightarrow> [] | Some e \<Rightarrow> [1..ep_active e])"
  using commits_epochs reachable_inv [OF assms] by (simp add: e2ee_inv_def tables_ok_def)

theorem commit_history_linear_witness:
  "map cm_epoch (commits 10 sample_db) = (case epoch_row 10 sample_db of None \<Rightarrow> [] | Some e \<Rightarrow> [1..ep_active e])
   \<and> commits 10 sample_db \<noteq> []"
  using commit_history_linear [OF sample_reachable, of 10] by (rule conjI) code_simp

text \<open>
  C3: In every reachable state an encrypted message passes the server's check exactly when its
  sender is a trusted device of the user, the room has an active epoch, and the message names
  the last Commit of the room and that Commit's epoch.
\<close>

theorem application_send_iff:
  assumes "reachable us t d"
  shows "validate_application_send_conn r u dev ep cid d = Inr () \<longleftrightarrow>
    is_active_device u dev d \<and> room_active r d \<and> commits r d \<noteq> []
    \<and> cid = cm_id (last (commits r d)) \<and> ep = cm_epoch (last (commits r d))"
  using application_send_current reachable_inv [OF assms] by (simp add: e2ee_inv_def tables_ok_def)

theorem application_send_iff_witness:
  "validate_application_send_conn 10 1 101 1 70 sample_db = Inr ()"
  unfolding application_send_iff [OF sample_reachable] by code_simp

text \<open>
  C4: Once somebody joins or leaves a room, no encrypted message to it is accepted, from any
  device and for any epoch, whatever calls follow, until a control message is submitted to the
  room again.
\<close>

theorem membership_change_blocks_sends:
  assumes "reachable us t d"
    and "remove_member now r v d = (True, d') \<or>
      (\<exists>role m. upsert_member_conn now r v role d = Inr (m, d') \<and> \<not> is_user_in_room r v d)"
    and "\<forall>tc \<in> set tcs. \<not> submits_to r (snd tc)"
  shows "validate_application_send_conn r u dev ep cid (run tcs d') \<noteq> Inr ()"
proof -
  have "members_wf d" using reachable_inv [OF assms(1)] by (simp add: e2ee_inv_def)
  then have "\<not> room_active r d'" using change_makes_dormant assms(2) by blast
  then show ?thesis by (rule dormant_no_send [OF dormant_run [OF _ assms(3)]])
qed

theorem membership_change_blocks_sends_witness:
  "validate_application_send_conn 10 1 101 1 70 sample_db = Inr () \<and>
   validate_application_send_conn 10 1 101 1 70
     (run [(7, Register 1 (sample_input 102 7))] (snd (remove_member 6 10 2 sample_db))) \<noteq> Inr ()"
proof
  show "validate_application_send_conn 10 1 101 1 70 sample_db = Inr ()" by code_simp
  have "fst (remove_member 6 10 2 sample_db) = True" by code_simp
  then have "remove_member 6 10 2 sample_db = (True, snd (remove_member 6 10 2 sample_db))"
    by (metis prod.collapse)
  then show "validate_application_send_conn 10 1 101 1 70
     (run [(7, Register 1 (sample_input 102 7))] (snd (remove_member 6 10 2 sample_db))) \<noteq> Inr ()"
    by (intro membership_change_blocks_sends [OF sample_reachable, of 6 10 2]) simp_all
qed







text \<open>
  An account whose last active device was revoked never gets an active device again:
  every new device of it waits for an approval that no device can give.
\<close>

lemma locked_out_for_good:
  assumes "reachable us t d" "exists_row (\<lambda>i. idn_user i = user) (identities d)"
    and "list_active_devices user d = []"
  shows "list_active_devices user (run tcs d) = []"
proof -
  have none: "list_active_devices user d' = [] \<longleftrightarrow>
      (\<forall>x \<in> set (devices d'). dev_user x = user \<longrightarrow> dev_status x \<noteq> DeviceActive)" for d'
  proof -
    have "list_active_devices user d' = [] \<longleftrightarrow> set (list_active_devices user d') = {}" by simp
    also have "\<dots> \<longleftrightarrow> (\<forall>x \<in> set (devices d'). dev_user x = user \<longrightarrow> dev_status x \<noteq> DeviceActive)"
      by (auto simp: list_active_devices_def)
    finally show ?thesis .
  qed
  have "locked_out user d"
    using reachable_inv [OF assms(1)] assms(2,3)
    by (simp add: locked_out_def none e2ee_inv_def tables_ok_def)
  then have "locked_out user (run tcs d)" by (rule locked_accounts.run_keeps)
  then show ?thesis by (simp add: none locked_out_def)
qed





text \<open>
  C12: An accepted Commit reaches every other trusted device of a member: a device that asks for
  the messages of the room page by page, starting before the Commit, with any page size, gets it
  after at most as many pages as there are messages.
\<close>

theorem commit_reaches_devices:
  assumes "reachable us t d"
    and "submit_control_message r u inp now d = Inr (m, d')" "existing_control_message r inp d = None"
      "ci_type inp = ''commit''"
    and "x \<in> set (devices d)" "dev_status x = DeviceActive" "is_user_in_room r (dev_user x) d"
      "dev_id x \<noteq> ci_sender inp"
    and "after < control_seq d" "0 < limit"
  shows "m \<in> set (pull_pages (Suc (length (control_messages d'))) r (dev_user x) (dev_id x) after limit later d')"
proof -
  have wf: "log_wf d'"
    using inv_submit [OF reachable_inv [OF assms(1)] assms(2)]
    by (simp add: e2ee_inv_def tables_ok_def control_wf_def)
  have "device_in_room r (dev_user x) (dev_id x) d"
    using assms(5-7) by (auto simp: device_in_room_def)
  then have dev: "device_in_room r (dev_user x) (dev_id x) d'"
    using submit_frame [OF assms(2)] by (simp add: device_in_room_def is_user_in_room_def)
  have "length (addressed_to r (dev_id x) after d') < Suc (length (control_messages d'))"
    unfolding log_in_order(1) [OF wf] by (simp add: le_imp_less_Suc)
  from pull_pages_all [OF wf dev assms(10) this] show ?thesis
    using commit_delivered [OF assms(2,3,4,5,6,7,8,9)] by simp
qed

theorem commit_reaches_devices_witness:
  "70 \<in> cm_id ` set (pull_pages (Suc (length (control_messages sample_db))) 10 2 201 0 1 9 sample_db)"
proof -
  let ?x = "hd (filter (\<lambda>x. dev_id x = 201) (devices sample_start))"
  have e: "\<exists>m. submit_control_message 10 1 sample_commit 5 sample_start = Inr (m, sample_db)"
    by (cases "submit_control_message 10 1 sample_commit 5 sample_start")
      (auto simp: sample_db_def, code_simp)
  then obtain m where ok: "submit_control_message 10 1 sample_commit 5 sample_start = Inr (m, sample_db)" ..
  have new: "existing_control_message 10 sample_commit sample_start = None" by code_simp
  have x: "?x \<in> set (devices sample_start)" "dev_status ?x = DeviceActive"
    "is_user_in_room 10 (dev_user ?x) sample_start" "dev_id ?x \<noteq> ci_sender sample_commit"
    "dev_user ?x = 2" "dev_id ?x = 201" "ci_type sample_commit = ''commit''" "0 < control_seq sample_start"
    by code_simp+
  have "cm_id m = ci_id sample_commit"
    using ok by (rule submit_cases) (simp_all add: new control_message_matches_def)
  then have "cm_id m = 70" by (simp add: sample_commit_def)
  moreover have "m \<in> set (pull_pages (Suc (length (control_messages sample_db))) 10 (dev_user ?x) (dev_id ?x) 0 1 9 sample_db)"
    by (rule commit_reaches_devices [OF sample_start_reachable ok new x(7) x(1-4) x(8)]) simp
  ultimately show ?thesis unfolding x(5,6) by (metis image_eqI)
qed

text \<open>
  Once a control message was accepted, repeating the submission, as a client does that got
  no answer, gives the same message every time and changes nothing: no second message, no second
  epoch, no second set of receipts.
\<close>

lemma submit_idempotent:
  assumes "submit_control_message r u inp t d = Inr (m, d')"
  shows "submit.retries r u inp ts d' = (replicate (length ts) (Inr m), d')"
  by (rule submit.retries_after_success [OF assms])

text \<open>
  Registering, approving and revoking a device may be repeated in the same way; in
  particular a repeated revocation does not ask the rooms for another rekey.
\<close>

lemma device_operations_idempotent:
  "(register_device u inp t d = Inr (x, dr) \<longrightarrow>
      register.retries u inp ts dr = (replicate (length ts) (Inr x), dr))
   \<and> (approve_device u a b t d = Inr (y, da) \<longrightarrow>
      approve.retries u a b ts da = (replicate (length ts) (Inr y), da))
   \<and> (revoke_device u i t d = Inr (z, dv) \<longrightarrow>
      revoke.retries u i ts dv = (replicate (length ts) (Inr z), dv))"
  using register.retries_after_success [of u inp t d x dr ts]
    approve.retries_after_success [of u a b t d y da ts]
    revoke.retries_after_success [of u i t d z dv ts] by blast

end
