(* ===== verification/Requests.thy ===== *)
theory Requests
  imports AppErrors
begin

text \<open>
  What the request handlers share: Rust's \<open>?\<close> on a result, the loop that checks every item of a
  request, the user id in the token, and the base64 fields of \<open>api/src/handlers/e2ee.rs\<close>.  The
  base64 codec and the UUID parser are third-party code: the decoder \<open>dec\<close> is an argument, and a
  handler takes the user id as what the parser makes of the token's subject.
\<close>

section \<open>Results\<close>

text \<open>\<open>r?\<close> followed by the rest of the body.\<close>

fun and_then :: "'a result \<Rightarrow> ('a \<Rightarrow> 'b result) \<Rightarrow> 'b result" where
  "and_then (Inl e) f = Inl e"
| "and_then (Inr a) f = f a"

lemma and_then_Inr: "and_then r f = Inr b \<longleftrightarrow> (\<exists>a. r = Inr a \<and> f a = Inr b)"
  by (cases r) auto

text \<open>\<open>if !ok { return Err(e) }\<close>.\<close>

definition require :: "bool \<Rightarrow> app_error \<Rightarrow> unit result" where
  "require ok e = (if ok then Inr () else Inl e)"

lemma require_Inr [simp]: "require ok e = Inr u \<longleftrightarrow> ok"
  by (simp add: require_def)

text \<open>\<open>for item in items { out.push(f(item)?) }\<close>.\<close>

fun collect :: "('a \<Rightarrow> 'b result) \<Rightarrow> 'a list \<Rightarrow> 'b list result" where
  "collect f [] = Inr []"
| "collect f (x # xs) = and_then (f x) (\<lambda>y. and_then (collect f xs) (\<lambda>ys. Inr (y # ys)))"

lemma collect_Inr: "collect f xs = Inr ys \<longleftrightarrow> list_all2 (\<lambda>x y. f x = Inr y) xs ys"
  by (induction xs arbitrary: ys) (auto simp: and_then_Inr list_all2_Cons1)

lemma collect_length: "collect f xs = Inr ys \<Longrightarrow> length ys = length xs"
  by (auto simp: collect_Inr dest: list_all2_lengthD)

lemma collect_set: "collect f xs = Inr ys \<Longrightarrow> y \<in> set ys \<Longrightarrow> \<exists>x \<in> set xs. f x = Inr y"
  by (induction xs arbitrary: ys) (auto simp: and_then_Inr)

text \<open>\<open>r?\<close> in a handler that has a state to leave behind.\<close>

definition with_value :: "'a result \<Rightarrow> ('a \<Rightarrow> 's \<Rightarrow> 'b result \<times> 's) \<Rightarrow> 's \<Rightarrow> 'b result \<times> 's" where
  "with_value r f s = (case r of Inl e \<Rightarrow> (Inl e, s) | Inr a \<Rightarrow> f a s)"

lemma with_value_simps [simp]:
  "with_value (Inl e) f s = (Inl e, s)" "with_value (Inr a) f s = f a s"
  by (simp_all add: with_value_def)

lemma with_value_Inr: "with_value r f s = (Inr b, s') \<longleftrightarrow> (\<exists>a. r = Inr a \<and> f a s = (Inr b, s'))"
  by (cases r) auto

text \<open>
  \<open>x = f().await?\<close> of a step that writes (\<open>run_then\<close>; an error leaves what the step left) and of
  one that reads (\<open>query\<close>); \<open>answer\<close> is the last expression of a handler.
\<close>

definition run_then ::
  "('s \<Rightarrow> 'a result \<times> 's) \<Rightarrow> ('a \<Rightarrow> 's \<Rightarrow> 'b result \<times> 's) \<Rightarrow> 's \<Rightarrow> 'b result \<times> 's" where
  "run_then f g s = (case f s of (Inl e, s') \<Rightarrow> (Inl e, s') | (Inr a, s') \<Rightarrow> g a s')"

definition query :: "('s \<Rightarrow> 'a result) \<Rightarrow> ('a \<Rightarrow> 's \<Rightarrow> 'b result \<times> 's) \<Rightarrow> 's \<Rightarrow> 'b result \<times> 's" where
  "query r f s = with_value (r s) f s"

definition answer :: "'a \<Rightarrow> 's \<Rightarrow> 'a result \<times> 's" where
  "answer a s = (Inr a, s)"

lemma run_then_Inr:
  "run_then f g s = (Inr b, t) \<longleftrightarrow> (\<exists>a s'. f s = (Inr a, s') \<and> g a s' = (Inr b, t))"
  by (auto simp: run_then_def split: prod.splits sum.splits)

lemma query_Inr: "query r f s = (Inr b, t) \<longleftrightarrow> (\<exists>a. r s = Inr a \<and> f a s = (Inr b, t))"
  by (simp add: query_def with_value_Inr)

lemma with_value_cases:
  assumes "with_value r f s = (x, t)"
  obtains (err) e where "r = Inl e" "x = Inl e" "t = s" | (ok) a where "r = Inr a" "f a s = (x, t)"
  using assms by (cases r) auto

lemma query_cases:
  assumes "query r f s = (x, t)"
  obtains (err) e where "r s = Inl e" "x = Inl e" "t = s" | (ok) a where "r s = Inr a" "f a s = (x, t)"
  using assms by (cases "r s") (auto simp: query_def)

lemma run_then_cases:
  assumes "run_then f g s = (x, t)"
  obtains (err) e where "f s = (Inl e, t)" "x = Inl e" | (ok) a s' where "f s = (Inr a, s')" "g a s' = (x, t)"
  using assms by (auto simp: run_then_def split: prod.splits sum.splits)

lemmas step_cases = with_value_cases query_cases run_then_cases

lemma answer_eq [simp]: "answer a s = (x, t) \<longleftrightarrow> x = Inr a \<and> t = s"
  by (auto simp: answer_def)

text \<open>A step that keeps an invariant, however it ends.\<close>

definition keeps :: "('s \<Rightarrow> bool) \<Rightarrow> ('s \<Rightarrow> 'a result \<times> 's) \<Rightarrow> bool" where
  "keeps I f \<longleftrightarrow> (\<forall>s. I s \<longrightarrow> I (snd (f s)))"

lemma keepsD: "keeps I f \<Longrightarrow> I s \<Longrightarrow> I (snd (f s))"
  by (simp add: keeps_def)

lemma keeps_answer [intro]: "keeps I (answer a)"
  by (simp add: keeps_def answer_def)

lemma keeps_run_then [intro]: "keeps I f \<Longrightarrow> (\<And>a. keeps I (g a)) \<Longrightarrow> keeps I (run_then f g)"
  by (fastforce simp: keeps_def run_then_def split: prod.splits sum.splits)

lemma keeps_with_value [intro]: "(\<And>a. r = Inr a \<Longrightarrow> keeps I (f a)) \<Longrightarrow> keeps I (with_value r f)"
  by (cases r) (auto simp: keeps_def)

lemma keeps_query [intro]: "(\<And>s a. r s = Inr a \<Longrightarrow> keeps I (f a)) \<Longrightarrow> keeps I (query r f)"
  by (fastforce simp: keeps_def query_def with_value_def split: sum.splits)

lemma keeps_atomically [intro]: "(\<And>s a s'. I s \<Longrightarrow> t s = Inr (a, s') \<Longrightarrow> I s') \<Longrightarrow> keeps I (atomically t)"
  by (auto simp: keeps_def atomically_def split: sum.splits)

section \<open>Fields\<close>

definition claims_user_id :: "uuid option \<Rightarrow> uuid result" where
  "claims_user_id sub = (case sub of None \<Rightarrow> Inl (InvalidToken ''user id in token'') | Some u \<Rightarrow> Inr u)"

lemma claims_user_id_Inr [simp]: "claims_user_id sub = Inr u \<longleftrightarrow> sub = Some u"
  by (auto simp: claims_user_id_def split: option.splits)

definition decode_b64 :: "(string \<Rightarrow> bytes option) \<Rightarrow> string \<Rightarrow> bytes result" where
  "decode_b64 dec value =
     (let trimmed = trim value in
      if trimmed = [] then Inl (ValidationError ''empty field'')
      else case dec trimmed of
        None \<Rightarrow> Inl (ValidationError ''base64'')
      | Some b \<Rightarrow> Inr b)"

definition decode_b64_range :: "(string \<Rightarrow> bytes option) \<Rightarrow> string \<Rightarrow> int \<Rightarrow> int \<Rightarrow> bytes result" where
  "decode_b64_range dec value lo hi =
     and_then (decode_b64 dec value) (\<lambda>decoded.
       if int (length decoded) < lo \<or> int (length decoded) > hi
       then Inl (ValidationError ''decoded length'') else Inr decoded)"

lemma decode_b64_Inr:
  "decode_b64 dec value = Inr b \<longleftrightarrow> trim value \<noteq> [] \<and> dec (trim value) = Some b"
  by (auto simp: decode_b64_def Let_def split: option.splits)

lemma decode_b64_range_Inr:
  "decode_b64_range dec value lo hi = Inr b \<longleftrightarrow>
     decode_b64 dec value = Inr b \<and> lo \<le> int (length b) \<and> int (length b) \<le> hi"
  by (cases "decode_b64 dec value") (auto simp: decode_b64_range_def)

end
