(* ===== verification/PreKeys.thy ===== *)
theory PreKeys
  imports KeyPackages Requests
begin

text \<open>
  The older key bundles: \<open>api/src/database/e2ee_key_store.rs\<close> with the constraints of its three
  tables, and the handlers \<open>upload_key_bundle\<close> and \<open>get_key_bundles\<close> of
  \<open>api/src/handlers/e2ee.rs\<close>.  A one-time pre-key is known by its user, device and key id, on
  which the table has a unique index; rows of one instant are read in insertion order.  Taking a
  pre-key is an instance of \<open>one_time_store\<close>.
\<close>

section \<open>The store\<close>

record signed_insert =
  si_key_id :: int
  si_public :: bytes
  si_signature :: bytes
  si_expires :: instant

record one_time_insert =
  oi_key_id :: int
  oi_public :: bytes

text \<open>\<open>CHECK (char_length(device_id) > 0 AND char_length(device_id) <= 128)\<close>.\<close>

definition device_id_ok :: "string \<Rightarrow> bool" where
  "device_id_ok dev \<longleftrightarrow> 0 < char_count dev \<and> char_count dev \<le> 128"

definition ik_of :: "uuid \<Rightarrow> string \<Rightarrow> identity_key \<Rightarrow> bool" where
  "ik_of user dev k \<longleftrightarrow> ik_user k = user \<and> ik_device k = dev"

definition upsert_identity_key :: "instant \<Rightarrow> uuid \<Rightarrow> string \<Rightarrow> bytes \<Rightarrow> db \<Rightarrow> sqlx_error + db" where
  "upsert_identity_key now user dev key d =
     (if \<not> device_id_ok dev then Inl CheckViolation
      else if exists_row (ik_of user dev) (identity_keys d)
      then Inr (d\<lparr>identity_keys := update_where (ik_of user dev)
             (\<lambda>k. k\<lparr>ik_public := key, ik_updated := now\<rparr>) (identity_keys d)\<rparr>)
      else if user \<notin> set (users d) then Inl ForeignKeyViolation
      else Inr (d\<lparr>identity_keys := identity_keys d @
             [\<lparr>ik_user = user, ik_device = dev, ik_public = key, ik_updated = now\<rparr>]\<rparr>))"

definition upsert_signed_pre_key ::
  "instant \<Rightarrow> uuid \<Rightarrow> string \<Rightarrow> signed_insert \<Rightarrow> db \<Rightarrow> sqlx_error + db" where
  "upsert_signed_pre_key now user dev s d =
     (let same = (\<lambda>k. sk_user k = user \<and> sk_device k = dev \<and> sk_key_id k = si_key_id s) in
      if \<not> device_id_ok dev then Inl CheckViolation
      else if exists_row same (signed_pre_keys d)
      then Inr (d\<lparr>signed_pre_keys := update_where same
             (\<lambda>k. k\<lparr>sk_public := si_public s, sk_signature := si_signature s,
                    sk_expires := si_expires s, sk_created := now\<rparr>) (signed_pre_keys d)\<rparr>)
      else if user \<notin> set (users d) then Inl ForeignKeyViolation
      else Inr (d\<lparr>signed_pre_keys := signed_pre_keys d @
             [\<lparr>sk_user = user, sk_device = dev, sk_key_id = si_key_id s, sk_public = si_public s,
               sk_signature = si_signature s, sk_expires = si_expires s, sk_created = now\<rparr>]\<rparr>))"

definition ok_key :: "one_time_pre_key \<Rightarrow> uuid \<times> string \<times> int" where
  "ok_key k = (ok_user k, ok_device k, ok_key_id k)"

definition insert_one_time_pre_key ::
  "instant \<Rightarrow> uuid \<Rightarrow> string \<Rightarrow> one_time_insert \<Rightarrow> db \<Rightarrow> sqlx_error + db" where
  "insert_one_time_pre_key now user dev o1 d =
     (if \<not> device_id_ok dev then Inl CheckViolation
      else if exists_row (\<lambda>k. ok_key k = (user, dev, oi_key_id o1)) (one_time_pre_keys d) then Inr d
      else if user \<notin> set (users d) then Inl ForeignKeyViolation
      else Inr (d\<lparr>one_time_pre_keys := one_time_pre_keys d @
             [\<lparr>ok_user = user, ok_device = dev, ok_key_id = oi_key_id o1, ok_public = oi_public o1,
               ok_used = False, ok_used_at = None, ok_created = now\<rparr>]\<rparr>))"

fun insert_one_time_pre_keys ::
  "instant \<Rightarrow> uuid \<Rightarrow> string \<Rightarrow> one_time_insert list \<Rightarrow> db \<Rightarrow> sqlx_error + db" where
  "insert_one_time_pre_keys now user dev [] d = Inr d"
| "insert_one_time_pre_keys now user dev (o1 # os) d =
     (case insert_one_time_pre_key now user dev o1 d of
        Inl e \<Rightarrow> Inl e
      | Inr d' \<Rightarrow> insert_one_time_pre_keys now user dev os d')"

definition save_key_bundle ::
  "uuid \<Rightarrow> string \<Rightarrow> bytes \<Rightarrow> signed_insert \<Rightarrow> one_time_insert list \<Rightarrow> instant \<Rightarrow> db
   \<Rightarrow> sqlx_error + (unit \<times> db)" where
  "save_key_bundle user dev identity s os now d =
     (case upsert_identity_key now user dev identity d of
        Inl e \<Rightarrow> Inl e
      | Inr d1 \<Rightarrow>
     (case upsert_signed_pre_key now user dev s d1 of
        Inl e \<Rightarrow> Inl e
      | Inr d2 \<Rightarrow>
     (case insert_one_time_pre_keys now user dev os d2 of
        Inl e \<Rightarrow> Inl e
      | Inr d3 \<Rightarrow> Inr ((), d3))))"

text \<open>\<open>ORDER BY updated_at DESC\<close>.\<close>

definition list_device_ids :: "uuid \<Rightarrow> db \<Rightarrow> string list" where
  "list_device_ids user d =
     map ik_device (sort_key (\<lambda>k. - ik_updated k) (filter (\<lambda>k. ik_user k = user) (identity_keys d)))"

definition get_identity_key :: "uuid \<Rightarrow> string \<Rightarrow> db \<Rightarrow> bytes option" where
  "get_identity_key user dev d = map_option ik_public (fetch_optional (ik_of user dev) (identity_keys d))"

definition get_latest_active_signed_pre_key ::
  "uuid \<Rightarrow> string \<Rightarrow> instant \<Rightarrow> db \<Rightarrow> signed_pre_key option" where
  "get_latest_active_signed_pre_key user dev now d =
     (case sort_key (\<lambda>k. - sk_created k)
        (filter (\<lambda>k. sk_user k = user \<and> sk_device k = dev \<and> now < sk_expires k) (signed_pre_keys d)) of
        [] \<Rightarrow> None
      | k # _ \<Rightarrow> Some k)"

definition ok_unused :: "uuid \<Rightarrow> string \<Rightarrow> one_time_pre_key \<Rightarrow> bool" where
  "ok_unused user dev k \<longleftrightarrow> ok_user k = user \<and> ok_device k = dev \<and> \<not> ok_used k"

definition use_pre_key :: "instant \<Rightarrow> one_time_pre_key \<Rightarrow> one_time_pre_key" where
  "use_pre_key now k = k\<lparr>ok_used := True, ok_used_at := Some now\<rparr>"

definition take_one_time_pre_key ::
  "uuid \<Rightarrow> string \<Rightarrow> instant \<Rightarrow> db \<Rightarrow> (one_time_pre_key \<times> db) option" where
  "take_one_time_pre_key user dev now d =
     (case sort_key ok_created (filter (ok_unused user dev) (one_time_pre_keys d)) of
        [] \<Rightarrow> None
      | k # _ \<Rightarrow> Some (use_pre_key now k,
          d\<lparr>one_time_pre_keys :=
              update_where (\<lambda>j. ok_key j = ok_key k) (use_pre_key now) (one_time_pre_keys d)\<rparr>))"

definition count_unused_one_time_pre_keys :: "uuid \<Rightarrow> string \<Rightarrow> db \<Rightarrow> nat" where
  "count_unused_one_time_pre_keys user dev d = length (filter (ok_unused user dev) (one_time_pre_keys d))"

section \<open>The handlers\<close>

record signed_upload =
  su_key_id :: int
  su_public :: string
  su_signature :: string

record one_time_upload =
  ou_key_id :: int
  ou_public :: string

record upload_request =
  up_device_id :: string
  up_identity_key :: string
  up_signed :: signed_upload
  up_one_time :: "one_time_upload list"

definition check_one_time_key ::
  "(string \<Rightarrow> bytes option) \<Rightarrow> one_time_upload \<Rightarrow> one_time_insert result" where
  "check_one_time_key dec item =
     and_then (require (0 < ou_key_id item) (ValidationError ''one_time_pre_keys.key_id'')) (\<lambda>_.
     and_then (decode_b64 dec (ou_public item)) (\<lambda>key.
     and_then (require (length key = 32) (ValidationError ''one_time_pre_keys.public_key'')) (\<lambda>_.
       Inr \<lparr>oi_key_id = ou_key_id item, oi_public = key\<rparr>)))"

definition upload_key_bundle ::
  "(string \<Rightarrow> bytes option) \<Rightarrow> uuid option \<Rightarrow> upload_request \<Rightarrow> instant \<Rightarrow> db
   \<Rightarrow> (string \<times> nat) result \<times> db" where
  "upload_key_bundle dec sub req now d =
     with_value (claims_user_id sub) (\<lambda>user.
       let device_id = trim (up_device_id req) in
     with_value (require (device_id \<noteq> [] \<and> int (length device_id) \<le> 128) (ValidationError ''device_id'')) (\<lambda>_.
     with_value (decode_b64 dec (up_identity_key req)) (\<lambda>identity_key.
     with_value (require (length identity_key = 32) (ValidationError ''identity_key'')) (\<lambda>_.
     with_value (require (0 < su_key_id (up_signed req)) (ValidationError ''signed_pre_key.key_id'')) (\<lambda>_.
     with_value (decode_b64 dec (su_public (up_signed req))) (\<lambda>signed_public_key.
     with_value (require (length signed_public_key = 32) (ValidationError ''signed_pre_key.public_key'')) (\<lambda>_.
     with_value (decode_b64 dec (su_signature (up_signed req))) (\<lambda>signed_signature.
     with_value (require (length signed_signature = 64) (ValidationError ''signed_pre_key.signature'')) (\<lambda>_.
     with_value (require (int (length (up_one_time req)) \<le> 200) (ValidationError ''one_time_pre_keys'')) (\<lambda>_.
     with_value (collect (check_one_time_key dec) (up_one_time req)) (\<lambda>one_time_keys.
     with_value (Inr (now + days 7)) (\<lambda>expires_at d.
       let (r, d') = atomically (\<lambda>d. from_sqlx (save_key_bundle user device_id identity_key
           \<lparr>si_key_id = su_key_id (up_signed req), si_public = signed_public_key,
            si_signature = signed_signature, si_expires = expires_at\<rparr> one_time_keys now d)) d
       in (and_then r (\<lambda>_. Inr (device_id, length one_time_keys)), d'))))))))))))) d"

record key_bundle =
  kb_device :: string
  kb_identity :: string
  kb_signed_id :: int
  kb_signed_public :: string
  kb_signature :: string
  kb_expires :: instant
  kb_one_time :: "(int \<times> string) option"
  kb_remaining :: nat

fun bundle_devices ::
  "(bytes \<Rightarrow> string) \<Rightarrow> uuid \<Rightarrow> instant \<Rightarrow> string list \<Rightarrow> db \<Rightarrow> key_bundle list result \<times> db" where
  "bundle_devices enc user now [] d = (Inr [], d)"
| "bundle_devices enc user now (dev # devs) d =
     (case get_identity_key user dev d of
        None \<Rightarrow> (Inl (NotFound ''identity_key''), d)
      | Some ik \<Rightarrow>
     (case get_latest_active_signed_pre_key user dev now d of
        None \<Rightarrow> (Inl (NotFound ''signed_pre_key''), d)
      | Some s \<Rightarrow>
          let (one_time, d1) = (case take_one_time_pre_key user dev now d of
                None \<Rightarrow> (None, d)
              | Some (k, d') \<Rightarrow> (Some (ok_key_id k, enc (ok_public k)), d'));
              b = \<lparr>kb_device = dev, kb_identity = enc ik, kb_signed_id = sk_key_id s,
                   kb_signed_public = enc (sk_public s), kb_signature = enc (sk_signature s),
                   kb_expires = sk_expires s, kb_one_time = one_time,
                   kb_remaining = count_unused_one_time_pre_keys user dev d1\<rparr>;
              (rest, d2) = bundle_devices enc user now devs d1
          in (and_then rest (\<lambda>bs. Inr (b # bs)), d2)))"

definition get_key_bundles ::
  "(bytes \<Rightarrow> string) \<Rightarrow> uuid \<Rightarrow> instant \<Rightarrow> db \<Rightarrow> key_bundle list result \<times> db" where
  "get_key_bundles enc target now d =
     (let device_ids = list_device_ids target d in
      if device_ids = [] then (Inl (NotFound ''no key bundle''), d)
      else bundle_devices enc target now device_ids d)"

section \<open>Pre-keys are handed out once\<close>

definition unused_keys :: "uuid \<Rightarrow> string \<Rightarrow> db \<Rightarrow> (uuid \<times> string \<times> int) set" where
  "unused_keys user dev d = ok_key ` set (filter (ok_unused user dev) (one_time_pre_keys d))"

definition used_keys :: "db \<Rightarrow> (uuid \<times> string \<times> int) set" where
  "used_keys d = ok_key ` set (filter ok_used (one_time_pre_keys d))"

abbreviation pre_keys_wf :: "db \<Rightarrow> bool" where
  "pre_keys_wf d \<equiv> unique_on ok_key (one_time_pre_keys d)"

lemma use_pre_key_fields [simp]:
  "ok_key (use_pre_key now k) = ok_key k" "ok_used (use_pre_key now k)"
  "ok_user (use_pre_key now k) = ok_user k" "ok_device (use_pre_key now k) = ok_device k"
  "ok_key_id (use_pre_key now k) = ok_key_id k" "ok_public (use_pre_key now k) = ok_public k"
  by (simp_all add: use_pre_key_def ok_key_def)

lemma take_pre_key_cases:
  assumes "take_one_time_pre_key user dev now d = Some (a, d')"
  obtains k where "k \<in> set (one_time_pre_keys d)" "ok_unused user dev k" "a = use_pre_key now k"
    "d' = d\<lparr>one_time_pre_keys :=
       update_where (\<lambda>j. ok_key j = ok_key k) (use_pre_key now) (one_time_pre_keys d)\<rparr>"
proof -
  let ?xs = "sort_key ok_created (filter (ok_unused user dev) (one_time_pre_keys d))"
  from assms obtain k ks where k: "?xs = k # ks" "a = use_pre_key now k"
    "d' = d\<lparr>one_time_pre_keys :=
       update_where (\<lambda>j. ok_key j = ok_key k) (use_pre_key now) (one_time_pre_keys d)\<rparr>"
    by (auto simp: take_one_time_pre_key_def split: list.splits)
  have "k \<in> set ?xs" unfolding k(1) by simp
  then have "k \<in> set (one_time_pre_keys d)" "ok_unused user dev k" by simp_all
  then show thesis by (rule that [OF _ _ k(2,3)])
qed

lemma take_pre_key_effect:
  assumes "pre_keys_wf d" "take_one_time_pre_key user dev now d = Some (a, d')"
  shows "ok_key a \<in> unused_keys user dev d"
    and "unused_keys u v d' = unused_keys u v d - {ok_key a}"
    and "pre_keys_wf d'"
    and "used_keys d' = insert (ok_key a) (used_keys d)" and "ok_key a \<notin> used_keys d"
    and "ok_user a = user" and "ok_device a = dev"
proof -
  from assms(2) obtain k where k: "k \<in> set (one_time_pre_keys d)" "ok_unused user dev k"
    and a: "a = use_pre_key now k" and d': "d' = d\<lparr>one_time_pre_keys :=
       update_where (\<lambda>j. ok_key j = ok_key k) (use_pre_key now) (one_time_pre_keys d)\<rparr>"
    by (rule take_pre_key_cases)
  have only: "j = k" if "j \<in> set (one_time_pre_keys d)" "ok_key j = ok_key k" for j
    using fetch_key_eq [OF assms(1) that(1) k(1) that(2)] .
  show "ok_key a \<in> unused_keys user dev d" using k by (simp add: a unused_keys_def)
  have "\<not> ok_used j" if "j \<in> set (one_time_pre_keys d)" "ok_key j = ok_key k" for j
    using only [OF that] k(2) by (simp add: ok_unused_def)
  then show "ok_key a \<notin> used_keys d" by (auto simp: a used_keys_def)
  show "pre_keys_wf d'" using assms(1) by (simp add: d' column_update_where)
  have "filter (ok_unused u v) (one_time_pre_keys d')
      = filter (\<lambda>j. ok_unused u v j \<and> ok_key j \<noteq> ok_key k) (one_time_pre_keys d)"
    using filter_update_gone [of "\<lambda>j. ok_key j = ok_key k" "ok_unused u v" "use_pre_key now"]
    by (simp add: d' ok_unused_def)
  then show "unused_keys u v d' = unused_keys u v d - {ok_key a}"
    by (auto simp: unused_keys_def a)
  have "used_keys d'
      = ok_key ` set (filter (\<lambda>j. ok_key j = ok_key k \<or> ok_used j) (one_time_pre_keys d))"
  proof -
    have "(\<lambda>j. ok_used (if ok_key j = ok_key k then use_pre_key now j else j))
        = (\<lambda>j. ok_key j = ok_key k \<or> ok_used j)" by auto
    with keys_filter_update [of "\<lambda>j. ok_key j = ok_key k" ok_key "use_pre_key now" ok_used "one_time_pre_keys d"]
    show ?thesis by (simp add: used_keys_def d' del: set_filter)
  qed
  then show "used_keys d' = insert (ok_key a) (used_keys d)"
    using k(1) by (auto simp: used_keys_def a)
  show "ok_user a = user" "ok_device a = dev" using k by (simp_all add: a ok_unused_def)
qed

interpretation pre_keys: one_time_store "take_one_time_pre_key user dev"
  "\<lambda>_. unused_keys user dev" ok_key pre_keys_wf
  for user dev
  by unfold_locales (rule take_pre_key_effect, assumption, assumption)+

text \<open>What the answer to a fetch hands out.\<close>

fun bundle_key :: "uuid \<Rightarrow> key_bundle \<Rightarrow> (uuid \<times> string \<times> int) list" where
  "bundle_key user b = (case kb_one_time b of None \<Rightarrow> [] | Some (i, _) \<Rightarrow> [(user, kb_device b, i)])"

definition handed_out :: "uuid \<Rightarrow> key_bundle list result \<Rightarrow> (uuid \<times> string \<times> int) list" where
  "handed_out user r = (case r of Inl _ \<Rightarrow> [] | Inr bs \<Rightarrow> concat (map (bundle_key user) bs))"

lemma handed_out_simps [simp]:
  "handed_out user (Inl e) = []" "handed_out user (Inr []) = []"
  "handed_out user (Inr (b # bs)) = bundle_key user b @ handed_out user (Inr bs)"
  by (simp_all add: handed_out_def)

text \<open>A step of the service gives out fresh keys and never makes a used one fresh again.\<close>

definition fresh_step :: "db \<Rightarrow> (uuid \<times> string \<times> int) list \<Rightarrow> db \<Rightarrow> bool" where
  "fresh_step d out d' \<longleftrightarrow> pre_keys_wf d' \<and> distinct out \<and> set out \<inter> used_keys d = {}
     \<and> set out \<union> used_keys d \<subseteq> used_keys d'"

lemma fresh_step_refl: "pre_keys_wf d \<Longrightarrow> fresh_step d [] d"
  by (simp add: fresh_step_def)

lemma fresh_step_trans:
  "fresh_step d xs d1 \<Longrightarrow> fresh_step d1 ys d2 \<Longrightarrow> fresh_step d (xs @ ys) d2"
  by (auto simp: fresh_step_def)

lemma fresh_step_drop: "fresh_step d xs d' \<Longrightarrow> fresh_step d [] d'"
  by (auto simp: fresh_step_def)

lemma take_fresh_step:
  assumes "pre_keys_wf d" "take_one_time_pre_key user dev now d = Some (a, d')"
  shows "fresh_step d [(user, dev, ok_key_id a)] d'"
proof -
  have "ok_key a = (user, dev, ok_key_id a)"
    using take_pre_key_effect(6,7) [OF assms] by (simp add: ok_key_def)
  then show ?thesis using take_pre_key_effect(3-5) [OF assms] by (auto simp: fresh_step_def)
qed

lemma bundles_fresh_step:
  "pre_keys_wf d \<Longrightarrow> bundle_devices enc user now devs d = (r, d') \<Longrightarrow> fresh_step d (handed_out user r) d'"
proof (induction devs arbitrary: d r d')
  case Nil
  then show ?case by (auto intro: fresh_step_refl)
next
  case (Cons dev devs)
  show ?case
  proof (cases "get_identity_key user dev d = None \<or> get_latest_active_signed_pre_key user dev now d = None")
    case True
    then show ?thesis using Cons.prems by (auto intro: fresh_step_refl split: option.splits)
  next
    case False
    then obtain ik s where some: "get_identity_key user dev d = Some ik"
      "get_latest_active_signed_pre_key user dev now d = Some s" by auto
    show ?thesis
    proof (cases "take_one_time_pre_key user dev now d")
      case None
      obtain rest d2 where rest: "bundle_devices enc user now devs d = (rest, d2)" by fastforce
      have "d' = d2 \<and> handed_out user r = handed_out user rest"
        using Cons.prems(2) some None rest by (cases rest) (auto simp: Let_def)
      then show ?thesis using Cons.IH [OF Cons.prems(1) rest] by simp
    next
      case (Some p)
      obtain k d1 where p: "p = (k, d1)" by (cases p)
      obtain rest d2 where rest: "bundle_devices enc user now devs d1 = (rest, d2)" by fastforce
      note first = take_fresh_step [OF Cons.prems(1) Some [unfolded p]]
      then have wf1: "pre_keys_wf d1" by (simp add: fresh_step_def)
      note both = fresh_step_trans [OF first Cons.IH [OF wf1 rest]]
      have "d' = d2 \<and> (handed_out user r = []
          \<or> handed_out user r = [(user, dev, ok_key_id k)] @ handed_out user rest)"
        using Cons.prems(2) some Some p rest by (cases rest) (auto simp: Let_def)
      then show ?thesis using both fresh_step_drop [OF both] by metis
    qed
  qed
qed

lemma upsert_keys_frame:
  "upsert_identity_key now user dev key d = Inr d1 \<Longrightarrow> one_time_pre_keys d1 = one_time_pre_keys d"
  "upsert_signed_pre_key now user dev s d = Inr d1 \<Longrightarrow> one_time_pre_keys d1 = one_time_pre_keys d"
  by (auto simp: upsert_identity_key_def upsert_signed_pre_key_def Let_def split: if_splits)

lemma insert_pre_key_fresh:
  "pre_keys_wf d \<Longrightarrow> insert_one_time_pre_key now user dev o1 d = Inr d1 \<Longrightarrow> fresh_step d [] d1"
proof -
  let ?k = "\<lparr>ok_user = user, ok_device = dev, ok_key_id = oi_key_id o1, ok_public = oi_public o1,
    ok_used = False, ok_used_at = None, ok_created = now\<rparr>"
  assume wf: "pre_keys_wf d" and ins: "insert_one_time_pre_key now user dev o1 d = Inr d1"
  then consider "d1 = d" | "\<not> exists_row (\<lambda>k. ok_key k = ok_key ?k) (one_time_pre_keys d)"
    "d1 = d\<lparr>one_time_pre_keys := one_time_pre_keys d @ [?k]\<rparr>"
    by (fastforce simp: insert_one_time_pre_key_def ok_key_def [of ?k] split: if_splits)
  then show "fresh_step d [] d1"
  proof cases
    case 2
    then have "ok_key ?k \<notin> ok_key ` set (one_time_pre_keys d)" by force
    then show ?thesis using wf 2(2) by (auto simp: fresh_step_def used_keys_def)
  qed (use wf in \<open>simp add: fresh_step_refl\<close>)
qed

lemma insert_pre_keys_fresh:
  "pre_keys_wf d \<Longrightarrow> insert_one_time_pre_keys now user dev os d = Inr d1 \<Longrightarrow> fresh_step d [] d1"
proof (induction os arbitrary: d)
  case (Cons o1 os)
  then obtain d2 where d2: "insert_one_time_pre_key now user dev o1 d = Inr d2"
    "insert_one_time_pre_keys now user dev os d2 = Inr d1" by (auto split: sum.splits)
  note one = insert_pre_key_fresh [OF Cons.prems(1) d2(1)]
  then have "pre_keys_wf d2" by (simp add: fresh_step_def)
  from fresh_step_trans [OF one Cons.IH [OF this d2(2)]] show ?case by simp
qed (auto intro: fresh_step_refl)

lemma save_key_bundle_fresh:
  assumes "pre_keys_wf d" "save_key_bundle user dev identity s os now d = Inr (u, d')"
  shows "fresh_step d [] d'"
proof -
  from assms(2) obtain d1 d2 where "upsert_identity_key now user dev identity d = Inr d1"
    "upsert_signed_pre_key now user dev s d1 = Inr d2" "insert_one_time_pre_keys now user dev os d2 = Inr d'"
    by (auto simp: save_key_bundle_def split: sum.splits)
  moreover from this have "one_time_pre_keys d2 = one_time_pre_keys d"
    using upsert_keys_frame by metis
  ultimately show ?thesis
    using insert_pre_keys_fresh [of d2] assms(1) by (simp add: fresh_step_def used_keys_def)
qed

text \<open>An upload either leaves the database alone or saves one bundle.\<close>

lemma upload_saves:
  assumes "upload_key_bundle dec sub req now d = (r, d')"
  obtains "d' = d" | user dev identity s os where "save_key_bundle user dev identity s os now d = Inr ((), d')"
proof (cases "d' = d")
  case False
  have "\<exists>user dev identity s os. save_key_bundle user dev identity s os now d = Inr ((), d')"
    using assms False
    unfolding upload_key_bundle_def Let_def with_value_def atomically_def from_sqlx_def
    by (auto split: sum.splits prod.splits) blast
  then show thesis using that(2) by blast
qed (rule that(1))

lemma upload_fresh_step:
  "pre_keys_wf d \<Longrightarrow> upload_key_bundle dec sub req now d = (r, d') \<Longrightarrow> fresh_step d [] d'"
  by (erule upload_saves) (auto intro: fresh_step_refl save_key_bundle_fresh)

lemma fetch_fresh_step:
  "pre_keys_wf d \<Longrightarrow> get_key_bundles enc user now d = (r, d') \<Longrightarrow> fresh_step d (handed_out user r) d'"
  by (auto simp: get_key_bundles_def Let_def intro: fresh_step_refl bundles_fresh_step split: if_splits)

text \<open>The requests on key bundles, and the pre-keys a sequence of them hands out.\<close>

datatype key_request = UploadBundle "uuid option" upload_request | FetchBundles uuid

fun serve_key_request ::
  "(string \<Rightarrow> bytes option) \<Rightarrow> (bytes \<Rightarrow> string) \<Rightarrow> key_request \<Rightarrow> instant \<Rightarrow> db
   \<Rightarrow> (uuid \<times> string \<times> int) list \<times> db" where
  "serve_key_request dec enc (UploadBundle sub req) now d =
     ([], snd (upload_key_bundle dec sub req now d))"
| "serve_key_request dec enc (FetchBundles user) now d =
     (let (r, d') = get_key_bundles enc user now d in (handed_out user r, d'))"

fun serve_key_requests ::
  "(string \<Rightarrow> bytes option) \<Rightarrow> (bytes \<Rightarrow> string) \<Rightarrow> (instant \<times> key_request) list \<Rightarrow> db
   \<Rightarrow> (uuid \<times> string \<times> int) list" where
  "serve_key_requests dec enc [] d = []"
| "serve_key_requests dec enc ((now, c) # cs) d =
     (let (out, d') = serve_key_request dec enc c now d in out @ serve_key_requests dec enc cs d')"

lemma serve_fresh_step:
  assumes "pre_keys_wf d" "serve_key_request dec enc c now d = (out, d')"
  shows "fresh_step d out d'"
proof (cases c)
  case (UploadBundle sub req)
  obtain r d1 where "upload_key_bundle dec sub req now d = (r, d1)" by fastforce
  then show ?thesis using assms UploadBundle upload_fresh_step [OF assms(1)] by auto
next
  case (FetchBundles user)
  obtain r d1 where "get_key_bundles enc user now d = (r, d1)" by fastforce
  then show ?thesis using assms FetchBundles fetch_fresh_step [OF assms(1)] by auto
qed

lemma served_fresh:
  "pre_keys_wf d \<Longrightarrow> distinct (serve_key_requests dec enc cs d)
     \<and> set (serve_key_requests dec enc cs d) \<inter> used_keys d = {}"
proof (induction cs arbitrary: d)
  case (Cons c cs)
  obtain now k where c: "c = (now, k)" by (cases c)
  obtain out d' where step: "serve_key_request dec enc k now d = (out, d')" by fastforce
  note fresh = serve_fresh_step [OF Cons.prems step]
  then have "pre_keys_wf d'" by (simp add: fresh_step_def)
  from Cons.IH [OF this] fresh show ?case
    unfolding c fresh_step_def by (auto simp: step)
qed simp

section \<open>A device without a signed pre-key\<close>

lemma count_unused_card:
  "pre_keys_wf d \<Longrightarrow> count_unused_one_time_pre_keys user dev d = card (unused_keys user dev d)"
proof -
  assume "pre_keys_wf d"
  then have "distinct (map ok_key (filter (ok_unused user dev) (one_time_pre_keys d)))"
    by (rule distinct_map_filter)
  from distinct_card [OF this] show ?thesis
    by (simp add: count_unused_one_time_pre_keys_def unused_keys_def)
qed

lemma take_pre_key_None:
  "take_one_time_pre_key user dev now d = None \<longleftrightarrow> unused_keys user dev d = {}"
proof -
  let ?xs = "filter (ok_unused user dev) (one_time_pre_keys d)"
  have "take_one_time_pre_key user dev now d = None \<longleftrightarrow> length (sort_key ok_created ?xs) = 0"
    by (simp add: take_one_time_pre_key_def del: length_sort split: list.split)
  also have "\<dots> \<longleftrightarrow> ?xs = []" by simp
  finally show ?thesis by (simp add: unused_keys_def del: set_filter)
qed

lemma take_pre_key_frame:
  assumes "take_one_time_pre_key user dev now d = Some (a, d')"
  shows "get_identity_key u v d' = get_identity_key u v d"
    and "get_latest_active_signed_pre_key u v t d' = get_latest_active_signed_pre_key u v t d"
  using assms
  by (auto elim!: take_pre_key_cases simp: get_identity_key_def get_latest_active_signed_pre_key_def)

text \<open>The devices before the one that lacks a signed pre-key have each lost a one-time pre-key.\<close>

lemma bundles_waste:
  assumes "pre_keys_wf d" "get_latest_active_signed_pre_key user dev now d = None"
    and "\<forall>x \<in> set pre. get_identity_key user x d \<noteq> None
      \<and> get_latest_active_signed_pre_key user x now d \<noteq> None"
  shows "(\<exists>m. fst (bundle_devices enc user now (pre @ dev # post) d) = Inl (NotFound m))
    \<and> pre_keys_wf (snd (bundle_devices enc user now (pre @ dev # post) d))
    \<and> (\<forall>x. unused_keys user x (snd (bundle_devices enc user now (pre @ dev # post) d)) \<subseteq> unused_keys user x d)
    \<and> (\<forall>x \<in> set pre. unused_keys user x d \<noteq> {} \<longrightarrow>
        unused_keys user x (snd (bundle_devices enc user now (pre @ dev # post) d)) \<noteq> unused_keys user x d)"
  using assms
proof (induction pre arbitrary: d)
  case Nil
  then show ?case by (simp split: option.split)
next
  case (Cons v pre)
  then obtain ik s where v: "get_identity_key user v d = Some ik"
    "get_latest_active_signed_pre_key user v now d = Some s" by auto
  show ?case
  proof (cases "take_one_time_pre_key user v now d")
    case None
    obtain r d2 where r: "bundle_devices enc user now (pre @ dev # post) d = (r, d2)" by fastforce
    have "unused_keys user v d = {}" using None by (simp add: take_pre_key_None)
    then show ?thesis
      using Cons.IH [of d] Cons.prems v None r by (auto simp: Let_def)
  next
    case (Some p)
    obtain k d1 where p: "p = (k, d1)" by (cases p)
    note took = Some [unfolded p]
    obtain r d2 where r: "bundle_devices enc user now (pre @ dev # post) d1 = (r, d2)" by fastforce
    have eq: "unused_keys user x d1 = unused_keys user x d - {ok_key k}" for x
      by (rule take_pre_key_effect(2) [OF Cons.prems(1) took])
    have mem: "ok_key k \<in> unused_keys user v d" by (rule take_pre_key_effect(1) [OF Cons.prems(1) took])
    have IH: "(\<exists>m. r = Inl (NotFound m)) \<and> pre_keys_wf d2
        \<and> (\<forall>x. unused_keys user x d2 \<subseteq> unused_keys user x d1)
        \<and> (\<forall>x \<in> set pre. unused_keys user x d1 \<noteq> {} \<longrightarrow> unused_keys user x d2 \<noteq> unused_keys user x d1)"
      using Cons.IH [of d1] take_pre_key_effect(3) [OF Cons.prems(1) took] Cons.prems r
      by (simp add: take_pre_key_frame [OF took])
    then have sub: "unused_keys user x d2 \<subseteq> unused_keys user x d" for x unfolding eq by blast
    have "unused_keys user x d2 \<noteq> unused_keys user x d"
      if "x \<in> set (v # pre)" "unused_keys user x d \<noteq> {}" for x
    proof (cases "ok_key k \<in> unused_keys user x d")
      case True
      then show ?thesis using IH unfolding eq by blast
    next
      case False
      then have "x \<in> set pre" "unused_keys user x d1 = unused_keys user x d" using that mem eq by auto
      then show ?thesis using IH that(2) by metis
    qed
    moreover have "snd (bundle_devices enc user now ((v # pre) @ dev # post) d) = d2"
      "fst (bundle_devices enc user now ((v # pre) @ dev # post) d) = r"
      using v took r IH by (auto simp: Let_def)
    ultimately show ?thesis using IH sub by auto
  qed
qed

section \<open>Properties\<close>

definition sample_one_time :: "int \<Rightarrow> string \<Rightarrow> one_time_pre_key" where
  "sample_one_time i dev = \<lparr>ok_user = 1, ok_device = dev, ok_key_id = i, ok_public = [3],
     ok_used = False, ok_used_at = None, ok_created = i\<rparr>"

text \<open>A user with two devices; the signed pre-key of \<open>b\<close> expires at 50, the other one at 90.\<close>

definition two_bundles :: db where
  "two_bundles = empty_db\<lparr>users := [1],
     identity_keys := [\<lparr>ik_user = 1, ik_device = ''a'', ik_public = [1], ik_updated = 9\<rparr>,
                       \<lparr>ik_user = 1, ik_device = ''b'', ik_public = [2], ik_updated = 8\<rparr>],
     signed_pre_keys := [\<lparr>sk_user = 1, sk_device = ''a'', sk_key_id = 1, sk_public = [4], sk_signature = [5],
                           sk_expires = 90, sk_created = 9\<rparr>,
                         \<lparr>sk_user = 1, sk_device = ''b'', sk_key_id = 1, sk_public = [4], sk_signature = [5],
                           sk_expires = 50, sk_created = 8\<rparr>],
     one_time_pre_keys := [sample_one_time 1 ''a'', sample_one_time 2 ''a'', sample_one_time 1 ''b'']\<rparr>"

definition sample_encoder :: "bytes \<Rightarrow> string" where
  "sample_encoder = map (\<lambda>b. char_of (unat b))"

lemma two_bundles_wf: "pre_keys_wf two_bundles"
  by code_simp

text \<open>
  C20: No one-time pre-key is handed out twice: whatever uploads and fetches are served in
  whatever order, no key id of a device occurs in two answers, not even when the device uploads
  the same id again after it was used.
\<close>

theorem pre_keys_never_repeat:
  assumes "pre_keys_wf d"
  shows "distinct (serve_key_requests dec enc cs d)"
  using served_fresh [OF assms] by blast

theorem pre_keys_never_repeat_witness:
  "distinct (serve_key_requests (\<lambda>_. None) sample_encoder
     [(10, FetchBundles 1), (11, FetchBundles 1), (12, FetchBundles 1)] two_bundles)
   \<and> serve_key_requests (\<lambda>_. None) sample_encoder
     [(10, FetchBundles 1), (11, FetchBundles 1), (12, FetchBundles 1)] two_bundles
     = [(1, ''a'', 1), (1, ''b'', 1), (1, ''a'', 2)]"
  using pre_keys_never_repeat [OF two_bundles_wf] by (intro conjI) (assumption | code_simp)+

text \<open>
  One device without a valid signed pre-key makes the whole fetch fail, and the failed fetch
  still uses up a one-time pre-key of every device listed before it that has one left: the keys
  are marked as used although no answer carries them.
\<close>

lemma stale_device_wastes_pre_keys:
  assumes "pre_keys_wf d" "list_device_ids user d = pre @ dev # post"
    and "get_latest_active_signed_pre_key user dev now d = None"
    and "\<forall>x \<in> set pre. get_identity_key user x d \<noteq> None
      \<and> get_latest_active_signed_pre_key user x now d \<noteq> None"
    and "x \<in> set pre" "0 < count_unused_one_time_pre_keys user x d"
  shows "(\<exists>m. fst (get_key_bundles enc user now d) = Inl (NotFound m))
    \<and> count_unused_one_time_pre_keys user x (snd (get_key_bundles enc user now d))
      < count_unused_one_time_pre_keys user x d"
proof -
  let ?d = "snd (get_key_bundles enc user now d)"
  have get: "get_key_bundles enc user now d = bundle_devices enc user now (pre @ dev # post) d"
    using assms(2) by (simp add: get_key_bundles_def)
  note w = bundles_waste [OF assms(1,3,4), of enc post, folded get]
  have "unused_keys user x d \<noteq> {}"
    using assms(6) by (auto simp: count_unused_card [OF assms(1)])
  then have "unused_keys user x ?d \<subset> unused_keys user x d" using w assms(5) by blast
  moreover have "finite (unused_keys user x d)" by (simp add: unused_keys_def)
  ultimately have "card (unused_keys user x ?d) < card (unused_keys user x d)"
    by (intro psubset_card_mono)
  then show ?thesis using w count_unused_card assms(1) by metis
qed

end
