(* ===== verification/Friends.thy ===== *)
theory Friends
  imports Schema Requests
begin

text \<open>
  Friend requests, friendships, remarks and blocks: \<open>api/src/database/friend_store.rs\<close> and
  \<open>api/src/database/user_block_store.rs\<close> with the constraints of their tables.  The stores do not
  open a transaction: an operation that writes twice gives a result and the state it leaves.
  Each read-check-write sequence is one step, except in \<open>respond_race\<close>, which splits it.
  \<open>social\<close> is the abstract specification: a set of friendships and a set of open requests.
\<close>

section \<open>Friend requests\<close>

definition sort_user_pair :: "uuid \<Rightarrow> uuid \<Rightarrow> uuid \<times> uuid" where
  "sort_user_pair a b = (if a \<le> b then (a, b) else (b, a))"

definition are_already_friends :: "uuid \<Rightarrow> uuid \<Rightarrow> db \<Rightarrow> bool" where
  "are_already_friends a b d =
     (let (first, second) = sort_user_pair a b in
      exists_row (\<lambda>f. fs_a f = first \<and> fs_b f = second) (friendships d))"

abbreviation request_key :: "friend_request \<Rightarrow> uuid \<times> uuid" where
  "request_key r \<equiv> (fr_requester r, fr_addressee r)"

abbreviation between :: "uuid \<Rightarrow> uuid \<Rightarrow> friend_request \<Rightarrow> bool" where
  "between a b r \<equiv> request_key r = (a, b) \<or> request_key r = (b, a)"

text \<open>\<open>ORDER BY created_at DESC LIMIT 1\<close>.\<close>

definition latest_request :: "uuid \<Rightarrow> uuid \<Rightarrow> db \<Rightarrow> friend_request option" where
  "latest_request a b d =
     (case sort_key (\<lambda>r. - fr_created r) (filter (between a b) (friend_requests d)) of
        [] \<Rightarrow> None
      | r # _ \<Rightarrow> Some r)"

definition reopen :: "string option \<Rightarrow> instant \<Rightarrow> friend_request \<Rightarrow> friend_request" where
  "reopen msg now r = r\<lparr>fr_status := ReqPending, fr_message := msg, fr_created := now, fr_responded := None\<rparr>"

definition new_request :: "uuid \<Rightarrow> uuid \<Rightarrow> uuid \<Rightarrow> string option \<Rightarrow> instant \<Rightarrow> friend_request" where
  "new_request i a b msg now =
     \<lparr>fr_id = i, fr_requester = a, fr_addressee = b, fr_status = ReqPending, fr_message = msg,
      fr_created = now, fr_responded = None\<rparr>"

text \<open>\<open>INSERT ... ON CONFLICT (requester_id, addressee_id) DO UPDATE\<close>.\<close>

definition upsert_request ::
  "uuid \<Rightarrow> uuid \<Rightarrow> uuid \<Rightarrow> string option \<Rightarrow> instant \<Rightarrow> db \<Rightarrow> sqlx_error + (friend_request \<times> db)" where
  "upsert_request i a b msg now d =
     (if a = b then Inl CheckViolation
      else case fetch_optional (\<lambda>r. request_key r = (a, b)) (friend_requests d) of
        Some r \<Rightarrow> Inr (reopen msg now r,
          d\<lparr>friend_requests := update_where (\<lambda>r. request_key r = (a, b)) (reopen msg now) (friend_requests d)\<rparr>)
      | None \<Rightarrow>
          if exists_row (\<lambda>r. fr_id r = i) (friend_requests d) then Inl UniqueViolation
          else if a \<notin> set (users d) \<or> b \<notin> set (users d) then Inl ForeignKeyViolation
          else Inr (new_request i a b msg now,
            d\<lparr>friend_requests := friend_requests d @ [new_request i a b msg now]\<rparr>))"

definition create_request ::
  "uuid \<Rightarrow> uuid \<Rightarrow> uuid \<Rightarrow> string option \<Rightarrow> instant \<Rightarrow> db \<Rightarrow> (friend_request \<times> db) result" where
  "create_request i requester addressee msg now d =
     (if requester = addressee then Inl (ValidationError ''request to oneself'')
      else if are_already_friends requester addressee d then Inl (AlreadyExists ''already friends'')
      else case latest_request requester addressee d of
        None \<Rightarrow> from_sqlx (upsert_request i requester addressee msg now d)
      | Some existing \<Rightarrow>
     (case fr_status existing of
        ReqPending \<Rightarrow> Inl (AlreadyExists ''request pending'')
      | ReqAccepted \<Rightarrow> from_sqlx (upsert_request i requester addressee msg now d)
      | ReqDeclined \<Rightarrow>
          if fr_requester existing = requester
          then Inr (reopen msg now existing,
            d\<lparr>friend_requests := update_where (\<lambda>r. fr_id r = fr_id existing) (reopen msg now) (friend_requests d)\<rparr>)
          else from_sqlx (upsert_request i requester addressee msg now d)))"

datatype direction = Incoming | Outgoing

definition list_requests ::
  "uuid \<Rightarrow> direction option \<Rightarrow> request_status option \<Rightarrow> db \<Rightarrow> friend_request list" where
  "list_requests user dir status d =
     sort_key (\<lambda>r. - fr_created r) (filter (\<lambda>r.
       (fr_requester r = user \<or> fr_addressee r = user)
       \<and> (case dir of None \<Rightarrow> True | Some Incoming \<Rightarrow> fr_addressee r = user | Some Outgoing \<Rightarrow> fr_requester r = user)
       \<and> (case status of None \<Rightarrow> True | Some s \<Rightarrow> fr_status r = s)) (friend_requests d))"

definition parse_direction :: "string option \<Rightarrow> direction option result" where
  "parse_direction s =
     (case s of
        None \<Rightarrow> Inr None
      | Some v \<Rightarrow>
          if v = [] then Inr None
          else if v = ''incoming'' then Inr (Some Incoming)
          else if v = ''outgoing'' then Inr (Some Outgoing)
          else Inl (ValidationError ''direction''))"

definition parse_status :: "string option \<Rightarrow> request_status option result" where
  "parse_status s =
     (case s of
        None \<Rightarrow> Inr None
      | Some v \<Rightarrow>
          if v = [] then Inr None
          else if v = ''pending'' then Inr (Some ReqPending)
          else if v = ''accepted'' then Inr (Some ReqAccepted)
          else if v = ''declined'' then Inr (Some ReqDeclined)
          else Inl (ValidationError ''status''))"

text \<open>\<open>respond_request\<close>: the reads and checks, then the writes.\<close>

definition respond_check :: "uuid \<Rightarrow> uuid \<Rightarrow> request_status \<Rightarrow> db \<Rightarrow> friend_request result" where
  "respond_check request_id responder new_status d =
     (if new_status = ReqPending then Inl (ValidationError ''answer must accept or decline'')
      else case fetch_optional (\<lambda>r. fr_id r = request_id) (friend_requests d) of
        None \<Rightarrow> Inl (NotFound ''friend request'')
      | Some r \<Rightarrow>
          if fr_addressee r \<noteq> responder then Inl (Forbidden ''friend request of another user'')
          else if fr_status r \<noteq> ReqPending then Inl (ValidationError ''friend request answered'')
          else Inr r)"

definition answered :: "request_status \<Rightarrow> instant \<Rightarrow> friend_request \<Rightarrow> friend_request" where
  "answered st now r = r\<lparr>fr_status := st, fr_responded := Some now\<rparr>"

definition insert_friendship :: "uuid \<times> uuid \<Rightarrow> instant \<Rightarrow> db \<Rightarrow> sqlx_error + db" where
  "insert_friendship pair now d =
     (let (a, b) = pair in
      if \<not> a < b then Inl CheckViolation
      else if exists_row (\<lambda>f. fs_a f = a \<and> fs_b f = b) (friendships d) then Inr d
      else if a \<notin> set (users d) \<or> b \<notin> set (users d) then Inl ForeignKeyViolation
      else Inr (d\<lparr>friendships := friendships d @ [\<lparr>fs_a = a, fs_b = b, fs_created = now\<rparr>]\<rparr>))"

definition respond_write ::
  "friend_request \<Rightarrow> request_status \<Rightarrow> instant \<Rightarrow> db \<Rightarrow> friend_request result \<times> db" where
  "respond_write request new_status now d =
     (let d1 = d\<lparr>friend_requests :=
            update_where (\<lambda>r. fr_id r = fr_id request) (answered new_status now) (friend_requests d)\<rparr>
      in if new_status = ReqAccepted
         then case from_sqlx (insert_friendship (sort_user_pair (fr_requester request) (fr_addressee request)) now d1) of
             Inl e \<Rightarrow> (Inl e, d1)
           | Inr d2 \<Rightarrow> (Inr (answered new_status now request), d2)
         else (Inr (answered new_status now request), d1))"

definition respond_request ::
  "uuid \<Rightarrow> uuid \<Rightarrow> request_status \<Rightarrow> instant \<Rightarrow> db \<Rightarrow> friend_request result \<times> db" where
  "respond_request request_id responder new_status now d =
     with_value (respond_check request_id responder new_status d)
       (\<lambda>r. respond_write r new_status now) d"

definition count_pending_incoming :: "uuid \<Rightarrow> db \<Rightarrow> nat" where
  "count_pending_incoming user d =
     length (filter (\<lambda>r. fr_addressee r = user \<and> fr_status r = ReqPending) (friend_requests d))"

section \<open>Friendships, remarks, blocks\<close>

record friendship_record =
  fe_friendship :: friendship
  fe_friend :: uuid
  fe_remark :: "string option"

definition remark_of :: "uuid \<Rightarrow> uuid \<Rightarrow> db \<Rightarrow> string option" where
  "remark_of user friend d =
     map_option fk_remark (fetch_optional (\<lambda>k. fk_user k = user \<and> fk_friend k = friend) (friend_remarks d))"

definition list_friendships :: "uuid \<Rightarrow> db \<Rightarrow> friendship_record list" where
  "list_friendships user d =
     map (\<lambda>f. let friend = (if fs_a f = user then fs_b f else fs_a f) in
            \<lparr>fe_friendship = f, fe_friend = friend, fe_remark = remark_of user friend d\<rparr>)
       (sort_key (\<lambda>f. - fs_created f)
         (filter (\<lambda>f. fs_a f = user \<or> fs_b f = user) (friendships d)))"

definition delete_friendship :: "uuid \<Rightarrow> uuid \<Rightarrow> db \<Rightarrow> (bool \<times> db) result" where
  "delete_friendship user friend d =
     (if user = friend then Inl (ValidationError ''oneself as a friend'')
      else
        let (first, second) = sort_user_pair user friend;
            row = (\<lambda>f. fs_a f = first \<and> fs_b f = second);
            d1 = d\<lparr>friendships := delete_where row (friendships d)\<rparr>
        in if rows_affected row (friendships d) = 0 then Inr (False, d)
           else Inr (True, d1\<lparr>friend_remarks := delete_where (\<lambda>k.
                  (fk_user k = user \<and> fk_friend k = friend) \<or> (fk_user k = friend \<and> fk_friend k = user))
                  (friend_remarks d1)\<rparr>))"

definition blank_remark :: "string option \<Rightarrow> bool" where
  "blank_remark remark = (case remark of None \<Rightarrow> True | Some s \<Rightarrow> trim s = [])"

definition upsert_friend_remark ::
  "uuid \<Rightarrow> uuid \<Rightarrow> string option \<Rightarrow> db \<Rightarrow> (string option \<times> db) result" where
  "upsert_friend_remark user friend remark d =
     (let row = (\<lambda>k. fk_user k = user \<and> fk_friend k = friend) in
      if \<not> are_already_friends user friend d then Inl (ValidationError ''not friends'')
      else if blank_remark remark
      then Inr (None, d\<lparr>friend_remarks := delete_where row (friend_remarks d)\<rparr>)
      else case remark of
        None \<Rightarrow> Inr (None, d)
      | Some s \<Rightarrow>
          if user = friend then Inl (DatabaseError CheckViolation)
          else if exists_row row (friend_remarks d)
          then Inr (Some s, d\<lparr>friend_remarks := update_where row (\<lambda>k. k\<lparr>fk_remark := s\<rparr>) (friend_remarks d)\<rparr>)
          else if user \<notin> set (users d) \<or> friend \<notin> set (users d) then Inl (DatabaseError ForeignKeyViolation)
          else Inr (Some s, d\<lparr>friend_remarks := friend_remarks d @
                 [\<lparr>fk_user = user, fk_friend = friend, fk_remark = s\<rparr>]\<rparr>))"

definition block_user :: "uuid \<Rightarrow> uuid \<Rightarrow> db \<Rightarrow> (bool \<times> db) result" where
  "block_user blocker blocked d =
     (if blocker = blocked then Inl (ValidationError ''oneself'')
      else if exists_row (\<lambda>b. ub_blocker b = blocker \<and> ub_blocked b = blocked) (user_blocks d) then Inr (False, d)
      else if blocker \<notin> set (users d) \<or> blocked \<notin> set (users d) then Inl (DatabaseError ForeignKeyViolation)
      else Inr (True, d\<lparr>user_blocks := user_blocks d @ [\<lparr>ub_blocker = blocker, ub_blocked = blocked\<rparr>]\<rparr>))"

definition unblock_user :: "uuid \<Rightarrow> uuid \<Rightarrow> db \<Rightarrow> bool \<times> db" where
  "unblock_user blocker blocked d =
     (let row = (\<lambda>b. ub_blocker b = blocker \<and> ub_blocked b = blocked) in
      (rows_affected row (user_blocks d) > 0, d\<lparr>user_blocks := delete_where row (user_blocks d)\<rparr>))"

definition is_blocked :: "uuid \<Rightarrow> uuid \<Rightarrow> db \<Rightarrow> bool" where
  "is_blocked blocker blocked d =
     exists_row (\<lambda>b. ub_blocker b = blocker \<and> ub_blocked b = blocked) (user_blocks d)"

definition is_mutually_blocked :: "uuid \<Rightarrow> uuid \<Rightarrow> db \<Rightarrow> bool" where
  "is_mutually_blocked a b d =
     exists_row (\<lambda>x. (ub_blocker x = a \<and> ub_blocked x = b) \<or> (ub_blocker x = b \<and> ub_blocked x = a)) (user_blocks d)"

definition ensure_not_mutually_blocked :: "uuid \<Rightarrow> uuid \<Rightarrow> db \<Rightarrow> unit result" where
  "ensure_not_mutually_blocked a b d =
     (if is_mutually_blocked a b d then Inl (Forbidden ''blocked'') else Inr ())"

text \<open>The handler \<open>delete_friend\<close>: the answer, and the events pushed to each user.\<close>

datatype push_event = FriendshipDeleted uuid

definition delete_friend ::
  "uuid option \<Rightarrow> uuid option \<Rightarrow> db \<Rightarrow> (uuid \<times> push_event) list result \<times> db" where
  "delete_friend sub friend_param d =
     with_value (claims_user_id sub) (\<lambda>user.
     with_value (case friend_param of None \<Rightarrow> Inl (ValidationError ''friend id'') | Some v \<Rightarrow> Inr v) (\<lambda>friend.
     with_value (require (user \<noteq> friend) (ValidationError ''oneself as a friend'')) (\<lambda>_ d.
       let (r, d') = atomically (delete_friendship user friend) d
       in (and_then r (\<lambda>deleted. if \<not> deleted then Inl (NotFound ''friendship'')
             else Inr [(user, FriendshipDeleted friend), (friend, FriendshipDeleted user)]), d')))) d"

section \<open>The specification\<close>

text \<open>
  What the stores promise: friendship is symmetric, and between two users at most one request
  is open.  \<open>ask\<close>, \<open>social_answer\<close> and \<open>unfriend\<close> give no state where the operation is refused.
\<close>

record social =
  so_friends :: "uuid set set"
  so_open :: "(uuid \<times> uuid) set"

definition ask :: "uuid \<Rightarrow> uuid \<Rightarrow> social \<Rightarrow> social option" where
  "ask a b s =
     (if a = b \<or> {a, b} \<in> so_friends s \<or> (a, b) \<in> so_open s \<or> (b, a) \<in> so_open s then None
      else Some (s\<lparr>so_open := insert (a, b) (so_open s)\<rparr>))"

definition social_answer :: "uuid \<Rightarrow> uuid \<Rightarrow> bool \<Rightarrow> social \<Rightarrow> social option" where
  "social_answer a b accept s =
     (if (a, b) \<notin> so_open s then None
      else Some \<lparr>so_friends = (if accept then insert {a, b} (so_friends s) else so_friends s),
                 so_open = so_open s - {(a, b)}\<rparr>)"

definition unfriend :: "uuid \<Rightarrow> uuid \<Rightarrow> social \<Rightarrow> social option" where
  "unfriend a b s =
     (if a = b \<or> {a, b} \<notin> so_friends s then None
      else Some (s\<lparr>so_friends := so_friends s - {{a, b}}\<rparr>))"

definition pending :: "friend_request \<Rightarrow> bool" where
  "pending r \<longleftrightarrow> fr_status r = ReqPending"

definition social_of :: "db \<Rightarrow> social" where
  "social_of d =
     \<lparr>so_friends = (\<lambda>f. {fs_a f, fs_b f}) ` set (friendships d),
      so_open = request_key ` set (filter pending (friend_requests d))\<rparr>"

text \<open>
  The invariant: the keys, the order of a pair, and that an open request is newer than any other
  one between the same users, which is why looking at the latest one suffices.
\<close>

definition requests_wf :: "friend_request list \<Rightarrow> bool" where
  "requests_wf rs \<longleftrightarrow> unique_on fr_id rs \<and> unique_on request_key rs
     \<and> (\<forall>r \<in> set rs. fr_requester r \<noteq> fr_addressee r)
     \<and> (\<forall>r \<in> set rs. \<forall>s \<in> set rs. pending r \<longrightarrow> request_key s = (fr_addressee r, fr_requester r)
          \<longrightarrow> fr_created s < fr_created r)"

definition friends_wf :: "db \<Rightarrow> bool" where
  "friends_wf d \<longleftrightarrow> requests_wf (friend_requests d)
     \<and> (\<forall>r \<in> set (friend_requests d). fr_requester r \<in> set (users d) \<and> fr_addressee r \<in> set (users d))
     \<and> unique_on (\<lambda>f. (fs_a f, fs_b f)) (friendships d) \<and> (\<forall>f \<in> set (friendships d). fs_a f < fs_b f)"

lemma sorted_pair_iff:
  "x < y \<Longrightarrow> a \<noteq> b \<Longrightarrow> {x, y} = {a, b} \<longleftrightarrow> sort_user_pair a b = (x, y)"
  by (auto simp: sort_user_pair_def doubleton_eq_iff)

lemma friends_iff:
  assumes "friends_wf d" "a \<noteq> b"
  shows "are_already_friends a b d \<longleftrightarrow> {a, b} \<in> so_friends (social_of d)"
proof -
  have "{a, b} = {fs_a f, fs_b f} \<longleftrightarrow> sort_user_pair a b = (fs_a f, fs_b f)"
    if "f \<in> set (friendships d)" for f
    using sorted_pair_iff [of "fs_a f" "fs_b f" a b] assms that by (auto simp: friends_wf_def)
  then show ?thesis
    by (auto simp: are_already_friends_def social_of_def image_iff split: prod.splits)
qed

lemma open_iff:
  "(a, b) \<in> so_open (social_of d) \<longleftrightarrow> (\<exists>r \<in> set (friend_requests d). pending r \<and> request_key r = (a, b))"
  by (force simp: social_of_def)

section \<open>Asking\<close>

lemma latest_requestD:
  assumes "latest_request a b d = Some r"
  shows "r \<in> set (friend_requests d)" "between a b r"
    "s \<in> set (friend_requests d) \<Longrightarrow> between a b s \<Longrightarrow> fr_created s \<le> fr_created r"
proof -
  let ?xs = "sort_key (\<lambda>r. - fr_created r) (filter (between a b) (friend_requests d))"
  obtain rs where xs: "?xs = r # rs" using assms by (auto simp: latest_request_def split: list.splits)
  have "r \<in> set ?xs" unfolding xs by simp
  then show "r \<in> set (friend_requests d)" "between a b r" by simp_all
  have "sorted (map (\<lambda>r. - fr_created r) (r # rs))" unfolding xs [symmetric] by simp
  moreover have "s \<in> set (r # rs)" if "s \<in> set (friend_requests d)" "between a b s"
    unfolding xs [symmetric] using that by simp
  ultimately show "s \<in> set (friend_requests d) \<Longrightarrow> between a b s \<Longrightarrow> fr_created s \<le> fr_created r"
    by auto
qed

lemma latest_request_None:
  "latest_request a b d = None \<longleftrightarrow> (\<forall>r \<in> set (friend_requests d). \<not> between a b r)"
proof -
  let ?xs = "filter (between a b) (friend_requests d)"
  have "latest_request a b d = None \<longleftrightarrow> length (sort_key (\<lambda>r. - fr_created r) ?xs) = 0"
    by (simp add: latest_request_def del: length_sort split: list.split)
  also have "\<dots> \<longleftrightarrow> ?xs = []" by simp
  finally show ?thesis by (auto simp: filter_empty_conv)
qed

text \<open>An open request is the latest one between its users.\<close>

lemma latest_open:
  assumes wf: "requests_wf (friend_requests d)" and r: "r \<in> set (friend_requests d)" "pending r" "between a b r"
  shows "latest_request a b d = Some r"
proof (cases "latest_request a b d")
  case None
  then show ?thesis using r by (auto simp: latest_request_None)
next
  case (Some s)
  note s = latest_requestD [OF Some]
  have "request_key s = request_key r"
  proof (rule ccontr)
    assume "request_key s \<noteq> request_key r"
    then have "request_key s = (fr_addressee r, fr_requester r)" using s(2) r(3) by auto
    then have "fr_created s < fr_created r" using wf r s(1) by (auto simp: requests_wf_def)
    then show False using s(3) [OF r(1,3)] by simp
  qed
  then have "s = r" using wf s(1) r(1) fetch_key_eq [of request_key] by (auto simp: requests_wf_def)
  with Some show ?thesis by simp
qed

lemma open_between:
  assumes "requests_wf (friend_requests d)"
  shows "(\<exists>r. latest_request a b d = Some r \<and> pending r)
    \<longleftrightarrow> (a, b) \<in> so_open (social_of d) \<or> (b, a) \<in> so_open (social_of d)"
proof
  assume "\<exists>r. latest_request a b d = Some r \<and> pending r"
  then obtain r where "latest_request a b d = Some r" "pending r" by blast
  then show "(a, b) \<in> so_open (social_of d) \<or> (b, a) \<in> so_open (social_of d)"
    using latest_requestD(1,2) [of a b d r] unfolding open_iff by blast
next
  assume "(a, b) \<in> so_open (social_of d) \<or> (b, a) \<in> so_open (social_of d)"
  then obtain r where "r \<in> set (friend_requests d)" "pending r" "between a b r" unfolding open_iff by blast
  then show "\<exists>r. latest_request a b d = Some r \<and> pending r" using latest_open [OF assms] by blast
qed

definition put_request ::
  "uuid \<Rightarrow> uuid \<Rightarrow> uuid \<Rightarrow> string option \<Rightarrow> instant \<Rightarrow> friend_request list \<Rightarrow> friend_request list" where
  "put_request i a b msg now rs =
     (if exists_row (\<lambda>r. request_key r = (a, b)) rs
      then update_where (\<lambda>r. request_key r = (a, b)) (reopen msg now) rs
      else rs @ [new_request i a b msg now])"

lemma reopen_fields [simp]:
  "fr_id (reopen msg now r) = fr_id r" "fr_requester (reopen msg now r) = fr_requester r"
  "fr_addressee (reopen msg now r) = fr_addressee r" "fr_created (reopen msg now r) = now"
  "pending (reopen msg now r)"
  by (simp_all add: reopen_def pending_def)

lemma new_request_fields [simp]:
  "fr_id (new_request i a b msg now) = i" "fr_requester (new_request i a b msg now) = a"
  "fr_addressee (new_request i a b msg now) = b" "fr_created (new_request i a b msg now) = now"
  "pending (new_request i a b msg now)"
  by (simp_all add: new_request_def pending_def)

lemma put_request_open:
  "request_key ` set (filter pending (put_request i a b msg now rs))
   = insert (a, b) (request_key ` set (filter pending rs))"
proof (cases "exists_row (\<lambda>r. request_key r = (a, b)) rs")
  case True
  have "(\<lambda>r. pending (if request_key r = (a, b) then reopen msg now r else r))
      = (\<lambda>r. request_key r = (a, b) \<or> pending r)" by auto
  then have "request_key ` set (filter pending (put_request i a b msg now rs))
      = request_key ` set (filter (\<lambda>r. request_key r = (a, b) \<or> pending r) rs)"
    using True keys_filter_update [of "\<lambda>r. request_key r = (a, b)" request_key "reopen msg now" pending rs]
    by (simp add: put_request_def del: set_filter)
  then show ?thesis using True by force
next
  case False
  then have "put_request i a b msg now rs = rs @ [new_request i a b msg now]"
    by (auto simp: put_request_def)
  then show ?thesis by simp
qed

text \<open>A row after \<open>put_request\<close> is the open one, or an old one of other users.\<close>

lemma put_request_rows:
  "x \<in> set (put_request i a b msg now rs) \<Longrightarrow>
   (request_key x = (a, b) \<and> fr_created x = now) \<or> (x \<in> set rs \<and> request_key x \<noteq> (a, b))"
  by (auto simp: put_request_def update_where_def split: if_splits)

lemma put_request_wf:
  assumes wf: "requests_wf rs" and ne: "a \<noteq> b" and fresh: "\<forall>r \<in> set rs. fr_id r \<noteq> i"
    and old: "\<forall>r \<in> set rs. fr_created r < now" and none: "\<forall>r \<in> set rs. pending r \<longrightarrow> \<not> between a b r"
  shows "requests_wf (put_request i a b msg now rs)"
proof -
  let ?rs = "put_request i a b msg now rs"
  have keys: "unique_on fr_id ?rs \<and> unique_on request_key ?rs"
  proof (cases "exists_row (\<lambda>r. request_key r = (a, b)) rs")
    case True
    then have "?rs = update_where (\<lambda>r. request_key r = (a, b)) (reopen msg now) rs"
      by (simp add: put_request_def)
    then show ?thesis using wf by (simp add: requests_wf_def column_update_where)
  next
    case False
    then have "?rs = rs @ [new_request i a b msg now]" by (auto simp: put_request_def)
    moreover have "i \<notin> fr_id ` set rs" "(a, b) \<notin> request_key ` set rs" using fresh False by auto
    ultimately show ?thesis using wf by (simp add: requests_wf_def)
  qed
  have "fr_requester r \<noteq> fr_addressee r" if "r \<in> set ?rs" for r
    using put_request_rows [OF that] wf ne by (auto simp: requests_wf_def)
  moreover have "fr_created s < fr_created r"
    if rs: "r \<in> set ?rs" "s \<in> set ?rs" "pending r" "request_key s = (fr_addressee r, fr_requester r)" for r s
  proof (cases "request_key r = (a, b)")
    case True
    then have "request_key s \<noteq> (a, b)" using rs(4) ne by auto
    then have "s \<in> set rs" using put_request_rows [OF rs(2)] by blast
    moreover have "fr_created r = now" using put_request_rows [OF rs(1)] True by blast
    ultimately show ?thesis using old by simp
  next
    case False
    then have r: "r \<in> set rs" using put_request_rows [OF rs(1)] by blast
    then have "\<not> between a b r" using none rs(3) by blast
    then have "request_key s \<noteq> (a, b)" using rs(4) by auto
    then have "s \<in> set rs" using put_request_rows [OF rs(2)] by blast
    then show ?thesis using wf r rs(3,4) by (simp add: requests_wf_def)
  qed
  ultimately show ?thesis using keys unfolding requests_wf_def by blast
qed

lemma upsert_request_put:
  assumes "a \<noteq> b" "a \<in> set (users d)" "b \<in> set (users d)" "\<forall>r \<in> set (friend_requests d). fr_id r \<noteq> i"
  shows "\<exists>r. upsert_request i a b msg now d
    = Inr (r, d\<lparr>friend_requests := put_request i a b msg now (friend_requests d)\<rparr>)"
proof (cases "fetch_optional (\<lambda>r. request_key r = (a, b)) (friend_requests d)")
  case None
  then have "put_request i a b msg now (friend_requests d) = friend_requests d @ [new_request i a b msg now]"
    unfolding fetch_None put_request_def by auto
  then show ?thesis using None assms by (simp add: upsert_request_def)
next
  case (Some r)
  then have "exists_row (\<lambda>r. request_key r = (a, b)) (friend_requests d)" using fetch_SomeD by fast
  then show ?thesis using Some assms by (simp add: upsert_request_def put_request_def)
qed

lemma create_request_put:
  assumes wf: "friends_wf d" and ne: "a \<noteq> b" and users: "a \<in> set (users d)" "b \<in> set (users d)"
    and fresh: "\<forall>r \<in> set (friend_requests d). fr_id r \<noteq> i"
    and free: "\<not> are_already_friends a b d" "\<nexists>r. latest_request a b d = Some r \<and> pending r"
  shows "\<exists>r. create_request i a b msg now d
    = Inr (r, d\<lparr>friend_requests := put_request i a b msg now (friend_requests d)\<rparr>)"
proof -
  note put = upsert_request_put [OF ne users fresh, of msg now]
  show ?thesis
  proof (cases "latest_request a b d")
    case None
    then show ?thesis using put ne free by (auto simp: create_request_def)
  next
    case (Some e)
    note e = latest_requestD [OF Some]
    show ?thesis
    proof (cases "fr_status e = ReqDeclined \<and> fr_requester e = a")
      case False
      then show ?thesis
        using put ne free Some by (cases "fr_status e") (auto simp: create_request_def pending_def)
    next
      case True
      then have key: "request_key e = (a, b)" using e(2) ne by auto
      have "fr_id r = fr_id e \<longleftrightarrow> request_key r = (a, b)" if "r \<in> set (friend_requests d)" for r
        using wf that e(1) key fetch_key_eq [of fr_id "friend_requests d" r e]
          fetch_key_eq [of request_key "friend_requests d" r e]
        by (auto simp: friends_wf_def requests_wf_def)
      then have "update_where (\<lambda>r. fr_id r = fr_id e) (reopen msg now) (friend_requests d)
          = put_request i a b msg now (friend_requests d)"
        using e(1) key update_where_cong [of "friend_requests d" "\<lambda>r. fr_id r = fr_id e"
          "\<lambda>r. request_key r = (a, b)" "reopen msg now"]
        by (auto simp: put_request_def)
      then show ?thesis using True Some ne free by (simp add: create_request_def)
    qed
  qed
qed

lemma social_of_put:
  "social_of (d\<lparr>friend_requests := put_request i a b msg now (friend_requests d)\<rparr>)
   = (social_of d)\<lparr>so_open := insert (a, b) (so_open (social_of d))\<rparr>"
  by (simp add: social_of_def put_request_open del: set_filter)

lemma put_request_users:
  "\<lbrakk>friends_wf d; a \<in> set (users d); b \<in> set (users d);
    x \<in> set (put_request i a b msg now (friend_requests d))\<rbrakk>
   \<Longrightarrow> fr_requester x \<in> set (users d) \<and> fr_addressee x \<in> set (users d)"
  by (drule put_request_rows) (auto simp: friends_wf_def)

lemma create_request_refines:
  assumes wf: "friends_wf d" and old: "\<forall>r \<in> set (friend_requests d). fr_created r < now"
    and users: "a \<in> set (users d)" "b \<in> set (users d)" and fresh: "\<forall>r \<in> set (friend_requests d). fr_id r \<noteq> i"
  shows "(case create_request i a b msg now d of
       Inl _ \<Rightarrow> ask a b (social_of d) = None
     | Inr (_, d') \<Rightarrow> friends_wf d' \<and> ask a b (social_of d) = Some (social_of d'))"
proof (cases "a = b \<or> are_already_friends a b d \<or> (\<exists>r. latest_request a b d = Some r \<and> pending r)")
  case True
  have rwf: "requests_wf (friend_requests d)" using wf by (simp add: friends_wf_def)
  have "\<exists>e. create_request i a b msg now d = Inl e"
    using True by (auto simp: create_request_def pending_def)
  moreover have "ask a b (social_of d) = None"
    using True friends_iff [OF wf] open_between [OF rwf] by (auto simp: ask_def)
  ultimately show ?thesis by auto
next
  case False
  let ?d = "d\<lparr>friend_requests := put_request i a b msg now (friend_requests d)\<rparr>"
  have rwf: "requests_wf (friend_requests d)" using wf by (simp add: friends_wf_def)
  obtain r where r: "create_request i a b msg now d = Inr (r, ?d)"
    using create_request_put [OF wf _ users fresh] False by blast
  have "\<forall>r \<in> set (friend_requests d). pending r \<longrightarrow> \<not> between a b r"
    using False latest_open [OF rwf] by blast
  then have "requests_wf (put_request i a b msg now (friend_requests d))"
    using put_request_wf [OF rwf _ fresh old] False by blast
  then have "friends_wf ?d"
    using wf put_request_users [OF wf users] by (auto simp: friends_wf_def)
  moreover have "ask a b (social_of d) = Some (social_of ?d)"
    using False friends_iff [OF wf] open_between [OF rwf, of a b] by (auto simp: ask_def social_of_put)
  ultimately show ?thesis using r by simp
qed

section \<open>Answering and unfriending\<close>

lemma answered_fields [simp]:
  "fr_id (answered st now r) = fr_id r" "fr_requester (answered st now r) = fr_requester r"
  "fr_addressee (answered st now r) = fr_addressee r" "fr_created (answered st now r) = fr_created r"
  "fr_status (answered st now r) = st"
  by (simp_all add: answered_def)

lemma respond_check_Inr:
  "respond_check j b st d = Inr r \<longleftrightarrow> st \<noteq> ReqPending
     \<and> fetch_optional (\<lambda>r. fr_id r = j) (friend_requests d) = Some r \<and> fr_addressee r = b \<and> pending r"
  by (auto simp: respond_check_def pending_def split: option.splits)

lemma answered_wf:
  assumes "requests_wf rs" "st \<noteq> ReqPending"
  shows "requests_wf (update_where (\<lambda>r. fr_id r = j) (answered st now) rs)"
proof -
  let ?rs = "update_where (\<lambda>r. fr_id r = j) (answered st now) rs"
  have old: "\<exists>y \<in> set rs. request_key x = request_key y \<and> fr_created x = fr_created y \<and> (pending x \<longrightarrow> pending y)"
    if "x \<in> set ?rs" for x
    using that assms(2) by (auto simp: update_where_def pending_def split: if_splits)
  have "fr_created s < fr_created r"
    if "r \<in> set ?rs" "s \<in> set ?rs" "pending r" "request_key s = (fr_addressee r, fr_requester r)" for r s
  proof -
    note rs = that
    obtain r' where "r' \<in> set rs" "request_key r = request_key r'" "fr_created r = fr_created r'" "pending r'"
      using old [OF rs(1)] rs(3) by blast
    moreover obtain s' where "s' \<in> set rs" "request_key s = request_key s'" "fr_created s = fr_created s'"
      using old [OF rs(2)] by blast
    ultimately show ?thesis using assms(1) rs(4) by (simp add: requests_wf_def)
  qed
  moreover have "fr_requester r \<noteq> fr_addressee r" if "r \<in> set ?rs" for r
    using old [OF that] assms(1) by (auto simp: requests_wf_def)
  ultimately show ?thesis using assms(1) by (simp add: requests_wf_def column_update_where)
qed

lemma answered_open:
  assumes "requests_wf rs" "st \<noteq> ReqPending" "r \<in> set rs"
  shows "request_key ` set (filter pending (update_where (\<lambda>x. fr_id x = fr_id r) (answered st now) rs))
    = request_key ` set (filter pending rs) - {request_key r}"
proof -
  have "filter pending (update_where (\<lambda>x. fr_id x = fr_id r) (answered st now) rs)
      = filter (\<lambda>x. pending x \<and> fr_id x \<noteq> fr_id r) rs"
    using assms(2) by (intro filter_update_gone) (simp add: pending_def)
  moreover have "fr_id x = fr_id r \<longleftrightarrow> request_key x = request_key r" if "x \<in> set rs" for x
    using assms that fetch_key_eq [of fr_id rs x r] fetch_key_eq [of request_key rs x r]
    by (auto simp: requests_wf_def)
  then have "filter (\<lambda>x. pending x \<and> fr_id x \<noteq> fr_id r) rs
      = filter (\<lambda>x. pending x \<and> request_key x \<noteq> request_key r) rs"
    by (intro filter_cong) auto
  ultimately show ?thesis by force
qed

text \<open>Adding the friendship of an accepted request.\<close>

lemma insert_friendship_adds:
  assumes wf: "friends_wf d" and "a \<noteq> b" "a \<in> set (users d)" "b \<in> set (users d)"
  shows "\<exists>fs. insert_friendship (sort_user_pair a b) now d = Inr (d\<lparr>friendships := fs\<rparr>)
    \<and> (\<lambda>f. {fs_a f, fs_b f}) ` set fs = insert {a, b} (so_friends (social_of d))
    \<and> unique_on (\<lambda>f. (fs_a f, fs_b f)) fs \<and> (\<forall>f \<in> set fs. fs_a f < fs_b f)"
proof -
  obtain x y where p: "sort_user_pair a b = (x, y)" by fastforce
  then have xy: "x < y" "{x, y} = {a, b}" "x \<in> set (users d)" "y \<in> set (users d)"
    using assms by (auto simp: sort_user_pair_def split: if_splits)
  show ?thesis
  proof (cases "exists_row (\<lambda>f. fs_a f = x \<and> fs_b f = y) (friendships d)")
    case True
    then have "{a, b} \<in> so_friends (social_of d)" using xy(2) by (force simp: social_of_def)
    then show ?thesis
      using True wf xy p by (intro exI [of _ "friendships d"])
        (auto simp: insert_friendship_def friends_wf_def social_of_def)
  next
    case False
    let ?fs = "friendships d @ [\<lparr>fs_a = x, fs_b = y, fs_created = now\<rparr>]"
    have "insert_friendship (sort_user_pair a b) now d = Inr (d\<lparr>friendships := ?fs\<rparr>)"
      using False xy p by (auto simp: insert_friendship_def)
    moreover have "unique_on (\<lambda>f. (fs_a f, fs_b f)) ?fs" using wf False by (force simp: friends_wf_def)
    ultimately show ?thesis
      using wf xy by (intro exI [of _ ?fs]) (auto simp: friends_wf_def social_of_def)
  qed
qed

lemma respond_refines:
  assumes wf: "friends_wf d"
  shows "(case respond_request j b st now d of
       (Inl _, d') \<Rightarrow> d' = d \<and> (st = ReqPending
         \<or> \<not> exists_row (\<lambda>r. fr_id r = j \<and> fr_addressee r = b \<and> pending r) (friend_requests d))
     | (Inr r, d') \<Rightarrow> friends_wf d'
         \<and> social_answer (fr_requester r) b (st = ReqAccepted) (social_of d) = Some (social_of d'))"
proof (cases "respond_check j b st d")
  case (Inl e)
  have "\<not> exists_row (\<lambda>r. fr_id r = j \<and> fr_addressee r = b \<and> pending r) (friend_requests d)"
    if "st \<noteq> ReqPending"
  proof
    assume "exists_row (\<lambda>r. fr_id r = j \<and> fr_addressee r = b \<and> pending r) (friend_requests d)"
    then obtain r where r: "r \<in> set (friend_requests d)" "fr_id r = j" "fr_addressee r = b" "pending r" by blast
    then have "fetch_optional (\<lambda>r. fr_id r = j) (friend_requests d) = Some r"
      using wf by (intro fetch_unique [of fr_id]) (auto simp: friends_wf_def requests_wf_def)
    then have "respond_check j b st d = Inr r" using that r by (simp add: respond_check_Inr)
    then show False using Inl by simp
  qed
  then show ?thesis using Inl by (auto simp: respond_request_def)
next
  case (Inr r)
  note c = Inr [unfolded respond_check_Inr]
  have r: "r \<in> set (friend_requests d)" "fr_id r = j" using c by (auto dest: fetch_SomeD)
  let ?rs = "update_where (\<lambda>x. fr_id x = fr_id r) (answered st now) (friend_requests d)"
  let ?d1 = "d\<lparr>friend_requests := ?rs\<rparr>"
  have rwf: "requests_wf (friend_requests d)" using wf by (simp add: friends_wf_def)
  have wf1: "friends_wf ?d1"
    using wf answered_wf [OF rwf, of st "fr_id r" now] c
    by (auto simp: friends_wf_def update_where_def)
  have opened: "so_open (social_of ?d1) = so_open (social_of d) - {request_key r}"
    using answered_open [OF rwf _ r(1)] c by (simp add: social_of_def del: set_filter)
  have mem: "(fr_requester r, b) \<in> so_open (social_of d)" using c r by (auto simp: open_iff)
  show ?thesis
  proof (cases "st = ReqAccepted")
    case False
    then have "respond_request j b st now d = (Inr (answered st now r), ?d1)"
      using Inr by (simp add: respond_request_def respond_write_def Let_def)
    moreover have "social_answer (fr_requester r) b False (social_of d) = Some (social_of ?d1)"
      using mem opened c by (simp add: social_answer_def) (simp add: social_of_def)
    ultimately show ?thesis using False wf1 by simp
  next
    case True
    have "fr_requester r \<noteq> fr_addressee r" "fr_requester r \<in> set (users d)" "fr_addressee r \<in> set (users d)"
      using wf r by (auto simp: friends_wf_def requests_wf_def)
    with insert_friendship_adds [OF wf1, of "fr_requester r" "fr_addressee r" now] obtain fs where
      fs: "insert_friendship (sort_user_pair (fr_requester r) (fr_addressee r)) now ?d1 = Inr (?d1\<lparr>friendships := fs\<rparr>)"
      "(\<lambda>f. {fs_a f, fs_b f}) ` set fs = insert {fr_requester r, fr_addressee r} (so_friends (social_of ?d1))"
      "unique_on (\<lambda>f. (fs_a f, fs_b f)) fs" "\<forall>f \<in> set fs. fs_a f < fs_b f" by auto
    have "respond_request j b st now d = (Inr (answered st now r), ?d1\<lparr>friendships := fs\<rparr>)"
      using Inr True fs(1) by (simp add: respond_request_def respond_write_def Let_def)
    moreover have "friends_wf (?d1\<lparr>friendships := fs\<rparr>)" using wf1 fs(3,4) by (simp add: friends_wf_def)
    moreover have "social_answer (fr_requester r) b True (social_of d) = Some (social_of (?d1\<lparr>friendships := fs\<rparr>))"
      using mem opened fs(2) c by (simp add: social_answer_def) (simp add: social_of_def)
    ultimately show ?thesis using True by simp
  qed
qed

lemma unfriend_refines:
  assumes wf: "friends_wf d"
  shows "(case delete_friendship a b d of
       Inl _ \<Rightarrow> a = b
     | Inr (done, d') \<Rightarrow> if done then friends_wf d' \<and> unfriend a b (social_of d) = Some (social_of d')
         else d' = d \<and> unfriend a b (social_of d) = None)"
proof (cases "a = b \<or> \<not> are_already_friends a b d")
  case True
  then show ?thesis
    using friends_iff [OF wf, of a b]
    by (auto simp: delete_friendship_def are_already_friends_def unfriend_def rows_affected_0 Let_def split: prod.splits)
next
  case False
  obtain x y where p: "sort_user_pair a b = (x, y)" by fastforce
  let ?row = "\<lambda>f. fs_a f = x \<and> fs_b f = y"
  let ?d1 = "d\<lparr>friendships := delete_where ?row (friendships d)\<rparr>"
  let ?d2 = "?d1\<lparr>friend_remarks := delete_where (\<lambda>k. (fk_user k = a \<and> fk_friend k = b)
      \<or> (fk_user k = b \<and> fk_friend k = a)) (friend_remarks ?d1)\<rparr>"
  have "exists_row ?row (friendships d)" using False p by (simp add: are_already_friends_def)
  then have del: "delete_friendship a b d = Inr (True, ?d2)"
    using False p by (simp add: delete_friendship_def rows_affected_0 Let_def)
  have "{fs_a f, fs_b f} = {a, b} \<longleftrightarrow> ?row f" if "f \<in> set (friendships d)" for f
    using sorted_pair_iff [of "fs_a f" "fs_b f" a b] wf that False p by (auto simp: friends_wf_def)
  then have "(\<lambda>f. {fs_a f, fs_b f}) ` set (delete_where ?row (friendships d))
      = (\<lambda>f. {fs_a f, fs_b f}) ` set (friendships d) - {{a, b}}"
    by (auto simp: set_delete_where)
  then have "social_of ?d2 = (social_of d)\<lparr>so_friends := so_friends (social_of d) - {{a, b}}\<rparr>"
    by (simp add: social_of_def)
  moreover have "friends_wf ?d2"
    using wf by (auto simp: friends_wf_def set_delete_where unique_on_delete_where)
  moreover have "unfriend a b (social_of d)
      = Some ((social_of d)\<lparr>so_friends := so_friends (social_of d) - {{a, b}}\<rparr>)"
    using False friends_iff [OF wf, of a b] by (simp add: unfriend_def)
  ultimately show ?thesis using del by simp
qed

section \<open>Properties\<close>

definition three_users :: db where
  "three_users = empty_db\<lparr>users := [1, 2, 3],
     friend_requests := [new_request 10 1 2 None 5],
     friendships := [\<lparr>fs_a = 1, fs_b = 3, fs_created = 4\<rparr>]\<rparr>"

lemma three_users_wf: "friends_wf three_users"
  by code_simp

text \<open>
  C19: The friend store implements its specification: asking, answering and unfriending change
  the symmetric friendship relation and the set of open requests exactly as ask, answer and
  unfriend say, succeed exactly where these allow it, keep the invariant, and change nothing
  where they refuse.
\<close>

theorem friend_store_refines_social:
  assumes "friends_wf d" "\<forall>r \<in> set (friend_requests d). fr_created r < now"
    and "a \<in> set (users d)" "b \<in> set (users d)" "\<forall>r \<in> set (friend_requests d). fr_id r \<noteq> i"
  shows "(case create_request i a b msg now d of
       Inl _ \<Rightarrow> ask a b (social_of d) = None
     | Inr (_, d') \<Rightarrow> friends_wf d' \<and> ask a b (social_of d) = Some (social_of d'))
   \<and> (case respond_request j b st now d of
       (Inl _, d') \<Rightarrow> d' = d \<and> (st = ReqPending
         \<or> \<not> exists_row (\<lambda>r. fr_id r = j \<and> fr_addressee r = b \<and> pending r) (friend_requests d))
     | (Inr r, d') \<Rightarrow> friends_wf d'
         \<and> social_answer (fr_requester r) b (st = ReqAccepted) (social_of d) = Some (social_of d'))
   \<and> (case delete_friendship a b d of
       Inl _ \<Rightarrow> a = b
     | Inr (done, d') \<Rightarrow> if done then friends_wf d' \<and> unfriend a b (social_of d) = Some (social_of d')
         else d' = d \<and> unfriend a b (social_of d) = None)"
  by (intro conjI create_request_refines [OF assms] respond_refines [OF assms(1)] unfriend_refines [OF assms(1)])

theorem friend_store_refines_social_witness:
  "(case create_request 11 3 2 None 6 three_users of
       Inl _ \<Rightarrow> False | Inr (_, d') \<Rightarrow> friends_wf d')
   \<and> (case respond_request 10 2 ReqAccepted 6 three_users of
       (Inl _, _) \<Rightarrow> False | (Inr _, d') \<Rightarrow> friends_wf d')"
proof -
  have "\<forall>r \<in> set (friend_requests three_users). fr_created r < 6"
    "\<forall>r \<in> set (friend_requests three_users). fr_id r \<noteq> 11"
    "3 \<in> set (users three_users)" "2 \<in> set (users three_users)" by code_simp+
  note all = friend_store_refines_social [OF three_users_wf this(1) this(3,4) this(2), where msg = None and j = 10 and st = ReqAccepted]
  have "case create_request 11 3 2 None 6 three_users of Inl _ \<Rightarrow> False | Inr _ \<Rightarrow> True"
    "case respond_request 10 2 ReqAccepted 6 three_users of (Inl _, _) \<Rightarrow> False | (Inr _, _) \<Rightarrow> True"
    by code_simp+
  then show ?thesis using all by (auto split: sum.splits prod.splits)
qed

text \<open>
  Answering is not atomic: when two answers to one request both pass the check before either
  writes, the request ends up declined although the two users are friends.
\<close>

lemma respond_race:
  assumes "respond_check j b ReqAccepted d = Inr r" "respond_check j b ReqDeclined d = Inr r'"
    and "respond_write r ReqAccepted t d = (Inr x, d1)" "respond_write r' ReqDeclined t' d1 = (Inr y, d2)"
  shows "are_already_friends (fr_requester r) b d2
    \<and> exists_row (\<lambda>q. fr_id q = j \<and> fr_status q = ReqDeclined) (friend_requests d2)"
proof -
  have r: "r' = r" "r \<in> set (friend_requests d)" "fr_id r = j" "fr_addressee r = b"
    using assms(1,2) by (auto simp: respond_check_Inr dest: fetch_SomeD)
  let ?d = "d\<lparr>friend_requests := update_where (\<lambda>q. fr_id q = j) (answered ReqAccepted t) (friend_requests d)\<rparr>"
  have ins: "insert_friendship (sort_user_pair (fr_requester r) b) t ?d = Inr d1"
    using assms(3) r by (auto simp: respond_write_def Let_def from_sqlx_def split: sum.splits)
  then have d1: "friend_requests d1 = friend_requests ?d" and friends: "are_already_friends (fr_requester r) b d1"
    by (auto simp: insert_friendship_def are_already_friends_def split: if_splits prod.splits)
  have d2: "friendships d2 = friendships d1"
    "friend_requests d2 = update_where (\<lambda>q. fr_id q = j) (answered ReqDeclined t') (friend_requests d1)"
    using assms(4) r by (auto simp: respond_write_def Let_def)
  have "answered ReqAccepted t r \<in> set (friend_requests d1)"
    using r(2,3) by (force simp: d1 update_where_def)
  then have "answered ReqDeclined t' (answered ReqAccepted t r) \<in> set (friend_requests d2)"
    using r(3) by (force simp: d2(2) update_where_def)
  then have "exists_row (\<lambda>q. fr_id q = j \<and> fr_status q = ReqDeclined) (friend_requests d2)"
    using r(3) by (intro bexI) simp_all
  moreover have "are_already_friends (fr_requester r) b d2"
    using friends d2(1) by (simp add: are_already_friends_def)
  ultimately show ?thesis by blast
qed

end
