(* ===== verification/E2eeHandlers.thy ===== *)
theory E2eeHandlers
  imports E2eeSystem Envelope PreKeys Friends "HOL-Library.AList"
begin

text \<open>
  The MLS requests of \<open>api/src/handlers/e2ee.rs\<close>: validation of the request, rate limit, store
  call, response.  Base64, Ed25519 and Redis are third-party: \<open>crates\<close> holds the functions of the
  first two, \<open>counters\<close> the two Redis commands.  A handler works on the database together with
  the Redis state; the JSON extractor has already refused malformed bodies, and the token's
  subject stands as what the UUID parser makes of it.  The main facts: every request either
  changes nothing or is one call of \<open>E2eeSystem\<close>, what it hands to the store satisfies the
  constraints of the tables, and no device is approved without a signature over its identity.
\<close>

section \<open>Third-party functions\<close>

record crates =
  cr_encode :: "bytes \<Rightarrow> string"
  cr_decode :: "string \<Rightarrow> bytes option"
  cr_key_ok :: "bytes \<Rightarrow> bool" \<comment> \<open>\<open>VerifyingKey::from_bytes\<close>\<close>
  cr_signature_ok :: "bytes \<Rightarrow> bool" \<comment> \<open>\<open>Signature::from_slice\<close>\<close>
  cr_verify :: "bytes \<Rightarrow> bytes \<Rightarrow> bytes \<Rightarrow> bool" \<comment> \<open>key, payload, signature\<close>




section \<open>Device requests\<close>


record device_response =
  dr_id :: uuid
  dr_label :: string
  dr_version :: int
  dr_cred_fp :: string
  dr_status :: device_status
  dr_approved_by :: "uuid option"
  dr_approved_at :: "instant option"
  dr_revoked_at :: "instant option"
  dr_created :: instant
  dr_updated :: instant

definition device_response_of :: "crates \<Rightarrow> device \<Rightarrow> device_response" where
  "device_response_of cr x =
     \<lparr>dr_id = dev_id x, dr_label = dev_label x, dr_version = dev_version x,
      dr_cred_fp = cr_encode cr (dev_cred_fp x), dr_status = dev_status x,
      dr_approved_by = dev_approved_by x, dr_approved_at = dev_approved_at x,
      dr_revoked_at = dev_revoked_at x, dr_created = dev_created x, dr_updated = dev_updated x\<rparr>"

definition mls_protocol_version :: int where "mls_protocol_version = 1"

definition require_protocol_version :: "int \<Rightarrow> unit result" where
  "require_protocol_version v = require (v = mls_protocol_version) (ValidationError ''protocol_version'')"




text \<open>A store call as the last step of a handler.\<close>

definition finish :: "('s \<Rightarrow> ('a \<times> 's) result) \<Rightarrow> ('a \<Rightarrow> 'b) \<Rightarrow> 's \<Rightarrow> 'b result \<times> 's" where
  "finish op f s = (let (r, s') = atomically op s in (and_then r (\<lambda>a. Inr (f a)), s'))"


definition list_mls_devices :: "crates \<Rightarrow> uuid option \<Rightarrow> db \<Rightarrow> device_response list result" where
  "list_mls_devices cr sub d =
     and_then (claims_user_id sub) (\<lambda>user. Inr (map (device_response_of cr) (list_devices user d)))"

definition approval_context :: bytes where
  "approval_context = map (\<lambda>c. of_nat (of_char c)) ''redcode-im/e2ee/device-approval/v1'' @ [0]"

text \<open>The version is an \<open>i16\<close>.\<close>

definition device_approval_payload :: "uuid \<Rightarrow> uuid \<Rightarrow> uuid \<Rightarrow> int \<Rightarrow> bytes \<Rightarrow> bytes" where
  "device_approval_payload user approver target version fp =
     approval_context @ uuid_bytes user @ uuid_bytes approver @ uuid_bytes target
     @ be16 (word_of_int version) @ be16 (of_nat (length fp)) @ fp"

definition verify_device_approval :: "crates \<Rightarrow> bytes \<Rightarrow> bytes \<Rightarrow> bytes \<Rightarrow> unit result" where
  "verify_device_approval cr public_key signature payload =
     and_then (require (length public_key = 32) (Forbidden ''approval key'')) (\<lambda>_.
     and_then (require (cr_key_ok cr public_key) (Forbidden ''approval key'')) (\<lambda>_.
     and_then (require (cr_signature_ok cr signature) (Forbidden ''signature'')) (\<lambda>_.
       require (cr_verify cr public_key payload signature) (Forbidden ''signature verification''))))"

definition approve_mls_device ::
  "crates \<Rightarrow> uuid option \<Rightarrow> uuid \<Rightarrow> uuid \<Rightarrow> string \<Rightarrow> instant \<Rightarrow> db \<Rightarrow> device_response result \<times> db" where
  "approve_mls_device cr sub target approver signature now d =
     with_value (claims_user_id sub) (\<lambda>user.
     with_value (require (approver \<noteq> target) (ValidationError ''a device cannot approve itself'')) (\<lambda>_.
     with_value (get_device user approver d) (\<lambda>a.
     with_value (require (dev_status a = DeviceActive) (Forbidden ''only a trusted device approves'')) (\<lambda>_.
     with_value (get_device user target d) (\<lambda>t.
       if dev_status t = DeviceActive then (\<lambda>d. (Inr (device_response_of cr t), d)) else
     with_value (require (dev_status t = PendingApproval) (MessageRuntimeConflict ''device is not pending'')) (\<lambda>_.
     with_value (case dev_approval_key a of
         None \<Rightarrow> Inl (MessageRuntimeConflict ''approver has no key'') | Some k \<Rightarrow> Inr k) (\<lambda>public_key.
     with_value (decode_b64_range (cr_decode cr) signature 64 64) (\<lambda>sig.
     with_value (verify_device_approval cr public_key sig
         (device_approval_payload user approver target (dev_version t) (dev_cred_fp t))) (\<lambda>_.
       finish (approve_device user approver target now) (device_response_of cr)))))))))) d"


section \<open>Key package requests\<close>







definition get_mls_key_package_inventory ::
  "uuid option \<Rightarrow> uuid \<Rightarrow> instant \<Rightarrow> db \<Rightarrow> (nat \<times> nat) result" where
  "get_mls_key_package_inventory sub device_id now d =
     and_then (claims_user_id sub) (\<lambda>user.
     and_then (count_available_key_packages user device_id now d) (\<lambda>available.
       Inr (available, max_available_key_packages)))"





section \<open>Control message requests\<close>

definition get_mls_room_epoch :: "uuid option \<Rightarrow> uuid \<Rightarrow> db \<Rightarrow> room_epoch result" where
  "get_mls_room_epoch sub room d = and_then (claims_user_id sub) (\<lambda>user. get_room_epoch room user d)"











section \<open>Identity and peer requests\<close>

record identity_response =
  ir_user :: uuid
  ir_root_key :: string
  ir_root_fp :: string
  ir_version :: int

definition get_mls_account_identity ::
  "crates \<Rightarrow> uuid option \<Rightarrow> uuid \<Rightarrow> db \<Rightarrow> identity_response result" where
  "get_mls_account_identity cr sub target d =
     and_then (claims_user_id sub) (\<lambda>user.
       let is_friend = are_already_friends user target d;
           shares_room = share_room_with user target d in
     and_then (require (\<not> (user \<noteq> target \<and> \<not> is_friend \<and> \<not> shares_room)) (NotFound ''root identity'')) (\<lambda>_.
     and_then (case get_account_identity target d of
         None \<Rightarrow> Inl (NotFound ''root identity'') | Some i \<Rightarrow> Inr i) (\<lambda>i.
       Inr \<lparr>ir_user = idn_user i, ir_root_key = cr_encode cr (idn_root_key i),
            ir_root_fp = cr_encode cr (idn_root_fp i), ir_version = idn_version i\<rparr>)))"

record peer_device =
  pd_id :: uuid
  pd_version :: int
  pd_cred_fp :: string

definition list_mls_peer_devices ::
  "crates \<Rightarrow> uuid option \<Rightarrow> uuid \<Rightarrow> db \<Rightarrow> peer_device list result" where
  "list_mls_peer_devices cr sub target d =
     and_then (claims_user_id sub) (\<lambda>user.
     and_then (require (\<not> (user \<noteq> target \<and> \<not> are_already_friends user target d)) (NotFound ''devices'')) (\<lambda>_.
       Inr (map (\<lambda>x. \<lparr>pd_id = dev_id x, pd_version = dev_version x, pd_cred_fp = cr_encode cr (dev_cred_fp x)\<rparr>)
              (list_active_devices target d))))"

text \<open>
  The rows go into a \<open>BTreeMap\<close> from users to devices, read in key order; the map is an
  association list, sorted at the end.
\<close>

definition add_member_row ::
  "crates \<Rightarrow> member_device \<Rightarrow> (uuid \<times> peer_device list) list \<Rightarrow> (uuid \<times> peer_device list) list" where
  "add_member_row cr row m =
     (let devs = (case map_of m (md_user row) of None \<Rightarrow> [] | Some xs \<Rightarrow> xs) in
      AList.update (md_user row) (case md_device row of
          None \<Rightarrow> devs
        | Some i \<Rightarrow> devs @ [\<lparr>pd_id = i,
            pd_version = (case md_version row of None \<Rightarrow> 0 | Some v \<Rightarrow> v),
            pd_cred_fp = cr_encode cr (case md_cred_fp row of None \<Rightarrow> [] | Some f \<Rightarrow> f)\<rparr>]) m)"

definition list_room_member_devices_handler ::
  "crates \<Rightarrow> uuid option \<Rightarrow> uuid \<Rightarrow> db \<Rightarrow> (uuid \<times> peer_device list) list result" where
  "list_room_member_devices_handler cr sub room d =
     and_then (claims_user_id sub) (\<lambda>user.
       let rows = list_room_member_devices room user d in
     and_then (require (is_user_in_room room user d) (Forbidden ''not a member of the room'')) (\<lambda>_.
       Inr (sort_key fst (fold (add_member_row cr) rows []))))"

section \<open>What the validation ensures\<close>









text \<open>The errors that mean that a row does not fit its table.\<close>

definition ill_typed :: "app_error \<Rightarrow> bool" where
  "ill_typed e \<longleftrightarrow> e = DatabaseError CheckViolation \<or> e = DatabaseError ValueTooLong"

definition well_typed :: "'a result \<Rightarrow> bool" where
  "well_typed r = (case r of Inl e \<Rightarrow> \<not> ill_typed e | Inr _ \<Rightarrow> True)"

lemma well_typed_simps [simp]:
  "well_typed (Inr a)" "well_typed (Inl e) \<longleftrightarrow> \<not> ill_typed e"
  by (simp_all add: well_typed_def)

lemma ill_typed_simps [simp]:
  "\<not> ill_typed (ValidationError m)" "\<not> ill_typed (InvalidToken m)" "\<not> ill_typed (Forbidden m)"
  "\<not> ill_typed (NotFound m)" "\<not> ill_typed (MessageRuntimeConflict m)" "\<not> ill_typed (AlreadyExists m)"
  "\<not> ill_typed (RateLimitExceeded m)" "\<not> ill_typed (CacheError m)"
  "\<not> ill_typed (DatabaseError UniqueViolation)" "\<not> ill_typed (DatabaseError ForeignKeyViolation)"
  by (simp_all add: ill_typed_def)

lemma well_typed_require [simp]: "well_typed (require c (ValidationError m))"
  by (simp add: require_def)






lemma well_typed_version [simp]: "well_typed (require_protocol_version v)"
  by (simp add: require_protocol_version_def)















section \<open>Requests are calls\<close>




definition one_call :: "instant \<Rightarrow> db \<Rightarrow> db \<Rightarrow> bool" where
  "one_call now d d' \<longleftrightarrow> (\<exists>c. d' = perform c now d)"

lemma one_call_idle [simp]: "one_call now d d"
proof -
  have "d = perform (Approve 0 0 0) now d" by (simp add: approve_device_def)
  then show ?thesis unfolding one_call_def by blast
qed









section \<open>The signed approval\<close>

definition in_i16 :: "int \<Rightarrow> bool" where
  "in_i16 v \<longleftrightarrow> - 32768 \<le> v \<and> v < 32768"

lemma i16_word_inject:
  assumes "in_i16 v" "in_i16 w" "word_of_int v = (word_of_int w :: 16 word)"
  shows "v = w"
proof -
  have id: "sint (word_of_int x :: 16 word) = x" if "in_i16 x" for x
    using that unfolding sint_sbintrunc' in_i16_def by (intro signed_take_bit_int_eq_self) simp_all
  have "v = sint (word_of_int v :: 16 word)" by (rule id [OF assms(1), symmetric])
  also have "\<dots> = sint (word_of_int w :: 16 word)" by (simp only: assms(3))
  also have "\<dots> = w" by (rule id [OF assms(2)])
  finally show ?thesis .
qed

lemma approval_payload_inject:
  assumes "in_i16 v" "in_i16 v'"
    and "device_approval_payload u a t v fp = device_approval_payload u' a' t' v' fp'"
  shows "u = u' \<and> a = a' \<and> t = t' \<and> v = v' \<and> fp = fp'"
proof -
  note block = append_eq_append_conv [THEN iffD1, OF disjI1]
  have "uuid_bytes u @ uuid_bytes a @ uuid_bytes t @ be16 (word_of_int v) @ be16 (of_nat (length fp)) @ fp
      = uuid_bytes u' @ uuid_bytes a' @ uuid_bytes t' @ be16 (word_of_int v') @ be16 (of_nat (length fp')) @ fp'"
    using assms(3) unfolding device_approval_payload_def by (simp only: same_append_eq)
  note 1 = block [OF _ this, unfolded length_uuid_bytes, OF refl]
  note 2 = block [OF _ conjunct2 [OF 1], unfolded length_uuid_bytes, OF refl]
  note 3 = block [OF _ conjunct2 [OF 2], unfolded length_uuid_bytes, OF refl]
  note 4 = block [OF _ conjunct2 [OF 3], unfolded length_be, OF refl]
  note 5 = block [OF _ conjunct2 [OF 4], unfolded length_be, OF refl]
  have "uuid_bytes u = uuid_bytes u' \<and> uuid_bytes a = uuid_bytes a' \<and> uuid_bytes t = uuid_bytes t'
    \<and> be16 (word_of_int v) = be16 (word_of_int v') \<and> fp = fp'"
    using 1 2 3 4 5 by blast
  then have same: "uuid_bytes u = uuid_bytes u'" "uuid_bytes a = uuid_bytes a'" "uuid_bytes t = uuid_bytes t'"
    "be16 (word_of_int v) = be16 (word_of_int v')" "fp = fp'" by blast+
  show ?thesis
    by (intro conjI same(1-3) [THEN uuid_bytes_inject [THEN iffD1]] same(5)
        i16_word_inject [OF assms(1,2) same(4) [THEN be16_inject [THEN iffD1]]])
qed

lemma get_device_Inr:
  "get_device user i d = Inr x \<Longrightarrow> x \<in> set (devices d) \<and> dev_id x = i \<and> dev_user x = user"
  by (auto simp: get_device_def find_user_device_def split: option.splits dest: fetch_SomeD)

section \<open>Properties\<close>

definition sample_key :: bytes where
  "sample_key = [1, 2, 3, 4, 5, 6, 7, 8, 9, 10, 11, 12, 13, 14, 15, 16,
       17, 18, 19, 20, 21, 22, 23, 24, 25, 26, 27, 28, 29, 30, 31, 32]"

definition sample_crates :: crates where
  "sample_crates = \<lparr>cr_encode = (\<lambda>_. ''x''), cr_decode = (\<lambda>_. Some sample_key),
     cr_key_ok = (\<lambda>_. True), cr_signature_ok = (\<lambda>_. True), cr_verify = (\<lambda>_ _ _. True)\<rparr>"



definition sample_input :: register_input where
  "sample_input = \<lparr>ri_device_id = 101, ri_label = ''h5'', ri_root_key = sample_key, ri_root_fp = sample_key,
     ri_credential = sample_key, ri_cred_fp = sample_key, ri_approval_key = sample_key, ri_version = 1,
     ri_platform = None, ri_client_version = None, ri_client_build = None\<rparr>"





text \<open>
  C10: No device becomes trusted through the interface without consent: when an approval is
  accepted for a device that was not active, the token's user owns both devices, the approving
  one is active, and its registered key verified the signature over a payload that determines
  the user, both devices, the protocol version and the fingerprint of the approved credential.
\<close>

theorem approval_needs_signature:
  assumes "devices_wf d" "approve_mls_device cr sub target approver signature now d = (Inr r, d')"
    and "x \<in> set (devices d)" "dev_id x = target" "dev_status x \<noteq> DeviceActive"
  shows "\<exists>a key sig. sub = Some (dev_user x) \<and> a \<in> set (devices d) \<and> dev_id a = approver
    \<and> dev_user a = dev_user x \<and> dev_status a = DeviceActive \<and> dev_approval_key a = Some key
    \<and> cr_decode cr (trim signature) = Some sig
    \<and> cr_verify cr key (device_approval_payload (dev_user x) approver target (dev_version x) (dev_cred_fp x)) sig
    \<and> (\<forall>u b t v fp. in_i16 v \<and> in_i16 (dev_version x)
         \<and> device_approval_payload u b t v fp
           = device_approval_payload (dev_user x) approver target (dev_version x) (dev_cred_fp x)
         \<longrightarrow> u = dev_user x \<and> b = approver \<and> t = target \<and> v = dev_version x \<and> fp = dev_cred_fp x)"
proof -
  obtain user a p where sub: "sub = Some user" and a: "get_device user approver d = Inr a"
    "dev_status a = DeviceActive" and p: "get_device user target d = Inr p"
    and rest: "(if dev_status p = DeviceActive then (\<lambda>d. (Inr (device_response_of cr p), d)) else
     with_value (require (dev_status p = PendingApproval) (MessageRuntimeConflict ''device is not pending'')) (\<lambda>_.
     with_value (case dev_approval_key a of
         None \<Rightarrow> Inl (MessageRuntimeConflict ''approver has no key'') | Some k \<Rightarrow> Inr k) (\<lambda>public_key.
     with_value (decode_b64_range (cr_decode cr) signature 64 64) (\<lambda>sig.
     with_value (verify_device_approval cr public_key sig
         (device_approval_payload user approver target (dev_version p) (dev_cred_fp p))) (\<lambda>_.
       finish (approve_device user approver target now) (device_response_of cr)))))) d = (Inr r, d')"
    using assms(2) unfolding approve_mls_device_def by (auto simp: with_value_Inr)
  have "p = x"
    using get_device_Inr [OF p] assms(1,3,4) fetch_key_eq [of dev_id "devices d" p x]
    by (auto simp: devices_wf_def device_keys_def)
  then obtain key sig where "dev_approval_key a = Some key" "decode_b64 (cr_decode cr) signature = Inr sig"
    "cr_verify cr key (device_approval_payload user approver target (dev_version x) (dev_cred_fp x)) sig"
    using rest assms(5)
    by (auto simp: with_value_Inr decode_b64_range_Inr verify_device_approval_def and_then_Inr split: option.splits)
  moreover have user: "dev_user x = user" using get_device_Inr [OF p] \<open>p = x\<close> by simp
  moreover have "\<forall>u b t v fp. in_i16 v \<and> in_i16 (dev_version x)
      \<and> device_approval_payload u b t v fp
        = device_approval_payload user approver target (dev_version x) (dev_cred_fp x)
      \<longrightarrow> u = user \<and> b = approver \<and> t = target \<and> v = dev_version x \<and> fp = dev_cred_fp x"
    using approval_payload_inject by blast
  ultimately show ?thesis
    unfolding user using sub a(2) get_device_Inr [OF a(1)]
    by (intro exI [of _ a] exI [of _ key] exI [of _ sig] conjI) (simp_all add: decode_b64_Inr)
qed

definition sample_signer :: crates where
  "sample_signer = sample_crates\<lparr>cr_decode := (\<lambda>_. Some (sample_key @ sample_key))\<rparr>"

definition sample_second :: register_input where
  "sample_second = sample_input\<lparr>ri_device_id := 102, ri_cred_fp := rev sample_key\<rparr>"

text \<open>User 1 has an active device and one that waits for approval.\<close>

definition two_devices :: db where
  "two_devices = run [(1, Register 1 sample_input), (2, Register 1 sample_second)] (empty_db\<lparr>users := [1]\<rparr>)"

lemma two_devices_wf: "devices_wf two_devices"
proof -
  have "reachable [1] (last (0 # map fst [(1, Register 1 sample_input), (2, Register 1 sample_second)])) two_devices"
    unfolding two_devices_def by (rule run_reachable [OF reachable.start]) simp
  from reachable_inv [OF this] show ?thesis by (simp add: e2ee_inv_def tables_ok_def)
qed

theorem approval_needs_signature_witness:
  "\<exists>r d' (a :: device) key. approve_mls_device sample_signer (Some 1) 102 101 ''s'' 3 two_devices = (Inr r, d')
     \<and> dev_id a = 101 \<and> dev_approval_key a = Some key"
proof -
  let ?x = "new_device 2 1 sample_second PendingApproval"
  have a: "get_device 1 101 two_devices = Inr (new_device 1 1 sample_input DeviceActive)"
    and p: "get_device 1 102 two_devices = Inr ?x"
    and ok: "case approve_device 1 101 102 3 two_devices of Inl _ \<Rightarrow> False | Inr _ \<Rightarrow> True"
    by code_simp+
  have "trim ''s'' = ''s''" "length (sample_key @ sample_key) = 64" "length sample_key = 32" "sample_key \<noteq> []"
    by code_simp+
  then have sig: "decode_b64_range (cr_decode sample_signer) ''s'' 64 64 = Inr (sample_key @ sample_key)"
    by (simp add: decode_b64_range_Inr decode_b64_Inr sample_signer_def)
  obtain y d' where y: "approve_device 1 101 102 3 two_devices = Inr (y, d')"
    using ok by (auto split: sum.splits)
  have key: "dev_approval_key (new_device 1 1 sample_input DeviceActive) = Some sample_key"
    by (simp add: new_device_def sample_input_def)
  have "verify_device_approval sample_signer sample_key (sample_key @ sample_key) m = Inr ()" for m
    using \<open>length sample_key = 32\<close>
    by (simp add: verify_device_approval_def and_then_Inr) (simp add: sample_signer_def sample_crates_def)
  then have run: "approve_mls_device sample_signer (Some 1) 102 101 ''s'' 3 two_devices
      = (Inr (device_response_of sample_signer y), d')"
    by (simp add: approve_mls_device_def claims_user_id_def a p sig key y finish_def atomically_def require_def)
  have "?x \<in> set (devices two_devices)" "dev_id ?x = 102" "dev_status ?x \<noteq> DeviceActive"
    using get_device_Inr [OF p] by simp_all
  from approval_needs_signature [OF two_devices_wf run this] run show ?thesis by blast
qed

end
