(* ===== verification/GroupStore.thy ===== *)
theory GroupStore
  imports Membership
begin

text \<open>
  The tables of a group beside its members: settings with the group-wide mute, rules, requests to
  join, invitations, administrators, single mutes and the log, with the operations of
  \<open>api/src/database/group_management_store.rs\<close>.  A mute lapses when it is looked at: the lookup
  writes the row back.  An operation of one statement or one transaction returns a new database
  only when it succeeds; \<open>create_invitations\<close> runs a statement per user and returns what it left.
\<close>

section \<open>Settings\<close>

text \<open>The column defaults of \<open>group_settings\<close>.\<close>

definition default_group_settings :: "uuid \<Rightarrow> group_settings" where
  "default_group_settings room =
     \<lparr>gset_room = room, gset_join_approval = False, gset_member_can_invite = True,
      gset_member_can_add_friends = True, gset_require_admin_to_add_friends = False,
      gset_max_members = 500, gset_mute_enabled = False, gset_mute_until = None,
      gset_mute_reason = None, gset_mute_by = None\<rparr>"

definition settings_row :: "uuid \<Rightarrow> db \<Rightarrow> group_settings option" where
  "settings_row room d = fetch_optional (\<lambda>s. gset_room s = room) (group_settings_rows d)"

text \<open>\<open>UPDATE group_settings SET .. WHERE room_id = $1 RETURNING ..\<close> with \<open>fetch_one\<close>.\<close>

definition update_settings_row ::
  "uuid \<Rightarrow> (group_settings \<Rightarrow> group_settings) \<Rightarrow> db \<Rightarrow> sqlx_error + (group_settings \<times> db)" where
  "update_settings_row room f d =
     (case settings_row room d of
        None \<Rightarrow> Inl RowNotFound
      | Some s \<Rightarrow> Inr (f s, d\<lparr>group_settings_rows :=
          update_where (\<lambda>s. gset_room s = room) f (group_settings_rows d)\<rparr>))"

definition unmuted_settings :: "group_settings \<Rightarrow> group_settings" where
  "unmuted_settings s = s\<lparr>gset_mute_enabled := False, gset_mute_reason := None,
     gset_mute_by := None, gset_mute_until := None\<rparr>"

definition clear_global_mute :: "uuid \<Rightarrow> db \<Rightarrow> sqlx_error + (group_settings \<times> db)" where
  "clear_global_mute room d = update_settings_row room unmuted_settings d"

definition get_group_settings :: "instant \<Rightarrow> uuid \<Rightarrow> db \<Rightarrow> sqlx_error + (group_settings option \<times> db)" where
  "get_group_settings now room d =
     (case settings_row room d of
        None \<Rightarrow> Inr (None, d)
      | Some s \<Rightarrow>
          if gset_mute_enabled s \<and> (case gset_mute_until s of Some until \<Rightarrow> until \<le> now | None \<Rightarrow> False)
          then (case clear_global_mute room d of
                  Inl e \<Rightarrow> Inl e
                | Inr (cleared, d') \<Rightarrow> Inr (Some cleared, d'))
          else Inr (Some s, d))"

definition ensure_group_settings_row :: "uuid \<Rightarrow> db \<Rightarrow> sqlx_error + (unit \<times> db)" where
  "ensure_group_settings_row room d =
     (if settings_row room d \<noteq> None then Inr ((), d)
      else if \<not> room_exists room d then Inl ForeignKeyViolation
      else Inr ((), d\<lparr>group_settings_rows := group_settings_rows d @ [default_group_settings room]\<rparr>))"

definition get_or_create_group_settings :: "uuid \<Rightarrow> db \<Rightarrow> sqlx_error + (group_settings \<times> db)" where
  "get_or_create_group_settings room d =
     (case settings_row room d of
        Some s \<Rightarrow> Inr (s, d)
      | None \<Rightarrow>
          if \<not> room_exists room d then Inl ForeignKeyViolation
          else Inr (default_group_settings room,
            d\<lparr>group_settings_rows := group_settings_rows d @ [default_group_settings room]\<rparr>))"

record settings_update =
  su_join_approval :: "bool option"
  su_member_can_invite :: "bool option"
  su_member_can_add_friends :: "bool option"
  su_require_admin_to_add_friends :: "bool option"
  su_max_members :: "int option"

text \<open>\<open>COALESCE(new, old)\<close>.\<close>

definition coalesce :: "'a option \<Rightarrow> 'a \<Rightarrow> 'a" where
  "coalesce new old = (case new of Some v \<Rightarrow> v | None \<Rightarrow> old)"

definition updated_settings :: "settings_update \<Rightarrow> group_settings \<Rightarrow> group_settings" where
  "updated_settings req s = s
     \<lparr>gset_join_approval := coalesce (su_join_approval req) (gset_join_approval s),
      gset_member_can_invite := coalesce (su_member_can_invite req) (gset_member_can_invite s),
      gset_member_can_add_friends :=
        coalesce (su_member_can_add_friends req) (gset_member_can_add_friends s),
      gset_require_admin_to_add_friends :=
        coalesce (su_require_admin_to_add_friends req) (gset_require_admin_to_add_friends s),
      gset_max_members := coalesce (su_max_members req) (gset_max_members s)\<rparr>"

text \<open>
  Two statements of their own: a row that the first one made stays when the second one fails.
\<close>

definition update_group_settings ::
  "uuid \<Rightarrow> settings_update \<Rightarrow> db \<Rightarrow> (sqlx_error + group_settings) \<times> db" where
  "update_group_settings room req d =
     (case ensure_group_settings_row room d of
        Inl e \<Rightarrow> (Inl e, d)
      | Inr (_, d1) \<Rightarrow>
          (case update_settings_row room (updated_settings req) d1 of
             Inl e \<Rightarrow> (Inl e, d1)
           | Inr (s, d2) \<Rightarrow> (Inr s, d2)))"

definition globally_muted ::
  "instant \<Rightarrow> uuid \<Rightarrow> bool \<Rightarrow> string option \<Rightarrow> int option \<Rightarrow> group_settings \<Rightarrow> group_settings" where
  "globally_muted now set_by enabled reason duration s = s
     \<lparr>gset_mute_enabled := enabled,
      gset_mute_reason := (if enabled then reason else None),
      gset_mute_by := (if enabled then Some set_by else None),
      gset_mute_until := (if enabled then map_option (\<lambda>m. now + minutes m) duration else None)\<rparr>"

definition set_global_mute_state ::
  "instant \<Rightarrow> uuid \<Rightarrow> uuid \<Rightarrow> bool \<Rightarrow> string option \<Rightarrow> int option \<Rightarrow> db
     \<Rightarrow> (sqlx_error + group_settings) \<times> db" where
  "set_global_mute_state now room set_by enabled reason duration_minutes d =
     (case ensure_group_settings_row room d of
        Inl e \<Rightarrow> (Inl e, d)
      | Inr (_, d1) \<Rightarrow>
          let duration = map_option (\<lambda>v. max v 0) duration_minutes in
          if enabled \<and> set_by \<notin> set (users d1) then (Inl ForeignKeyViolation, d1)
          else case update_settings_row room (globally_muted now set_by enabled reason duration) d1 of
            Inl e \<Rightarrow> (Inl e, d1)
          | Inr (s, d2) \<Rightarrow> (Inr s, d2))"

section \<open>Rules\<close>

record create_rule_request =
  cr_title :: string
  cr_content :: string
  cr_order :: "int option"

record update_rule_request =
  ur_title :: "string option"
  ur_content :: "string option"
  ur_order :: "int option"
  ur_active :: "bool option"

definition create_rule ::
  "instant \<Rightarrow> uuid \<Rightarrow> uuid \<Rightarrow> uuid \<Rightarrow> create_rule_request \<Rightarrow> db \<Rightarrow> sqlx_error + (group_rule \<times> db)" where
  "create_rule now new_id room creator req d =
     (let r = \<lparr>gr_id = new_id, gr_room = room, gr_title = cr_title req, gr_content = cr_content req,
               gr_creator = creator, gr_order = coalesce (cr_order req) 0, gr_active = True,
               gr_created = now\<rparr>
      in if char_count (cr_title req) > 200 then Inl ValueTooLong
         else if exists_row (\<lambda>r. gr_id r = new_id) (group_rules d) then Inl UniqueViolation
         else if \<not> room_exists room d \<or> creator \<notin> set (users d) then Inl ForeignKeyViolation
         else Inr (r, d\<lparr>group_rules := group_rules d @ [r]\<rparr>))"

definition list_rules :: "uuid \<Rightarrow> db \<Rightarrow> group_rule list" where
  "list_rules room d =
     sort_key (\<lambda>r. (gr_order r, gr_created r)) (filter (\<lambda>r. gr_room r = room) (group_rules d))"

definition updated_rule :: "update_rule_request \<Rightarrow> group_rule \<Rightarrow> group_rule" where
  "updated_rule req r = r
     \<lparr>gr_title := coalesce (ur_title req) (gr_title r),
      gr_content := coalesce (ur_content req) (gr_content r),
      gr_order := coalesce (ur_order req) (gr_order r),
      gr_active := coalesce (ur_active req) (gr_active r)\<rparr>"

definition update_rule ::
  "uuid \<Rightarrow> update_rule_request \<Rightarrow> db \<Rightarrow> sqlx_error + (group_rule option \<times> db)" where
  "update_rule rule req d =
     (case fetch_optional (\<lambda>r. gr_id r = rule) (group_rules d) of
        None \<Rightarrow> Inr (None, d)
      | Some r \<Rightarrow>
          if char_count (gr_title (updated_rule req r)) > 200 then Inl ValueTooLong
          else Inr (Some (updated_rule req r),
            d\<lparr>group_rules := update_where (\<lambda>r. gr_id r = rule) (updated_rule req) (group_rules d)\<rparr>))"

definition delete_rule :: "uuid \<Rightarrow> db \<Rightarrow> bool \<times> db" where
  "delete_rule rule d =
     (rows_affected (\<lambda>r. gr_id r = rule) (group_rules d) > 0,
      d\<lparr>group_rules := delete_where (\<lambda>r. gr_id r = rule) (group_rules d)\<rparr>)"

section \<open>Requests to join\<close>

definition same_request :: "uuid \<Rightarrow> uuid \<Rightarrow> join_request \<Rightarrow> bool" where
  "same_request room applicant r \<longleftrightarrow> jr_room r = room \<and> jr_applicant r = applicant"

definition reopened_request :: "instant \<Rightarrow> string option \<Rightarrow> join_request \<Rightarrow> join_request" where
  "reopened_request now text r = r
     \<lparr>jr_message := text, jr_status := JoinPending, jr_reviewer := None, jr_review_message := None,
      jr_created := now, jr_reviewed := None\<rparr>"

definition create_join_request ::
  "instant \<Rightarrow> uuid \<Rightarrow> uuid \<Rightarrow> uuid \<Rightarrow> string option \<Rightarrow> db \<Rightarrow> sqlx_error + (join_request \<times> db)" where
  "create_join_request now new_id room applicant text d =
     (case fetch_optional (same_request room applicant) (join_requests d) of
        Some r \<Rightarrow> Inr (reopened_request now text r,
          d\<lparr>join_requests := update_where (same_request room applicant) (reopened_request now text)
            (join_requests d)\<rparr>)
      | None \<Rightarrow>
          let r = \<lparr>jr_id = new_id, jr_room = room, jr_applicant = applicant, jr_message = text,
                   jr_status = JoinPending, jr_reviewer = None, jr_review_message = None,
                   jr_created = now, jr_reviewed = None\<rparr>
          in if exists_row (\<lambda>r. jr_id r = new_id) (join_requests d) then Inl UniqueViolation
             else if \<not> room_exists room d \<or> applicant \<notin> set (users d) then Inl ForeignKeyViolation
             else Inr (r, d\<lparr>join_requests := join_requests d @ [r]\<rparr>))"

definition has_approved_join_request :: "uuid \<Rightarrow> uuid \<Rightarrow> db \<Rightarrow> bool" where
  "has_approved_join_request room applicant d =
     (case fetch_optional (same_request room applicant) (join_requests d) of
        Some r \<Rightarrow> jr_status r = JoinApproved
      | None \<Rightarrow> False)"

definition list_join_requests :: "uuid \<Rightarrow> db \<Rightarrow> join_request list" where
  "list_join_requests room d =
     sort_key (\<lambda>r. - jr_created r) (filter (\<lambda>r. jr_room r = room) (join_requests d))"

definition reviewed_request ::
  "instant \<Rightarrow> uuid \<Rightarrow> join_status \<Rightarrow> string option \<Rightarrow> join_request \<Rightarrow> join_request" where
  "reviewed_request now reviewer status text r = r
     \<lparr>jr_status := status, jr_reviewer := Some reviewer, jr_review_message := text,
      jr_reviewed := Some now\<rparr>"

text \<open>The statement finds the request by its id alone.\<close>

definition review_join_request ::
  "instant \<Rightarrow> uuid \<Rightarrow> uuid \<Rightarrow> join_status \<Rightarrow> string option \<Rightarrow> db
     \<Rightarrow> sqlx_error + (join_request option \<times> db)" where
  "review_join_request now request reviewer status text d =
     (let row = (\<lambda>r. jr_id r = request \<and> jr_status r = JoinPending) in
      case fetch_optional row (join_requests d) of
        None \<Rightarrow> Inr (None, d)
      | Some r \<Rightarrow>
          if reviewer \<notin> set (users d) then Inl ForeignKeyViolation
          else Inr (Some (reviewed_request now reviewer status text r),
            d\<lparr>join_requests := update_where row (reviewed_request now reviewer status text)
              (join_requests d)\<rparr>))"

definition count_active_members :: "uuid \<Rightarrow> db \<Rightarrow> int" where
  "count_active_members room d =
     int (length (filter (\<lambda>m. mb_room m = room \<and> mb_deleted m = None) (room_members d)))"

section \<open>Invitations\<close>

text \<open>
  A row of the list: the invitation, the room's name and the inviter's name, which the query
  takes from \<open>users\<close> (\<open>name_of\<close>).
\<close>

definition list_received_invitations ::
  "(uuid \<Rightarrow> string) \<Rightarrow> uuid \<Rightarrow> invitation_status option \<Rightarrow> db
     \<Rightarrow> (group_invitation \<times> string \<times> string) list" where
  "list_received_invitations name_of invitee status d =
     sort_key (\<lambda>(i, _). - gi_invited i)
       (concat (map (\<lambda>i. map (\<lambda>r. (i, rm_name r, name_of (gi_inviter i)))
            (filter (\<lambda>r. rm_id r = gi_room i) (rooms d)))
          (filter (\<lambda>i. gi_invitee i = invitee \<and> (case status of None \<Rightarrow> True | Some s \<Rightarrow> gi_status i = s))
             (group_invitations d))))"

definition get_invitation_by_id :: "uuid \<Rightarrow> db \<Rightarrow> group_invitation option" where
  "get_invitation_by_id invitation d =
     fetch_optional (\<lambda>i. gi_id i = invitation) (group_invitations d)"

definition same_invitation :: "uuid \<Rightarrow> uuid \<Rightarrow> group_invitation \<Rightarrow> bool" where
  "same_invitation room invitee i \<longleftrightarrow> gi_room i = room \<and> gi_invitee i = invitee"

definition renewed_invitation ::
  "instant \<Rightarrow> instant \<Rightarrow> string option \<Rightarrow> group_invitation \<Rightarrow> group_invitation" where
  "renewed_invitation now expires text i = i
     \<lparr>gi_message := text, gi_status := InvPending, gi_invited := now, gi_responded := None,
      gi_expires := expires\<rparr>"

definition upsert_invitation ::
  "instant \<Rightarrow> instant \<Rightarrow> uuid \<Rightarrow> uuid \<Rightarrow> uuid \<Rightarrow> uuid \<Rightarrow> string option \<Rightarrow> db
     \<Rightarrow> sqlx_error + (group_invitation \<times> db)" where
  "upsert_invitation now expires new_id room inviter invitee text d =
     (case fetch_optional (same_invitation room invitee) (group_invitations d) of
        Some i \<Rightarrow> Inr (renewed_invitation now expires text i,
          d\<lparr>group_invitations := update_where (same_invitation room invitee)
            (renewed_invitation now expires text) (group_invitations d)\<rparr>)
      | None \<Rightarrow>
          let i = \<lparr>gi_id = new_id, gi_room = room, gi_inviter = inviter, gi_invitee = invitee,
                   gi_message = text, gi_status = InvPending, gi_invited = now,
                   gi_responded = None, gi_expires = expires\<rparr>
          in if exists_row (\<lambda>i. gi_id i = new_id) (group_invitations d) then Inl UniqueViolation
             else if \<not> room_exists room d \<or> inviter \<notin> set (users d) \<or> invitee \<notin> set (users d)
             then Inl ForeignKeyViolation
             else Inr (i, d\<lparr>group_invitations := group_invitations d @ [i]\<rparr>))"

text \<open>
  The loop over the named users: what does not parse as an id is skipped, and the rows before a
  failing statement stay.  \<open>gen n\<close> is the id generated for the \<open>n\<close>-th name.
\<close>

fun insert_invitations ::
  "(nat \<Rightarrow> uuid) \<Rightarrow> instant \<Rightarrow> instant \<Rightarrow> uuid \<Rightarrow> uuid \<Rightarrow> string option \<Rightarrow> uuid option list \<Rightarrow> db
     \<Rightarrow> (sqlx_error + group_invitation list) \<times> db" where
  "insert_invitations gen now expires room inviter text [] d = (Inr [], d)"
| "insert_invitations gen now expires room inviter text (None # us) d =
     insert_invitations (\<lambda>n. gen (Suc n)) now expires room inviter text us d"
| "insert_invitations gen now expires room inviter text (Some u # us) d =
     (case upsert_invitation now expires (gen 0) room inviter u text d of
        Inl e \<Rightarrow> (Inl e, d)
      | Inr (i, d1) \<Rightarrow>
          (case insert_invitations (\<lambda>n. gen (Suc n)) now expires room inviter text us d1 of
             (Inl e, d2) \<Rightarrow> (Inl e, d2)
           | (Inr rest, d2) \<Rightarrow> (Inr (i # rest), d2)))"

definition create_invitations ::
  "(nat \<Rightarrow> uuid) \<Rightarrow> instant \<Rightarrow> uuid \<Rightarrow> uuid \<Rightarrow> string option \<Rightarrow> uuid option list \<Rightarrow> db
     \<Rightarrow> (sqlx_error + group_invitation list) \<times> db" where
  "create_invitations gen now room inviter text user_ids d =
     insert_invitations gen now (now + days 7) room inviter text user_ids d"

definition answered_invitation ::
  "instant \<Rightarrow> invitation_status \<Rightarrow> group_invitation \<Rightarrow> group_invitation" where
  "answered_invitation now status i = i\<lparr>gi_status := status, gi_responded := Some now\<rparr>"

definition respond_to_invitation ::
  "instant \<Rightarrow> uuid \<Rightarrow> invitation_status \<Rightarrow> db \<Rightarrow> group_invitation option \<times> db" where
  "respond_to_invitation now invitation status d =
     (let row = (\<lambda>i. gi_id i = invitation \<and> gi_status i = InvPending) in
      (map_option (answered_invitation now status) (fetch_optional row (group_invitations d)),
       d\<lparr>group_invitations := update_where row (answered_invitation now status)
         (group_invitations d)\<rparr>))"

section \<open>Administrators\<close>

record appoint_request =
  ap_user :: string
  ap_role :: string
  ap_permissions :: "string list option"

definition same_admin :: "uuid \<Rightarrow> uuid \<Rightarrow> group_admin \<Rightarrow> bool" where
  "same_admin room user a \<longleftrightarrow> ga_room a = room \<and> ga_admin a = user"

definition upsert_group_admin ::
  "instant \<Rightarrow> uuid \<Rightarrow> uuid \<Rightarrow> uuid \<Rightarrow> appoint_request \<Rightarrow> db \<Rightarrow> sqlx_error + (group_admin \<times> db)" where
  "upsert_group_admin now room admin by req d =
     (let renew = (\<lambda>a. a\<lparr>ga_role := ap_role req, ga_permissions := ap_permissions req,
                         ga_by := by, ga_appointed := now\<rparr>)
      in if char_count (ap_role req) > 50 then Inl ValueTooLong
         else case fetch_optional (same_admin room admin) (group_admins d) of
           Some a \<Rightarrow>
             if by \<notin> set (users d) then Inl ForeignKeyViolation
             else Inr (renew a, d\<lparr>group_admins := update_where (same_admin room admin) renew (group_admins d)\<rparr>)
         | None \<Rightarrow>
             let a = \<lparr>ga_room = room, ga_admin = admin, ga_by = by, ga_role = ap_role req,
                      ga_permissions = ap_permissions req, ga_appointed = now\<rparr>
             in if \<not> room_exists room d \<or> admin \<notin> set (users d) \<or> by \<notin> set (users d)
                then Inl ForeignKeyViolation
                else Inr (a, d\<lparr>group_admins := group_admins d @ [a]\<rparr>))"

text \<open>One transaction: without an active membership nothing is written.\<close>

definition appoint_admin ::
  "(string \<Rightarrow> uuid option) \<Rightarrow> instant \<Rightarrow> uuid \<Rightarrow> uuid \<Rightarrow> appoint_request \<Rightarrow> db
     \<Rightarrow> sqlx_error + (group_admin \<times> db)" where
  "appoint_admin parse now room appointed_by req d =
     (case parse (ap_user req) of
        None \<Rightarrow> Inl (ProtocolError ''Invalid user ID'')
      | Some admin \<Rightarrow>
          if rows_affected (is_member room admin) (room_members d) = 0 then Inl RowNotFound
          else upsert_group_admin now room admin appointed_by req (set_role room admin AdminRole d))"

definition remove_admin :: "uuid \<Rightarrow> uuid \<Rightarrow> db \<Rightarrow> bool \<times> db" where
  "remove_admin room admin d =
     (if rows_affected (same_admin room admin) (group_admins d) = 0 then (False, d)
      else (True, set_role room admin MemberRole
        (d\<lparr>group_admins := delete_where (same_admin room admin) (group_admins d)\<rparr>)))"

definition list_admins :: "uuid \<Rightarrow> db \<Rightarrow> group_admin list" where
  "list_admins room d = sort_key ga_appointed (filter (\<lambda>a. ga_room a = room) (group_admins d))"

section \<open>Mutes\<close>

record mute_request =
  mr_user :: string
  mr_reason :: "string option"
  mr_hours :: "int option"

definition same_mute :: "uuid \<Rightarrow> uuid \<Rightarrow> group_mute \<Rightarrow> bool" where
  "same_mute room user m \<longleftrightarrow> gm_room m = room \<and> gm_user m = user"

definition active_mute :: "uuid \<Rightarrow> uuid \<Rightarrow> group_mute \<Rightarrow> bool" where
  "active_mute room user m \<longleftrightarrow> same_mute room user m \<and> gm_active m"

definition mute_user ::
  "(string \<Rightarrow> uuid option) \<Rightarrow> instant \<Rightarrow> uuid \<Rightarrow> uuid \<Rightarrow> mute_request \<Rightarrow> db
     \<Rightarrow> sqlx_error + (group_mute \<times> db)" where
  "mute_user parse now room muted_by req d =
     (case parse (mr_user req) of
        None \<Rightarrow> Inl (ProtocolError ''Invalid user ID'')
      | Some user \<Rightarrow>
          let h = coalesce (mr_hours req) 24;
              renew = (\<lambda>m. m\<lparr>gm_by := muted_by, gm_reason := mr_reason req, gm_hours := h,
                             gm_muted_at := now, gm_unmuted_at := None, gm_active := True\<rparr>)
          in case fetch_optional (same_mute room user) (group_mutes d) of
               Some m \<Rightarrow>
                 if muted_by \<notin> set (users d) then Inl ForeignKeyViolation
                 else Inr (renew m, d\<lparr>group_mutes := update_where (same_mute room user) renew (group_mutes d)\<rparr>)
             | None \<Rightarrow>
                 let m = \<lparr>gm_room = room, gm_user = user, gm_by = muted_by, gm_reason = mr_reason req,
                          gm_hours = h, gm_muted_at = now, gm_unmuted_at = None, gm_active = True\<rparr>
                 in if \<not> room_exists room d \<or> user \<notin> set (users d) \<or> muted_by \<notin> set (users d)
                    then Inl ForeignKeyViolation
                    else Inr (m, d\<lparr>group_mutes := group_mutes d @ [m]\<rparr>))"

definition unmute_user :: "instant \<Rightarrow> uuid \<Rightarrow> uuid \<Rightarrow> db \<Rightarrow> bool \<times> db" where
  "unmute_user now room user d =
     (rows_affected (active_mute room user) (group_mutes d) > 0,
      d\<lparr>group_mutes := update_where (active_mute room user)
        (\<lambda>m. m\<lparr>gm_active := False, gm_unmuted_at := Some now\<rparr>) (group_mutes d)\<rparr>)"

text \<open>A mute of no positive length never lapses.\<close>

definition mute_lapsed :: "instant \<Rightarrow> group_mute \<Rightarrow> bool" where
  "mute_lapsed now m \<longleftrightarrow> gm_hours m > 0 \<and> gm_muted_at m + hours (gm_hours m) \<le> now"

definition find_active_mute :: "instant \<Rightarrow> uuid \<Rightarrow> uuid \<Rightarrow> db \<Rightarrow> group_mute option \<times> db" where
  "find_active_mute now room user d =
     (case fetch_optional (active_mute room user) (group_mutes d) of
        Some m \<Rightarrow>
          if mute_lapsed now m then (None, snd (unmute_user now room user d)) else (Some m, d)
      | None \<Rightarrow> (None, d))"

definition list_muted_users :: "uuid \<Rightarrow> db \<Rightarrow> group_mute list" where
  "list_muted_users room d =
     sort_key (\<lambda>m. - gm_muted_at m) (filter (\<lambda>m. gm_room m = room \<and> gm_active m) (group_mutes d))"

section \<open>The log\<close>

definition log_operation ::
  "instant \<Rightarrow> uuid \<Rightarrow> uuid \<Rightarrow> uuid option \<Rightarrow> string \<Rightarrow> db \<Rightarrow> sqlx_error + (operation_log \<times> db)" where
  "log_operation now room operator target kind d =
     (let l = \<lparr>ol_room = room, ol_operator = operator, ol_target = target, ol_type = kind,
               ol_created = now\<rparr>
      in if char_count kind > 50 then Inl ValueTooLong
         else if \<not> room_exists room d \<or> operator \<notin> set (users d)
           \<or> (case target of None \<Rightarrow> False | Some t \<Rightarrow> t \<notin> set (users d))
         then Inl ForeignKeyViolation
         else Inr (l, d\<lparr>operation_logs := operation_logs d @ [l]\<rparr>))"

definition list_operation_logs ::
  "uuid \<Rightarrow> int option \<Rightarrow> int option \<Rightarrow> db \<Rightarrow> sqlx_error + operation_log list" where
  "list_operation_logs room limit offset d =
     (let n = coalesce limit 50; k = coalesce offset 0 in
      if n < 0 \<or> k < 0 then Inl InvalidRowCount
      else Inr (take (nat n) (drop (nat k)
        (sort_key (\<lambda>l. - ol_created l) (filter (\<lambda>l. ol_room l = room) (operation_logs d))))))"

section \<open>The group in detail\<close>

text \<open>The view \<open>group_detail_view\<close>: a live group with its settings or their defaults.\<close>

record group_detail =
  gd_room :: room
  gd_settings :: group_settings
  gd_members :: int
  gd_pending :: int

definition get_group_detail_info :: "uuid \<Rightarrow> db \<Rightarrow> group_detail option" where
  "get_group_detail_info room d =
     (case fetch_optional (\<lambda>r. rm_id r = room \<and> rm_type r = GroupRoom \<and> rm_deleted r = None) (rooms d) of
        None \<Rightarrow> None
      | Some r \<Rightarrow> Some
          \<lparr>gd_room = r,
           gd_settings = coalesce (settings_row room d) (default_group_settings room),
           gd_members = count_active_members room d,
           gd_pending = int (length (filter (\<lambda>q. jr_room q = room \<and> jr_status q = JoinPending)
             (join_requests d)))\<rparr>)"

section \<open>Permissions\<close>

definition is_group_admin :: "uuid \<Rightarrow> uuid \<Rightarrow> db \<Rightarrow> bool" where
  "is_group_admin room user d = (rows_affected (same_admin room user) (group_admins d) > 0)"

definition is_group_owner :: "uuid \<Rightarrow> uuid \<Rightarrow> db \<Rightarrow> sqlx_error + bool" where
  "is_group_owner room user d =
     (case fetch_optional (\<lambda>r. rm_id r = room \<and> rm_deleted r = None) (rooms d) of
        None \<Rightarrow> Inl RowNotFound
      | Some r \<Rightarrow> Inr (rm_owner r = user))"

definition can_manage_group :: "uuid \<Rightarrow> uuid \<Rightarrow> db \<Rightarrow> sqlx_error + bool" where
  "can_manage_group room user d =
     (case is_group_owner room user d of
        Inl e \<Rightarrow> Inl e
      | Inr is_owner \<Rightarrow> if is_owner then Inr True else Inr (is_group_admin room user d))"

end
