(* ===== verification/GroupHandlers.thy ===== *)
theory GroupHandlers
  imports GroupStore Requests
begin

text \<open>
  The handlers of \<open>api/src/handlers/group_management.rs\<close> and the room handlers of
  \<open>api/src/handlers/room.rs\<close> that change who is in a room, with the check that
  \<open>api/src/handlers/message.rs\<close> makes before a message to a group.  Each statement or
  transaction is a step; the checks before it stand in the order of the code.  The token's
  subject and the ids in the path are what the UUID parser makes of them; ids in a request body
  are strings, with the parser as the argument \<open>parse\<close>.  What is published to connected clients
  and queued for push is not part of the model: both are sent after the last write and their
  failures are ignored.
\<close>

section \<open>Steps\<close>

text \<open>A statement or a transaction, a store method of several statements, and one that cannot fail.\<close>

definition tx :: "(db \<Rightarrow> sqlx_error + ('a \<times> db)) \<Rightarrow> db \<Rightarrow> 'a result \<times> db" where
  "tx f = atomically (\<lambda>d. from_sqlx (f d))"

definition several :: "(db \<Rightarrow> (sqlx_error + 'a) \<times> db) \<Rightarrow> db \<Rightarrow> 'a result \<times> db" where
  "several f d = (let (r, d') = f d in (from_sqlx r, d'))"

definition total :: "(db \<Rightarrow> 'a \<times> db) \<Rightarrow> db \<Rightarrow> 'a result \<times> db" where
  "total f d = (let (a, d') = f d in (Inr a, d'))"

text \<open>\<open>let _ = store.log_operation(..).await\<close>: a failure is ignored.\<close>

definition logged :: "instant \<Rightarrow> uuid \<Rightarrow> uuid \<Rightarrow> uuid option \<Rightarrow> string \<Rightarrow> db \<Rightarrow> unit result \<times> db" where
  "logged now room operator target kind d =
     (case log_operation now room operator target kind d of
        Inl _ \<Rightarrow> (Inr (), d)
      | Inr (_, d') \<Rightarrow> (Inr (), d'))"

text \<open>\<open>can_manage_group\<close> and \<open>is_group_owner\<close> with the refusal that follows.\<close>

definition require_manager :: "uuid \<Rightarrow> uuid \<Rightarrow> db \<Rightarrow> unit result" where
  "require_manager room user d =
     and_then (from_sqlx (can_manage_group room user d)) (\<lambda>ok.
       require ok (Forbidden ''only the owner or an administrator''))"

definition require_owner :: "uuid \<Rightarrow> uuid \<Rightarrow> db \<Rightarrow> unit result" where
  "require_owner room user d =
     and_then (from_sqlx (is_group_owner room user d)) (\<lambda>ok.
       require ok (Forbidden ''only the owner''))"

section \<open>Settings and mutes of the whole group\<close>

record my_mute =
  mm_reason :: "string option"
  mm_muted_at :: instant
  mm_until :: "instant option"

definition mute_end :: "group_mute \<Rightarrow> instant option" where
  "mute_end m = (if gm_hours m > 0 then Some (gm_muted_at m + hours (gm_hours m)) else None)"

definition my_mute_of :: "group_mute \<Rightarrow> my_mute" where
  "my_mute_of m = \<lparr>mm_reason = gm_reason m, mm_muted_at = gm_muted_at m, mm_until = mute_end m\<rparr>"

definition get_group_settings_handler ::
  "instant \<Rightarrow> uuid option \<Rightarrow> uuid \<Rightarrow> db \<Rightarrow> (group_settings \<times> my_mute option) result \<times> db" where
  "get_group_settings_handler now sub room =
     with_value (claims_user_id sub) (\<lambda>user.
     run_then (tx (get_group_settings now room)) (\<lambda>found.
     run_then
       (case found of
          Some s \<Rightarrow> answer s
        | None \<Rightarrow>
            run_then (tx (ensure_group_settings_row room)) (\<lambda>_.
            run_then (tx (get_group_settings now room)) (\<lambda>again.
            (case again of
               Some s \<Rightarrow> answer s
             | None \<Rightarrow> with_value (Inl (NotFound ''Group settings not found'')) answer))))
       (\<lambda>settings.
     run_then (total (find_active_mute now room user)) (\<lambda>mute.
     answer (settings, map_option my_mute_of mute)))))"

definition update_global_mute_handler ::
  "instant \<Rightarrow> uuid option \<Rightarrow> uuid \<Rightarrow> bool \<Rightarrow> string option \<Rightarrow> int option \<Rightarrow> db
     \<Rightarrow> group_settings result \<times> db" where
  "update_global_mute_handler now sub room enabled reason duration =
     with_value (claims_user_id sub) (\<lambda>user.
     query (require_manager room user) (\<lambda>_.
     run_then (several (set_global_mute_state now room user enabled reason duration)) (\<lambda>s.
     run_then (logged now room user None
       (if enabled then ''enable_global_mute'' else ''disable_global_mute'')) (\<lambda>_.
     answer s))))"

definition update_group_settings_handler ::
  "instant \<Rightarrow> uuid option \<Rightarrow> uuid \<Rightarrow> settings_update \<Rightarrow> db \<Rightarrow> group_settings result \<times> db" where
  "update_group_settings_handler now sub room req =
     with_value (claims_user_id sub) (\<lambda>user.
     query (require_manager room user) (\<lambda>_.
     run_then (several (update_group_settings room req)) (\<lambda>s.
     run_then (logged now room user None ''update_group_settings'') (\<lambda>_.
     answer s))))"

section \<open>Rules\<close>

definition create_rule_handler ::
  "instant \<Rightarrow> uuid \<Rightarrow> uuid option \<Rightarrow> uuid \<Rightarrow> create_rule_request \<Rightarrow> db \<Rightarrow> group_rule result \<times> db" where
  "create_rule_handler now new_id sub room req =
     with_value (claims_user_id sub) (\<lambda>user.
     query (require_manager room user) (\<lambda>_.
     run_then (tx (create_rule now new_id room user req)) (\<lambda>r.
     run_then (logged now room user None ''create_rule'') (\<lambda>_.
     answer r))))"

definition update_rule_handler ::
  "instant \<Rightarrow> uuid option \<Rightarrow> uuid \<Rightarrow> uuid \<Rightarrow> update_rule_request \<Rightarrow> db \<Rightarrow> group_rule result \<times> db" where
  "update_rule_handler now sub room rule req =
     with_value (claims_user_id sub) (\<lambda>user.
     query (require_manager room user) (\<lambda>_.
     run_then (tx (update_rule rule req)) (\<lambda>found.
     with_value (case found of None \<Rightarrow> Inl (NotFound ''Rule not found'') | Some r \<Rightarrow> Inr r) (\<lambda>r.
     run_then (logged now room user None ''update_rule'') (\<lambda>_.
     answer r)))))"

definition delete_rule_handler ::
  "instant \<Rightarrow> uuid option \<Rightarrow> uuid \<Rightarrow> uuid \<Rightarrow> db \<Rightarrow> unit result \<times> db" where
  "delete_rule_handler now sub room rule =
     with_value (claims_user_id sub) (\<lambda>user.
     query (require_manager room user) (\<lambda>_.
     run_then (total (delete_rule rule)) (\<lambda>deleted.
     with_value (require deleted (NotFound ''Rule not found'')) (\<lambda>_.
     run_then (logged now room user None ''delete_rule'') (\<lambda>_.
     answer ())))))"

section \<open>Requests to join\<close>

definition create_join_request_handler ::
  "instant \<Rightarrow> uuid \<Rightarrow> uuid option \<Rightarrow> uuid \<Rightarrow> string option \<Rightarrow> db \<Rightarrow> join_request result \<times> db" where
  "create_join_request_handler now new_id sub room text =
     with_value (claims_user_id sub) (\<lambda>user.
     tx (create_join_request now new_id room user text))"

definition list_join_requests_handler ::
  "uuid option \<Rightarrow> uuid \<Rightarrow> db \<Rightarrow> join_request list result" where
  "list_join_requests_handler sub room d =
     and_then (claims_user_id sub) (\<lambda>user.
     and_then (require_manager room user d) (\<lambda>_.
     Inr (list_join_requests room d)))"

text \<open>The permission is checked for the room in the path, the request is named by its id.\<close>

definition review_join_request_handler ::
  "instant \<Rightarrow> uuid option \<Rightarrow> uuid \<Rightarrow> uuid \<Rightarrow> join_status \<Rightarrow> string option \<Rightarrow> db
     \<Rightarrow> join_request result \<times> db" where
  "review_join_request_handler now sub room request status text =
     with_value (claims_user_id sub) (\<lambda>user.
     query (require_manager room user) (\<lambda>_.
     run_then (tx (review_join_request now request user status text)) (\<lambda>found.
     with_value (case found of
         None \<Rightarrow> Inl (NotFound ''Join request not found or already reviewed'')
       | Some r \<Rightarrow> Inr r) (\<lambda>r.
     run_then (logged now room user (Some (jr_applicant r)) ''review_join_request'') (\<lambda>_.
     answer r)))))"

section \<open>Invitations\<close>

fun parse_invitation_filter :: "string option \<Rightarrow> invitation_status option result" where
  "parse_invitation_filter None = Inr None"
| "parse_invitation_filter (Some s) =
     (if s = ''all'' then Inr None
      else if s = ''pending'' then Inr (Some InvPending)
      else if s = ''accepted'' then Inr (Some InvAccepted)
      else if s = ''declined'' then Inr (Some InvDeclined)
      else if s = ''expired'' then Inr (Some InvExpired)
      else Inl (ValidationError ''Invalid invitation status''))"

definition list_received_invitations_handler ::
  "(uuid \<Rightarrow> string) \<Rightarrow> uuid option \<Rightarrow> string option \<Rightarrow> db
     \<Rightarrow> (group_invitation \<times> string \<times> string) list result" where
  "list_received_invitations_handler name_of sub status d =
     and_then (claims_user_id sub) (\<lambda>user.
     and_then (parse_invitation_filter status) (\<lambda>f.
     Inr (list_received_invitations name_of user f d)))"

definition may_invite :: "bool \<Rightarrow> group_settings option \<Rightarrow> unit result" where
  "may_invite can_manage settings =
     (if \<not> can_manage then
        (case settings of
           Some s \<Rightarrow> require (gset_member_can_invite s) (Forbidden ''members cannot invite users'')
         | None \<Rightarrow> Inl (Forbidden ''only the owner or an administrator can invite users''))
      else Inr ())"

definition create_invitations_handler ::
  "(string \<Rightarrow> uuid option) \<Rightarrow> (nat \<Rightarrow> uuid) \<Rightarrow> instant \<Rightarrow> uuid option \<Rightarrow> uuid \<Rightarrow> string list
     \<Rightarrow> string option \<Rightarrow> db \<Rightarrow> group_invitation list result \<times> db" where
  "create_invitations_handler parse gen now sub room user_ids text =
     with_value (claims_user_id sub) (\<lambda>user.
     query (\<lambda>d. require (is_user_in_room room user d) (Forbidden ''only members can invite users'')) (\<lambda>_.
     query (\<lambda>d. from_sqlx (can_manage_group room user d)) (\<lambda>can_manage.
     run_then (tx (get_group_settings now room)) (\<lambda>settings.
     with_value (may_invite can_manage settings) (\<lambda>_.
     run_then (several (create_invitations gen now room user text (map parse user_ids))) (\<lambda>is.
     run_then (logged now room user None ''create_invitations'') (\<lambda>_.
     answer is)))))))"

text \<open>The field \<open>status\<close> of the JSON body, when it is a string.\<close>

definition parse_invitation_answer :: "string option \<Rightarrow> invitation_status result" where
  "parse_invitation_answer field =
     (case field of
        None \<Rightarrow> Inl (ValidationError ''Status is required'')
      | Some s \<Rightarrow>
          if s = ''accepted'' then Inr InvAccepted
          else if s = ''declined'' then Inr InvDeclined
          else Inl (ValidationError ''Invalid status''))"

definition check_invitation :: "uuid \<Rightarrow> uuid \<Rightarrow> uuid \<Rightarrow> db \<Rightarrow> unit result" where
  "check_invitation room user invitation d =
     (case get_invitation_by_id invitation d of
        None \<Rightarrow> Inl (NotFound ''Invitation not found'')
      | Some i \<Rightarrow>
          if gi_room i \<noteq> room then Inl (NotFound ''Invitation not found'')
          else if gi_invitee i \<noteq> user then Inl (Forbidden ''only the invitee can respond'')
          else if gi_status i \<noteq> InvPending then Inl (NotFound ''Invitation already responded'')
          else Inr ())"

definition respond_to_invitation_handler ::
  "instant \<Rightarrow> uuid option \<Rightarrow> uuid \<Rightarrow> uuid \<Rightarrow> string option \<Rightarrow> db \<Rightarrow> unit result \<times> db" where
  "respond_to_invitation_handler now sub room invitation field =
     with_value (claims_user_id sub) (\<lambda>user.
     with_value (parse_invitation_answer field) (\<lambda>status.
     query (check_invitation room user invitation) (\<lambda>_.
     run_then (total (respond_to_invitation now invitation status)) (\<lambda>found.
     with_value (case found of
         None \<Rightarrow> Inl (NotFound ''Invitation not found or already responded'')
       | Some i \<Rightarrow> Inr i) (\<lambda>i.
     run_then (if status = InvAccepted
               then run_then (tx (add_member now (gi_room i) user None)) (\<lambda>_. answer ())
               else answer ()) (\<lambda>_.
     run_then (logged now (gi_room i) user None ''respond_to_invitation'') (\<lambda>_.
     answer ())))))))"

section \<open>Members\<close>

text \<open>
  The ids named in a request, trimmed, without blanks, the caller and repetitions.
\<close>

fun collect_targets ::
  "(string \<Rightarrow> uuid option) \<Rightarrow> uuid \<Rightarrow> uuid list \<Rightarrow> string list \<Rightarrow> uuid list result" where
  "collect_targets parse self acc [] = Inr acc"
| "collect_targets parse self acc (raw # rest) =
     (let trimmed = trim raw in
      if trimmed = [] then collect_targets parse self acc rest
      else case parse trimmed of
        None \<Rightarrow> Inl (ValidationError ''invalid user id'')
      | Some u \<Rightarrow>
          if u = self \<or> u \<in> set acc then collect_targets parse self acc rest
          else collect_targets parse self (acc @ [u]) rest)"

fun add_targets ::
  "instant \<Rightarrow> uuid \<Rightarrow> uuid list \<Rightarrow> db \<Rightarrow> (uuid list \<times> uuid list) result \<times> db" where
  "add_targets now room [] = answer ([], [])"
| "add_targets now room (u # us) =
     query (\<lambda>d. Inr (is_user_in_room room u d)) (\<lambda>present.
       if present then
         run_then (add_targets now room us) (\<lambda>(added, skipped). answer (added, u # skipped))
       else
         run_then (tx (add_member now room u (Some MemberRole))) (\<lambda>_.
         run_then (add_targets now room us) (\<lambda>(added, skipped). answer (u # added, skipped))))"

definition check_room_left :: "group_settings \<Rightarrow> int \<Rightarrow> uuid list \<Rightarrow> unit result" where
  "check_room_left s current targets =
     (let remaining = gset_max_members s - current in
      if remaining \<le> 0 then Inl (ValidationError ''the group is full'')
      else if int (length targets) > remaining then Inl (ValidationError ''too many members'')
      else Inr ())"

text \<open>The error of \<open>get_or_create_group_settings\<close> is replaced.\<close>

definition settings_or_not_found :: "uuid \<Rightarrow> db \<Rightarrow> group_settings result \<times> db" where
  "settings_or_not_found room d =
     (case get_or_create_group_settings room d of
        Inl _ \<Rightarrow> (Inl (NotFound ''Group settings not found''), d)
      | Inr (s, d') \<Rightarrow> (Inr s, d'))"

definition add_group_members_handler ::
  "(string \<Rightarrow> uuid option) \<Rightarrow> instant \<Rightarrow> uuid option \<Rightarrow> uuid \<Rightarrow> string list \<Rightarrow> db
     \<Rightarrow> (uuid list \<times> uuid list) result \<times> db" where
  "add_group_members_handler parse now sub room user_ids =
     with_value (claims_user_id sub) (\<lambda>operator.
     with_value (require (user_ids \<noteq> []) (ValidationError ''no members named'')) (\<lambda>_.
     with_value (collect_targets parse operator [] user_ids) (\<lambda>targets.
     with_value (require (targets \<noteq> []) (ValidationError ''no valid members named'')) (\<lambda>_.
     query (require_manager room operator) (\<lambda>_.
     run_then (settings_or_not_found room) (\<lambda>settings.
     query (\<lambda>d. check_room_left settings (count_active_members room d) targets) (\<lambda>_.
     run_then (add_targets now room targets) (\<lambda>result.
     run_then (logged now room operator None ''add_members'') (\<lambda>_.
     answer result)))))))))"

definition member_or_not_found :: "uuid \<Rightarrow> uuid \<Rightarrow> db \<Rightarrow> room_member result" where
  "member_or_not_found room user d =
     (case get_member room user d of
        None \<Rightarrow> Inl (NotFound ''User is not a member of this room'')
      | Some m \<Rightarrow> Inr m)"

definition check_removable :: "uuid \<Rightarrow> uuid \<Rightarrow> room_member \<Rightarrow> db \<Rightarrow> unit result" where
  "check_removable room operator m d =
     (if mb_role m = OwnerRole then Inl (Forbidden ''the owner cannot be removed'')
      else if mb_role m = AdminRole then
        and_then (from_sqlx (is_group_owner room operator d)) (\<lambda>ok.
          require ok (Forbidden ''an administrator cannot remove another''))
      else Inr ())"

definition remove_group_member_handler ::
  "instant \<Rightarrow> uuid option \<Rightarrow> uuid \<Rightarrow> uuid \<Rightarrow> db \<Rightarrow> unit result \<times> db" where
  "remove_group_member_handler now sub room member =
     with_value (claims_user_id sub) (\<lambda>operator.
     query (require_manager room operator) (\<lambda>_.
     with_value (require (operator \<noteq> member) (ValidationError ''oneself'')) (\<lambda>_.
     query (member_or_not_found room member) (\<lambda>m.
     query (check_removable room operator m) (\<lambda>_.
     run_then (total (remove_member now room member)) (\<lambda>removed.
     with_value (require removed (NotFound ''User is not a member of this room'')) (\<lambda>_.
     run_then (logged now room operator (Some member) ''remove_member'') (\<lambda>_.
     answer ()))))))))"

section \<open>Administrators\<close>

definition appoint_admin_handler ::
  "(string \<Rightarrow> uuid option) \<Rightarrow> instant \<Rightarrow> uuid option \<Rightarrow> uuid \<Rightarrow> appoint_request \<Rightarrow> db
     \<Rightarrow> group_admin result \<times> db" where
  "appoint_admin_handler parse now sub room req =
     with_value (claims_user_id sub) (\<lambda>user.
     query (require_owner room user) (\<lambda>_.
     run_then (tx (appoint_admin parse now room user req)) (\<lambda>a.
     run_then (logged now room user (Some (ga_admin a)) ''appoint_admin'') (\<lambda>_.
     answer a))))"

definition remove_admin_handler ::
  "instant \<Rightarrow> uuid option \<Rightarrow> uuid \<Rightarrow> uuid \<Rightarrow> db \<Rightarrow> unit result \<times> db" where
  "remove_admin_handler now sub room admin =
     with_value (claims_user_id sub) (\<lambda>user.
     query (require_owner room user) (\<lambda>_.
     run_then (total (remove_admin room admin)) (\<lambda>removed.
     with_value (require removed (NotFound ''Admin not found'')) (\<lambda>_.
     run_then (logged now room user (Some admin) ''remove_admin'') (\<lambda>_.
     answer ())))))"

section \<open>Mutes of single members\<close>

definition check_mutable :: "uuid \<Rightarrow> uuid \<Rightarrow> room_member \<Rightarrow> db \<Rightarrow> unit result" where
  "check_mutable room user m d =
     (if mb_role m \<noteq> MemberRole then Inl (Forbidden ''owner and administrators cannot be muted'')
      else and_then (from_sqlx (is_group_owner room user d)) (\<lambda>is_owner.
        require (\<not> is_owner) (Forbidden ''owner and administrators cannot be muted'')))"

definition mute_user_handler ::
  "(string \<Rightarrow> uuid option) \<Rightarrow> instant \<Rightarrow> uuid option \<Rightarrow> uuid \<Rightarrow> mute_request \<Rightarrow> db
     \<Rightarrow> group_mute result \<times> db" where
  "mute_user_handler parse now sub room req =
     with_value (claims_user_id sub) (\<lambda>user.
     query (require_manager room user) (\<lambda>_.
     with_value (case parse (mr_user req) of
         None \<Rightarrow> Inl (ValidationError ''Invalid user ID'') | Some u \<Rightarrow> Inr u) (\<lambda>muted.
     with_value (require (muted \<noteq> user) (ValidationError ''oneself'')) (\<lambda>_.
     query (member_or_not_found room muted) (\<lambda>m.
     query (check_mutable room muted m) (\<lambda>_.
     run_then (tx (mute_user parse now room user req)) (\<lambda>mute.
     run_then (logged now room user (Some (gm_user mute)) ''mute_user'') (\<lambda>_.
     answer mute))))))))"

definition unmute_user_handler ::
  "instant \<Rightarrow> uuid option \<Rightarrow> uuid \<Rightarrow> uuid \<Rightarrow> db \<Rightarrow> unit result \<times> db" where
  "unmute_user_handler now sub room muted =
     with_value (claims_user_id sub) (\<lambda>user.
     query (require_manager room user) (\<lambda>_.
     query (member_or_not_found room muted) (\<lambda>_.
     run_then (total (unmute_user now room muted)) (\<lambda>unmuted.
     with_value (require unmuted (NotFound ''User is not muted'')) (\<lambda>_.
     run_then (logged now room user (Some muted) ''unmute_user'') (\<lambda>_.
     answer ()))))))"

definition list_muted_users_handler :: "uuid option \<Rightarrow> uuid \<Rightarrow> db \<Rightarrow> group_mute list result" where
  "list_muted_users_handler sub room d =
     and_then (claims_user_id sub) (\<lambda>user.
     and_then (require_manager room user d) (\<lambda>_.
     Inr (list_muted_users room d)))"

definition list_operation_logs_handler ::
  "uuid option \<Rightarrow> uuid \<Rightarrow> int option \<Rightarrow> int option \<Rightarrow> db \<Rightarrow> (operation_log list \<times> int) result" where
  "list_operation_logs_handler sub room limit offset d =
     and_then (claims_user_id sub) (\<lambda>user.
     and_then (require_manager room user d) (\<lambda>_.
     and_then (from_sqlx (list_operation_logs room limit offset d)) (\<lambda>logs.
     Inr (logs, int (length logs)))))"

definition get_group_detail_handler :: "uuid \<Rightarrow> db \<Rightarrow> group_detail result" where
  "get_group_detail_handler room d =
     (case get_group_detail_info room d of
        None \<Rightarrow> Inl (NotFound ''Group not found'')
      | Some info \<Rightarrow> Inr info)"

section \<open>Before a message to a group\<close>

definition live_room :: "uuid \<Rightarrow> db \<Rightarrow> room result" where
  "live_room room d =
     (case get_room room d of Inl _ \<Rightarrow> Inl (NotFound ''Room not found'') | Inr r \<Rightarrow> Inr r)"

definition ensure_group_message_permissions ::
  "instant \<Rightarrow> uuid \<Rightarrow> uuid \<Rightarrow> db \<Rightarrow> unit result \<times> db" where
  "ensure_group_message_permissions now room sender =
     query (live_room room) (\<lambda>r.
     if rm_type r \<noteq> GroupRoom then answer ()
     else
       run_then (total (find_active_mute now room sender)) (\<lambda>mute.
       with_value (require (mute = None) (Forbidden ''you are muted'')) (\<lambda>_.
       run_then (tx (get_group_settings now room)) (\<lambda>settings.
       (case settings of
          None \<Rightarrow> answer ()
        | Some s \<Rightarrow>
            if gset_mute_enabled s then
              query (\<lambda>d. from_sqlx (can_manage_group room sender d)) (\<lambda>can_manage.
              with_value (require can_manage (Forbidden ''the group is muted'')) answer)
            else answer ())))))"

section \<open>Rooms\<close>

record create_room_payload =
  crp_name :: string
  crp_type :: "room_type option"
  crp_members :: "string list"

definition create_room_handler ::
  "(string \<Rightarrow> uuid option) \<Rightarrow> instant \<Rightarrow> uuid \<Rightarrow> uuid option \<Rightarrow> create_room_payload \<Rightarrow> db
     \<Rightarrow> room result \<times> db" where
  "create_room_handler parse now new_id sub p =
     (let requested = coalesce (crp_type p) GroupRoom in
     with_value (require (trim (crp_name p) \<noteq> []) (ValidationError ''Room name cannot be empty'')) (\<lambda>_.
     with_value (require (requested \<noteq> PrivateRoom \<and> requested \<noteq> FavoriteRoom)
       (ValidationError ''Cannot create room of this type'')) (\<lambda>_.
     with_value (claims_user_id sub) (\<lambda>owner.
     with_value (collect_targets parse owner [] (crp_members p)) (\<lambda>members.
     with_value (require (requested = GroupRoom \<longrightarrow> members \<noteq> [])
       (ValidationError ''Group room must contain at least one additional member'')) (\<lambda>_.
     tx (create_room_with_members now new_id owner (crp_name p) (Some requested) members)))))))"

definition check_joinable ::
  "uuid \<Rightarrow> uuid \<Rightarrow> room \<Rightarrow> db \<Rightarrow> unit result \<times> db" where
  "check_joinable room user r =
     (case rm_type r of
        PublicRoom \<Rightarrow> answer ()
      | GroupRoom \<Rightarrow>
          run_then (tx (get_or_create_group_settings room)) (\<lambda>s.
          query (\<lambda>d. require (\<not> (gset_join_approval s \<and> \<not> has_approved_join_request room user d))
            (Forbidden ''Join request not approved'')) answer)
      | PrivateRoom \<Rightarrow> with_value (Inl (Forbidden ''Room is not joinable'')) answer
      | FavoriteRoom \<Rightarrow> with_value (Inl (Forbidden ''Room is not joinable'')) answer)"

definition join_room_handler :: "instant \<Rightarrow> uuid option \<Rightarrow> uuid \<Rightarrow> db \<Rightarrow> unit result \<times> db" where
  "join_room_handler now sub room =
     with_value (claims_user_id sub) (\<lambda>user.
     query (\<lambda>d. Inr (is_user_in_room room user d)) (\<lambda>present.
     if present then answer ()
     else
       query (live_room room) (\<lambda>r.
       run_then (check_joinable room user r) (\<lambda>_.
       run_then (tx (add_member now room user (Some MemberRole))) (\<lambda>_.
       answer ())))))"

definition leave_room_handler :: "instant \<Rightarrow> uuid option \<Rightarrow> uuid \<Rightarrow> db \<Rightarrow> unit result \<times> db" where
  "leave_room_handler now sub room =
     with_value (claims_user_id sub) (\<lambda>user.
     run_then (total (remove_member now room user)) (\<lambda>ok.
     with_value (require ok (NotFound ''not a member of the room'')) answer))"

definition get_room_handler :: "uuid option \<Rightarrow> uuid \<Rightarrow> db \<Rightarrow> room result" where
  "get_room_handler sub room d =
     and_then (claims_user_id sub) (\<lambda>user.
     and_then (require (is_user_in_room room user d) (Forbidden ''not a member of this room'')) (\<lambda>_.
     from_sqlx (get_room room d)))"

definition dissolve_room_handler :: "instant \<Rightarrow> uuid option \<Rightarrow> uuid \<Rightarrow> db \<Rightarrow> unit result \<times> db" where
  "dissolve_room_handler now sub room =
     with_value (claims_user_id sub) (\<lambda>operator.
     query (live_room room) (\<lambda>r.
     with_value (require (rm_type r = GroupRoom) (ValidationError ''Only group rooms can be dissolved'')) (\<lambda>_.
     query (\<lambda>d. require (list_member_ids room d \<noteq> []) (NotFound ''Room has no members'')) (\<lambda>_.
     run_then (total (dissolve_room_rows now room operator)) (\<lambda>ok.
     with_value (require ok (Forbidden ''Only group owner can dissolve the room'')) (\<lambda>_.
     run_then (logged now room operator None ''dissolve_group'') (\<lambda>_.
     answer ())))))))"

definition transfer_error :: "sqlx_error \<Rightarrow> app_error" where
  "transfer_error e =
     (case e of
        RowNotFound \<Rightarrow> NotFound ''Target user is not in this group''
      | ProtocolError text \<Rightarrow> Forbidden text
      | _ \<Rightarrow> InternalError ''database'')"

definition transfer_room_owner_handler ::
  "(string \<Rightarrow> uuid option) \<Rightarrow> instant \<Rightarrow> uuid option \<Rightarrow> uuid \<Rightarrow> string \<Rightarrow> db
     \<Rightarrow> (uuid \<times> uuid) result \<times> db" where
  "transfer_room_owner_handler parse now sub room new_owner =
     with_value (claims_user_id sub) (\<lambda>operator.
     with_value (case parse (trim new_owner) of
         None \<Rightarrow> Inl (ValidationError ''Invalid new owner user id'') | Some u \<Rightarrow> Inr u) (\<lambda>new.
     with_value (require (new \<noteq> operator) (ValidationError ''New owner must be different'')) (\<lambda>_.
     query (live_room room) (\<lambda>r.
     with_value (require (rm_type r = GroupRoom) (ValidationError ''Only group rooms support transfer'')) (\<lambda>_.
     run_then (atomically (\<lambda>d. case transfer_room_owner_rows room operator new d of
         Inl e \<Rightarrow> Inl (transfer_error e) | Inr x \<Rightarrow> Inr x)) (\<lambda>updated.
     run_then (logged now room operator (Some new) ''transfer_group_owner'') (\<lambda>_.
     answer (rm_id updated, rm_owner updated))))))))"

end
