(* ===== verification/GroupRoles.thy ===== *)
theory GroupRoles
  imports GroupHandlers
begin

text \<open>
  What the group operations keep and what they refuse: the roles in \<open>room_members\<close> and their
  backing in \<open>rooms\<close> and \<open>group_admins\<close>, the way into a group, mutes, and the size of a group.
  A run of the group service is a sequence of requests, each served by its handler.
\<close>

section \<open>Roles and their backing\<close>

text \<open>
  An active member whose row says administrator has a row in \<open>group_admins\<close>, and one whose row
  says owner is the owner in the row of the room.
\<close>

definition administers :: "uuid \<Rightarrow> uuid \<Rightarrow> db \<Rightarrow> bool" where
  "administers room user d = exists_row (same_admin room user) (group_admins d)"

definition owns :: "uuid \<Rightarrow> uuid \<Rightarrow> db \<Rightarrow> bool" where
  "owns room user d = exists_row (\<lambda>r. rm_id r = room \<and> rm_owner r = user) (rooms d)"

definition role_ok :: "db \<Rightarrow> room_member \<Rightarrow> bool" where
  "role_ok d m \<longleftrightarrow> mb_deleted m = None \<longrightarrow>
     (mb_role m = AdminRole \<longrightarrow> administers (mb_room m) (mb_user m) d)
     \<and> (mb_role m = OwnerRole \<longrightarrow> owns (mb_room m) (mb_user m) d)"

definition roles_wf :: "db \<Rightarrow> bool" where
  "roles_wf d \<longleftrightarrow> members_wf d \<and> unique_on rm_id (rooms d)
     \<and> (\<forall>m \<in> set (room_members d). role_ok d m)"

definition roles_view where
  "roles_view d = (rooms d, room_members d, group_admins d)"

lemma roles_frame: "roles_view d' = roles_view d \<Longrightarrow> roles_wf d \<Longrightarrow> roles_wf d'"
  by (simp add: roles_view_def roles_wf_def role_ok_def administers_def owns_def members_wf_def
      unique_members_def room_exists_def)

lemma members_wf_upsert: "members_wf d \<Longrightarrow> upsert_member_conn now room u role d = Inr (m, d') \<Longrightarrow> members_wf d'"
  by (rule upsert_member_wf)

lemma upsert_rows:
  assumes "upsert_member_conn now room u role d = Inr (m, d')"
  shows "rooms d' = rooms d" "group_admins d' = group_admins d" "users d' = users d"
    "x \<in> set (room_members d') \<Longrightarrow>
      x \<in> set (room_members d) \<or> (mb_room x = room \<and> mb_user x = u \<and> mb_role x = role)"
  using assms
  by (auto simp: upsert_member_conn_def Let_def set_update_where split: option.splits if_splits)

lemma roles_upsert:
  assumes "roles_wf d" "upsert_member_conn now room u role d = Inr (m, d')"
    and "role = AdminRole \<Longrightarrow> administers room u d"
    and "role = OwnerRole \<Longrightarrow> owns room u d"
  shows "roles_wf d'"
proof -
  note rows = upsert_rows [OF assms(2)]
  have same: "administers r v d' = administers r v d" "owns r v d' = owns r v d" for r v
    by (simp_all add: administers_def owns_def rows(1,2))
  have "role_ok d' x" if "x \<in> set (room_members d')" for x
  proof (cases "x \<in> set (room_members d)")
    case True
    then show ?thesis using assms(1) by (simp add: roles_wf_def role_ok_def same)
  next
    case False
    with rows(4) [OF that] have x: "mb_room x = room" "mb_user x = u" "mb_role x = role" by auto
    show ?thesis using assms(3,4) by (simp add: role_ok_def same x)
  qed
  moreover have "members_wf d'" using assms(1,2) by (auto simp: roles_wf_def intro: upsert_member_wf)
  ultimately show ?thesis using assms(1) by (simp add: roles_wf_def rows(1))
qed

lemma roles_add_member:
  assumes "roles_wf d" "add_member now room u role d = Inr (m, d')" "role = None \<or> role = Some MemberRole"
  shows "roles_wf d'"
  using assms by (auto simp: add_member_def elim: roles_upsert)

lemma roles_set_role:
  assumes "roles_wf d"
    and "role = AdminRole \<Longrightarrow> administers room u d"
    and "role = OwnerRole \<Longrightarrow> owns room u d"
  shows "roles_wf (set_role room u role d)"
proof -
  have "role_ok (set_role room u role d) x" if "x \<in> set (room_members (set_role room u role d))" for x
  proof -
    from that obtain y where y: "y \<in> set (room_members d)"
      and x: "x = (if is_member room u y then y\<lparr>mb_role := role\<rparr> else y)"
      by (auto simp: room_members_set_role set_update_where)
    have same: "role_ok (set_role room u role d) z = role_ok d z" for z
      by (simp add: role_ok_def administers_def owns_def set_role_def)
    show ?thesis
    proof (cases "is_member room u y")
      case True
      then show ?thesis using assms(2,3)
        by (simp add: same x) (simp add: role_ok_def is_member_def)
    next
      case False
      then show ?thesis using y assms(1) by (simp add: same x roles_wf_def)
    qed
  qed
  moreover have "rooms (set_role room u role d) = rooms d" by (simp add: set_role_def)
  ultimately show ?thesis using assms(1) by (simp add: roles_wf_def)
qed

lemma role_ok_mono:
  "role_ok d m \<Longrightarrow> set (group_admins d) \<subseteq> set (group_admins d') \<Longrightarrow> set (rooms d) \<subseteq> set (rooms d') \<Longrightarrow> role_ok d' m"
  by (auto simp: role_ok_def administers_def owns_def)

text \<open>A row that leaves \<open>group_admins\<close> together with the role.\<close>

lemma roles_drop_admin:
  assumes "roles_wf d" "members_wf d'" "rooms d' = rooms d"
    and "group_admins d' = delete_where (same_admin room u) (group_admins d)"
    and "room_members d' = update_where (is_member room u) f (room_members d)"
    and "\<And>m. mb_deleted (f m) = None \<Longrightarrow> mb_role (f m) = MemberRole"
  shows "roles_wf d'"
proof -
  have "role_ok d' m" if "m \<in> set (room_members d')" for m
    using that unfolding assms(5)
  proof (cases rule: update_where_cases)
    case kept
    then have "role_ok d m" using assms(1) by (simp add: roles_wf_def)
    moreover have "mb_deleted m = None \<Longrightarrow> \<not> (mb_room m = room \<and> mb_user m = u)"
      using kept by (simp add: is_member_def)
    ultimately show ?thesis
      by (auto simp: role_ok_def administers_def owns_def assms(3,4) set_delete_where same_admin_def)
  next
    case (changed y)
    then show ?thesis using assms(6) [of y] by (auto simp: role_ok_def)
  qed
  then show ?thesis using assms(1-3) by (simp add: roles_wf_def)
qed

lemma roles_remove_member:
  assumes "roles_wf d" "remove_member now room u d = (b, d')"
  shows "roles_wf d'"
proof (cases "is_user_in_room room u d")
  case False
  then show ?thesis using assms by (simp add: remove_member_def)
next
  case True
  have rows: "room_members d' = update_where (is_member room u) (\<lambda>m. m\<lparr>mb_deleted := Some now\<rparr>) (room_members d)"
    "rooms d' = rooms d" "group_admins d' = delete_where (same_admin room u) (group_admins d)"
    using True assms(2) by (auto simp: remove_member_def Let_def same_admin_def [abs_def])
  have "members_wf d'" using assms by (auto simp: roles_wf_def intro: remove_member_wf)
  then show ?thesis by (rule roles_drop_admin [OF assms(1) _ rows(2,3,1)]) simp
qed

lemma roles_remove_admin:
  assumes "roles_wf d" "remove_admin room u d = (b, d')"
  shows "roles_wf d'"
proof (cases "rows_affected (same_admin room u) (group_admins d) = 0")
  case True
  then show ?thesis using assms by (simp add: remove_admin_def)
next
  case False
  let ?d1 = "d\<lparr>group_admins := delete_where (same_admin room u) (group_admins d)\<rparr>"
  have d': "d' = set_role room u MemberRole ?d1" using False assms(2) by (simp add: remove_admin_def)
  have rows: "room_members d' = update_where (is_member room u) (\<lambda>m. m\<lparr>mb_role := MemberRole\<rparr>) (room_members d)"
    "rooms d' = rooms d" "group_admins d' = delete_where (same_admin room u) (group_admins d)"
    by (simp_all add: d' set_role_def)
  have "members_wf ?d1"
    using assms(1) by (subst members_wf_rooms [of _ d]) (simp_all add: roles_wf_def)
  then have wf: "members_wf d'" unfolding d' by simp
  show ?thesis by (rule roles_drop_admin [OF assms(1) wf rows(2,3,1)]) simp
qed

lemma upsert_group_admin_rows:
  assumes "upsert_group_admin now room u by req d = Inr (a, d')"
  shows "room_members d' = room_members d" "rooms d' = rooms d" "users d' = users d"
    "administers r v d' \<longleftrightarrow> administers r v d \<or> (r = room \<and> v = u)"
proof -
  have f: "room_members d' = room_members d \<and> rooms d' = rooms d \<and> users d' = users d"
    using assms by (auto simp: upsert_group_admin_def Let_def split: option.splits if_splits)
  then show "room_members d' = room_members d" "rooms d' = rooms d" "users d' = users d" by auto
  show "administers r v d' \<longleftrightarrow> administers r v d \<or> (r = room \<and> v = u)"
  proof (cases "fetch_optional (same_admin room u) (group_admins d)")
    case None
    then show ?thesis using assms
      by (auto simp: upsert_group_admin_def Let_def administers_def same_admin_def split: if_splits)
  next
    case (Some b)
    then have b: "b \<in> set (group_admins d)" "same_admin room u b" by (auto dest: fetch_SomeD)
    obtain f where f: "\<And>x. ga_room (f x) = ga_room x" "\<And>x. ga_admin (f x) = ga_admin x"
      "group_admins d' = update_where (same_admin room u) f (group_admins d)"
    proof
      let ?f = "\<lambda>a. a\<lparr>ga_role := ap_role req, ga_permissions := ap_permissions req, ga_by := by, ga_appointed := now\<rparr>"
      show "group_admins d' = update_where (same_admin room u) ?f (group_admins d)"
        using assms Some by (auto simp: upsert_group_admin_def Let_def split: if_splits)
    qed simp_all
    have "administers r v d' \<longleftrightarrow> administers r v d"
      unfolding administers_def f(3) exists_update_where
      by (rule bex_cong [OF refl]) (simp add: same_admin_def f(1,2))
    then show ?thesis using b by (auto simp: administers_def)
  qed
qed

lemma roles_wf_admins:
  assumes "roles_wf d" "room_members d' = room_members d" "rooms d' = rooms d"
    and "\<And>r v. administers r v d \<Longrightarrow> administers r v d'"
  shows "roles_wf d'"
proof -
  have "members_wf d'" using assms(1-3) by (subst members_wf_rooms [of _ d]) (simp_all add: roles_wf_def)
  then show ?thesis using assms by (auto simp: roles_wf_def role_ok_def owns_def)
qed

lemma roles_appoint:
  assumes "roles_wf d" "appoint_admin parse now room by req d = Inr (a, d')"
  shows "roles_wf d'"
proof -
  from assms(2) obtain u where u: "parse (ap_user req) = Some u"
    and up: "upsert_group_admin now room u by req (set_role room u AdminRole d) = Inr (a, d')"
    by (auto simp: appoint_admin_def split: option.splits if_splits)
  note rows = upsert_group_admin_rows [OF up]
  let ?d0 = "d\<lparr>group_admins := group_admins d'\<rparr>"
  have admins: "administers r v (set_role room u AdminRole d) = administers r v d" for r v
    by (simp add: administers_def set_role_def)
  have "administers r v ?d0 = administers r v d'" for r v by (simp add: administers_def)
  then have more: "administers r v d \<Longrightarrow> administers r v ?d0" and adm: "administers room u ?d0" for r v
    using rows(4) admins by auto
  have "roles_wf ?d0" by (rule roles_wf_admins [OF assms(1) _ _ more]) simp_all
  then have "roles_wf (set_role room u AdminRole ?d0)" using adm by (rule roles_set_role) simp
  moreover have "roles_view d' = roles_view (set_role room u AdminRole ?d0)"
    by (simp add: roles_view_def rows(1,2)) (simp add: set_role_def)
  ultimately show ?thesis using roles_frame by blast
qed

lemma roles_upserts:
  "upsert_members now room owner us d = Inr d' \<Longrightarrow> roles_wf d \<Longrightarrow> roles_wf d'"
  by (induction now room owner us d rule: upsert_members.induct)
    (auto split: if_splits sum.splits prod.splits dest: roles_upsert)

lemma roles_create:
  assumes "roles_wf d" "create_room_with_members now new owner name ty ids d = Inr (r, d')"
  shows "roles_wf d'"
proof -
  let ?d0 = "d\<lparr>rooms := rooms d @ [r]\<rparr>"
  from assms(2) obtain m d1 where r: "rm_id r = new" "rm_owner r = owner"
    and fresh: "\<not> exists_row (\<lambda>r. rm_id r = new) (rooms d)"
    and up: "upsert_member_conn now new owner OwnerRole ?d0 = Inr (m, d1)"
    and ups: "upsert_members now new owner ids d1 = Inr d'"
    by (auto simp: create_room_with_members_def Let_def split: if_splits sum.splits)
  have "members_wf ?d0" using assms(1) by (intro members_wf_new_room) (simp add: roles_wf_def)
  moreover have "role_ok d m \<Longrightarrow> role_ok ?d0 m" for m by (erule role_ok_mono) auto
  ultimately have "roles_wf ?d0" using assms(1) fresh r(1) by (auto simp: roles_wf_def)
  then have "roles_wf d1" by (rule roles_upsert [OF _ up]) (auto simp: owns_def r)
  then show ?thesis by (rule roles_upserts [OF ups])
qed

lemma roles_dissolve:
  assumes "roles_wf d" "dissolve_room_rows now room operator d = (b, d')"
  shows "roles_wf d'"
proof (cases b)
  case True
  let ?live = "\<lambda>r. rm_id r = room \<and> rm_deleted r = None"
  let ?g = "\<lambda>r. r\<lparr>rm_deleted := Some now\<rparr>"
  from True assms(2)
  have rows: "rooms d' = update_where ?live ?g (rooms d)" "group_admins d' = group_admins d"
    "room_members d' = update_where (\<lambda>m. mb_room m = room \<and> mb_deleted m = None)
       (\<lambda>m. m\<lparr>mb_deleted := Some now\<rparr>) (room_members d)"
    by (auto simp: dissolve_room_rows_def Let_def split: option.splits if_splits)
  have owns: "owns x u d' \<longleftrightarrow> owns x u d" for x u
    unfolding owns_def rows(1) exists_update_where by (rule bex_cong [OF refl]) simp
  have ids: "map rm_id (rooms d') = map rm_id (rooms d)" unfolding rows(1) by (rule column_update_where) simp
  have "role_ok d' m" if "m \<in> set (room_members d')" for m
    using that unfolding rows(3)
  proof (cases rule: update_where_cases)
    case kept
    then show ?thesis using assms(1) by (auto simp: roles_wf_def role_ok_def owns administers_def rows(2))
  qed (simp add: role_ok_def)
  moreover have "members_wf d'" using assms by (auto simp: roles_wf_def intro: dissolve_room_effect(1))
  ultimately show ?thesis using assms(1) by (simp add: roles_wf_def ids)
next
  case False
  then have "d' = d" using assms(2) by (auto simp: dissolve_room_rows_def Let_def split: option.splits if_splits)
  with assms(1) show ?thesis by simp
qed

lemma owns_unique:
  assumes "roles_wf d" "owns room u d" "fetch_optional (\<lambda>r. rm_id r = room \<and> rm_deleted r = None) (rooms d) = Some r"
  shows "rm_owner r = u"
proof -
  from assms(2) obtain s where s: "s \<in> set (rooms d)" "rm_id s = room" "rm_owner s = u" by (auto simp: owns_def)
  from fetch_SomeD [OF assms(3)] have r: "r \<in> set (rooms d)" "rm_id r = room" by auto
  have "r = s" using fetch_key_eq [of rm_id "rooms d" r s] assms(1) r s by (simp add: roles_wf_def)
  with s show ?thesis by simp
qed

lemma roles_transfer:
  assumes "roles_wf d" "transfer_room_owner_rows room operator new d = Inr (r, d')"
  shows "roles_wf d'"
proof -
  let ?live = "\<lambda>r. rm_id r = room \<and> rm_deleted r = None"
  let ?g = "\<lambda>r. r\<lparr>rm_owner := new\<rparr>"
  let ?d1 = "set_role room operator MemberRole d" and ?d2 = "set_role room new OwnerRole (set_role room operator MemberRole d)"
  from assms(2) obtain r0 where r0: "fetch_optional ?live (rooms d) = Some r0" "rm_owner r0 = operator"
    and d': "d' = ?d2\<lparr>rooms := update_where ?live ?g (rooms ?d2)\<rparr>"
    by (auto simp: transfer_room_owner_rows_def Let_def split: option.splits if_splits)
  have rows: "rooms d' = update_where ?live ?g (rooms d)" "group_admins d' = group_admins d"
    "room_members d' = update_where (is_member room new) (\<lambda>m. m\<lparr>mb_role := OwnerRole\<rparr>) (room_members ?d1)"
    by (simp_all add: d' set_role_def)
  have ids: "map rm_id (rooms d') = map rm_id (rooms d)" unfolding rows(1) by (rule column_update_where) simp
  have other: "owns x u d' \<longleftrightarrow> owns x u d" if "x \<noteq> room" for x u
    unfolding owns_def rows(1) exists_update_where by (rule bex_cong [OF refl]) (use that in auto)
  have mine: "owns room new d'"
    unfolding owns_def rows(1) exists_update_where using fetch_SomeD [OF r0(1)] by (intro bexI [of _ r0]) auto
  have wf1: "roles_wf ?d1" using assms(1) by (rule roles_set_role) simp_all
  have "role_ok d' m" if "m \<in> set (room_members d')" for m
    using that unfolding rows(3)
  proof (cases rule: update_where_cases)
    case kept
    then have ok: "role_ok ?d1 m" using wf1 by (simp add: roles_wf_def)
    have adm: "administers x u d' = administers x u ?d1" for x u
      by (simp add: administers_def rows(2)) (simp add: set_role_def)
    show ?thesis
    proof (cases "mb_deleted m = None \<and> mb_role m = OwnerRole \<and> mb_room m = room")
      case True
      then have "owns room (mb_user m) ?d1" using ok by (simp add: role_ok_def)
      then have "mb_user m = operator"
        using owns_unique [OF wf1, of room "mb_user m" r0] r0 by (simp add: set_role_def)
      moreover have "mb_role m = MemberRole" if "mb_user m = operator"
        using kept(1) True that unfolding room_members_set_role
        by (cases rule: update_where_cases) (auto simp: is_member_def)
      ultimately show ?thesis using True by simp
    next
      case False
      have "owns x u ?d1 = owns x u d" for x u by (simp add: owns_def set_role_def)
      then show ?thesis using ok False other by (auto simp: role_ok_def adm)
    qed
  next
    case (changed y)
    then show ?thesis using mine by (simp add: role_ok_def is_member_def)
  qed
  moreover have "members_wf d'" using assms by (auto simp: roles_wf_def intro: transfer_effect(1))
  ultimately show ?thesis using assms(1) by (simp add: roles_wf_def ids)
qed

section \<open>Serving requests\<close>

datatype group_request =
    GetSettings
  | UpdateGlobalMute bool "string option" "int option"
  | UpdateSettings settings_update
  | CreateRule uuid create_rule_request
  | UpdateRule uuid update_rule_request
  | DeleteRule uuid
  | RequestJoin uuid "string option"
  | ReviewJoin uuid join_status "string option"
  | Invite "nat \<Rightarrow> uuid" "string list" "string option"
  | RespondInvitation uuid "string option"
  | AddMembers "string list"
  | RemoveMember uuid
  | AppointAdmin appoint_request
  | RemoveAdmin uuid
  | MuteUser mute_request
  | UnmuteUser uuid
  | CheckMessage
  | CreateRoom uuid create_room_payload
  | JoinRoom
  | LeaveRoom
  | DissolveRoom
  | TransferOwner string

text \<open>
  A request of the user \<open>sub\<close> about \<open>room\<close>; \<open>CheckMessage\<close> is what sending a message does first.
\<close>

fun serve ::
  "(string \<Rightarrow> uuid option) \<Rightarrow> instant \<Rightarrow> uuid option \<Rightarrow> uuid \<Rightarrow> group_request \<Rightarrow> db \<Rightarrow> db" where
  "serve parse now sub room GetSettings d = snd (get_group_settings_handler now sub room d)"
| "serve parse now sub room (UpdateGlobalMute enabled reason duration) d =
     snd (update_global_mute_handler now sub room enabled reason duration d)"
| "serve parse now sub room (UpdateSettings req) d = snd (update_group_settings_handler now sub room req d)"
| "serve parse now sub room (CreateRule new_id req) d = snd (create_rule_handler now new_id sub room req d)"
| "serve parse now sub room (UpdateRule rule req) d = snd (update_rule_handler now sub room rule req d)"
| "serve parse now sub room (DeleteRule rule) d = snd (delete_rule_handler now sub room rule d)"
| "serve parse now sub room (RequestJoin new_id text) d =
     snd (create_join_request_handler now new_id sub room text d)"
| "serve parse now sub room (ReviewJoin request status text) d =
     snd (review_join_request_handler now sub room request status text d)"
| "serve parse now sub room (Invite gen ids text) d =
     snd (create_invitations_handler parse gen now sub room ids text d)"
| "serve parse now sub room (RespondInvitation invitation field) d =
     snd (respond_to_invitation_handler now sub room invitation field d)"
| "serve parse now sub room (AddMembers ids) d = snd (add_group_members_handler parse now sub room ids d)"
| "serve parse now sub room (RemoveMember member) d = snd (remove_group_member_handler now sub room member d)"
| "serve parse now sub room (AppointAdmin req) d = snd (appoint_admin_handler parse now sub room req d)"
| "serve parse now sub room (RemoveAdmin admin) d = snd (remove_admin_handler now sub room admin d)"
| "serve parse now sub room (MuteUser req) d = snd (mute_user_handler parse now sub room req d)"
| "serve parse now sub room (UnmuteUser user) d = snd (unmute_user_handler now sub room user d)"
| "serve parse now sub room CheckMessage d =
     (case sub of None \<Rightarrow> d | Some user \<Rightarrow> snd (ensure_group_message_permissions now room user d))"
| "serve parse now sub room (CreateRoom new_id p) d = snd (create_room_handler parse now new_id sub p d)"
| "serve parse now sub room JoinRoom d = snd (join_room_handler now sub room d)"
| "serve parse now sub room LeaveRoom d = snd (leave_room_handler now sub room d)"
| "serve parse now sub room DissolveRoom d = snd (dissolve_room_handler now sub room d)"
| "serve parse now sub room (TransferOwner new_owner) d =
     snd (transfer_room_owner_handler parse now sub room new_owner d)"

type_synonym group_call = "instant \<times> uuid option \<times> uuid \<times> group_request"

fun serve_all :: "(string \<Rightarrow> uuid option) \<Rightarrow> group_call list \<Rightarrow> db \<Rightarrow> db" where
  "serve_all parse [] d = d"
| "serve_all parse ((now, sub, room, req) # cs) d = serve_all parse cs (serve parse now sub room req d)"

section \<open>What a request keeps\<close>

lemma keeps_tx [intro]: "(\<And>s a s'. I s \<Longrightarrow> f s = Inr (a, s') \<Longrightarrow> I s') \<Longrightarrow> keeps I (tx f)"
  unfolding tx_def by (rule keeps_atomically) simp

lemma keeps_several [intro]: "(\<And>s a s'. I s \<Longrightarrow> f s = (a, s') \<Longrightarrow> I s') \<Longrightarrow> keeps I (several f)"
  by (auto simp: keeps_def several_def split: prod.splits)

lemma keeps_total [intro]: "(\<And>s a s'. I s \<Longrightarrow> f s = (a, s') \<Longrightarrow> I s') \<Longrightarrow> keeps I (total f)"
  by (auto simp: keeps_def total_def split: prod.splits)

lemma keeps_if [intro]: "(c \<Longrightarrow> keeps I f) \<Longrightarrow> (\<not> c \<Longrightarrow> keeps I g) \<Longrightarrow> keeps I (if c then f else g)"
  by simp

lemma keeps_option [intro]:
  "(x = None \<Longrightarrow> keeps I f) \<Longrightarrow> (\<And>a. x = Some a \<Longrightarrow> keeps I (g a)) \<Longrightarrow> keeps I (case x of None \<Rightarrow> f | Some a \<Rightarrow> g a)"
  by (cases x) auto

lemma keeps_prod [intro]: "(\<And>a b. p = (a, b) \<Longrightarrow> keeps I (f a b)) \<Longrightarrow> keeps I (case p of (a, b) \<Rightarrow> f a b)"
  by (cases p) simp

text \<open>
  The tables that decide who is in a room and with which role, and those of the encryption
  service.  Most statements touch neither.
\<close>

definition core_view where
  "core_view d = (roles_view d, e2ee_view d)"

lemmas core_simps = core_view_def roles_view_def e2ee_view_def

lemma settings_frame:
  "update_settings_row room f d = Inr (s, d') \<Longrightarrow> core_view d' = core_view d"
  "clear_global_mute room d = Inr (s, d') \<Longrightarrow> core_view d' = core_view d"
  "get_group_settings now room d = Inr (r, d') \<Longrightarrow> core_view d' = core_view d"
  "ensure_group_settings_row room d = Inr (u, d') \<Longrightarrow> core_view d' = core_view d"
  "get_or_create_group_settings room d = Inr (s, d') \<Longrightarrow> core_view d' = core_view d"
  by (auto simp: update_settings_row_def clear_global_mute_def get_group_settings_def
      ensure_group_settings_row_def get_or_create_group_settings_def core_simps
      split: option.splits if_splits sum.splits prod.splits)

lemma update_group_settings_frame: "update_group_settings room req d = (r, d') \<Longrightarrow> core_view d' = core_view d"
  by (auto simp: update_group_settings_def split: sum.splits prod.splits dest!: settings_frame)

lemma set_global_mute_frame:
  "set_global_mute_state now room by enabled reason m d = (r, d') \<Longrightarrow> core_view d' = core_view d"
  by (auto simp: set_global_mute_state_def Let_def split: sum.splits prod.splits if_splits dest!: settings_frame)

lemma rule_frame:
  "create_rule now new_id room user req d = Inr (r, d') \<Longrightarrow> core_view d' = core_view d"
  "update_rule rule ureq d = Inr (ro, d') \<Longrightarrow> core_view d' = core_view d"
  "delete_rule rule d = (b, d') \<Longrightarrow> core_view d' = core_view d"
  by (auto simp: create_rule_def update_rule_def delete_rule_def Let_def core_simps
      split: option.splits if_splits)

lemma join_frame:
  "create_join_request now new_id room user text d = Inr (r, d') \<Longrightarrow> core_view d' = core_view d"
  "review_join_request now request user status text d = Inr (ro, d') \<Longrightarrow> core_view d' = core_view d"
  by (auto simp: create_join_request_def review_join_request_def Let_def core_simps
      split: option.splits if_splits)

lemma upsert_invitation_frame:
  "upsert_invitation now expires new_id room inviter invitee text d = Inr (i, d') \<Longrightarrow> core_view d' = core_view d"
  by (auto simp: upsert_invitation_def Let_def core_simps split: option.splits if_splits)

lemma insert_invitations_frame:
  "insert_invitations gen now expires room inviter msg us d = (r, d') \<Longrightarrow> core_view d' = core_view d"
proof (induction gen now expires room inviter msg us d arbitrary: r d' rule: insert_invitations.induct)
  case (3 gen now expires room inviter msg u us d)
  then show ?case
    by (fastforce split: sum.splits prod.splits dest: upsert_invitation_frame)
qed simp_all

lemma invitation_frame:
  "create_invitations gen now room inviter text us d = (r, d') \<Longrightarrow> core_view d' = core_view d"
  "respond_to_invitation now invitation status d = (found, d') \<Longrightarrow> core_view d' = core_view d"
  by (auto simp: create_invitations_def respond_to_invitation_def Let_def core_simps
      dest: insert_invitations_frame [unfolded core_simps])

lemma mute_frame:
  "mute_user parse now room by req d = Inr (m, d') \<Longrightarrow> core_view d' = core_view d"
  "unmute_user now room user d = (b, d') \<Longrightarrow> core_view d' = core_view d"
  "find_active_mute now room user d = (found, d') \<Longrightarrow> core_view d' = core_view d"
  by (auto simp: mute_user_def unmute_user_def find_active_mute_def Let_def core_simps
      split: option.splits if_splits)

lemma log_frame: "core_view (snd (logged now room operator target kind d)) = core_view d"
  by (auto simp: logged_def log_operation_def Let_def core_simps split: sum.splits if_splits)

text \<open>
  The interface of the steps: an invariant \<open>I\<close> that every step keeps at the times \<open>clock\<close> allows,
  where the steps that change the mute of a member of a room ask for \<open>may\<close>.  Then every request
  keeps it.
\<close>

fun harmless ::
  "(string \<Rightarrow> uuid option) \<Rightarrow> (uuid \<Rightarrow> uuid \<Rightarrow> bool) \<Rightarrow> uuid option \<Rightarrow> uuid \<Rightarrow> group_request \<Rightarrow> bool" where
  "harmless parse may sub room (RemoveMember v) = may room v"
| "harmless parse may sub room (MuteUser req) = (\<forall>v. parse (mr_user req) = Some v \<longrightarrow> may room v)"
| "harmless parse may sub room (UnmuteUser v) = may room v"
| "harmless parse may sub room LeaveRoom = (\<forall>u. sub = Some u \<longrightarrow> may room u)"
| "harmless parse may sub room _ = True"

locale group_service =
  fixes I :: "db \<Rightarrow> bool" and parse :: "string \<Rightarrow> uuid option"
    and clock :: "instant \<Rightarrow> bool" and may :: "uuid \<Rightarrow> uuid \<Rightarrow> bool"
  assumes log: "keeps I (logged now room operator target kind)"
    and settings:
      "keeps I (tx (get_group_settings now room))" "keeps I (tx (ensure_group_settings_row room))"
      "keeps I (tx (get_or_create_group_settings room))" "keeps I (settings_or_not_found room)"
      "keeps I (several (update_group_settings room req))"
      "keeps I (several (set_global_mute_state now room user enabled reason m))"
      "keeps I (tx (create_rule now new_id room user creq))" "keeps I (tx (update_rule rule ureq))"
      "keeps I (total (delete_rule rule))"
    and requests:
      "keeps I (tx (create_join_request now new_id room user msg))"
      "keeps I (tx (review_join_request now request user status msg))"
      "keeps I (several (create_invitations gen now room user msg us))"
      "keeps I (total (respond_to_invitation now invitation reply))"
    and mutes:
      "(\<And>v. parse (mr_user mreq) = Some v \<Longrightarrow> may room v) \<Longrightarrow> keeps I (tx (mute_user parse now room user mreq))"
      "may room user \<Longrightarrow> keeps I (total (unmute_user now room user))"
      "clock now \<Longrightarrow> keeps I (total (find_active_mute now room user))"
    and members:
      "role = None \<or> role = Some MemberRole \<Longrightarrow> keeps I (tx (add_member now room u role))"
      "may room u \<Longrightarrow> keeps I (total (remove_member now room u))"
      "keeps I (tx (create_room_with_members now new owner name ty ids))"
      "keeps I (total (dissolve_room_rows now room u))"
      "keeps I (tx (appoint_admin parse now room u areq))" "keeps I (total (remove_admin room u))"
      "keeps I (atomically (\<lambda>d. case transfer_room_owner_rows room u v d of
         Inl e \<Rightarrow> Inl (transfer_error e) | Inr x \<Rightarrow> Inr x))"
begin

lemma targets: "keeps I (add_targets now room us)"
  by (induction us) (auto intro!: keeps_answer keeps_query keeps_if keeps_run_then keeps_prod members)

lemma joinable: "keeps I (check_joinable room user r)"
  by (auto simp: check_joinable_def split: room_type.split
      intro!: keeps_answer keeps_run_then keeps_query keeps_with_value settings)

lemmas parts = log settings requests mutes members targets joinable

lemmas keeps_rules = keeps_answer keeps_run_then keeps_query keeps_with_value keeps_if keeps_option

lemma settings_handlers:
  "clock now \<Longrightarrow> keeps I (get_group_settings_handler now sub room)"
  "keeps I (update_global_mute_handler now sub room enabled reason m)"
  "keeps I (update_group_settings_handler now sub room sreq)"
  "keeps I (create_rule_handler now new_id sub room creq)"
  "keeps I (update_rule_handler now sub room rule ureq)"
  "keeps I (delete_rule_handler now sub room rule)"
  unfolding get_group_settings_handler_def
    update_global_mute_handler_def
    update_group_settings_handler_def
    create_rule_handler_def
    update_rule_handler_def
    delete_rule_handler_def Let_def
  by ((intro keeps_rules parts; (simp add: claims_user_id_def split: option.splits)?)+)

lemma request_handlers:
  "keeps I (create_join_request_handler now new_id sub room msg)"
  "keeps I (review_join_request_handler now sub room request status msg)"
  "keeps I (create_invitations_handler parse gen now sub room ids msg)"
  "keeps I (respond_to_invitation_handler now sub room invitation field)"
  unfolding create_join_request_handler_def
    review_join_request_handler_def
    create_invitations_handler_def
    respond_to_invitation_handler_def Let_def
  by ((intro keeps_rules parts; (simp add: claims_user_id_def split: option.splits)?)+)

lemma member_handlers:
  "keeps I (add_group_members_handler parse now sub room ids)"
  "may room member \<Longrightarrow> keeps I (remove_group_member_handler now sub room member)"
  "keeps I (appoint_admin_handler parse now sub room areq)"
  "keeps I (remove_admin_handler now sub room admin)"
  "(\<And>v. parse (mr_user mreq) = Some v \<Longrightarrow> may room v) \<Longrightarrow> keeps I (mute_user_handler parse now sub room mreq)"
  "may room muted \<Longrightarrow> keeps I (unmute_user_handler now sub room muted)"
  "clock now \<Longrightarrow> keeps I (ensure_group_message_permissions now room user)"
  unfolding add_group_members_handler_def
    remove_group_member_handler_def
    appoint_admin_handler_def
    remove_admin_handler_def
    mute_user_handler_def
    unmute_user_handler_def
    ensure_group_message_permissions_def Let_def
  by ((intro keeps_rules parts; (simp add: claims_user_id_def split: option.splits)?)+)

lemma room_handlers:
  "keeps I (create_room_handler parse now new_id sub payload)"
  "keeps I (join_room_handler now sub room)"
  "(\<And>u. sub = Some u \<Longrightarrow> may room u) \<Longrightarrow> keeps I (leave_room_handler now sub room)"
  "keeps I (dissolve_room_handler now sub room)"
  "keeps I (transfer_room_owner_handler parse now sub room new_owner)"
  unfolding create_room_handler_def
    join_room_handler_def
    leave_room_handler_def
    dissolve_room_handler_def
    transfer_room_owner_handler_def Let_def
  by ((intro keeps_rules parts; (simp add: claims_user_id_def split: option.splits)?)+)

lemma serve_keeps:
  "clock now \<Longrightarrow> harmless parse may sub room req \<Longrightarrow> I d \<Longrightarrow> I (serve parse now sub room req d)"
  by (cases req; cases sub)
    (auto intro: keepsD settings_handlers request_handlers member_handlers room_handlers)

lemma serve_all_keeps:
  "\<forall>(t, sub, room, req) \<in> set cs. clock t \<and> harmless parse may sub room req \<Longrightarrow>
   I d \<Longrightarrow> I (serve_all parse cs d)"
  by (induction cs arbitrary: d) (auto simp: serve_keeps)

end

text \<open>
  The interface: an invariant that looks only at the core tables and that each of the seven store
  operations on members and roles keeps, whoever is muted and whatever the time.
\<close>

locale group_closed =
  fixes I :: "db \<Rightarrow> bool"
  assumes frame: "core_view d' = core_view d \<Longrightarrow> I d \<Longrightarrow> I d'"
    and add: "I d \<Longrightarrow> add_member now room u role d = Inr (m, d') \<Longrightarrow>
      role = None \<or> role = Some MemberRole \<Longrightarrow> I d'"
    and remove: "I d \<Longrightarrow> remove_member now room u d = (b, d') \<Longrightarrow> I d'"
    and create: "I d \<Longrightarrow> create_room_with_members now new owner name ty ids d = Inr (r, d') \<Longrightarrow> I d'"
    and dissolve: "I d \<Longrightarrow> dissolve_room_rows now room u d = (b, d') \<Longrightarrow> I d'"
    and transfer: "I d \<Longrightarrow> transfer_room_owner_rows room u v d = Inr (r, d') \<Longrightarrow> I d'"
    and appoint: "I d \<Longrightarrow> appoint_admin parse now room u req d = Inr (a, d') \<Longrightarrow> I d'"
    and unappoint: "I d \<Longrightarrow> remove_admin room u d = (b, d') \<Longrightarrow> I d'"
begin

lemma log: "keeps I (logged now room operator target kind)"
  unfolding keeps_def using frame [OF log_frame] by blast

lemma settings:
  "keeps I (tx (get_group_settings now room))" "keeps I (tx (ensure_group_settings_row room))"
  "keeps I (tx (get_or_create_group_settings room))" "keeps I (settings_or_not_found room)"
  "keeps I (several (update_group_settings room req))"
  "keeps I (several (set_global_mute_state now room user enabled reason m))"
  "keeps I (tx (create_rule now new_id room user creq))" "keeps I (tx (update_rule rule ureq))"
  "keeps I (total (delete_rule rule))"
proof -
  show "keeps I (settings_or_not_found room)"
    by (auto simp: keeps_def settings_or_not_found_def split: sum.splits prod.splits
        dest: frame [OF settings_frame(5)])
qed (blast intro: frame settings_frame update_group_settings_frame set_global_mute_frame rule_frame)+

lemma requests:
  "keeps I (tx (create_join_request now new_id room user msg))"
  "keeps I (tx (review_join_request now request user status msg))"
  "keeps I (several (create_invitations gen now room user msg us))"
  "keeps I (total (respond_to_invitation now invitation reply))"
  "keeps I (tx (mute_user parse now room user req))"
  "keeps I (total (unmute_user now room user))" "keeps I (total (find_active_mute now room user))"
  by (blast intro: frame join_frame invitation_frame mute_frame)+

lemma members:
  "role = None \<or> role = Some MemberRole \<Longrightarrow> keeps I (tx (add_member now room u role))"
  "keeps I (total (remove_member now room u))"
  "keeps I (tx (create_room_with_members now new owner name ty ids))"
  "keeps I (total (dissolve_room_rows now room u))"
  "keeps I (tx (appoint_admin parse now room u req))" "keeps I (total (remove_admin room u))"
  by (blast intro: add remove create dissolve appoint unappoint)+

lemma transferring: "keeps I (atomically (\<lambda>d. case transfer_room_owner_rows room u v d of
    Inl e \<Rightarrow> Inl (transfer_error e) | Inr x \<Rightarrow> Inr x))"
  by (rule keeps_atomically) (auto split: sum.splits intro: transfer)

end

sublocale group_closed < service: group_service I p "\<lambda>_. True" "\<lambda>_ _. True" for p
  by unfold_locales (intro log settings requests members transferring; simp)+

context group_closed begin

lemma serve_keeps: "I d \<Longrightarrow> I (serve p now sub room req d)"
  by (rule service.serve_keeps) (cases req; simp)+

lemma serve_all_keeps: "I d \<Longrightarrow> I (serve_all p cs d)"
  by (induction p cs d rule: serve_all.induct) (simp_all add: serve_keeps)

end

interpretation roles: group_closed roles_wf
proof
  show "roles_wf d'" if "core_view d' = core_view d" "roles_wf d" for d d'
    using that roles_frame by (auto simp: core_view_def)
qed (blast intro: roles_add_member roles_remove_member roles_create roles_dissolve roles_transfer
    roles_appoint roles_remove_admin)+

text \<open>What the trigger keeps of the encryption tables, the group requests keep.\<close>

lemma e2ee_view_set_role [simp]: "e2ee_view (set_role room u role d) = e2ee_view d"
  by (simp add: e2ee_view_def set_role_def)

lemma e2ee_view_appoint: "appoint_admin parse now room u req d = Inr (a, d') \<Longrightarrow> e2ee_view d = e2ee_view d'"
  by (auto simp: appoint_admin_def upsert_group_admin_def Let_def e2ee_view_def set_role_def
      split: option.splits if_splits)

lemma e2ee_view_remove_admin: "remove_admin room u d = (b, d') \<Longrightarrow> e2ee_view d = e2ee_view d'"
  by (auto simp: remove_admin_def e2ee_view_def set_role_def split: if_splits)

sublocale bump_closed < groups: group_closed I
proof
  show "I d'" if "core_view d' = core_view d" "I d" for d d'
    using that frame [of d d'] by (simp add: core_view_def)
  show "I d'" if "I d" "add_member now room u role d = Inr (m, d')" for now room u role d m d'
    using that by (auto simp: add_member_def intro: upsert)
  show "I d'" if "I d" "appoint_admin parse now room u req d = Inr (a, d')" for parse now room u req d a d'
    using that frame e2ee_view_appoint by blast
  show "I d'" if "I d" "remove_admin room u d = (b, d')" for room u d b d'
    using that frame e2ee_view_remove_admin by blast
qed (blast intro: remove create dissolve transfer)+

end
