(* ===== verification/GroupProperties.thy ===== *)
theory GroupProperties
  imports GroupRoles
begin

text \<open>
  The properties of the group service: who may manage a group, how long a mute lasts, how large
  a group gets, who may be removed, who gets in, and two ways around the rules that the handlers
  leave open.
\<close>

section \<open>Roles\<close>

lemma roles_wf_start: "roles_wf (empty_db\<lparr>users := us\<rparr>)"
  by (simp add: roles_wf_def members_wf_start) (simp add: empty_db_def)





text \<open>
  Names that are the decimal digit of an id, for concrete runs, and a group of users 1, 2 and 3
  in which the owner appoints 2.
\<close>

definition digit_id :: "string \<Rightarrow> uuid option" where
  "digit_id s = (case s of [c] \<Rightarrow> map_option of_int (digit_value c) | _ \<Rightarrow> None)"

lemma plain_digits: "c \<in> set ''123456789g'' \<Longrightarrow> trim [c] = [c]"
  by (rule trim_plain) (auto simp: plain_char_def)

definition small_group :: db where
  "small_group = serve digit_id 1 (Some 1) 9
     (CreateRoom 9 \<lparr>crp_name = ''g'', crp_type = None, crp_members = [''2'', ''3'']\<rparr>)
     (empty_db\<lparr>users := [1, 2, 3, 4]\<rparr>)"

lemma small_group_eq:
  "small_group = empty_db
     \<lparr>users := [1, 2, 3, 4],
      rooms := [\<lparr>rm_id = 9, rm_name = ''g'', rm_type = GroupRoom, rm_owner = 1, rm_created = 1, rm_deleted = None\<rparr>],
      room_members := map (\<lambda>(u, r). \<lparr>mb_room = 9, mb_user = u, mb_role = r, mb_joined = 1, mb_deleted = None\<rparr>)
        [(1, OwnerRole), (2, MemberRole), (3, MemberRole)],
      room_epochs := [\<lparr>ep_room = 9, ep_revision = 3, ep_active = 0, ep_status = Preparing, ep_updated = 1\<rparr>]\<rparr>"
  (is "_ = ?d")
proof -
  let ?r = "create_room_with_members 1 9 1 ''g'' (Some GroupRoom) [2, 3] (empty_db\<lparr>users := [1, 2, 3, 4]\<rparr>)"
  have "map_sum id snd ?r = Inr ?d" by code_simp
  then obtain x where "?r = Inr (x, ?d)" by (cases ?r) auto
  then show ?thesis
    by (simp add: small_group_def create_room_handler_def plain_digits digit_id_def digit_value_def
        coalesce_def tx_def atomically_def claims_user_id_def require_def)
qed

lemma small_group_wf: "roles_wf small_group"
  unfolding small_group_def by (rule roles.serve_keeps [OF roles_wf_start])



text \<open>What depends on the core tables only.\<close>

lemma core_fields:
  assumes "core_view d' = core_view d"
  shows "rooms d' = rooms d" "room_members d' = room_members d" "group_admins d' = group_admins d"
  using assms by (simp_all add: core_simps)

lemma core_same:
  assumes "core_view d' = core_view d"
  shows "get_member room u d' = get_member room u d" "get_room room d' = get_room room d"
    "is_group_admin room u d' = is_group_admin room u d"
    "is_group_owner room u d' = is_group_owner room u d"
    "can_manage_group room u d' = can_manage_group room u d"
    "is_user_in_room room u d' = is_user_in_room room u d"
    "active_members room d' = active_members room d"
    "count_active_members room d' = count_active_members room d"
    "members_wf d' = members_wf d" "room_exists room d' = room_exists room d"
proof -
  note f = core_fields [OF assms]
  show adm: "is_group_admin room u d' = is_group_admin room u d" by (simp add: is_group_admin_def f)
  show own: "is_group_owner room u d' = is_group_owner room u d" by (simp add: is_group_owner_def f)
  show "can_manage_group room u d' = can_manage_group room u d"
    unfolding can_manage_group_def own adm ..
qed (simp_all add: core_fields [OF assms] get_member_def get_room_def is_user_in_room_def
    active_members_def count_active_members_def members_wf_def unique_members_def room_exists_def)

lemma loggedD: "logged now room operator target kind d = (r, d') \<Longrightarrow> r = Inr () \<and> core_view d' = core_view d"
  using log_frame [of now room operator target kind d]
  by (auto simp: logged_def split: sum.splits prod.splits)

lemma transfer_handlerD:
  assumes "transfer_room_owner_handler parse now (Some a) room name d = (Inr x, d')" "parse (trim name) = Some b"
  obtains r d1 where "a \<noteq> b" "transfer_room_owner_rows room a b d = Inr (r, d1)" "core_view d' = core_view d1"
  using assms
  by (auto simp: transfer_room_owner_handler_def with_value_Inr query_Inr run_then_Inr split: sum.splits
      dest!: loggedD)

text \<open>
  An administrator who was made the owner and then hands the group on is an ordinary member by
  the role, yet still passes every check for managing the group: no transfer takes away the row
  that the appointment left.
\<close>

lemma former_owner_keeps_control:
  assumes "roles_wf d" "is_group_admin room b d" "parse (trim nb) = Some b" "parse (trim nc) = Some c"
    and "transfer_room_owner_handler parse t1 (Some a) room nb d = (Inr x1, d1)"
    and "transfer_room_owner_handler parse t2 (Some b) room nc d1 = (Inr x2, d2)"
  shows "map_option mb_role (get_member room b d2) = Some MemberRole
    \<and> can_manage_group room b d2 = Inr True \<and> is_group_owner room b d2 = Inr False"
proof -
  obtain r1 e1 where 1: "a \<noteq> b" "transfer_room_owner_rows room a b d = Inr (r1, e1)" "core_view d1 = core_view e1"
    using transfer_handlerD [OF assms(5,3)] .
  obtain r2 e2 where 2: "b \<noteq> c" "transfer_room_owner_rows room b c d1 = Inr (r2, e2)" "core_view d2 = core_view e2"
    using transfer_handlerD [OF assms(6,4)] .
  have wf1: "members_wf d1" using transfer_effect(1) [OF _ 1(2)] assms(1) core_same(9) [OF 1(3)] by (simp add: roles_wf_def)
  have "is_user_in_room room b d1"
    using transfer_effect(4) [OF _ 1(2)] assms(1) core_same(1) [OF 1(3)] by (auto simp: roles_wf_def is_user_in_room_get)
  then obtain m where m: "get_member room b e2 = Some m"
    using transfer_effect(6) [OF wf1 2(2), of room b] by (auto simp: is_user_in_room_get)
  have role: "mb_role m = MemberRole" by (rule transfer_effect(5) [OF wf1 2(2) 2(1) m])
  have adm: "is_group_admin room b d2 = is_group_admin room b d"
    using 1(2) 2(2) core_same(3) [OF 1(3)] core_same(3) [OF 2(3)]
    by (auto simp: transfer_room_owner_rows_def Let_def set_role_def is_group_admin_def
        split: option.splits if_splits)
  have "is_group_owner room b e2 = Inr False"
    using transfer_effect(2,3) [OF wf1 2(2)] 2(1) by (simp add: is_group_owner_def)
  then have own: "is_group_owner room b d2 = Inr False" by (simp add: core_same(4) [OF 2(3)])
  then show ?thesis using adm assms(2) m role
    by (simp add: can_manage_group_def core_same(1) [OF 2(3)])
qed

definition appointed :: db where
  "appointed = serve digit_id 2 (Some 1) 9
     (AppointAdmin \<lparr>ap_user = ''2'', ap_role = ''admin'', ap_permissions = None\<rparr>) small_group"

lemma appointed_wf: "roles_wf appointed"
  unfolding appointed_def by (rule roles.serve_keeps [OF small_group_wf])

section \<open>The way in\<close>

definition approval_required :: "uuid \<Rightarrow> db \<Rightarrow> bool" where
  "approval_required room d = gset_join_approval (coalesce (settings_row room d) (default_group_settings room))"

lemma get_or_create_settings:
  assumes "get_or_create_group_settings room d = Inr (s, d')"
  shows "s = coalesce (settings_row room d) (default_group_settings room)"
    and "core_view d' = core_view d" and "join_requests d' = join_requests d" and "users d' = users d"
  using assms settings_frame(5) [OF assms]
  by (auto simp: get_or_create_group_settings_def coalesce_def split: option.splits if_splits)

lemma get_or_create_defined:
  "room_exists room d \<Longrightarrow> \<exists>s d'. get_or_create_group_settings room d = Inr (s, d')"
  by (auto simp: get_or_create_group_settings_def split: option.splits)

lemma get_room_exists: "get_room room d = Inr r \<Longrightarrow> room_exists room d"
  by (auto simp: get_room_def room_exists_def split: option.splits dest!: fetch_SomeD)

lemma live_room_Inr [simp]: "live_room room d = Inr r \<longleftrightarrow> get_room room d = Inr r"
  by (auto simp: live_room_def split: sum.splits)

lemma add_member_defined:
  assumes "room_exists room d" "u \<in> set (users d)"
  shows "\<exists>m d'. add_member now room u role d = Inr (m, d')"
  using assms by (auto simp: add_member_def upsert_member_conn_def Let_def room_exists_def split: option.splits)

definition may_join :: "uuid \<Rightarrow> uuid \<Rightarrow> room \<Rightarrow> db \<Rightarrow> bool" where
  "may_join room u r d \<longleftrightarrow> rm_type r = PublicRoom
     \<or> (rm_type r = GroupRoom \<and> (approval_required room d \<longrightarrow> has_approved_join_request room u d))"

lemma check_joinable_iff:
  assumes "get_room room d = Inr r"
  shows "(\<exists>d'. check_joinable room u r d = (Inr (), d')) \<longleftrightarrow> may_join room u r d"
    and "check_joinable room u r d = (x, d') \<Longrightarrow> core_view d' = core_view d \<and> users d' = users d"
proof -
  obtain s d1 where g: "get_or_create_group_settings room d = Inr (s, d1)"
    using get_or_create_defined [OF get_room_exists [OF assms]] by blast
  note gs = get_or_create_settings [OF g]
  have app: "gset_join_approval s = approval_required room d" by (simp add: approval_required_def gs(1))
  have has: "has_approved_join_request room u d1 = has_approved_join_request room u d"
    by (simp add: has_approved_join_request_def gs(3))
  show "(\<exists>d'. check_joinable room u r d = (Inr (), d')) \<longleftrightarrow> may_join room u r d"
    by (cases "rm_type r")
      (simp_all add: check_joinable_def may_join_def run_then_def tx_def atomically_def g app has query_def
        with_value_def require_def answer_def)
  show "check_joinable room u r d = (x, d') \<Longrightarrow> core_view d' = core_view d \<and> users d' = users d"
    using gs by (cases "rm_type r")
      (auto simp: check_joinable_def run_then_def tx_def atomically_def g query_def
        with_value_def require_def answer_def split: if_splits)
qed

lemma join_room_handler_split:
  "join_room_handler now (Some u) room d =
     (if is_user_in_room room u d then (Inr (), d)
      else case get_room room d of
        Inl _ \<Rightarrow> (Inl (NotFound ''Room not found''), d)
      | Inr r \<Rightarrow> run_then (check_joinable room u r)
          (\<lambda>_. run_then (tx (add_member now room u (Some MemberRole))) (\<lambda>_. answer ())) d)"
  by (simp add: join_room_handler_def claims_user_id_def query_def answer_def live_room_def
      with_value_def split: sum.split)

text \<open>
  A user who is not in a room gets in through the join request exactly when the room is live
  and public, or a live group that asks for no approval or has approved the user; then the user is
  an active member, and otherwise nobody's membership changes.
\<close>

lemma join_room_iff:
  assumes "members_wf d" "u \<in> set (users d)" "\<not> is_user_in_room room u d"
    and "join_room_handler now (Some u) room d = (x, d')"
  shows "(x = Inr () \<longleftrightarrow> (\<exists>r. get_room room d = Inr r \<and> may_join room u r d))
    \<and> (x = Inr () \<longrightarrow> active_members room d' = insert u (active_members room d))
    \<and> (x \<noteq> Inr () \<longrightarrow> core_view d' = core_view d)"
proof (cases "get_room room d")
  case (Inl e)
  then show ?thesis using assms(3,4) by (auto simp: join_room_handler_split)
next
  case (Inr r)
  obtain y d1 where c: "check_joinable room u r d = (y, d1)" by fastforce
  note same = check_joinable_iff(2) [OF Inr c]
  have iff: "y = Inr () \<longleftrightarrow> may_join room u r d" using check_joinable_iff(1) [OF Inr, of u] c by auto
  show ?thesis
  proof (cases y)
    case (Inl e)
    then show ?thesis using assms(3,4) iff Inr same by (simp add: join_room_handler_split c run_then_def) auto
  next
    case y: (Inr v)
    have "room_exists room d1" using get_room_exists [OF Inr] same core_same(10) by blast
    then obtain m d2 where a: "add_member now room u (Some MemberRole) d1 = Inr (m, d2)"
      using add_member_defined assms(2) same by metis
    have "x = Inr () \<and> d' = d2" using assms(3,4) Inr c y a
      by (auto simp: join_room_handler_split run_then_def tx_def atomically_def answer_def)
    moreover have "members_wf d1" using assms(1) same core_same(9) by blast
    then have "active_members room d2 = insert u (active_members room d1)"
      using active_members_upsert [OF _ a [unfolded add_member_def], of room] by simp
    moreover have "active_members room d1 = active_members room d" using same core_same(7) by blast
    ultimately show ?thesis using iff y Inr by auto
  qed
qed

lemma review_by_manager:
  assumes "is_group_owner own u d = Inr True" "u \<in> set (users d)"
    and "q \<in> set (join_requests d)" "jr_id q = i" "jr_status q = JoinPending"
  shows "\<exists>d'. core_view (serve parse now (Some u) own (ReviewJoin i JoinApproved msg) d) = core_view d
    \<and> users (serve parse now (Some u) own (ReviewJoin i JoinApproved msg) d) = users d
    \<and> join_requests (serve parse now (Some u) own (ReviewJoin i JoinApproved msg) d)
      = update_where (\<lambda>q. jr_id q = i \<and> jr_status q = JoinPending) (reviewed_request now u JoinApproved msg) (join_requests d)"
proof -
  let ?row = "\<lambda>q. jr_id q = i \<and> jr_status q = JoinPending"
  have "exists_row ?row (join_requests d)" using assms(3-5) by auto
  from fetch_exists [OF this] obtain p where p: "fetch_optional ?row (join_requests d) = Some p" ..
  let ?d1 = "d\<lparr>join_requests := update_where ?row (reviewed_request now u JoinApproved msg) (join_requests d)\<rparr>"
  have r: "review_join_request now i u JoinApproved msg d = Inr (Some (reviewed_request now u JoinApproved msg p), ?d1)"
    by (simp add: review_join_request_def p assms(2))
  obtain x d2 where l: "logged now own u (Some (jr_applicant (reviewed_request now u JoinApproved msg p))) ''review_join_request'' ?d1 = (x, d2)"
    by fastforce
  note c = loggedD [OF l]
  have "join_requests d2 = join_requests ?d1" "users d2 = users ?d1"
    using l by (auto simp: logged_def log_operation_def Let_def split: if_splits)
  moreover have "serve parse now (Some u) own (ReviewJoin i JoinApproved msg) d = d2"
    using c l by (simp add: review_join_request_handler_def claims_user_id_def query_def require_manager_def
        can_manage_group_def assms(1) require_def run_then_def tx_def atomically_def r answer_def)
  moreover have "core_view ?d1 = core_view d" by (simp add: core_simps)
  ultimately show ?thesis using c by simp
qed

text \<open>
  A user who owns any group gets into every live group, whether or not that group asks for
  approval: ask to join it, approve the request through the own group, join.
\<close>

lemma own_group_approves_elsewhere:
  assumes "members_wf d" "u \<in> set (users d)" "get_room target d = Inr r" "rm_type r = GroupRoom"
    and "is_group_owner own u d = Inr True" "\<not> exists_row (\<lambda>q. jr_id q = new_id) (join_requests d)"
  shows "\<exists>i. is_user_in_room target u (serve_all parse
    [(t1, Some u, target, RequestJoin new_id msg), (t2, Some u, own, ReviewJoin i JoinApproved None),
     (t3, Some u, target, JoinRoom)] d)"
proof -
  let ?same = "same_request target u"
  have ex: "room_exists target d" by (rule get_room_exists [OF assms(3)])
  obtain q d1 where c: "create_join_request t1 new_id target u msg d = Inr (q, d1)"
    using assms(2,6) ex
    by (cases "fetch_optional ?same (join_requests d)") (auto simp: create_join_request_def Let_def)
  have q: "q \<in> set (join_requests d1)" "jr_status q = JoinPending" "users d1 = users d"
    and first: "fetch_optional ?same (join_requests d1) = Some q"
  proof -
    have pend: "jr_status q = JoinPending"
      using c by (auto simp: create_join_request_def Let_def reopened_request_def split: option.splits if_splits)
    have f: "fetch_optional ?same (join_requests d1) = Some q"
    proof (cases "fetch_optional ?same (join_requests d)")
      case None
      then have "join_requests d1 = join_requests d @ [q]" "?same q"
        using c by (auto simp: create_join_request_def Let_def same_request_def split: if_splits)
      then show ?thesis using None by (simp add: fetch_append)
    next
      case (Some q0)
      then have "?same q0" by (auto dest: fetch_SomeD)
      then have "fetch_optional ?same (update_where ?same (reopened_request t1 msg) (join_requests d))
          = Some (reopened_request t1 msg q0)"
        using Some by (subst fetch_update_where) (auto simp: same_request_def reopened_request_def)
      then show ?thesis using c Some by (auto simp: create_join_request_def)
    qed
    show "q \<in> set (join_requests d1)" "jr_status q = JoinPending" "fetch_optional ?same (join_requests d1) = Some q"
      using f pend by (auto dest: fetch_SomeD)
    show "users d1 = users d" using c by (auto simp: create_join_request_def Let_def split: option.splits if_splits)
  qed
  note core1 = join_frame(1) [OF c]
  let ?i = "jr_id q"
  let ?d2 = "serve parse t2 (Some u) own (ReviewJoin ?i JoinApproved None) d1"
  have own1: "is_group_owner own u d1 = Inr True" using assms(5) core_same(4) [OF core1] by simp
  have u1: "u \<in> set (users d1)" using assms(2) q by simp
  note r2 = review_by_manager [OF own1 u1 q(1) refl q(2), of parse t2 None]
  have approved: "has_approved_join_request target u ?d2"
  proof -
    have "?same q" using first by (auto dest: fetch_SomeD)
    then have "fetch_optional ?same (join_requests ?d2) = Some (reviewed_request t2 u JoinApproved None q)"
      using r2 first q(2) by (subst r2 [THEN exE]) (auto simp: fetch_update_where same_request_def reviewed_request_def)
    then show ?thesis by (simp add: has_approved_join_request_def reviewed_request_def)
  qed
  have core2: "core_view ?d2 = core_view d" using r2 core1 by simp
  have "may_join target u r ?d2" using approved assms(4) by (simp add: may_join_def)
  moreover have "get_room target ?d2 = Inr r" using assms(3) core_same(2) [OF core2] by simp
  moreover have "members_wf ?d2" "u \<in> set (users ?d2)" using assms(1) core_same(9) [OF core2] r2 u1 by auto
  ultimately have "is_user_in_room target u (serve parse t3 (Some u) target JoinRoom ?d2)"
    using join_room_iff [OF _ _ _ prod.collapse [symmetric], of ?d2 u target t3]
    by (cases "is_user_in_room target u ?d2") (auto simp: join_room_handler_split active_members_def)
  moreover have "serve parse t1 (Some u) target (RequestJoin new_id msg) d = d1"
    by (simp add: create_join_request_handler_def claims_user_id_def tx_def atomically_def c)
  ultimately show ?thesis by (intro exI [of _ ?i]) simp
qed

definition closed_group :: db where
  "closed_group = small_group
     \<lparr>rooms := rooms small_group @ [\<lparr>rm_id = 8, rm_name = ''h'', rm_type = GroupRoom, rm_owner = 4,
        rm_created = 2, rm_deleted = None\<rparr>],
      group_settings_rows := [(default_group_settings 8)\<lparr>gset_join_approval := True\<rparr>]\<rparr>"

lemma fetch_and:
  "fetch_optional P t = Some r \<Longrightarrow> Q r \<Longrightarrow> fetch_optional (\<lambda>x. P x \<and> Q x) t = Some r"
  by (induction t) (auto split: if_splits)

lemma upsert_get_member:
  assumes "members_wf d" "upsert_member_conn now room u role d = Inr (m, d')"
  shows "get_member room u d' = Some m"
proof -
  have "m \<in> set (room_members d')"
    using assms(2)
    by (auto simp: upsert_member_conn_def Let_def set_update_where split: option.splits if_splits dest!: fetch_SomeD)
  moreover have "is_member room u m" using upsert_member_row [OF assms] by (simp add: is_member_def)
  moreover have "unique_members d'" using upsert_member_wf [OF assms] by (simp add: members_wf_def)
  ultimately show ?thesis unfolding get_member_def unique_members_def
    by (intro fetch_unique [where k = "\<lambda>m. (mb_room m, mb_user m)"]) (auto simp: is_member_def)
qed

text \<open>
  Accepting a pending invitation makes the invitee an active ordinary member, however long ago
  the invitation expired, however full the group is, even if the group was dissolved, and even if
  the invitee was its owner or an administrator.
\<close>

lemma invitation_never_expires:
  assumes "members_wf d" "u \<in> set (users d)" "room_exists room d"
    and "get_invitation_by_id i d = Some iv" "gi_room iv = room" "gi_invitee iv = u" "gi_status iv = InvPending"
    and "respond_to_invitation_handler now (Some u) room i (Some ''accepted'') d = (x, d')"
  shows "x = Inr () \<and> map_option mb_role (get_member room u d') = Some MemberRole
    \<and> active_members room d' = insert u (active_members room d)"
proof -
  have "fetch_optional (\<lambda>j. gi_id j = i \<and> gi_status j = InvPending) (group_invitations d) = Some iv"
    using fetch_and [of "\<lambda>j. gi_id j = i" "group_invitations d" iv "\<lambda>j. gi_status j = InvPending"] assms(4,7)
    by (simp add: get_invitation_by_id_def)
  then obtain d1 where r: "respond_to_invitation now i InvAccepted d = (Some (answered_invitation now InvAccepted iv), d1)"
    "users d1 = users d"
    by (simp add: respond_to_invitation_def)
  note core = invitation_frame(2) [OF r(1)]
  have "room_exists room d1" using assms(3) core_same(10) [OF core] by simp
  then obtain m d2 where a: "add_member now room u None d1 = Inr (m, d2)"
    using add_member_defined assms(2) r(2) by metis
  obtain y d3 where l: "logged now room u None ''respond_to_invitation'' d2 = (y, d3)" by fastforce
  note core3 = loggedD [OF l]
  have x: "x = Inr () \<and> d' = d3" using assms(4-8) core3 l a
    by (simp add: respond_to_invitation_handler_def claims_user_id_def parse_invitation_answer_def query_def
        check_invitation_def run_then_def total_def r(1) answered_invitation_def tx_def atomically_def answer_def)
  have wf: "members_wf d1" using assms(1) core_same(9) [OF core] by simp
  note up = a [unfolded add_member_def option.case]
  have "map_option mb_role (get_member room u d2) = Some MemberRole"
    using upsert_get_member [OF wf up] upsert_member_row [OF wf up] by simp
  moreover have "active_members room d2 = insert u (active_members room d)"
    using active_members_upsert [OF wf up, of room] core_same(7) [OF core] by simp
  ultimately show ?thesis using x core3 core_same(1,7) by metis
qed

definition invited_group :: db where
  "invited_group = small_group\<lparr>group_invitations := [\<lparr>gi_id = 5, gi_room = 9, gi_inviter = 2, gi_invitee = 4,
     gi_message = None, gi_status = InvPending, gi_invited = 2, gi_responded = None, gi_expires = 2 + days 7\<rparr>]\<rparr>"

section \<open>Removing a member\<close>

lemma require_manager_Inr [simp]: "require_manager room u d = Inr x \<longleftrightarrow> can_manage_group room u d = Inr True"
  by (auto simp: require_manager_def and_then_Inr require_def)

definition may_remove :: "uuid \<Rightarrow> uuid \<Rightarrow> uuid \<Rightarrow> db \<Rightarrow> bool" where
  "may_remove room operator member d \<longleftrightarrow>
     can_manage_group room operator d = Inr True \<and> operator \<noteq> member
     \<and> (case get_member room member d of
          None \<Rightarrow> False
        | Some m \<Rightarrow> mb_role m = MemberRole
            \<or> (mb_role m = AdminRole \<and> is_group_owner room operator d = Inr True))"

lemma check_removable_Inr: "check_removable room operator m d = Inr x \<longleftrightarrow>
    mb_role m = MemberRole \<or> (mb_role m = AdminRole \<and> is_group_owner room operator d = Inr True)"
  by (cases "mb_role m") (auto simp: check_removable_def and_then_Inr require_def)

text \<open>
  C17: A member is removed exactly by somebody else who may manage the group, and only if the
  member is an ordinary one, or an administrator and the request comes from the owner.  A removed
  member is no active member and no administrator any more; a refused request changes nothing.
\<close>

theorem removal_needs_rank:
  assumes "members_wf d" "remove_group_member_handler now (Some operator) room member d = (x, d')"
  shows "(x = Inr () \<longleftrightarrow> may_remove room operator member d)
    \<and> (x = Inr () \<longrightarrow> active_members room d' = active_members room d - {member}
         \<and> \<not> is_group_admin room member d')
    \<and> (x \<noteq> Inr () \<longrightarrow> d' = d)"
proof (cases "may_remove room operator member d")
  case True
  then obtain m where m: "get_member room member d = Some m" and can: "can_manage_group room operator d = Inr True"
    and ne: "operator \<noteq> member" and rank: "check_removable room operator m d = Inr ()"
    by (auto simp: may_remove_def check_removable_Inr split: option.splits)
  have inr: "is_user_in_room room member d" using m by (simp add: is_user_in_room_get)
  obtain b d1 where r: "remove_member now room member d = (b, d1)" by fastforce
  have b: "b" using remove_member_result [OF assms(1) r] inr by simp
  obtain y d2 where l: "logged now room operator (Some member) ''remove_member'' d1 = (y, d2)" by fastforce
  have x: "x = Inr () \<and> d' = d2" using assms(2) can ne rank m r b l loggedD [OF l]
    by (simp add: remove_group_member_handler_def claims_user_id_def query_def require_manager_def require_def
        member_or_not_found_def run_then_def total_def answer_def)
  have "active_members room d1 = active_members room d - {member}"
    using remove_member_in [OF assms(1) r] by (auto simp: active_members_def)
  moreover have "\<not> is_group_admin room member d1"
    using r inr by (auto simp: remove_member_def Let_def is_group_admin_def rows_affected_pos set_delete_where same_admin_def)
  ultimately show ?thesis using x loggedD [OF l] core_same(3,7) True by metis
next
  case False
  have no: False if "can_manage_group room operator d = Inr True" "operator \<noteq> member"
      "member_or_not_found room member d = Inr m" "check_removable room operator m d = Inr ()" for m
    using that False
    by (auto simp: may_remove_def member_or_not_found_def check_removable_Inr split: option.splits)
  from assms(2) have "x \<noteq> Inr () \<and> d' = d" unfolding remove_group_member_handler_def
    by (elim step_cases) (use no in auto)
  then show ?thesis using False by simp
qed

theorem removal_needs_rank_witness:
  "may_remove 9 1 3 small_group
   \<and> active_members 9 (snd (remove_group_member_handler 2 (Some 1) 9 3 small_group)) = active_members 9 small_group - {3}
   \<and> fst (remove_group_member_handler 2 (Some 2) 9 3 small_group) \<noteq> Inr ()"
proof -
  have wf: "members_wf small_group" using small_group_wf by (simp add: roles_wf_def)
  have "may_remove 9 1 3 small_group" "\<not> may_remove 9 2 3 small_group"
    unfolding small_group_eq by code_simp+
  then show ?thesis using removal_needs_rank [OF wf prod.collapse [symmetric]] by blast
qed

section \<open>The size of a group\<close>

lemma count_active_card:
  assumes "unique_members d"
  shows "finite (active_members room d)" "count_active_members room d = int (card (active_members room d))"
proof -
  let ?ms = "filter (\<lambda>m. mb_room m = room \<and> mb_deleted m = None) (room_members d)"
  have set: "active_members room d = set (map mb_user ?ms)"
    by (auto simp: active_members_def is_user_in_room_def is_member_def)
  have "distinct (map (\<lambda>m. (mb_room m, mb_user m)) ?ms)"
    using assms by (simp add: unique_members_def distinct_map_filter)
  then have "distinct (map mb_user ?ms)" by (auto simp: distinct_map inj_on_def)
  then show "count_active_members room d = int (card (active_members room d))"
    unfolding set by (simp add: count_active_members_def distinct_card del: set_map)
  show "finite (active_members room d)" unfolding set by simp
qed

lemma add_targets_effect:
  assumes "members_wf d" "add_targets now room us d = (x, d')" "distinct us"
  shows "members_wf d' \<and> active_members room d \<subseteq> active_members room d'
    \<and> active_members room d' \<subseteq> active_members room d \<union> set us
    \<and> (\<forall>added skipped. x = Inr (added, skipped) \<longrightarrow> distinct added
        \<and> set added = set us - active_members room d \<and> set skipped = set us \<inter> active_members room d
        \<and> active_members room d' = active_members room d \<union> set us)"
  using assms
proof (induction us arbitrary: d x d')
  case (Cons u us)
  show ?case
  proof (cases "is_user_in_room room u d")
    case True
    obtain y d1 where r: "add_targets now room us d = (y, d1)" by fastforce
    have x: "d' = d1" "x = (case y of Inl e \<Rightarrow> Inl e | Inr (a, s) \<Rightarrow> Inr (a, u # s))"
      using Cons.prems(2) r True
      by (auto simp: query_def run_then_def answer_def split: sum.splits)
    have u: "u \<in> active_members room d" using True by (simp add: active_members_def)
    show ?thesis using Cons.IH [OF Cons.prems(1) r] Cons.prems(3) u
      unfolding x by (cases y) auto
  next
    case False
    show ?thesis
    proof (cases "add_member now room u (Some MemberRole) d")
      case (Inl e)
      then show ?thesis using Cons.prems False
        by (auto simp: query_def run_then_def tx_def atomically_def)
    next
      case (Inr p)
      obtain m d1 where a: "add_member now room u (Some MemberRole) d = Inr (m, d1)" using Inr by (cases p) auto
      note up = a [unfolded add_member_def option.case]
      have wf1: "members_wf d1" by (rule upsert_member_wf [OF Cons.prems(1) up])
      have act: "active_members room d1 = insert u (active_members room d)"
        using active_members_upsert [OF Cons.prems(1) up, of room] by simp
      obtain y d2 where r: "add_targets now room us d1 = (y, d2)" by fastforce
      have x: "d' = d2" "x = (case y of Inl e \<Rightarrow> Inl e | Inr (b, s) \<Rightarrow> Inr (u # b, s))"
        using Cons.prems(2) r False a
        by (auto simp: query_def run_then_def tx_def atomically_def answer_def split: sum.splits)
      have "u \<notin> active_members room d" using False by (simp add: active_members_def)
      then show ?thesis using Cons.IH [OF wf1 r] Cons.prems(3) act
        unfolding x by (cases y) auto
    qed
  qed
qed (auto simp: answer_def)

lemma collect_targets_distinct:
  "collect_targets parse self acc raws = Inr us \<Longrightarrow> distinct acc \<Longrightarrow> distinct us"
  by (induction parse self acc raws rule: collect_targets.induct) (auto simp: Let_def split: if_splits option.splits)

lemma add_members_split:
  assumes "add_group_members_handler parse now sub room ids d = (x, d')"
  shows "(\<exists>e. x = Inl e \<and> core_view d' = core_view d)
    \<or> (\<exists>operator us s d1 d2. sub = Some operator \<and> collect_targets parse operator [] ids = Inr us
        \<and> can_manage_group room operator d = Inr True \<and> get_or_create_group_settings room d = Inr (s, d1)
        \<and> check_room_left s (count_active_members room d1) us = Inr ()
        \<and> add_targets now room us d1 = (x, d2) \<and> core_view d' = core_view d2)"
  using assms unfolding add_group_members_handler_def
proof (elim step_cases)
  fix operator u us v w s d1 y result d2 z d3
  assume "claims_user_id sub = Inr operator" "collect_targets parse operator [] ids = Inr us"
    "require_manager room operator d = Inr w" "settings_or_not_found room d = (Inr s, d1)"
    "check_room_left s (count_active_members room d1) us = Inr y"
    "add_targets now room us d1 = (Inr result, d2)" "logged now room operator None ''add_members'' d2 = (Inr z, d3)"
    "answer result d3 = (x, d')"
  then show ?thesis by (auto simp: settings_or_not_found_def split: sum.splits dest!: loggedD)
next
  fix operator u us v w s d1 y e
  assume "claims_user_id sub = Inr operator" "collect_targets parse operator [] ids = Inr us"
    "require_manager room operator d = Inr w" "settings_or_not_found room d = (Inr s, d1)"
    "check_room_left s (count_active_members room d1) us = Inr y" "add_targets now room us d1 = (Inl e, d')" "x = Inl e"
  then show ?thesis by (auto simp: settings_or_not_found_def split: sum.splits)
qed (auto simp: settings_or_not_found_def split: sum.splits dest: settings_frame(5) dest!: loggedD)

text \<open>
  Adding members never takes a group beyond its limit, whether the request succeeds, is
  refused or fails half way; and after a success exactly the users reported as added have come in.
\<close>

lemma add_members_bounded:
  assumes "members_wf d" "add_group_members_handler parse now sub room ids d = (x, d')"
    and "s = coalesce (settings_row room d) (default_group_settings room)"
  shows "count_active_members room d' \<le> max (count_active_members room d) (gset_max_members s)
    \<and> (\<forall>added skipped. x = Inr (added, skipped) \<longrightarrow>
         active_members room d' = active_members room d \<union> set added
         \<and> set added \<inter> active_members room d = {} \<and> set skipped \<subseteq> active_members room d
         \<and> count_active_members room d' = count_active_members room d + int (length added)
         \<and> count_active_members room d' \<le> gset_max_members s)"
  using add_members_split [OF assms(2)]
proof (elim disjE exE conjE)
  fix e assume "x = Inl e" and core: "core_view d' = core_view d"
  then show ?thesis using core_same(8) [OF core, of room] by simp
next
  fix operator us s' d1 d2
  assume us: "collect_targets parse operator [] ids = Inr us"
    and g: "get_or_create_group_settings room d = Inr (s', d1)"
    and left: "check_room_left s' (count_active_members room d1) us = Inr ()"
    and a: "add_targets now room us d1 = (x, d2)" and core: "core_view d' = core_view d2"
  note gs = get_or_create_settings [OF g]
  have s: "s' = s" using gs(1) assms(3) by simp
  have wf1: "members_wf d1" using assms(1) core_same(9) [OF gs(2)] by simp
  have d: "distinct us" by (rule collect_targets_distinct [OF us]) simp
  note e = add_targets_effect [OF wf1 a d]
  have u: "unique_members d1" "unique_members d2" using wf1 e by (simp_all add: members_wf_def)
  have act: "active_members room d1 = active_members room d" "active_members room d' = active_members room d2"
    "count_active_members room d1 = count_active_members room d" "count_active_members room d' = count_active_members room d2"
    using core_same(7,8) [OF gs(2)] core_same(7,8) [OF core] by simp_all
  have room_left: "count_active_members room d1 + int (length us) \<le> gset_max_members s"
    using left s by (auto simp: check_room_left_def Let_def split: if_splits)
  have c: "count_active_members room d2 = int (card (active_members room d2))"
    "count_active_members room d1 = int (card (active_members room d1))"
    using count_active_card(2) u by auto
  have fin: "finite (active_members room d1)" "finite (active_members room d2)" using count_active_card(1) u by auto
  have "card (active_members room d2) \<le> card (active_members room d1 \<union> set us)"
    using e fin by (intro card_mono) auto
  also have "\<dots> \<le> card (active_members room d1) + length us"
    using card_Un_le [of "active_members room d1" "set us"] card_length [of us] by linarith
  finally have bound: "count_active_members room d' \<le> gset_max_members s" using c act room_left by linarith
  have "count_active_members room d' = count_active_members room d + int (length added)
      \<and> active_members room d' = active_members room d \<union> set added
      \<and> set added \<inter> active_members room d = {} \<and> set skipped \<subseteq> active_members room d"
    if "x = Inr (added, skipped)" for added skipped
  proof -
    from that e have p: "distinct added" "set added = set us - active_members room d1"
      "set skipped = set us \<inter> active_members room d1" "active_members room d2 = active_members room d1 \<union> set us"
      by auto
    then have "active_members room d2 = active_members room d1 \<union> set added" "set added \<inter> active_members room d1 = {}" by auto
    moreover from this have "card (active_members room d2) = card (active_members room d1) + length added"
      using fin p(1) by (simp add: card_Un_disjoint Int_commute distinct_card)
    ultimately show ?thesis using p(3) c act by auto
  qed
  then show ?thesis using bound by auto
qed

section \<open>How long a mute lasts\<close>























end
