(* ===== verification/Files.thy ===== *)
theory Files
  imports ControlLog Requests
begin

text \<open>
  Uploaded files and the messages that refer to them: the tables behind
  \<open>api/src/database/file_upload_store.rs\<close>, \<open>file_upload_multipart_store.rs\<close>,
  \<open>file_upload_audit_store.rs\<close>, the part of \<open>storage_provider_store.rs\<close> that handlers read, and
  the attachment methods of \<open>message_store.rs\<close>.  The state \<open>files\<close> puts these tables beside the
  database \<open>db\<close>, whose \<open>messages\<close> they extend, and beside the content of the object storage.
  The storage service is third-party: its answers are the record \<open>s3\<close> of functions, and what the
  code relies on is \<open>honest\<close>.
\<close>

section \<open>Rows\<close>

record storage_provider =
  sp_id :: uuid
  sp_s3 :: bool \<comment> \<open>\<open>provider_type = S3Compatible\<close>\<close>
  sp_bucket :: "string option"
  sp_active :: bool
  sp_default :: bool

datatype file_status = FilePending | FileCompleted | FileFailed | FileDeleted

record file_record =
  fl_provider :: uuid
  fl_key :: string
  fl_hash_alg :: int
  fl_hash :: string
  fl_size :: "int option"
  fl_ctype :: "string option"
  fl_status :: file_status
  fl_uploaded :: "instant option"
  fl_created :: instant

datatype session_status = SessionOpen | SessionCompleted | SessionAborted

record upload_session =
  us_id :: uuid
  us_provider :: uuid
  us_key :: string
  us_upload :: string
  us_creator :: uuid
  us_admin :: bool
  us_size :: "int option"
  us_ctype :: "string option"
  us_part_size :: int
  us_total :: int
  us_parts :: "(int \<times> string) list" \<comment> \<open>the JSON object from part numbers to etags\<close>
  us_status :: session_status
  us_completed :: "instant option"

datatype audit_status = AuditQueued | AuditApproved | AuditRejected | AuditRetry | AuditFailed

record audit_task =
  at_id :: uuid
  at_provider :: uuid
  at_key :: string
  at_scene :: string
  at_kind :: string
  at_ctype :: "string option"
  at_size :: "int option"
  at_status :: audit_status
  at_job :: "string option"
  at_rejected :: "string option"
  at_attempts :: int
  at_next :: instant
  at_error :: "string option"
  at_audited :: "instant option"
  at_created :: instant

record attachment_commit =
  ac_room :: uuid
  ac_key :: string
  ac_by :: uuid
  ac_size :: "int option"
  ac_committed :: instant
  ac_expires :: instant
  ac_confirmed :: "instant option"

datatype part_type = TextPart | ImagePart | VideoPart | AudioPart | FilePart

record message_part =
  mp_message :: uuid
  mp_position :: int
  mp_type :: part_type
  mp_text :: "string option"
  mp_attachment :: "string option"
  mp_mime :: "string option"
  mp_size :: "int option"
  mp_thumbnail :: "string option"

record room_pin =
  rp_room :: uuid
  rp_message :: uuid
  rp_by :: uuid
  rp_at :: instant

text \<open>
  \<open>other_keys\<close> are the keys that users, rooms, emoji packs, releases, hot updates and report
  attachments name; \<open>bucket\<close> is what the storage holds, per provider.
\<close>

record files =
  base :: db
  providers :: "storage_provider list"
  file_records :: "file_record list"
  upload_sessions :: "upload_session list"
  audit_tasks :: "audit_task list"
  attachment_commits :: "attachment_commit list"
  message_parts :: "message_part list"
  room_pins :: "room_pin list"
  other_keys :: "string list"
  bucket :: "(uuid \<times> string) list"

section \<open>The object storage\<close>

record object_head =
  oh_length :: "int option"
  oh_etag :: "string option"

type_synonym stored = "(uuid \<times> string) list"

record s3 =
  s3_new :: "storage_provider \<Rightarrow> unit result"
  s3_head :: "uuid \<Rightarrow> string \<Rightarrow> stored \<Rightarrow> object_head result"
  s3_exists :: "uuid \<Rightarrow> string \<Rightarrow> stored \<Rightarrow> bool result"
  s3_delete :: "uuid \<Rightarrow> string \<Rightarrow> stored \<Rightarrow> unit result \<times> stored"
  s3_sign :: "uuid \<Rightarrow> string \<Rightarrow> string option \<Rightarrow> string result"
  s3_initiate :: "uuid \<Rightarrow> string \<Rightarrow> string option \<Rightarrow> string result"
  s3_sign_part :: "uuid \<Rightarrow> string \<Rightarrow> string \<Rightarrow> int \<Rightarrow> string option \<Rightarrow> string result"
  s3_complete :: "uuid \<Rightarrow> string \<Rightarrow> string \<Rightarrow> (int \<times> string) list \<Rightarrow> stored \<Rightarrow> unit result \<times> stored"
  s3_abort :: "uuid \<Rightarrow> string \<Rightarrow> string \<Rightarrow> unit result"

text \<open>
  What S3 documents: an object whose metadata is returned, or that is reported to exist, is stored;
  a merge stores no other object than its own, and stores it when it succeeds; a deletion removes
  no other object than its own, and none when it fails.
\<close>

definition honest :: "s3 \<Rightarrow> bool" where
  "honest s \<longleftrightarrow>
     (\<forall>p k b h. s3_head s p k b = Inr h \<longrightarrow> (p, k) \<in> set b)
   \<and> (\<forall>p k b. s3_exists s p k b = Inr True \<longrightarrow> (p, k) \<in> set b)
   \<and> (\<forall>p k b. case s3_delete s p k b of
        (Inl _, b') \<Rightarrow> set b' = set b | (Inr _, b') \<Rightarrow> set b' = set b - {(p, k)})
   \<and> (\<forall>p k u ps b. case s3_complete s p k u ps b of
        (Inl _, b') \<Rightarrow> set b' = set b | (Inr _, b') \<Rightarrow> set b' = insert (p, k) (set b))"

text \<open>\<open>create_storage_service\<close>.\<close>

definition create_storage_service :: "s3 \<Rightarrow> storage_provider \<Rightarrow> unit result" where
  "create_storage_service sv p =
     (if \<not> sp_s3 p then Inl (ValidationError ''provider type'')
      else if sp_bucket p = None then Inl (ValidationError ''bucket_name'')
      else s3_new sv p)"

definition get_provider_by_id :: "uuid \<Rightarrow> files \<Rightarrow> storage_provider option" where
  "get_provider_by_id i s = fetch_optional (\<lambda>p. sp_id p = i) (providers s)"

definition get_default_provider :: "files \<Rightarrow> storage_provider option" where
  "get_default_provider s = fetch_optional (\<lambda>p. sp_default p \<and> sp_active p) (providers s)"

definition load_default_storage_provider :: "files \<Rightarrow> storage_provider result" where
  "load_default_storage_provider s =
     (case get_default_provider s of
        None \<Rightarrow> Inl (NotFound ''default storage provider'')
      | Some p \<Rightarrow> if \<not> sp_active p then Inl (ValidationError ''provider inactive'') else Inr p)"

section \<open>Upload records\<close>

definition of_object :: "uuid \<Rightarrow> string \<Rightarrow> file_record \<Rightarrow> bool" where
  "of_object p k r \<longleftrightarrow> fl_provider r = p \<and> fl_key r = k"

definition get_by_key :: "uuid \<Rightarrow> string \<Rightarrow> files \<Rightarrow> file_record option" where
  "get_by_key p k s = fetch_optional (of_object p k) (file_records s)"

definition has_completed_by_key :: "uuid \<Rightarrow> string \<Rightarrow> files \<Rightarrow> bool" where
  "has_completed_by_key p k s = exists_row (\<lambda>r. of_object p k r \<and> fl_status r = FileCompleted) (file_records s)"

text \<open>
  \<open>ORDER BY uploaded_at DESC NULLS LAST, created_at DESC LIMIT 1\<close>: the first row that no row
  precedes.
\<close>

definition uploaded_before :: "file_record \<Rightarrow> file_record \<Rightarrow> bool" where
  "uploaded_before r q =
     (case (fl_uploaded r, fl_uploaded q) of
        (Some a, Some b) \<Rightarrow> a > b \<or> (a = b \<and> fl_created r > fl_created q)
      | (Some a, None) \<Rightarrow> True
      | (None, Some b) \<Rightarrow> False
      | (None, None) \<Rightarrow> fl_created r > fl_created q)"

definition reusable :: "uuid \<Rightarrow> int \<Rightarrow> string \<Rightarrow> int \<Rightarrow> string option \<Rightarrow> files \<Rightarrow> file_record \<Rightarrow> bool" where
  "reusable p alg hash sz prefix s r \<longleftrightarrow>
     fl_provider r = p \<and> fl_hash_alg r = alg \<and> fl_hash r = hash \<and> fl_size r = Some sz
     \<and> fl_status r = FileCompleted
     \<and> exists_row (\<lambda>a. at_provider a = fl_provider r \<and> at_key a = fl_key r \<and> at_status a = AuditApproved)
         (audit_tasks s)
     \<and> (case prefix of None \<Rightarrow> True | Some q \<Rightarrow> strip_prefix q (fl_key r) \<noteq> None)"

definition find_completed_by_hash ::
  "uuid \<Rightarrow> int \<Rightarrow> string \<Rightarrow> int \<Rightarrow> string option \<Rightarrow> files \<Rightarrow> file_record option" where
  "find_completed_by_hash p alg hash sz prefix s =
     (let rows = filter (reusable p alg hash sz prefix s) (file_records s)
      in fetch_optional (\<lambda>r. \<not> exists_row (\<lambda>q. uploaded_before q r) rows) rows)"

definition pending_record ::
  "uuid \<Rightarrow> string \<Rightarrow> int \<Rightarrow> string \<Rightarrow> int option \<Rightarrow> string option \<Rightarrow> instant \<Rightarrow> file_record" where
  "pending_record p k alg hash sz ctype now =
     \<lparr>fl_provider = p, fl_key = k, fl_hash_alg = alg, fl_hash = hash, fl_size = sz, fl_ctype = ctype,
      fl_status = FilePending, fl_uploaded = None, fl_created = now\<rparr>"

definition create_pending_record ::
  "uuid \<Rightarrow> string \<Rightarrow> int \<Rightarrow> string \<Rightarrow> int option \<Rightarrow> string option \<Rightarrow> instant \<Rightarrow> files
     \<Rightarrow> sqlx_error + (unit \<times> files)" where
  "create_pending_record p k alg hash sz ctype now s =
     (if \<not> exists_row (\<lambda>q. sp_id q = p) (providers s) then Inl ForeignKeyViolation
      else if get_by_key p k s = None
      then Inr ((), s\<lparr>file_records := file_records s @ [pending_record p k alg hash sz ctype now]\<rparr>)
      else Inr ((), s\<lparr>file_records := update_where (of_object p k)
        (\<lambda>r. r\<lparr>fl_hash_alg := alg, fl_hash := hash, fl_size := sz, fl_ctype := ctype,
               fl_status := FilePending\<rparr>) (file_records s)\<rparr>))"

text \<open>The three updates of the status; \<open>rows_affected() > 0\<close> is the result.\<close>

definition set_status ::
  "(file_record \<Rightarrow> bool) \<Rightarrow> (file_record \<Rightarrow> file_record) \<Rightarrow> files \<Rightarrow> bool \<times> files" where
  "set_status P f s =
     (exists_row P (file_records s), s\<lparr>file_records := update_where P f (file_records s)\<rparr>)"

definition completed_now :: "instant \<Rightarrow> file_record \<Rightarrow> file_record" where
  "completed_now now r =
     r\<lparr>fl_status := FileCompleted, fl_uploaded := Some (case fl_uploaded r of Some t \<Rightarrow> t | None \<Rightarrow> now)\<rparr>"

definition mark_completed_by_key :: "instant \<Rightarrow> uuid \<Rightarrow> string \<Rightarrow> files \<Rightarrow> bool \<times> files" where
  "mark_completed_by_key now p k =
     set_status (\<lambda>r. of_object p k r \<and> fl_status r \<noteq> FileDeleted) (completed_now now)"

definition mark_failed_by_key :: "uuid \<Rightarrow> string \<Rightarrow> files \<Rightarrow> bool \<times> files" where
  "mark_failed_by_key p k =
     set_status (\<lambda>r. of_object p k r \<and> fl_status r \<noteq> FileDeleted) (\<lambda>r. r\<lparr>fl_status := FileFailed\<rparr>)"

definition mark_deleted_by_key :: "uuid \<Rightarrow> string \<Rightarrow> files \<Rightarrow> bool \<times> files" where
  "mark_deleted_by_key p k = set_status (of_object p k) (\<lambda>r. r\<lparr>fl_status := FileDeleted\<rparr>)"

section \<open>References\<close>

definition live_commit :: "instant \<Rightarrow> attachment_commit \<Rightarrow> bool" where
  "live_commit now c \<longleftrightarrow> ac_confirmed c \<noteq> None \<or> ac_expires c > now"

definition names_key :: "string \<Rightarrow> message_part \<Rightarrow> bool" where
  "names_key k p \<longleftrightarrow> mp_attachment p = Some k \<or> mp_thumbnail p = Some k"

definition live_message :: "uuid \<Rightarrow> files \<Rightarrow> bool" where
  "live_message i s = exists_row (\<lambda>m. msg_id m = i \<and> msg_deleted m = None) (messages (base s))"

definition committed_key :: "instant \<Rightarrow> string \<Rightarrow> files \<Rightarrow> bool" where
  "committed_key now k s = exists_row (\<lambda>c. ac_key c = k \<and> live_commit now c) (attachment_commits s)"

definition message_key :: "string \<Rightarrow> files \<Rightarrow> bool" where
  "message_key k s = exists_row (\<lambda>p. names_key k p \<and> live_message (mp_message p) s) (message_parts s)"

definition is_object_key_referenced :: "instant \<Rightarrow> string \<Rightarrow> files \<Rightarrow> bool" where
  "is_object_key_referenced now k s \<longleftrightarrow> k \<in> set (other_keys s) \<or> committed_key now k s \<or> message_key k s"

text \<open>
  \<open>begin_unreferenced_deletion\<close>: the transaction that holds the row's lock until the object is
  deleted is open (\<open>True\<close>) or was not opened.
\<close>

definition messages_prefix :: string where
  "messages_prefix = ''messages/''"

definition starts_with :: "string \<Rightarrow> string \<Rightarrow> bool" where
  "starts_with s p \<longleftrightarrow> strip_prefix p s \<noteq> None"

definition begin_unreferenced_deletion :: "instant \<Rightarrow> uuid \<Rightarrow> string \<Rightarrow> files \<Rightarrow> bool" where
  "begin_unreferenced_deletion now p k s \<longleftrightarrow>
     starts_with k messages_prefix
     \<and> exists_row (\<lambda>r. of_object p k r \<and> fl_status r \<in> {FilePending, FileCompleted, FileFailed}) (file_records s)
     \<and> \<not> (committed_key now k s \<or> message_key k s)"

definition list_stale_pending_records :: "instant \<Rightarrow> int \<Rightarrow> files \<Rightarrow> file_record list" where
  "list_stale_pending_records cutoff limit s =
     take (nat limit) (sort_key fl_created
       (filter (\<lambda>r. fl_status r = FilePending \<and> fl_created r < cutoff) (file_records s)))"

definition uploaded_or_created :: "file_record \<Rightarrow> instant" where
  "uploaded_or_created r = (case fl_uploaded r of Some t \<Rightarrow> t | None \<Rightarrow> fl_created r)"

definition list_old_completed_records :: "instant \<Rightarrow> int \<Rightarrow> files \<Rightarrow> file_record list" where
  "list_old_completed_records cutoff limit s =
     take (nat limit) (sort_key uploaded_or_created
       (filter (\<lambda>r. fl_status r = FileCompleted \<and> uploaded_or_created r < cutoff) (file_records s)))"

end
