(* ===== verification/Attachments.thy ===== *)
theory Attachments
  imports Files
begin

text \<open>
  Messages and the files they name: the attachment and message methods of
  \<open>api/src/database/message_store.rs\<close>.  A file belongs to a room once a member has committed it; the
  commit is a lease of 30 days that becomes permanent when another member opens the file.  A
  message is stored with its parts only when every file they name is complete.
\<close>

section \<open>Commits\<close>

text \<open>The column default of \<open>expires_at\<close>.\<close>

definition commit_lease :: "instant \<Rightarrow> instant" where
  "commit_lease now = now + days 30"

definition is_commit :: "uuid \<Rightarrow> string \<Rightarrow> attachment_commit \<Rightarrow> bool" where
  "is_commit room k c \<longleftrightarrow> ac_room c = room \<and> ac_key c = k"

definition renewed :: "int option \<Rightarrow> instant \<Rightarrow> attachment_commit \<Rightarrow> attachment_commit" where
  "renewed sz now c = c\<lparr>ac_size := sz, ac_committed := now, ac_expires := commit_lease now\<rparr>"

definition upsert_commit ::
  "uuid \<Rightarrow> string \<Rightarrow> uuid \<Rightarrow> int option \<Rightarrow> instant \<Rightarrow> files \<Rightarrow> sqlx_error + (bool \<times> files)" where
  "upsert_commit room k user sz now s =
     (case fetch_optional (is_commit room k) (attachment_commits s) of
        Some c \<Rightarrow>
          if ac_by c = user
          then Inr (True, s\<lparr>attachment_commits :=
            update_where (is_commit room k) (renewed sz now) (attachment_commits s)\<rparr>)
          else Inr (False, s)
      | None \<Rightarrow>
          if \<not> room_exists room (base s) \<or> user \<notin> set (users (base s)) then Inl ForeignKeyViolation
          else Inr (True, s\<lparr>attachment_commits := attachment_commits s @
            [\<lparr>ac_room = room, ac_key = k, ac_by = user, ac_size = sz, ac_committed = now,
              ac_expires = commit_lease now, ac_confirmed = None\<rparr>]\<rparr>))"

text \<open>One transaction, rolled back when the record is gone or the commit is someone else's.\<close>

definition record_room_attachment_commit ::
  "uuid \<Rightarrow> uuid \<Rightarrow> string \<Rightarrow> uuid \<Rightarrow> int option \<Rightarrow> instant \<Rightarrow> files \<Rightarrow> sqlx_error + (bool \<times> files)" where
  "record_room_attachment_commit p room k user sz now s =
     (let (found, s1) = mark_completed_by_key now p k s
      in if \<not> found then Inr (False, s)
         else case upsert_commit room k user sz now s1 of
           Inl e \<Rightarrow> Inl e
         | Inr (recorded, s2) \<Rightarrow> Inr (recorded, if recorded then s2 else s))"

definition all_completed :: "string \<Rightarrow> files \<Rightarrow> bool" where
  "all_completed k s \<longleftrightarrow>
     exists_row (\<lambda>r. fl_key r = k) (file_records s)
     \<and> (\<forall>r \<in> set (file_records s). fl_key r = k \<longrightarrow> fl_status r = FileCompleted)"

definition confirmed_by :: "uuid \<Rightarrow> instant \<Rightarrow> attachment_commit \<Rightarrow> attachment_commit" where
  "confirmed_by user now c =
     c\<lparr>ac_confirmed := (if ac_by c \<noteq> user
        then Some (case ac_confirmed c of Some t \<Rightarrow> t | None \<Rightarrow> now) else ac_confirmed c)\<rparr>"

definition claim_room_attachment_access ::
  "uuid \<Rightarrow> string \<Rightarrow> uuid \<Rightarrow> instant \<Rightarrow> files \<Rightarrow> bool \<times> files" where
  "claim_room_attachment_access room k user now s =
     (if \<not> all_completed k s then (False, s)
      else
        let mine = (\<lambda>c. is_commit room k c \<and> live_commit now c)
        in (exists_row mine (attachment_commits s),
            s\<lparr>attachment_commits := update_where mine (confirmed_by user now) (attachment_commits s)\<rparr>))"

definition room_has_message_object_key :: "uuid \<Rightarrow> string \<Rightarrow> files \<Rightarrow> bool" where
  "room_has_message_object_key room k s =
     exists_row (\<lambda>m. msg_room m = room \<and> msg_deleted m = None
         \<and> exists_row (\<lambda>p. mp_message p = msg_id m \<and> names_key k p) (message_parts s))
       (messages (base s))"

section \<open>Messages\<close>

record new_part =
  np_position :: int
  np_type :: part_type
  np_text :: "string option"
  np_attachment :: "string option"
  np_mime :: "string option"
  np_size :: "int option"
  np_thumbnail :: "string option"

definition part_keys :: "new_part \<Rightarrow> string list" where
  "part_keys p = List.map_filter id [np_attachment p, np_thumbnail p]"

definition part_row :: "uuid \<Rightarrow> new_part \<Rightarrow> message_part" where
  "part_row m p = \<lparr>mp_message = m, mp_position = np_position p, mp_type = np_type p,
     mp_text = np_text p, mp_attachment = np_attachment p, mp_mime = np_mime p, mp_size = np_size p,
     mp_thumbnail = np_thumbnail p\<rparr>"

fun insert_message_parts :: "uuid \<Rightarrow> new_part list \<Rightarrow> files \<Rightarrow> sqlx_error + files" where
  "insert_message_parts m [] s = Inr s"
| "insert_message_parts m (p # ps) s =
     (if list_all (\<lambda>k. all_completed k s) (part_keys p)
      then insert_message_parts m ps (s\<lparr>message_parts := message_parts s @ [part_row m p]\<rparr>)
      else Inl RowNotFound)"

definition insert_message :: "message \<Rightarrow> files \<Rightarrow> sqlx_error + files" where
  "insert_message m s =
     (let d = base s in
      if exists_row (\<lambda>q. msg_id q = msg_id m) (messages d) then Inl UniqueViolation
      else if msg_idem m \<noteq> None \<and> exists_row (\<lambda>q. msg_room q = msg_room m \<and> msg_sender q = msg_sender m
                \<and> msg_idem q = msg_idem m) (messages d)
      then Inl UniqueViolation
      else if \<not> room_exists (msg_room m) d \<or> msg_sender m \<notin> set (users d)
              \<or> (\<exists>q. msg_quoted m = Some q \<and> \<not> exists_row (\<lambda>r. msg_id r = q) (messages d))
      then Inl ForeignKeyViolation
      else Inr (s\<lparr>base := d\<lparr>messages := messages d @ [m]\<rparr>\<rparr>))"

definition plain_message :: "uuid \<Rightarrow> uuid \<Rightarrow> uuid \<Rightarrow> string \<Rightarrow> message_type \<Rightarrow> uuid option \<Rightarrow> instant \<Rightarrow> message" where
  "plain_message i room sender content ty quoted now =
     \<lparr>msg_id = i, msg_room = room, msg_sender = sender, msg_content = content, msg_type = ty, msg_encrypted = None,
      msg_metadata = None, msg_quoted = quoted, msg_fwd_message = None, msg_fwd_room = None,
      msg_fwd_sender = None, msg_idem = None, msg_created = now, msg_deleted = None\<rparr>"

text \<open>The message and its parts are one transaction.\<close>

definition insert_with_parts :: "message \<Rightarrow> new_part list \<Rightarrow> files \<Rightarrow> sqlx_error + (message \<times> files)" where
  "insert_with_parts m parts s =
     (case insert_message m s of
        Inl e \<Rightarrow> Inl e
      | Inr s1 \<Rightarrow> (case insert_message_parts (msg_id m) parts s1 of Inl e \<Rightarrow> Inl e | Inr s2 \<Rightarrow> Inr (m, s2)))"

definition create_message_with_parts ::
  "uuid \<Rightarrow> uuid \<Rightarrow> uuid \<Rightarrow> string \<Rightarrow> message_type \<Rightarrow> uuid option \<Rightarrow> new_part list \<Rightarrow> instant \<Rightarrow> files
     \<Rightarrow> sqlx_error + (message \<times> files)" where
  "create_message_with_parts i room sender content ty quoted parts now s =
     insert_with_parts (plain_message i room sender content ty quoted now) parts s"

definition text_part :: "string \<Rightarrow> new_part" where
  "text_part content = \<lparr>np_position = 0, np_type = TextPart,
     np_text = Some content, np_attachment = None, np_mime = None, np_size = None, np_thumbnail = None\<rparr>"

definition create_message ::
  "uuid \<Rightarrow> uuid \<Rightarrow> uuid \<Rightarrow> string \<Rightarrow> message_type \<Rightarrow> uuid option \<Rightarrow> instant \<Rightarrow> files \<Rightarrow> sqlx_error + (message \<times> files)" where
  "create_message i room sender content ty quoted now s =
     create_message_with_parts i room sender content ty quoted [text_part content] now s"

text \<open>A forwarded message names the first message of the chain; it copies the parts.\<close>

definition copied_part :: "message_part \<Rightarrow> new_part" where
  "copied_part p = \<lparr>np_position = mp_position p, np_type = mp_type p, np_text = mp_text p,
     np_attachment = mp_attachment p, np_mime = mp_mime p, np_size = mp_size p, np_thumbnail = mp_thumbnail p\<rparr>"

definition forward_origin :: "message \<Rightarrow> uuid \<times> uuid \<times> uuid" where
  "forward_origin orig =
     (case msg_fwd_message orig of
        Some i \<Rightarrow> (i, (case msg_fwd_room orig of Some r \<Rightarrow> r | None \<Rightarrow> msg_room orig),
                   (case msg_fwd_sender orig of Some u \<Rightarrow> u | None \<Rightarrow> msg_sender orig))
      | None \<Rightarrow> (msg_id orig, msg_room orig, msg_sender orig))"

definition forward_row :: "uuid \<Rightarrow> uuid \<Rightarrow> uuid \<Rightarrow> message \<Rightarrow> instant \<Rightarrow> message" where
  "forward_row i room sender orig now =
     (let (om, orm, os) = forward_origin orig
      in (plain_message i room sender (msg_content orig) (msg_type orig) None now)
           \<lparr>msg_fwd_message := Some om, msg_fwd_room := Some orm, msg_fwd_sender := Some os\<rparr>)"

definition create_forward_message ::
  "uuid \<Rightarrow> uuid \<Rightarrow> uuid \<Rightarrow> message \<Rightarrow> message_part list \<Rightarrow> instant \<Rightarrow> files
     \<Rightarrow> sqlx_error + (message \<times> files)" where
  "create_forward_message i room sender orig parts now s =
     insert_with_parts (forward_row i room sender orig now)
       (if parts = [] then [text_part (msg_content orig)] else map copied_part parts) s"

text \<open>An encrypted message is bound to its idempotency key and to the current epoch of the room.\<close>

record encrypted_send =
  en_content :: string
  en_type :: message_type
  en_payload :: bytes
  en_metadata :: "json option"
  en_quoted :: "uuid option"
  en_parts :: "new_part list"
  en_idem :: uuid
  en_device :: uuid
  en_epoch :: int
  en_control :: uuid

definition encrypted_row :: "uuid \<Rightarrow> uuid \<Rightarrow> uuid \<Rightarrow> encrypted_send \<Rightarrow> instant \<Rightarrow> message" where
  "encrypted_row i room sender inp now =
     (plain_message i room sender (en_content inp) (en_type inp) (en_quoted inp) now)
       \<lparr>msg_encrypted := Some (en_payload inp), msg_metadata := en_metadata inp, msg_idem := Some (en_idem inp)\<rparr>"

definition sent_before :: "uuid \<Rightarrow> uuid \<Rightarrow> uuid \<Rightarrow> files \<Rightarrow> message option" where
  "sent_before room sender key s = fetch_optional (\<lambda>m. msg_room m = room \<and> msg_sender m = sender
     \<and> msg_idem m = Some key) (messages (base s))"

definition create_encrypted_message_with_parts ::
  "uuid \<Rightarrow> uuid \<Rightarrow> uuid \<Rightarrow> encrypted_send \<Rightarrow> instant \<Rightarrow> files \<Rightarrow> ((message \<times> bool) \<times> files) result" where
  "create_encrypted_message_with_parts i room sender inp now s =
     (case sent_before room sender (en_idem inp) s of
        Some m \<Rightarrow>
          if msg_encrypted m = Some (en_payload inp) \<and> msg_metadata m = en_metadata inp
             \<and> msg_quoted m = en_quoted inp
          then Inr ((m, False), s)
          else Inl (MessageRuntimeConflict ''idempotency_key is bound to other content'')
      | None \<Rightarrow>
          and_then (validate_application_send_conn room sender (en_device inp) (en_epoch inp)
                      (en_control inp) (base s)) (\<lambda>_.
          and_then (from_sqlx (insert_with_parts (encrypted_row i room sender inp now) (en_parts inp) s))
            (\<lambda>(m, s'). Inr ((m, True), s'))))"

definition mark_message_deleted :: "instant \<Rightarrow> uuid \<Rightarrow> files \<Rightarrow> message option \<times> files" where
  "mark_message_deleted now i s =
     (let P = (\<lambda>m. msg_id m = i \<and> msg_deleted m = None); f = (\<lambda>m. m\<lparr>msg_deleted := Some now\<rparr>); d = base s
      in (map_option f (fetch_optional P (messages d)),
          s\<lparr>base := d\<lparr>messages := update_where P f (messages d)\<rparr>\<rparr>))"

definition update_message_content :: "uuid \<Rightarrow> string \<Rightarrow> files \<Rightarrow> message option \<times> files" where
  "update_message_content i content s =
     (let P = (\<lambda>m. msg_id m = i \<and> msg_deleted m = None); f = (\<lambda>m. m\<lparr>msg_content := content\<rparr>); d = base s
      in (map_option f (fetch_optional P (messages d)),
          s\<lparr>base := d\<lparr>messages := update_where P f (messages d)\<rparr>\<rparr>))"

definition mark_room_messages_deleted :: "instant \<Rightarrow> uuid \<Rightarrow> files \<Rightarrow> nat \<times> files" where
  "mark_room_messages_deleted now room s =
     (let P = (\<lambda>m. msg_room m = room \<and> msg_deleted m = None); d = base s
      in (rows_affected P (messages d),
          s\<lparr>base := d\<lparr>messages := update_where P (\<lambda>m. m\<lparr>msg_deleted := Some now\<rparr>) (messages d)\<rparr>\<rparr>))"

definition is_pin :: "uuid \<Rightarrow> uuid \<Rightarrow> room_pin \<Rightarrow> bool" where
  "is_pin room m p \<longleftrightarrow> rp_room p = room \<and> rp_message p = m"

definition upsert_room_pin :: "instant \<Rightarrow> uuid \<Rightarrow> uuid \<Rightarrow> uuid \<Rightarrow> files \<Rightarrow> sqlx_error + (room_pin \<times> files)" where
  "upsert_room_pin now room m user s =
     (let row = \<lparr>rp_room = room, rp_message = m, rp_by = user, rp_at = now\<rparr> in
      if exists_row (is_pin room m) (room_pins s)
      then Inr (row, s\<lparr>room_pins := update_where (is_pin room m) (\<lambda>_. row) (room_pins s)\<rparr>)
      else if \<not> room_exists room (base s) \<or> \<not> exists_row (\<lambda>q. msg_id q = m) (messages (base s))
              \<or> user \<notin> set (users (base s))
      then Inl ForeignKeyViolation
      else Inr (row, s\<lparr>room_pins := room_pins s @ [row]\<rparr>))"

definition remove_room_pin :: "uuid \<Rightarrow> uuid option \<Rightarrow> files \<Rightarrow> nat \<times> files" where
  "remove_room_pin room m s =
     (let P = (\<lambda>p. case m of Some i \<Rightarrow> is_pin room i p | None \<Rightarrow> rp_room p = room)
      in (rows_affected P (room_pins s), s\<lparr>room_pins := delete_where P (room_pins s)\<rparr>))"

definition get_message :: "uuid \<Rightarrow> files \<Rightarrow> message option" where
  "get_message i s = fetch_optional (\<lambda>m. msg_id m = i) (messages (base s))"

text \<open>\<open>get_message_with_sender\<close> joins the sender, whose row the foreign key guarantees.\<close>

definition get_message_with_sender :: "uuid \<Rightarrow> files \<Rightarrow> message option" where
  "get_message_with_sender i s =
     fetch_optional (\<lambda>m. msg_id m = i \<and> msg_sender m \<in> set (users (base s))) (messages (base s))"

definition parts_of :: "uuid \<Rightarrow> files \<Rightarrow> message_part list" where
  "parts_of i s = sort_key mp_position (filter (\<lambda>p. mp_message p = i) (message_parts s))"

end
