(* ===== verification/MultipartPlan.thy ===== *)
theory MultipartPlan
  imports AppErrors "HOL-Library.Signed_Division"
begin

text \<open>
  \<open>api/src/services/multipart_upload.rs\<close>: how a large file is cut into parts.  An \<open>i64\<close> is an
  \<open>int\<close> whose arithmetic wraps, as in a release build (\<open>wrap64\<close>); division truncates; \<open>as i32\<close> keeps
  the low 32 bits.  The loop that enlarges the parts has no bound in the code: it is a
  \<open>partial_function\<close>, and \<open>None\<close> would mean that it does not return.
\<close>

section \<open>Machine arithmetic\<close>

definition wrap64 :: "int \<Rightarrow> int" where
  "wrap64 n = (n + 2 ^ 63) mod 2 ^ 64 - 2 ^ 63"

definition as_i32 :: "int \<Rightarrow> int" where
  "as_i32 n = (n + 2 ^ 31) mod 2 ^ 32 - 2 ^ 31"

definition saturating_add :: "int \<Rightarrow> int \<Rightarrow> int" where
  "saturating_add a b = max (- (2 ^ 63)) (min (2 ^ 63 - 1) (a + b))"

lemma wrap64_id: "in_i64 n \<Longrightarrow> wrap64 n = n"
  by (simp add: wrap64_def in_i64_def)

lemma wrap64_range: "in_i64 (wrap64 n)"
proof -
  have "0 \<le> (n + 2 ^ 63) mod 2 ^ 64" "(n + 2 ^ 63) mod 2 ^ 64 < 2 ^ 64" by simp_all
  then show ?thesis by (simp add: wrap64_def in_i64_def)
qed

lemma wrap64_over:
  assumes "2 ^ 63 \<le> n" "n < 2 ^ 64 + 2 ^ 63"
  shows "wrap64 n = n - 2 ^ 64"
proof -
  have "(n + 2 ^ 63) mod 2 ^ 64 = (n + 2 ^ 63 - 2 ^ 64) mod (2 ^ 64 :: int)"
    by (rule minus_mod_self2 [symmetric])
  also have "\<dots> = n + 2 ^ 63 - 2 ^ 64" using assms by (intro mod_pos_pos_trivial) simp_all
  finally show ?thesis by (simp add: wrap64_def)
qed

lemma wrap64_pred: "wrap64 (wrap64 n - 1) = wrap64 (n - 1)"
proof -
  have "wrap64 n - 1 + 2 ^ 63 = (n + 2 ^ 63) mod 2 ^ 64 - 1" by (simp add: wrap64_def)
  then show ?thesis by (simp only: wrap64_def mod_diff_left_eq) (simp add: algebra_simps)
qed

lemma as_i32_id: "- (2 ^ 31) \<le> n \<Longrightarrow> n < 2 ^ 31 \<Longrightarrow> as_i32 n = n"
  by (simp add: as_i32_def)

lemma sdiv_pos: "0 \<le> n \<Longrightarrow> 0 < d \<Longrightarrow> (n :: int) sdiv d = n div d"
  by (cases "n = 0") (simp_all add: signed_divide_int_def)

lemma sdiv_neg: "n < 0 \<Longrightarrow> 0 < d \<Longrightarrow> (n :: int) sdiv d \<le> 0"
  by (simp add: signed_divide_int_def pos_imp_zdiv_nonneg_iff)

section \<open>The plan\<close>

definition multipart_threshold_bytes :: int where "multipart_threshold_bytes = 5 * 1024 * 1024"
definition default_part_size_bytes :: int where "default_part_size_bytes = 8 * 1024 * 1024"
definition min_part_size_bytes :: int where "min_part_size_bytes = 1 * 1024 * 1024"
definition max_parts :: int where "max_parts = 10000"

lemmas part_constants =
  multipart_threshold_bytes_def default_part_size_bytes_def min_part_size_bytes_def max_parts_def

definition div_ceil_i64 :: "int \<Rightarrow> int \<Rightarrow> int" where
  "div_ceil_i64 n d = (if d \<le> 0 then 0 else wrap64 (wrap64 (n + d) - 1) sdiv d)"

definition round_up_to_multiple :: "int \<Rightarrow> int \<Rightarrow> int" where
  "round_up_to_multiple value multiple =
     (if multiple \<le> 0 then value
      else wrap64 ((wrap64 (wrap64 (value + multiple) - 1) sdiv multiple) * multiple))"

text \<open>The loop \<open>while total_parts > MAX_PARTS\<close>.\<close>

partial_function (option) enlarge :: "int \<Rightarrow> int \<Rightarrow> int \<Rightarrow> (int \<times> int) option" where
  "enlarge file_size part_size total_parts =
     (if total_parts > max_parts then
        let p = saturating_add part_size min_part_size_bytes
        in enlarge file_size p (div_ceil_i64 file_size p)
      else Some (part_size, total_parts))"

definition first_plan :: "int \<Rightarrow> int \<times> int" where
  "first_plan file_size =
     (let part_size = max default_part_size_bytes min_part_size_bytes;
          part_size = round_up_to_multiple part_size min_part_size_bytes;
          total_parts = div_ceil_i64 file_size part_size
      in if total_parts > max_parts then
           let min_required = max (div_ceil_i64 file_size max_parts) min_part_size_bytes;
               part_size = round_up_to_multiple min_required min_part_size_bytes
           in (part_size, div_ceil_i64 file_size part_size)
         else (part_size, total_parts))"

definition plan_multipart_upload :: "int \<Rightarrow> (int \<times> int) result option" where
  "plan_multipart_upload file_size =
     (if file_size \<le> 0 then Some (Inl (ValidationError ''file_size''))
      else if file_size \<le> multipart_threshold_bytes then Some (Inl (ValidationError ''not multipart''))
      else
        let (part_size, total_parts) = first_plan file_size
        in case enlarge file_size part_size total_parts of
             None \<Rightarrow> None
           | Some (part_size, total_parts) \<Rightarrow>
               if part_size > 2 ^ 31 - 1 \<or> total_parts > 2 ^ 31 - 1
               then Some (Inl (ValidationError ''file too large''))
               else Some (Inr (as_i32 part_size, as_i32 total_parts)))"

section \<open>Ceilings\<close>

lemma ceil_bounds:
  assumes "0 < (d :: int)"
  shows "n \<le> (n + d - 1) div d * d" "((n + d - 1) div d - 1) * d < n"
proof -
  have "(n + d - 1) div d * d = n + d - 1 - (n + d - 1) mod d" by (rule minus_mod_eq_div_mult [symmetric])
  moreover have "0 \<le> (n + d - 1) mod d" "(n + d - 1) mod d < d" using assms by simp_all
  ultimately show "n \<le> (n + d - 1) div d * d" "((n + d - 1) div d - 1) * d < n"
    by (auto simp: left_diff_distrib)
qed

lemma ceil_le_iff: "0 < (d :: int) \<Longrightarrow> (n + d - 1) div d \<le> k \<longleftrightarrow> n \<le> k * d"
proof
  assume d: "0 < d" and le: "(n + d - 1) div d \<le> k"
  have "(n + d - 1) div d * d \<le> k * d" using d le by simp
  with ceil_bounds(1) [OF d, of n] show "n \<le> k * d" by simp
next
  assume d: "0 < d" and le: "n \<le> k * d"
  have "((n + d - 1) div d - 1) * d < n" by (rule ceil_bounds(2) [OF d])
  then have "((n + d - 1) div d - 1) * d < k * d" using le by linarith
  then have "(n + d - 1) div d - 1 < k" using d by (simp only: mult_less_cancel_right_pos)
  then show "(n + d - 1) div d \<le> k" by simp
qed

lemma div_ceil_exact:
  "0 \<le> n \<Longrightarrow> 0 < d \<Longrightarrow> n + d \<le> 2 ^ 63 \<Longrightarrow> div_ceil_i64 n d = (n + d - 1) div d"
  by (simp add: div_ceil_i64_def wrap64_pred wrap64_id in_i64_def sdiv_pos)

lemma div_ceil_overflow:
  "2 ^ 63 < n + d \<Longrightarrow> n < 2 ^ 63 \<Longrightarrow> 0 < d \<Longrightarrow> d < 2 ^ 63 \<Longrightarrow> div_ceil_i64 n d \<le> 0"
  by (simp add: div_ceil_i64_def wrap64_pred) (intro sdiv_neg; simp add: wrap64_over)

lemma div_ceil_le:
  assumes "0 < n" "n < 2 ^ 63" "0 < d" "d < 2 ^ 63" "n \<le> k * d" "0 \<le> k"
  shows "div_ceil_i64 n d \<le> k"
proof (cases "n + d \<le> 2 ^ 63")
  case True
  with assms show ?thesis by (simp add: div_ceil_exact ceil_le_iff)
next
  case False
  then have "div_ceil_i64 n d \<le> 0" using assms by (intro div_ceil_overflow) simp_all
  with assms(6) show ?thesis by simp
qed

lemma round_up_exact:
  assumes "0 < v" "v + min_part_size_bytes < 2 ^ 63"
  shows "round_up_to_multiple v min_part_size_bytes
     = (v + min_part_size_bytes - 1) div min_part_size_bytes * min_part_size_bytes"
proof -
  let ?q = "(v + min_part_size_bytes - 1) div min_part_size_bytes"
  have m: "0 < min_part_size_bytes" by (simp add: part_constants)
  have "(?q - 1) * min_part_size_bytes < v" "v \<le> ?q * min_part_size_bytes"
    using ceil_bounds [OF m, of v] by simp_all
  then have "in_i64 (?q * min_part_size_bytes)" using assms by (simp add: in_i64_def left_diff_distrib)
  with assms m show ?thesis
    by (simp add: round_up_to_multiple_def wrap64_pred wrap64_id in_i64_def sdiv_pos)
qed

section \<open>The loop\<close>

lemma enlarge_stops [simp]: "t \<le> max_parts \<Longrightarrow> enlarge n p t = Some (p, t)"
  by (simp add: enlarge.simps [of n p t])

lemma enlarge_step:
  "\<not> t \<le> max_parts \<Longrightarrow> enlarge n p t = enlarge n (saturating_add p min_part_size_bytes)
     (div_ceil_i64 n (saturating_add p min_part_size_bytes))"
  by (simp add: enlarge.simps [of n p t] Let_def)

text \<open>Saturation stops the loop at the latest: one part of the largest size holds any file.\<close>

lemma enlarge_returns:
  assumes "0 < n" "n < 2 ^ 63" "0 < p" "p < 2 ^ 63"
  shows "\<exists>q u. enlarge n p t = Some (q, u) \<and> p \<le> q \<and> q < 2 ^ 63 \<and> u \<le> max_parts"
  using assms(3,4)
proof (induction "nat (2 ^ 63 - p)" arbitrary: p t rule: less_induct)
  case less
  show ?case
  proof (cases "t \<le> max_parts")
    case False
    let ?p = "saturating_add p min_part_size_bytes"
    have p: "0 < ?p" "?p < 2 ^ 63" "p \<le> ?p" using less.prems
      by (simp_all add: saturating_add_def part_constants)
    show ?thesis
    proof (cases "?p = p")
      case True
      then have "p = 2 ^ 63 - 1" using less.prems by (auto simp: saturating_add_def part_constants)
      then have "div_ceil_i64 n ?p \<le> 1" using assms True by (intro div_ceil_le) simp_all
      then show ?thesis using False less.prems p by (simp add: enlarge_step [of t] part_constants)
    next
      case diff: False
      then have "nat (2 ^ 63 - ?p) < nat (2 ^ 63 - p)" using p by simp
      from less.hyps [OF this p(1,2), of "div_ceil_i64 n ?p"] obtain q u where
        "enlarge n ?p (div_ceil_i64 n ?p) = Some (q, u)" "?p \<le> q" "q < 2 ^ 63" "u \<le> max_parts" by blast
      then show ?thesis using p(3) False by (simp add: enlarge_step [of t])
    qed
  qed (use less.prems in simp)
qed

section \<open>What the plan guarantees\<close>

lemma default_rounded:
  "round_up_to_multiple (max default_part_size_bytes min_part_size_bytes) min_part_size_bytes
     = default_part_size_bytes"
  by code_simp

lemma first_plan_eq:
  "first_plan n =
     (if div_ceil_i64 n default_part_size_bytes \<le> max_parts
      then (default_part_size_bytes, div_ceil_i64 n default_part_size_bytes)
      else let p = round_up_to_multiple (max (div_ceil_i64 n max_parts) min_part_size_bytes) min_part_size_bytes
           in (p, div_ceil_i64 n p))"
  by (simp only: first_plan_def Let_def default_rounded not_le [symmetric] if_not_P split: if_split) auto

lemma part_bounds:
  "0 < default_part_size_bytes" "default_part_size_bytes < 2 ^ 63" "0 < max_parts"
  "max_parts * default_part_size_bytes + default_part_size_bytes \<le> 2 ^ 63"
  by (simp_all add: part_constants)

lemma first_plan_small:
  assumes "0 < n" "n \<le> max_parts * default_part_size_bytes"
  shows "first_plan n = (default_part_size_bytes, (n + default_part_size_bytes - 1) div default_part_size_bytes)"
    "(n + default_part_size_bytes - 1) div default_part_size_bytes \<le> max_parts"
proof -
  show le: "(n + default_part_size_bytes - 1) div default_part_size_bytes \<le> max_parts"
    using assms part_bounds(1) by (simp only: ceil_le_iff)
  have "div_ceil_i64 n default_part_size_bytes = (n + default_part_size_bytes - 1) div default_part_size_bytes"
    using assms part_bounds by (intro div_ceil_exact) linarith+
  with le show "first_plan n = (default_part_size_bytes, (n + default_part_size_bytes - 1) div default_part_size_bytes)"
    by (simp only: first_plan_eq if_True)
qed

lemma first_plan_overflow:
  assumes "2 ^ 63 < n + default_part_size_bytes" "n < 2 ^ 63"
  shows "first_plan n = (default_part_size_bytes, div_ceil_i64 n default_part_size_bytes)"
    "div_ceil_i64 n default_part_size_bytes \<le> 0"
proof -
  show le: "div_ceil_i64 n default_part_size_bytes \<le> 0"
    using assms part_bounds by (intro div_ceil_overflow)
  then have "div_ceil_i64 n default_part_size_bytes \<le> max_parts" using part_bounds(3) by linarith
  then show "first_plan n = (default_part_size_bytes, div_ceil_i64 n default_part_size_bytes)"
    by (simp only: first_plan_eq if_True)
qed

text \<open>The least multiple of 1 MB that cuts the file into at most 10 000 parts.\<close>

definition least_part_size :: "int \<Rightarrow> int" where
  "least_part_size n = round_up_to_multiple ((n + max_parts - 1) div max_parts) min_part_size_bytes"

lemma least_part_size:
  assumes "max_parts * default_part_size_bytes < n" "n < 2 ^ 63"
  shows "default_part_size_bytes < least_part_size n" "least_part_size n < 2 ^ 63"
    "min_part_size_bytes dvd least_part_size n" "n \<le> max_parts * least_part_size n"
    "min_part_size_bytes dvd p \<Longrightarrow> n \<le> max_parts * p \<Longrightarrow> least_part_size n \<le> p"
proof -
  let ?m = min_part_size_bytes
  define c where "c = (n + max_parts - 1) div max_parts"
  have k: "0 < max_parts" "0 < ?m" by (simp_all add: part_constants)
  have c: "c \<le> x \<longleftrightarrow> n \<le> x * max_parts" for x unfolding c_def by (rule ceil_le_iff [OF k(1)])
  have big: "default_part_size_bytes < c" using assms(1) c [of default_part_size_bytes] by (simp add: mult.commute)
  have small: "c < 2 ^ 50" using assms(2) c [of "2 ^ 50 - 1"] by (simp add: part_constants)
  have l: "least_part_size n = (c + ?m - 1) div ?m * ?m"
    unfolding least_part_size_def c_def [symmetric]
    using big small by (intro round_up_exact) (simp_all add: part_constants)
  have up: "c \<le> least_part_size n" unfolding l by (rule ceil_bounds(1) [OF k(2)])
  then show "n \<le> max_parts * least_part_size n" using c by (simp add: mult.commute)
  show "default_part_size_bytes < least_part_size n" using up big by simp
  show "?m dvd least_part_size n" by (simp add: l)
  have "((c + ?m - 1) div ?m - 1) * ?m < c" by (rule ceil_bounds(2) [OF k(2)])
  then show "least_part_size n < 2 ^ 63" using small by (simp add: l left_diff_distrib part_constants)
  show "least_part_size n \<le> p" if p: "?m dvd p" "n \<le> max_parts * p"
  proof -
    from p(1) obtain q where q: "p = q * ?m" by (auto simp: dvd_def mult.commute)
    from p(2) have "c \<le> p" by (simp add: c mult.commute)
    then have "(c + ?m - 1) div ?m \<le> q" using k(2) by (simp add: ceil_le_iff q)
    then show ?thesis using k(2) by (simp add: l q)
  qed
qed

lemma first_plan_large:
  assumes "max_parts * default_part_size_bytes < n" "n + default_part_size_bytes \<le> 2 ^ 63"
  shows "first_plan n = (least_part_size n, div_ceil_i64 n (least_part_size n))"
    "div_ceil_i64 n (least_part_size n) \<le> max_parts"
proof -
  have n: "0 < n" "n < 2 ^ 63" using assms by (simp_all add: part_constants)
  have "div_ceil_i64 n default_part_size_bytes = (n + default_part_size_bytes - 1) div default_part_size_bytes"
    using assms n part_bounds by (intro div_ceil_exact) linarith+
  then have "\<not> div_ceil_i64 n default_part_size_bytes \<le> max_parts"
    using assms(1) part_bounds(1) by (simp only: ceil_le_iff not_le)
  moreover have "div_ceil_i64 n max_parts = (n + max_parts - 1) div max_parts"
    using assms n by (intro div_ceil_exact) (simp_all add: part_constants)
  moreover have "min_part_size_bytes \<le> (n + max_parts - 1) div max_parts"
    using assms ceil_le_iff [of max_parts n min_part_size_bytes] by (simp add: part_constants)
  ultimately show "first_plan n = (least_part_size n, div_ceil_i64 n (least_part_size n))"
    by (simp only: first_plan_eq least_part_size_def max_absorb1 Let_def if_False)
  show "div_ceil_i64 n (least_part_size n) \<le> max_parts"
    using least_part_size [OF assms(1) n(2)] n part_bounds
    by (intro div_ceil_le) (simp_all add: mult.commute)
qed

lemma first_plan_bounded:
  assumes "0 < n" "n < 2 ^ 63"
  shows "snd (first_plan n) \<le> max_parts"
proof -
  consider "n \<le> max_parts * default_part_size_bytes" | "2 ^ 63 < n + default_part_size_bytes"
    | "max_parts * default_part_size_bytes < n" "n + default_part_size_bytes \<le> 2 ^ 63" by linarith
  then show ?thesis
  proof cases
    case 1
    with first_plan_small [OF assms(1)] show ?thesis by simp
  next
    case 2
    with first_plan_overflow [OF 2 assms(2)] part_bounds(3) show ?thesis by simp
  next
    case 3
    with first_plan_large show ?thesis by simp
  qed
qed

lemma plan_eq:
  assumes "multipart_threshold_bytes < n" "n < 2 ^ 63"
  shows "plan_multipart_upload n =
     (let (p, t) = first_plan n
      in Some (if p > 2 ^ 31 - 1 \<or> t > 2 ^ 31 - 1 then Inl (ValidationError ''file too large'')
               else Inr (as_i32 p, as_i32 t)))"
proof -
  have n: "0 < n" using assms(1) by (simp add: part_constants)
  obtain p t where pt: "first_plan n = (p, t)" by fastforce
  then have "t \<le> max_parts" using first_plan_bounded [OF n assms(2)] by simp
  with pt n assms(1) show ?thesis by (simp add: plan_multipart_upload_def)
qed

lemma plan_ok:
  assumes "multipart_threshold_bytes < n" "n < 2 ^ 63" "first_plan n = (p, t)"
    "0 < p" "p \<le> 2 ^ 31 - 1" "1 \<le> t" "t \<le> max_parts"
  shows "plan_multipart_upload n = Some (Inr (p, t))"
proof -
  have "t \<le> 2 ^ 31 - 1" using assms(7) by (simp add: part_constants)
  with assms show ?thesis by (simp add: plan_eq as_i32_id)
qed

text \<open>The largest file a plan exists for: 10 000 parts of the largest whole number of MB below 2 GB.\<close>

definition largest_file :: int where
  "largest_file = max_parts * (2047 * min_part_size_bytes)"

lemma ceil_plan:
  assumes "0 < n" "0 < p" "(n + p - 1) div p \<le> max_parts"
  shows "let t = (n + p - 1) div p in 1 \<le> t \<and> t \<le> max_parts \<and> (t - 1) * p < n \<and> n \<le> t * p"
proof -
  have "0 < (n + p - 1) div p" using assms(1) ceil_le_iff [OF assms(2), of n 0] by simp
  then show ?thesis using assms(3) ceil_bounds [OF assms(2), of n] by simp
qed

lemma small_plan:
  assumes n: "multipart_threshold_bytes < n" "n \<le> max_parts * default_part_size_bytes"
  shows "\<exists>p t. plan_multipart_upload n = Some (Inr (p, t)) \<and> min_part_size_bytes dvd p
     \<and> 0 < p \<and> 1 \<le> t \<and> t \<le> max_parts \<and> (t - 1) * p < n \<and> n \<le> t * p"
proof -
  let ?d = default_part_size_bytes
  let ?t = "(n + ?d - 1) div ?d"
  have n': "0 < n" "n < 2 ^ 63" using n by (simp_all add: part_constants)
  note first = first_plan_small [OF n'(1) n(2)]
  have t: "let t = ?t in 1 \<le> t \<and> t \<le> max_parts \<and> (t - 1) * ?d < n \<and> n \<le> t * ?d"
    using first(2) n'(1) part_bounds(1) by (intro ceil_plan)
  have "?d \<le> 2 ^ 31 - 1" by (simp add: part_constants)
  then have "plan_multipart_upload n = Some (Inr (?d, ?t))"
    using t part_bounds(1) unfolding Let_def by (intro plan_ok [OF n(1) n'(2) first(1)]) blast+
  moreover have "min_part_size_bytes dvd ?d" by (simp add: part_constants)
  ultimately show ?thesis using t part_bounds(1) unfolding Let_def by blast
qed

lemma large_plan:
  assumes n: "max_parts * default_part_size_bytes < n" "n + default_part_size_bytes \<le> 2 ^ 63"
  shows "if n \<le> largest_file
    then \<exists>p t. plan_multipart_upload n = Some (Inr (p, t)) \<and> min_part_size_bytes dvd p
      \<and> 0 < p \<and> 1 \<le> t \<and> t \<le> max_parts \<and> (t - 1) * p < n \<and> n \<le> t * p
    else plan_multipart_upload n = Some (Inl (ValidationError ''file too large''))"
proof -
  define p where "p = least_part_size n"
  have n': "0 < n" "n < 2 ^ 63" "multipart_threshold_bytes < n" using n by (simp_all add: part_constants)
  note p = least_part_size [OF n(1) n'(2), folded p_def]
  note first = first_plan_large [OF n, folded p_def]
  have pos: "0 < p" using p(1) part_bounds(1) by linarith
  have t': "div_ceil_i64 n p \<le> 2 ^ 31 - 1" using first(2) by (simp add: part_constants)
  show ?thesis
  proof (cases "n \<le> largest_file")
    case True
    then have le: "p \<le> 2047 * min_part_size_bytes"
      by (intro p(5)) (simp_all add: largest_file_def)
    then have small: "p \<le> 2 ^ 31 - 1" by (simp add: part_constants)
    have t: "div_ceil_i64 n p = (n + p - 1) div p"
      using True le pos n'(1) by (intro div_ceil_exact) (simp_all add: largest_file_def part_constants)
    have c: "let t = (n + p - 1) div p in 1 \<le> t \<and> t \<le> max_parts \<and> (t - 1) * p < n \<and> n \<le> t * p"
      using first(2) n'(1) pos unfolding t by (intro ceil_plan)
    have "plan_multipart_upload n = Some (Inr (p, (n + p - 1) div p))"
      using small pos c unfolding Let_def
      by (intro plan_ok [OF n'(3,2) first(1) [unfolded t]]) blast+
    then show ?thesis using True c p(3) pos unfolding Let_def by (simp only: if_True) blast
  next
    case False
    have "\<not> p \<le> 2047 * min_part_size_bytes"
      using False p(4) by (simp add: largest_file_def part_constants)
    moreover obtain q where q: "p = q * min_part_size_bytes" using p(3) by (auto simp: dvd_def mult.commute)
    ultimately have "2 ^ 31 - 1 < p" by (simp add: part_constants)
    then show ?thesis using False n' first(1) by (simp add: plan_eq)
  qed
qed

text \<open>
  C29: The loop that enlarges the parts always ends: from any positive part size and any number of
  parts, it returns after finitely many rounds, with parts no smaller than before and at most
  10 000 of them, even where adding to the part size or computing the number of parts overflows.
\<close>

theorem part_loop_returns:
  assumes "0 < n" "in_i64 n" "0 < p" "in_i64 p"
  shows "\<exists>q u. enlarge n p t = Some (q, u) \<and> p \<le> q \<and> in_i64 q \<and> u \<le> max_parts"
proof -
  obtain q u where q: "enlarge n p t = Some (q, u)" "p \<le> q" "q < 2 ^ 63" "u \<le> max_parts"
    using enlarge_returns [of n p t] assms by (auto simp: in_i64_def)
  then have "in_i64 q" using assms(3) by (simp add: in_i64_def)
  with q show ?thesis by blast
qed

theorem part_loop_returns_witness:
  "\<exists>q u. enlarge (2 ^ 63 - 1) 1048576 20000 = Some (q, u) \<and> 1048576 \<le> q \<and> in_i64 q \<and> u \<le> max_parts"
  by (rule part_loop_returns) (simp_all add: in_i64_def)

text \<open>
  A plan exists exactly for the files above 5 MB and up to 10 000 parts of 2047 MB, and it
  fits the file: the parts are a positive whole number of MB, there are between 1 and 10 000 of
  them, they cover the file, and the last one is not empty.  The planner always returns.
\<close>

lemma plan_fits_file:
  assumes "n + default_part_size_bytes \<le> 2 ^ 63"
  shows "if multipart_threshold_bytes < n \<and> n \<le> largest_file
    then \<exists>p t. plan_multipart_upload n = Some (Inr (p, t)) \<and> min_part_size_bytes dvd p
      \<and> 0 < p \<and> 1 \<le> t \<and> t \<le> max_parts \<and> (t - 1) * p < n \<and> n \<le> t * p
    else \<exists>e. plan_multipart_upload n = Some (Inl (ValidationError e))"
proof (cases "multipart_threshold_bytes < n")
  case False
  then show ?thesis by (simp add: plan_multipart_upload_def)
next
  case over: True
  show ?thesis
  proof (cases "n \<le> max_parts * default_part_size_bytes")
    case True
    then have "n \<le> largest_file" by (simp add: largest_file_def part_constants)
    then show ?thesis using small_plan [OF over True] over by (simp only: simp_thms if_True)
  next
    case False
    then have "max_parts * default_part_size_bytes < n" by (simp only: not_le)
    from large_plan [OF this assms] over show ?thesis
      by (cases "n \<le> largest_file") (simp_all only: simp_thms if_True if_False, blast)
  qed
qed

text \<open>
  Within 8 MB of the largest \<open>i64\<close> the sum in the ceiling wraps around: instead of an error, a
  file of the largest size gets a plan of one part of 8 MB (a debug build panics).
\<close>

lemma plan_wraps_around:
  "plan_multipart_upload (2 ^ 63 - 1) = Some (Inr (8 * 1024 * 1024, 1))"
proof -
  have "first_plan (2 ^ 63 - 1) = (8 * 1024 * 1024, - (2 ^ 40) + 1)" by code_simp
  moreover have "as_i32 (- (2 ^ 40) + 1) = 1" "as_i32 (8 * 1024 * 1024) = 8 * 1024 * 1024" by code_simp+
  ultimately show ?thesis by (simp add: plan_eq part_constants)
qed

end
