(* ===== verification/UploadSessions.thy ===== *)
theory UploadSessions
  imports Files MultipartPlan "HOL-Library.AList"
begin

text \<open>
  Uploads in parts: \<open>api/src/database/file_upload_multipart_store.rs\<close>, the handlers of
  \<open>api/src/handlers/multipart_upload.rs\<close> over it, and \<open>upsert_task\<close> of
  \<open>file_upload_audit_store.rs\<close>, which the last of them calls.  A session is open until it is
  completed or aborted.  The session id and the user id arrive as what the UUID parser makes of the
  path and of the token.
\<close>

section \<open>The store\<close>

definition open_session :: "uuid \<Rightarrow> upload_session \<Rightarrow> bool" where
  "open_session i x \<longleftrightarrow> us_id x = i \<and> us_status x = SessionOpen"

definition create_session ::
  "uuid \<Rightarrow> uuid \<Rightarrow> string \<Rightarrow> string \<Rightarrow> uuid \<Rightarrow> bool \<Rightarrow> int option \<Rightarrow> string option \<Rightarrow> int \<Rightarrow> int
     \<Rightarrow> files \<Rightarrow> sqlx_error + (upload_session \<times> files)" where
  "create_session new_id provider k upload creator is_admin sz ctype part_size total_parts s =
     (if exists_row (\<lambda>x. us_id x = new_id) (upload_sessions s)
         \<or> exists_row (\<lambda>x. us_provider x = provider \<and> us_key x = k \<and> us_upload x = upload) (upload_sessions s)
      then Inl UniqueViolation
      else if \<not> exists_row (\<lambda>p. sp_id p = provider) (providers s) then Inl ForeignKeyViolation
      else
        let x = \<lparr>us_id = new_id, us_provider = provider, us_key = k, us_upload = upload,
                 us_creator = creator, us_admin = is_admin, us_size = sz, us_ctype = ctype,
                 us_part_size = part_size, us_total = total_parts, us_parts = [],
                 us_status = SessionOpen, us_completed = None\<rparr>
        in Inr (x, s\<lparr>upload_sessions := upload_sessions s @ [x]\<rparr>))"

definition get_session :: "uuid \<Rightarrow> files \<Rightarrow> upload_session option" where
  "get_session i s = fetch_optional (\<lambda>x. us_id x = i) (upload_sessions s)"

text \<open>The three updates name only open sessions; their result is \<open>rows_affected() > 0\<close>.\<close>

definition update_session :: "uuid \<Rightarrow> (upload_session \<Rightarrow> upload_session) \<Rightarrow> files \<Rightarrow> bool \<times> files" where
  "update_session i f s =
     (exists_row (open_session i) (upload_sessions s),
      s\<lparr>upload_sessions := update_where (open_session i) f (upload_sessions s)\<rparr>)"

definition upsert_part_etag :: "uuid \<Rightarrow> int \<Rightarrow> string \<Rightarrow> files \<Rightarrow> bool \<times> files" where
  "upsert_part_etag i n etag = update_session i (\<lambda>x. x\<lparr>us_parts := AList.update n etag (us_parts x)\<rparr>)"

definition mark_completed :: "instant \<Rightarrow> uuid \<Rightarrow> (int \<times> string) list option \<Rightarrow> files \<Rightarrow> bool \<times> files" where
  "mark_completed now i parts = update_session i (\<lambda>x. x\<lparr>us_status := SessionCompleted,
     us_parts := (case parts of Some ps \<Rightarrow> ps | None \<Rightarrow> us_parts x),
     us_completed := Some (case us_completed x of Some t \<Rightarrow> t | None \<Rightarrow> now)\<rparr>)"

definition mark_aborted :: "uuid \<Rightarrow> files \<Rightarrow> bool \<times> files" where
  "mark_aborted i = update_session i (\<lambda>x. x\<lparr>us_status := SessionAborted\<rparr>)"

definition same_task :: "uuid \<Rightarrow> string \<Rightarrow> audit_task \<Rightarrow> bool" where
  "same_task p k a \<longleftrightarrow> at_provider a = p \<and> at_key a = k"

definition or_else :: "'a option \<Rightarrow> 'a option \<Rightarrow> 'a option" where
  "or_else a b = (case a of Some _ \<Rightarrow> a | None \<Rightarrow> b)"

definition upsert_task ::
  "uuid \<Rightarrow> uuid \<Rightarrow> string \<Rightarrow> string \<Rightarrow> string \<Rightarrow> string option \<Rightarrow> int option \<Rightarrow> instant \<Rightarrow> files
     \<Rightarrow> sqlx_error + (unit \<times> files)" where
  "upsert_task new_id p k scene kind ctype sz now s =
     (if exists_row (same_task p k) (audit_tasks s)
      then Inr ((), s\<lparr>audit_tasks := update_where (same_task p k)
        (\<lambda>a. a\<lparr>at_scene := scene,
               at_kind := (if at_kind a = ''unknown'' \<and> kind \<noteq> ''unknown'' then kind else at_kind a),
               at_ctype := or_else (at_ctype a) ctype, at_size := or_else (at_size a) sz\<rparr>) (audit_tasks s)\<rparr>)
      else if \<not> exists_row (\<lambda>q. sp_id q = p) (providers s) then Inl ForeignKeyViolation
      else if exists_row (\<lambda>a. at_id a = new_id) (audit_tasks s) then Inl UniqueViolation
      else Inr ((), s\<lparr>audit_tasks := audit_tasks s @
        [\<lparr>at_id = new_id, at_provider = p, at_key = k, at_scene = scene, at_kind = kind, at_ctype = ctype,
          at_size = sz, at_status = AuditQueued, at_job = None, at_rejected = None, at_attempts = 0,
          at_next = now, at_error = None, at_audited = None, at_created = now\<rparr>]\<rparr>))"

section \<open>What kind of file a key names\<close>

fun contains :: "string \<Rightarrow> string \<Rightarrow> bool" where
  "contains [] p = (p = [])"
| "contains (c # s) p = (starts_with (c # s) p \<or> contains s p)"

definition infer_media_kind_from_message_attachment_object_key :: "string \<Rightarrow> string" where
  "infer_media_kind_from_message_attachment_object_key key =
     (let t = trim key in
      if contains t ''/images_'' then ''image''
      else if contains t ''/videos_'' then ''video''
      else if contains t ''/audios_'' then ''audio''
      else if contains t ''/files_'' then ''document''
      else ''unknown'')"

definition infer_audit_scene_from_object_key :: "string \<Rightarrow> string" where
  "infer_audit_scene_from_object_key object_key =
     (let key = trim object_key in
      if starts_with key ''messages/'' then ''message_attachment''
      else if starts_with key ''releases/'' then ''version''
      else if starts_with key ''reports/'' then ''report_attachment''
      else if starts_with key ''avatars/'' then ''avatar''
      else if starts_with key ''room_avatars/'' then ''room_avatar''
      else ''multipart_upload'')"

definition media_kind_of_type :: "string \<Rightarrow> string" where
  "media_kind_of_type content_type =
     (let ct = to_ascii_lowercase (trim content_type) in
      if starts_with ct ''image/'' then ''image''
      else if starts_with ct ''video/'' then ''video''
      else if starts_with ct ''audio/'' then ''audio''
      else if starts_with ct ''text/'' then ''text''
      else ''document'')"

definition infer_media_kind_from_object_key :: "string \<Rightarrow> string option \<Rightarrow> string" where
  "infer_media_kind_from_object_key object_key ctype =
     (case ctype of
        Some t \<Rightarrow> media_kind_of_type t
      | None \<Rightarrow>
          let key = trim object_key in
          if starts_with key ''messages/'' then infer_media_kind_from_message_attachment_object_key key
          else if starts_with key ''releases/'' then ''document''
          else if starts_with key ''reports/'' then ''image''
          else if starts_with key ''avatars/'' \<or> starts_with key ''room_avatars/'' then ''image''
          else ''unknown'')"

section \<open>The handlers\<close>

text \<open>The session a caller may use.\<close>

definition owned_session :: "uuid \<Rightarrow> uuid \<Rightarrow> bool \<Rightarrow> files \<Rightarrow> upload_session result" where
  "owned_session i requester is_admin s =
     (case get_session i s of
        None \<Rightarrow> Inl (NotFound ''upload session'')
      | Some x \<Rightarrow>
          if us_creator x \<noteq> requester \<or> us_admin x \<noteq> is_admin then Inl (Forbidden ''upload session'')
          else Inr x)"

definition path_id :: "uuid option \<Rightarrow> uuid result" where
  "path_id i = (case i of None \<Rightarrow> Inl (ValidationError ''session_id'') | Some u \<Rightarrow> Inr u)"

definition get_multipart_session ::
  "uuid option \<Rightarrow> uuid option \<Rightarrow> bool \<Rightarrow> files \<Rightarrow> upload_session result" where
  "get_multipart_session session_id sub is_admin s =
     and_then (path_id session_id) (\<lambda>i.
     and_then (claims_user_id sub) (\<lambda>requester. owned_session i requester is_admin s))"

definition check_part :: "upload_session \<Rightarrow> int \<Rightarrow> unit result" where
  "check_part x n =
     and_then (require (us_status x = SessionOpen) (ValidationError ''session has ended'')) (\<lambda>_.
       require (\<not> (us_total x > 0 \<and> n > us_total x)) (ValidationError ''part_number out of range''))"

definition active_provider :: "uuid \<Rightarrow> files \<Rightarrow> storage_provider result" where
  "active_provider i s =
     (case get_provider_by_id i s of
        None \<Rightarrow> Inl (NotFound ''storage provider'')
      | Some p \<Rightarrow> if sp_active p then Inr p else Inl (ValidationError ''provider inactive''))"

definition generate_multipart_part_signature ::
  "s3 \<Rightarrow> uuid option \<Rightarrow> uuid option \<Rightarrow> bool \<Rightarrow> int \<Rightarrow> files \<Rightarrow> string result" where
  "generate_multipart_part_signature sv session_id sub is_admin n s =
     and_then (path_id session_id) (\<lambda>i.
     and_then (require (n > 0) (ValidationError ''part_number'')) (\<lambda>_.
     and_then (claims_user_id sub) (\<lambda>requester.
     and_then (owned_session i requester is_admin s) (\<lambda>x.
     and_then (check_part x n) (\<lambda>_.
     and_then (active_provider (us_provider x) s) (\<lambda>p.
     and_then (create_storage_service sv p) (\<lambda>_.
       s3_sign_part sv (sp_id p) (us_key x) (us_upload x) n (us_ctype x))))))))"

definition commit_multipart_part ::
  "uuid option \<Rightarrow> uuid option \<Rightarrow> bool \<Rightarrow> int \<Rightarrow> string \<Rightarrow> files \<Rightarrow> unit result \<times> files" where
  "commit_multipart_part session_id sub is_admin n etag =
     with_value (path_id session_id) (\<lambda>i.
     with_value (require (n > 0) (ValidationError ''part_number'')) (\<lambda>_.
     with_value (require (trim etag \<noteq> []) (ValidationError ''etag'')) (\<lambda>_.
     with_value (claims_user_id sub) (\<lambda>requester.
     query (owned_session i requester is_admin) (\<lambda>x.
     with_value (check_part x n) (\<lambda>_ s.
       (Inr (), snd (upsert_part_etag i n (trim etag) s))))))))"

text \<open>\<open>sort_by_key\<close> is stable, \<open>dedup_by_key\<close> keeps the first of equal neighbours.\<close>

fun dedup_by :: "('a \<Rightarrow> 'b) \<Rightarrow> 'a list \<Rightarrow> 'a list" where
  "dedup_by f (x # y # xs) = (if f x = f y then dedup_by f (x # xs) else x # dedup_by f (y # xs))"
| "dedup_by f xs = xs"

definition checked_part :: "int \<times> string \<Rightarrow> (int \<times> string) result" where
  "checked_part = (\<lambda>(n, etag).
     and_then (require (n > 0) (ValidationError ''part_number'')) (\<lambda>_.
     and_then (require (trim etag \<noteq> []) (ValidationError ''etag'')) (\<lambda>_. Inr (n, trim etag))))"

definition complete_parts :: "int \<Rightarrow> (int \<times> string) list \<Rightarrow> unit result" where
  "complete_parts expected parts =
     (if expected > 0 then
        if int (length parts) \<noteq> expected then Inl (ValidationError ''number of parts'')
        else require (list_all (\<lambda>(idx, p). fst p = int idx + 1) (List.enumerate 0 parts))
          (ValidationError ''parts are not consecutive'')
      else Inr ())"

definition merge_parts ::
  "s3 \<Rightarrow> upload_session \<Rightarrow> uuid \<Rightarrow> (int \<times> string) list \<Rightarrow> files \<Rightarrow> unit result \<times> files" where
  "merge_parts sv x p parts s =
     (let (r, b) = s3_complete sv p (us_key x) (us_upload x) parts (bucket s) in (r, s\<lparr>bucket := b\<rparr>))"

definition complete_multipart_upload ::
  "s3 \<Rightarrow> instant \<Rightarrow> uuid \<Rightarrow> uuid option \<Rightarrow> uuid option \<Rightarrow> bool \<Rightarrow> (int \<times> string) list \<Rightarrow> files
     \<Rightarrow> unit result \<times> files" where
  "complete_multipart_upload sv now task_id session_id sub is_admin req_parts =
     with_value (path_id session_id) (\<lambda>i.
     with_value (require (req_parts \<noteq> []) (ValidationError ''parts'')) (\<lambda>_.
     with_value (claims_user_id sub) (\<lambda>requester.
     query (owned_session i requester is_admin) (\<lambda>x.
     with_value (require (us_status x = SessionOpen) (ValidationError ''session has ended'')) (\<lambda>_.
     with_value (collect checked_part req_parts) (\<lambda>listed.
     let parts = dedup_by fst (sort_key fst listed) in
     with_value (complete_parts (us_total x) parts) (\<lambda>_.
     query (active_provider (us_provider x)) (\<lambda>p.
     with_value (create_storage_service sv p) (\<lambda>_.
     run_then (merge_parts sv x (sp_id p) parts) (\<lambda>_ s.
       (let s1 = snd (mark_completed now i (Some parts) s);
            s2 = snd (mark_completed_by_key now (sp_id p) (us_key x) s1)
        in run_then (atomically (\<lambda>t. from_sqlx (upsert_task task_id (sp_id p) (us_key x)
               (infer_audit_scene_from_object_key (us_key x))
               (infer_media_kind_from_object_key (us_key x) (us_ctype x)) (us_ctype x) (us_size x) now t)))
             answer s2)))))))))))"

definition abort_multipart_upload ::
  "s3 \<Rightarrow> uuid option \<Rightarrow> uuid option \<Rightarrow> bool \<Rightarrow> files \<Rightarrow> unit result \<times> files" where
  "abort_multipart_upload sv session_id sub is_admin =
     with_value (path_id session_id) (\<lambda>i.
     with_value (claims_user_id sub) (\<lambda>requester.
     query (owned_session i requester is_admin) (\<lambda>x s.
       if us_status x \<noteq> SessionOpen then (Inr (), s)
       else
         query (active_provider (us_provider x)) (\<lambda>p.
         with_value (create_storage_service sv p) (\<lambda>_ s. (Inr (), snd (mark_aborted i s)))) s)))"

end
