(* ===== verification/RuntimeGate.thy ===== *)
theory RuntimeGate
  imports KeyPackages
begin

text \<open>
  The switch between plaintext and encrypted messaging: \<open>api/src/services/message_runtime.rs\<close>
  (the two settings), \<open>api/src/database/e2ee_runtime_store.rs\<close> and
  \<open>api/src/services/e2ee_runtime_gate.rs\<close> (the gate with its readiness check), the
  \<open>general_settings\<close> operations of \<open>api/src/database/settings_store.rs\<close>, and the admin handlers
  of \<open>api/src/handlers/settings.rs\<close>.  A store call that committed stays when a later one of the
  same handler fails, so handlers give a result and the state they leave.  The administrator id
  in \<open>updated_by\<close> stays a UUID where the code prints it.
\<close>

section \<open>The settings\<close>

definition storage_mode_key :: string where
  "storage_mode_key = ''message_server_storage_mode''"

definition audit_mode_key :: string where
  "audit_mode_key = ''message_content_audit_mode''"

datatype storage_mode = Persist | RelayOnly

datatype audit_mode = Plaintext | E2ee

fun storage_mode_str :: "storage_mode \<Rightarrow> string" where
  "storage_mode_str Persist = ''persist''"
| "storage_mode_str RelayOnly = ''relay_only''"

definition parse_storage_mode :: "string \<Rightarrow> storage_mode result" where
  "parse_storage_mode raw =
     (let s = to_ascii_lowercase (trim raw) in
      if s = ''persist'' then Inr Persist
      else if s = ''relay_only'' then Inr RelayOnly
      else Inl (ValidationError ''server_storage_mode''))"

fun audit_mode_str :: "audit_mode \<Rightarrow> string" where
  "audit_mode_str Plaintext = ''plaintext''"
| "audit_mode_str E2ee = ''e2ee''"

definition parse_audit_mode :: "string \<Rightarrow> audit_mode result" where
  "parse_audit_mode raw =
     (let s = to_ascii_lowercase (trim raw) in
      if s = ''plaintext'' then Inr Plaintext
      else if s = ''e2ee'' then Inr E2ee
      else Inl (ValidationError ''content_audit_mode''))"

record runtime_settings =
  rs_storage :: storage_mode
  rs_audit :: audit_mode
  rs_updated :: "instant option"
  rs_updated_by :: "uuid option"

definition default_runtime_settings :: runtime_settings where
  "default_runtime_settings =
     \<lparr>rs_storage = Persist, rs_audit = Plaintext, rs_updated = None, rs_updated_by = None\<rparr>"

definition is_relay_only :: "runtime_settings \<Rightarrow> bool" where
  "is_relay_only s \<longleftrightarrow> rs_storage s = RelayOnly"

definition ensure_plaintext_sending :: "runtime_settings \<Rightarrow> unit result" where
  "ensure_plaintext_sending s =
     (if rs_audit s = E2ee then Inl (MessageRuntimeConflict ''encrypted sending is on'') else Inr ())"

definition ensure_encrypted_sending :: "runtime_settings \<Rightarrow> unit result" where
  "ensure_encrypted_sending s =
     (if rs_audit s = Plaintext then Inl (MessageRuntimeConflict ''encrypted sending is off'') else Inr ())"

definition get_general_setting :: "string \<Rightarrow> db \<Rightarrow> general_setting option" where
  "get_general_setting key d = fetch_optional (\<lambda>g. gs_key g = key) (general_settings d)"

text \<open>\<open>INSERT ... ON CONFLICT (key) DO UPDATE\<close>.\<close>

definition upsert_general_setting :: "instant \<Rightarrow> string \<Rightarrow> string \<Rightarrow> uuid option \<Rightarrow> db \<Rightarrow> db" where
  "upsert_general_setting now key value by d =
     (if exists_row (\<lambda>g. gs_key g = key) (general_settings d)
      then d\<lparr>general_settings := update_where (\<lambda>g. gs_key g = key)
        (\<lambda>g. g\<lparr>gs_value := value, gs_updated := now, gs_updated_by := by\<rparr>) (general_settings d)\<rparr>
      else d\<lparr>general_settings := general_settings d @
        [\<lparr>gs_key = key, gs_value = value, gs_updated = now, gs_updated_by = by\<rparr>]\<rparr>)"

fun upsert_general_settings_atomic ::
  "instant \<Rightarrow> (string \<times> string) list \<Rightarrow> uuid option \<Rightarrow> db \<Rightarrow> db" where
  "upsert_general_settings_atomic now [] by d = d"
| "upsert_general_settings_atomic now ((key, value) # rest) by d =
     upsert_general_settings_atomic now rest by (upsert_general_setting now key value by d)"

definition merge_runtime_metadata ::
  "general_setting option \<Rightarrow> general_setting option \<Rightarrow> instant option \<times> uuid option" where
  "merge_runtime_metadata left right =
     (let chosen = (case (left, right) of
          (Some l, Some r) \<Rightarrow> if gs_updated l \<ge> gs_updated r then Some l else Some r
        | (Some l, None) \<Rightarrow> Some l
        | (None, Some r) \<Rightarrow> Some r
        | (None, None) \<Rightarrow> None)
      in (map_option gs_updated chosen, case chosen of None \<Rightarrow> None | Some g \<Rightarrow> gs_updated_by g))"

text \<open>\<open>.map(parse).transpose()?.unwrap_or(default)\<close>.\<close>

definition parse_setting :: "(string \<Rightarrow> 'm result) \<Rightarrow> 'm \<Rightarrow> general_setting option \<Rightarrow> 'm result" where
  "parse_setting parse dflt s = (case s of None \<Rightarrow> Inr dflt | Some g \<Rightarrow> parse (gs_value g))"

definition load_message_runtime_settings :: "db \<Rightarrow> runtime_settings result" where
  "load_message_runtime_settings d =
     (let server_storage = get_general_setting storage_mode_key d;
          content_audit = get_general_setting audit_mode_key d;
          (updated_at, updated_by) = merge_runtime_metadata server_storage content_audit
      in case parse_setting parse_storage_mode Persist server_storage of
        Inl e \<Rightarrow> Inl e
      | Inr storage \<Rightarrow>
     (case parse_setting parse_audit_mode Plaintext content_audit of
        Inl e \<Rightarrow> Inl e
      | Inr audit \<Rightarrow>
          Inr \<lparr>rs_storage = storage, rs_audit = audit, rs_updated = updated_at, rs_updated_by = updated_by\<rparr>))"

definition is_relay_only_runtime :: "db \<Rightarrow> bool result" where
  "is_relay_only_runtime d =
     (case load_message_runtime_settings d of Inl e \<Rightarrow> Inl e | Inr s \<Rightarrow> Inr (is_relay_only s))"

definition is_e2ee_runtime :: "db \<Rightarrow> bool result" where
  "is_e2ee_runtime d =
     (case parse_setting parse_audit_mode Plaintext (get_general_setting audit_mode_key d) of
        Inl e \<Rightarrow> Inl e
      | Inr m \<Rightarrow> Inr (m = E2ee))"

definition update_message_runtime_settings ::
  "instant \<Rightarrow> storage_mode \<Rightarrow> audit_mode \<Rightarrow> uuid option \<Rightarrow> db \<Rightarrow> runtime_settings result \<times> db" where
  "update_message_runtime_settings now storage audit by d =
     (let d' = upsert_general_settings_atomic now
          [(storage_mode_key, storage_mode_str storage), (audit_mode_key, audit_mode_str audit)] by d
      in (load_message_runtime_settings d', d'))"

section \<open>Versions\<close>

datatype ordering = OrdLess | OrdEqual | OrdGreater

definition cmp_int :: "int \<Rightarrow> int \<Rightarrow> ordering" where
  "cmp_int a b = (if a < b then OrdLess else if a = b then OrdEqual else OrdGreater)"

definition parse_version_parts :: "string \<Rightarrow> int list" where
  "parse_version_parts value =
     map (\<lambda>part. case parse_i64 (trim part) of None \<Rightarrow> - 1 | Some n \<Rightarrow> n) (split_on (CHR ''.'') value)"

definition part_or_zero :: "int list \<Rightarrow> nat \<Rightarrow> int" where
  "part_or_zero parts i = (if i < length parts then parts ! i else 0)"

text \<open>The loop \<open>for index in 0..length\<close> with its early return.\<close>

fun compare_at :: "int list \<Rightarrow> int list \<Rightarrow> nat list \<Rightarrow> ordering" where
  "compare_at left right [] = OrdEqual"
| "compare_at left right (i # is) =
     (let ordering = cmp_int (part_or_zero left i) (part_or_zero right i) in
      if ordering \<noteq> OrdEqual then ordering else compare_at left right is)"

definition compare_versions :: "string \<Rightarrow> string \<Rightarrow> ordering" where
  "compare_versions left right =
     (let left_parts = parse_version_parts left; right_parts = parse_version_parts right;
          len = max (length left_parts) (length right_parts)
      in compare_at left_parts right_parts [0..<len])"

section \<open>Readiness\<close>

text \<open>A \<open>BTreeMap<String, String>\<close> is the list of its entries.\<close>

definition default_min_client_versions :: "(string \<times> string) list" where
  "default_min_client_versions =
     [(''android'', ''0.1.0''), (''desktop'', ''0.1.0''), (''h5'', ''0.1.0''), (''ios'', ''0.1.0'')]"

fun string_entries :: "(string \<times> json) list \<Rightarrow> (string \<times> string) list" where
  "string_entries [] = []"
| "string_entries ((platform, v) # rest) =
     (case v of
        JString version \<Rightarrow>
          if trim version \<noteq> [] then (platform, version) # string_entries rest else string_entries rest
      | _ \<Rightarrow> string_entries rest)"

definition parse_min_client_versions :: "json \<Rightarrow> (string \<times> string) list" where
  "parse_min_client_versions value =
     (case value of
        JObject entries \<Rightarrow>
          let parsed = string_entries entries in
          if parsed = [] then default_min_client_versions else parsed
      | _ \<Rightarrow> default_min_client_versions)"

definition is_compliant_device :: "(string \<times> string) list \<Rightarrow> device \<Rightarrow> bool" where
  "is_compliant_device mins x =
     (case dev_platform x of
        None \<Rightarrow> False
      | Some platform \<Rightarrow>
     (case dev_client_version x of
        None \<Rightarrow> False
      | Some version \<Rightarrow>
     (case map_of mins platform of
        None \<Rightarrow> False
      | Some min_version \<Rightarrow> compare_versions version min_version \<noteq> OrdLess)))"

definition list_active_device_capabilities :: "db \<Rightarrow> device list" where
  "list_active_device_capabilities d =
     sort_key dev_created (filter (\<lambda>x. dev_status x = DeviceActive) (devices d))"

definition count_pending_approval_devices :: "db \<Rightarrow> int" where
  "count_pending_approval_devices d =
     int (length (filter (\<lambda>x. dev_status x = PendingApproval) (devices d)))"

definition list_active_device_inventory :: "instant \<Rightarrow> int \<Rightarrow> db \<Rightarrow> (uuid \<times> nat) list" where
  "list_active_device_inventory now low d =
     filter (\<lambda>(_, n). int n < low)
       (map (\<lambda>x. (dev_id x, available_count now (dev_id x) d)) (list_active_device_capabilities d))"

record readiness =
  rd_active :: int
  rd_compliant :: int
  rd_coverage :: int
  rd_low :: int
  rd_pending :: int
  rd_reasons :: "string list"
  rd_ready :: bool

text \<open>\<open>compliant * 100 / active\<close> on non-negative \<open>i64\<close> is \<open>div\<close>.\<close>

definition compute_readiness :: "instant \<Rightarrow> runtime_gate \<Rightarrow> db \<Rightarrow> readiness" where
  "compute_readiness now g d =
     (let mins = parse_min_client_versions (gate_min_versions g);
          devs = list_active_device_capabilities d;
          active = int (length devs);
          compliant = int (length (filter (is_compliant_device mins) devs));
          coverage = (if active = 0 then 0 else compliant * 100 div active);
          low = int (length (list_active_device_inventory now (gate_watermark g) d));
          pending = count_pending_approval_devices d;
          reasons =
            (if active = 0 then [''no active device'']
             else if coverage < gate_coverage g then [''coverage''] else [])
            @ (if low > 0 then [''key package stock''] else [])
            @ (if pending > 0 then [''pending devices''] else [])
            @ (if \<not> gate_review_ok g then [''security review''] else []);
          ready = (active > 0 \<and> coverage \<ge> gate_coverage g \<and> low = 0 \<and> pending = 0 \<and> gate_review_ok g)
      in \<lparr>rd_active = active, rd_compliant = compliant, rd_coverage = coverage, rd_low = low,
          rd_pending = pending, rd_reasons = reasons, rd_ready = ready\<rparr>)"

section \<open>The gate\<close>

definition readiness_ttl_minutes :: int where "readiness_ttl_minutes = 10"

record gate_view =
  gv_state :: gate_state
  gv_audit :: audit_mode
  gv_revision :: int
  gv_computed :: "instant option"
  gv_expired :: bool
  gv_min_versions :: "(string \<times> string) list"
  gv_readiness :: readiness
  gv_review_ok :: bool

definition build_gate_view :: "instant \<Rightarrow> runtime_gate \<Rightarrow> readiness \<Rightarrow> db \<Rightarrow> gate_view result" where
  "build_gate_view now g rd d =
     (case load_message_runtime_settings d of
        Inl e \<Rightarrow> Inl e
      | Inr s \<Rightarrow>
          Inr \<lparr>gv_state = gate_state g, gv_audit = rs_audit s, gv_revision = gate_revision g,
               gv_computed = gate_computed g,
               gv_expired = (case gate_computed g of None \<Rightarrow> True
                 | Some t \<Rightarrow> now - t > minutes readiness_ttl_minutes),
               gv_min_versions = parse_min_client_versions (gate_min_versions g),
               gv_readiness = rd, gv_review_ok = gate_review_ok g\<rparr>)"

definition update_gate :: "instant \<Rightarrow> gate_state \<Rightarrow> int \<Rightarrow> instant option \<Rightarrow> uuid option \<Rightarrow> db \<Rightarrow> db" where
  "update_gate now st rev_no computed by d =
     d\<lparr>gate := (gate d)\<lparr>gate_state := st, gate_revision := rev_no, gate_computed := computed,
                        gate_updated := now, gate_updated_by := by\<rparr>\<rparr>"

definition mark_security_review :: "instant \<Rightarrow> bool \<Rightarrow> uuid option \<Rightarrow> db \<Rightarrow> db" where
  "mark_security_review now ok by d =
     d\<lparr>gate := (gate d)\<lparr>gate_review_ok := ok, gate_updated := now, gate_updated_by := by\<rparr>\<rparr>"

definition get_e2ee_gate_view :: "instant \<Rightarrow> db \<Rightarrow> gate_view result" where
  "get_e2ee_gate_view now d = build_gate_view now (gate d) (compute_readiness now (gate d) d) d"

definition prepare_e2ee_runtime :: "instant \<Rightarrow> uuid option \<Rightarrow> db \<Rightarrow> gate_view result \<times> db" where
  "prepare_e2ee_runtime now admin d =
     (let rd = compute_readiness now (gate d) d;
          d' = update_gate now GatePrepare (gate_revision (gate d) + 1) (Some now) admin d
      in (build_gate_view now (gate d') rd d', d'))"

definition activate_gate_transaction :: "instant \<Rightarrow> int \<Rightarrow> uuid option \<Rightarrow> db \<Rightarrow> db" where
  "activate_gate_transaction now rev_no admin d =
     upsert_general_setting now audit_mode_key ''e2ee'' admin
       (update_gate now GateActive rev_no (Some now) admin d)"

definition rollback_gate_transaction :: "instant \<Rightarrow> uuid option \<Rightarrow> db \<Rightarrow> db" where
  "rollback_gate_transaction now admin d =
     upsert_general_setting now audit_mode_key ''plaintext'' admin
       (d\<lparr>gate := (gate d)\<lparr>gate_state := GatePlaintext, gate_updated := now, gate_updated_by := admin\<rparr>\<rparr>)"

definition active_e2ee_runtime :: "instant \<Rightarrow> uuid option \<Rightarrow> db \<Rightarrow> gate_view result \<times> db" where
  "active_e2ee_runtime now admin d =
     (let g = gate d in
      if gate_state g \<noteq> GatePrepare then (Inl (MessageRuntimeConflict ''prepare first''), d)
      else
        let rd = compute_readiness now g d in
        if \<not> rd_ready rd then (Inl (MessageRuntimeConflict ''not ready''), d)
        else
          let d' = activate_gate_transaction now (gate_revision g + 1) admin d
          in (build_gate_view now (gate d') rd d', d'))"

definition rollback_e2ee_runtime :: "instant \<Rightarrow> uuid option \<Rightarrow> db \<Rightarrow> gate_view result \<times> db" where
  "rollback_e2ee_runtime now admin d =
     (let d' = rollback_gate_transaction now admin d
      in (build_gate_view now (gate d') (compute_readiness now (gate d') d') d', d'))"

text \<open>The admin handler, which refuses to switch encryption on directly.\<close>

definition update_message_runtime_settings_admin ::
  "instant \<Rightarrow> uuid \<Rightarrow> string \<Rightarrow> string \<Rightarrow> db \<Rightarrow> runtime_settings result \<times> db" where
  "update_message_runtime_settings_admin now editor storage audit d =
     (case parse_storage_mode storage of
        Inl e \<Rightarrow> (Inl e, d)
      | Inr sm \<Rightarrow>
     (case parse_audit_mode audit of
        Inl e \<Rightarrow> (Inl e, d)
      | Inr am \<Rightarrow>
          if am = E2ee then (Inl (MessageRuntimeConflict ''use the gate''), d)
          else update_message_runtime_settings now sm am (Some editor) d))"

section \<open>Settings: what is read after a write\<close>

lemma trim_modes:
  "to_ascii_lowercase (trim ''persist'') = ''persist''"
  "to_ascii_lowercase (trim ''relay_only'') = ''relay_only''"
  "to_ascii_lowercase (trim ''plaintext'') = ''plaintext''"
  "to_ascii_lowercase (trim ''e2ee'') = ''e2ee''"
  by code_simp+

lemma parse_mode_str [simp]:
  "parse_storage_mode (storage_mode_str m) = Inr m" "parse_audit_mode (audit_mode_str a) = Inr a"
  by (cases m; simp add: parse_storage_mode_def trim_modes Let_def)
     (cases a; simp add: parse_audit_mode_def trim_modes Let_def)

lemma audit_strings [simp]:
  "parse_audit_mode ''e2ee'' = Inr E2ee" "parse_audit_mode ''plaintext'' = Inr Plaintext"
  by (simp_all add: parse_audit_mode_def trim_modes)

lemma keys_differ [simp]: "storage_mode_key \<noteq> audit_mode_key" "audit_mode_key \<noteq> storage_mode_key"
  by (simp_all add: storage_mode_key_def audit_mode_key_def)

definition overwrite :: "instant \<Rightarrow> string \<Rightarrow> uuid option \<Rightarrow> general_setting \<Rightarrow> general_setting" where
  "overwrite now value by g = g\<lparr>gs_value := value, gs_updated := now, gs_updated_by := by\<rparr>"

lemma get_after_upsert:
  "map_option gs_value (get_general_setting k (upsert_general_setting now key value by d)) =
     (if k = key then Some value else map_option gs_value (get_general_setting k d))"
proof (cases "exists_row (\<lambda>g. gs_key g = key) (general_settings d)")
  case True
  have "general_settings (upsert_general_setting now key value by d)
      = update_where (\<lambda>g. gs_key g = key) (overwrite now value by) (general_settings d)"
    using True by (simp add: upsert_general_setting_def overwrite_def [abs_def])
  then have get: "get_general_setting k (upsert_general_setting now key value by d)
      = (if k = key then map_option (overwrite now value by) (get_general_setting k d)
         else get_general_setting k d)"
    unfolding get_general_setting_def
    using fetch_key_update [of gs_key "overwrite now value by" k key "general_settings d"]
    by (simp add: overwrite_def)
  obtain g where "get_general_setting key d = Some g"
    using fetch_exists [OF True] by (auto simp: get_general_setting_def)
  then show ?thesis by (simp add: get) (simp add: overwrite_def)
next
  case False
  then have "general_settings (upsert_general_setting now key value by d) = general_settings d
      @ [\<lparr>gs_key = key, gs_value = value, gs_updated = now, gs_updated_by = by\<rparr>]"
    by (auto simp: upsert_general_setting_def)
  then show ?thesis
    using False unfolding get_general_setting_def
    by (cases "k = key") (simp_all add: fetch_inserted fetch_insert_other)
qed

lemma parse_setting_value:
  "parse_setting parse dflt s = (case map_option gs_value s of None \<Rightarrow> Inr dflt | Some v \<Rightarrow> parse v)"
  by (simp add: parse_setting_def split: option.split)

lemma upsert_general_setting_fields [simp]:
  "gate (upsert_general_setting now key value by d) = gate d"
  "devices (upsert_general_setting now key value by d) = devices d"
  "key_packages (upsert_general_setting now key value by d) = key_packages d"
  "messages (upsert_general_setting now key value by d) = messages d"
  "control_messages (upsert_general_setting now key value by d) = control_messages d"
  "room_epochs (upsert_general_setting now key value by d) = room_epochs d"
  by (simp_all add: upsert_general_setting_def)

text \<open>The value of the audit setting decides the mode.\<close>

definition audit_value :: "db \<Rightarrow> string option" where
  "audit_value d = map_option gs_value (get_general_setting audit_mode_key d)"

definition mode_of :: "string option \<Rightarrow> audit_mode result" where
  "mode_of v = (case v of None \<Rightarrow> Inr Plaintext | Some s \<Rightarrow> parse_audit_mode s)"

lemma is_e2ee_iff: "is_e2ee_runtime d = Inr True \<longleftrightarrow> mode_of (audit_value d) = Inr E2ee"
  by (auto simp: is_e2ee_runtime_def parse_setting_value mode_of_def audit_value_def
      split: option.splits sum.splits)

lemma audit_value_gate [simp]: "audit_value (d\<lparr>gate := g\<rparr>) = audit_value d"
  by (simp add: audit_value_def get_general_setting_def)

lemma audit_value_upsert: "audit_value (upsert_general_setting now key v by d) =
    (if key = audit_mode_key then Some v else audit_value d)"
  by (simp add: audit_value_def get_after_upsert)

lemma audit_value_update: "audit_value (snd (update_message_runtime_settings now sm am by d))
    = Some (audit_mode_str am)"
  by (simp add: update_message_runtime_settings_def audit_value_upsert Let_def)

lemma audit_value_prepare [simp]: "audit_value (snd (prepare_e2ee_runtime now by d)) = audit_value d"
  by (simp add: prepare_e2ee_runtime_def update_gate_def Let_def)

lemma audit_value_rollback: "audit_value (snd (rollback_e2ee_runtime now by d)) = Some ''plaintext''"
  by (simp add: rollback_e2ee_runtime_def rollback_gate_transaction_def audit_value_upsert Let_def)

text \<open>The administrator's operations on the mode and the gate.\<close>

datatype gate_op = Prepare | Activate | Rollback | ChangeSettings uuid string string | Review bool

fun apply_gate_op :: "gate_op \<Rightarrow> instant \<Rightarrow> uuid option \<Rightarrow> db \<Rightarrow> db" where
  "apply_gate_op Prepare now admin d = snd (prepare_e2ee_runtime now admin d)"
| "apply_gate_op Activate now admin d = snd (active_e2ee_runtime now admin d)"
| "apply_gate_op Rollback now admin d = snd (rollback_e2ee_runtime now admin d)"
| "apply_gate_op (ChangeSettings editor s a) now admin d =
     snd (update_message_runtime_settings_admin now editor s a d)"
| "apply_gate_op (Review ok) now admin d = mark_security_review now ok admin d"

section \<open>Versions are ordered\<close>

lemma cmp_int_simps:
  "cmp_int a b = OrdLess \<longleftrightarrow> a < b" "cmp_int a b = OrdEqual \<longleftrightarrow> a = b" "cmp_int a b = OrdGreater \<longleftrightarrow> b < a"
  by (auto simp: cmp_int_def)

lemma compare_at_flip:
  "compare_at r l is = (case compare_at l r is of OrdLess \<Rightarrow> OrdGreater | OrdEqual \<Rightarrow> OrdEqual | OrdGreater \<Rightarrow> OrdLess)"
  by (induction "is") (auto simp: Let_def cmp_int_def)

lemma compare_at_trans:
  "compare_at l m is \<noteq> OrdGreater \<Longrightarrow> compare_at m r is \<noteq> OrdGreater \<Longrightarrow>
   compare_at l r is \<noteq> OrdGreater \<and>
   (compare_at l r is = OrdEqual \<longrightarrow> compare_at l m is = OrdEqual \<and> compare_at m r is = OrdEqual)"
  by (induction "is") (auto simp: Let_def cmp_int_def split: if_splits)

lemma compare_at_append:
  "compare_at l r (is @ js) = (if compare_at l r is \<noteq> OrdEqual then compare_at l r is else compare_at l r js)"
  by (induction "is") (auto simp: Let_def)

text \<open>Segments past the end of both versions do not matter.\<close>

lemma compare_at_longer:
  assumes "max (length l) (length r) \<le> n"
  shows "compare_at l r [0..<n] = compare_at l r [0..<max (length l) (length r)]"
proof -
  let ?m = "max (length l) (length r)"
  have zero: "compare_at l r js = OrdEqual" if "\<forall>i \<in> set js. ?m \<le> i" for js
    using that by (induction js) (auto simp: Let_def cmp_int_def part_or_zero_def)
  obtain k where "n = ?m + k" using assms le_Suc_ex by blast
  then have "[0..<n] = [0..<?m] @ [?m..<n]" using upt_add_eq_append [of 0 ?m k] by simp
  then show ?thesis using zero [of "[?m..<n]"] by (simp add: compare_at_append)
qed

lemma compare_versions_upto:
  assumes "length (parse_version_parts a) \<le> n" "length (parse_version_parts b) \<le> n"
  shows "compare_versions a b = compare_at (parse_version_parts a) (parse_version_parts b) [0..<n]"
  using compare_at_longer [of "parse_version_parts a" "parse_version_parts b" n] assms
  by (simp add: compare_versions_def Let_def)

section \<open>Properties\<close>

definition ready_device :: device where
  "ready_device =
     \<lparr>dev_id = 101, dev_user = 1, dev_label = ''h5'', dev_credential = [1], dev_cred_fp = replicate 16 1,
      dev_approval_key = None, dev_version = 1, dev_status = DeviceActive, dev_approved_by = None,
      dev_approved_at = Some 1, dev_revoked_at = None, dev_created = 1, dev_updated = 1,
      dev_platform = Some ''h5'', dev_client_version = Some ''0.2'', dev_client_build = None\<rparr>"

text \<open>A prepared gate, with the stock requirement at 0 and the review done.\<close>

definition prepared_db :: db where
  "prepared_db = empty_db\<lparr>devices := [ready_device],
     gate := initial_gate\<lparr>gate_state := GatePrepare, gate_review_ok := True, gate_watermark := 0\<rparr>\<rparr>"

lemma prepared_ready: "rd_ready (compute_readiness 5 (gate prepared_db) prepared_db)"
  by code_simp

lemma activate_prepared:
  "apply_gate_op Activate 5 None prepared_db = activate_gate_transaction 5 1 None prepared_db"
proof -
  have "gate_state (gate prepared_db) = GatePrepare" "gate_revision (gate prepared_db) = 0" by code_simp+
  then show ?thesis using prepared_ready by (simp add: active_e2ee_runtime_def Let_def)
qed

lemma activated_e2ee: "is_e2ee_runtime (activate_gate_transaction now n by d) = Inr True"
  by (simp add: is_e2ee_iff activate_gate_transaction_def audit_value_upsert mode_of_def)

text \<open>
  C18: Encrypted messaging is switched on by nothing but a successful activation: from the
  prepared state, on a readiness check that passes at that moment, which also sets the gate to
  active in the same transaction.
\<close>

theorem encryption_on_only_through_gate:
  assumes "is_e2ee_runtime d \<noteq> Inr True" "is_e2ee_runtime (apply_gate_op c now admin d) = Inr True"
  shows "c = Activate \<and> gate_state (gate d) = GatePrepare \<and> rd_ready (compute_readiness now (gate d) d)
    \<and> gate_state (gate (apply_gate_op c now admin d)) = GateActive"
proof -
  have off: "mode_of (audit_value d) \<noteq> Inr E2ee" using assms(1) by (simp add: is_e2ee_iff)
  have on: "mode_of (audit_value (apply_gate_op c now admin d)) = Inr E2ee"
    using assms(2) by (simp add: is_e2ee_iff)
  show ?thesis
  proof (cases c)
    case Activate
    show ?thesis
    proof (cases "gate_state (gate d) = GatePrepare \<and> rd_ready (compute_readiness now (gate d) d)")
      case True
      then show ?thesis
        using Activate by (simp add: active_e2ee_runtime_def activate_gate_transaction_def update_gate_def Let_def)
    next
      case False
      then have "snd (active_e2ee_runtime now admin d) = d" by (auto simp: active_e2ee_runtime_def Let_def)
      then show ?thesis using on off Activate by simp
    qed
  next
    case (ChangeSettings editor st a)
    then show ?thesis
      using on off
      by (auto simp: update_message_runtime_settings_admin_def audit_value_update mode_of_def
          split: sum.splits if_splits audit_mode.splits)
  qed (use on off in \<open>simp_all add: audit_value_rollback mode_of_def mark_security_review_def\<close>)
qed

theorem encryption_on_only_through_gate_witness:
  "is_e2ee_runtime (apply_gate_op Activate 5 None prepared_db) = Inr True
   \<and> gate_state (gate (apply_gate_op Activate 5 None prepared_db)) = GateActive"
proof -
  have "is_e2ee_runtime prepared_db \<noteq> Inr True" by code_simp
  moreover have "is_e2ee_runtime (apply_gate_op Activate 5 None prepared_db) = Inr True"
    by (simp only: activate_prepared activated_e2ee)
  ultimately show ?thesis using encryption_on_only_through_gate by blast
qed

text \<open>
  Activation is refused exactly when there is a reason to name: the readiness check passes
  if and only if its list of blocking reasons is empty; and the coverage it computes is a
  percentage.
\<close>

lemma readiness_reasons_complete:
  "(rd_ready (compute_readiness now g d) \<longleftrightarrow> rd_reasons (compute_readiness now g d) = [])
   \<and> 0 \<le> rd_coverage (compute_readiness now g d) \<and> rd_coverage (compute_readiness now g d) \<le> 100"
proof -
  let ?mins = "parse_min_client_versions (gate_min_versions g)"
  let ?devs = "list_active_device_capabilities d"
  have le: "int (length (filter (is_compliant_device ?mins) ?devs)) \<le> int (length ?devs)"
    by simp
  have cov: "0 \<le> (if n = 0 then 0 else k * 100 div n) \<and> (if n = 0 then 0 else k * 100 div n) \<le> 100"
    if "0 \<le> k" "k \<le> n" for k n :: int
  proof (cases "n = 0")
    case False
    then have n: "0 < n" using that by simp
    have "k * 100 div n \<le> n * 100 div n" using n that(2) by (intro zdiv_mono1) simp_all
    then show ?thesis using n that(1) by (simp add: pos_imp_zdiv_nonneg_iff)
  qed simp
  have "rd_ready (compute_readiness now g d) \<longleftrightarrow> rd_reasons (compute_readiness now g d) = []"
    by (simp add: compute_readiness_def Let_def count_pending_approval_devices_def not_less
        split del: if_split cong: if_cong) (auto split: if_splits)
  moreover have "0 \<le> rd_coverage (compute_readiness now g d) \<and> rd_coverage (compute_readiness now g d) \<le> 100"
    using cov [OF _ le] by (simp add: compute_readiness_def Let_def split del: if_split)
  ultimately show ?thesis by blast
qed

text \<open>
  Version comparison is a total preorder: comparing the other way round gives the opposite
  answer, every version equals itself, and not being greater is transitive.
\<close>

lemma compare_versions_preorder:
  assumes "compare_versions a b \<noteq> OrdGreater" "compare_versions b c \<noteq> OrdGreater"
  shows "compare_versions a c \<noteq> OrdGreater \<and> compare_versions a a = OrdEqual
    \<and> (compare_versions a b = OrdLess \<longleftrightarrow> compare_versions b a = OrdGreater)
    \<and> (compare_versions a c = OrdEqual \<longrightarrow> compare_versions a b = OrdEqual \<and> compare_versions b c = OrdEqual)"
proof -
  let ?p = "parse_version_parts"
  define n where "n = length (?p a) + length (?p b) + length (?p c)"
  have ab: "compare_versions a b = compare_at (?p a) (?p b) [0..<n]"
    and bc: "compare_versions b c = compare_at (?p b) (?p c) [0..<n]"
    and ac: "compare_versions a c = compare_at (?p a) (?p c) [0..<n]"
    and ba: "compare_versions b a = compare_at (?p b) (?p a) [0..<n]"
    and aa: "compare_versions a a = compare_at (?p a) (?p a) [0..<n]"
    by (rule compare_versions_upto; simp add: n_def)+
  have "compare_at l l is = OrdEqual" for l "is"
    by (induction "is") (simp_all add: cmp_int_def Let_def)
  moreover note compare_at_trans [of "?p a" "?p b" "[0..<n]" "?p c"]
    compare_at_flip [of "?p b" "?p a" "[0..<n]"]
  ultimately show ?thesis
    using assms unfolding ab bc ac ba aa by (auto split: ordering.splits)
qed

text \<open>
  A rollback always leaves the plaintext mode, in which plain sending is allowed and
  encrypted sending refused, with the gate closed, and it touches neither messages nor devices,
  key packages, control messages or room epochs.
\<close>

lemma rollback_restores_plaintext:
  assumes "rollback_e2ee_runtime now admin d = (r, d')" "load_message_runtime_settings d' = Inr s"
  shows "ensure_plaintext_sending s = Inr () \<and> ensure_encrypted_sending s \<noteq> Inr ()
    \<and> gate_state (gate d') = GatePlaintext \<and> messages d' = messages d \<and> devices d' = devices d
    \<and> key_packages d' = key_packages d \<and> control_messages d' = control_messages d
    \<and> room_epochs d' = room_epochs d"
proof -
  have d': "d' = rollback_gate_transaction now admin d"
    using assms(1) by (simp add: rollback_e2ee_runtime_def Let_def)
  have "audit_value d' = Some ''plaintext''"
    by (simp add: d' rollback_gate_transaction_def audit_value_upsert)
  then have "rs_audit s = Plaintext"
    using assms(2) unfolding load_message_runtime_settings_def Let_def parse_setting_value audit_value_def
    by (auto split: prod.splits sum.splits)
  then show ?thesis
    by (simp add: ensure_plaintext_sending_def ensure_encrypted_sending_def d' rollback_gate_transaction_def)
qed

text \<open>
  Writing the two runtime settings and loading them gives what was written, whatever rows
  were stored before.
\<close>

lemma settings_round_trip:
  "\<exists>s. fst (update_message_runtime_settings now storage audit by d) = Inr s
    \<and> rs_storage s = storage \<and> rs_audit s = audit"
proof -
  let ?d = "upsert_general_settings_atomic now
     [(storage_mode_key, storage_mode_str storage), (audit_mode_key, audit_mode_str audit)] by d"
  have "map_option gs_value (get_general_setting storage_mode_key ?d) = Some (storage_mode_str storage)"
    "map_option gs_value (get_general_setting audit_mode_key ?d) = Some (audit_mode_str audit)"
    by (simp_all add: get_after_upsert)
  then obtain g h where "get_general_setting storage_mode_key ?d = Some g" "gs_value g = storage_mode_str storage"
    "get_general_setting audit_mode_key ?d = Some h" "gs_value h = audit_mode_str audit" by auto
  then have "parse_setting parse_storage_mode Persist (get_general_setting storage_mode_key ?d) = Inr storage"
    "parse_setting parse_audit_mode Plaintext (get_general_setting audit_mode_key ?d) = Inr audit"
    by (simp_all add: parse_setting_def)
  then show ?thesis
    unfolding update_message_runtime_settings_def load_message_runtime_settings_def Let_def
    by (simp only: fst_conv sum.case split_beta) simp
qed

text \<open>
  The gate and the mode can disagree: preparing an active gate takes the gate back to the
  prepared state while messages stay encrypted, so the state shown to the administrator is not
  the state in force.
\<close>

lemma prepare_leaves_encryption_on:
  assumes "is_e2ee_runtime d = Inr True"
  shows "gate_state (gate (snd (prepare_e2ee_runtime now admin d))) = GatePrepare
    \<and> is_e2ee_runtime (snd (prepare_e2ee_runtime now admin d)) = Inr True"
  using assms by (simp add: is_e2ee_iff) (simp add: prepare_e2ee_runtime_def update_gate_def Let_def)

end
