(* ===== verification/AttachmentHandlers.thy ===== *)
theory AttachmentHandlers
  imports Attachments UploadSessions RuntimeGate
begin

text \<open>
  The attachment handlers of \<open>api/src/handlers/message.rs\<close> (signing an upload, starting one in
  parts, reporting it complete, opening a file), the upload policy of
  \<open>api/src/services/upload_policy.rs\<close> they enforce, and the start of a release upload of
  \<open>api/src/handlers/version.rs\<close>.  The policy that is in force, the text of a UUID, the date and the
  random part of a key are arguments.
\<close>

section \<open>The upload policy\<close>

fun part_type_key :: "part_type \<Rightarrow> string" where
  "part_type_key ImagePart = ''image''"
| "part_type_key VideoPart = ''video''"
| "part_type_key AudioPart = ''audio''"
| "part_type_key FilePart = ''file''"
| "part_type_key TextPart = ''text''"

record upload_policy =
  pol_max_total_mb :: int
  pol_max_attachments :: int
  pol_image_mb :: int
  pol_video_mb :: int
  pol_audio_mb :: int
  pol_file_mb :: int
  pol_image :: "string list"
  pol_video :: "string list"
  pol_audio :: "string list"
  pol_file :: "string list"

definition max_size_bytes_for_part_type :: "upload_policy \<Rightarrow> string \<Rightarrow> int option" where
  "max_size_bytes_for_part_type pol t =
     (let size_of = (\<lambda>mb. Some (max 1 (min 10000 mb) * 1024 * 1024)) in
      if t = ''image'' then size_of (pol_image_mb pol)
      else if t = ''video'' then size_of (pol_video_mb pol)
      else if t = ''audio'' then size_of (pol_audio_mb pol)
      else if t = ''file'' then size_of (pol_file_mb pol)
      else None)"

definition eq_ignore_ascii_case :: "string \<Rightarrow> string \<Rightarrow> bool" where
  "eq_ignore_ascii_case a b \<longleftrightarrow> to_ascii_lowercase a = to_ascii_lowercase b"

definition is_mime_allowed_for_part_type :: "upload_policy \<Rightarrow> string \<Rightarrow> string \<Rightarrow> bool" where
  "is_mime_allowed_for_part_type pol t mime =
     (let normalized = to_ascii_lowercase (trim mime);
          allowed = (\<lambda>ms. list_ex (\<lambda>v. eq_ignore_ascii_case (trim v) normalized) ms) in
      if normalized = [] then False
      else if t = ''image'' then allowed (pol_image pol)
      else if t = ''video'' then allowed (pol_video pol)
      else if t = ''audio'' then allowed (pol_audio pol)
      else if t = ''file'' then allowed (pol_file pol)
      else False)"

definition dangerous_file_types :: "string list" where
  "dangerous_file_types =
     [''application/x-executable'', ''application/x-msdownload'', ''application/x-msdos-program'',
      ''application/x-sh'', ''application/x-bat'', ''application/x-csh'', ''application/x-ksh'',
      ''application/x-tcsh'', ''application/x-perl'', ''application/x-python'', ''application/x-ruby'',
      ''application/x-php'', ''application/javascript'', ''text/javascript'',
      ''application/java-archive'', ''application/vnd.android.package-archive'']"

definition check_mime :: "upload_policy \<Rightarrow> part_type \<Rightarrow> string option \<Rightarrow> unit result" where
  "check_mime pol t ctype =
     (case ctype of
        None \<Rightarrow> Inr ()
      | Some raw \<Rightarrow>
          let c = trim raw in
          if c = [] then Inr ()
          else if list_ex (\<lambda>v. eq_ignore_ascii_case v c) dangerous_file_types
          then Inl (ValidationError ''message.attachment_mime_unsupported'')
          else require (is_mime_allowed_for_part_type pol (part_type_key t) c)
            (ValidationError ''message.attachment_mime_unsupported''))"

definition check_size :: "upload_policy \<Rightarrow> part_type \<Rightarrow> string \<Rightarrow> int option \<Rightarrow> unit result" where
  "check_size pol t msg sz =
     (case (sz, max_size_bytes_for_part_type pol (part_type_key t)) of
        (Some n, Some m) \<Rightarrow> require (n \<le> m) (ValidationError msg)
      | _ \<Rightarrow> Inr ())"

section \<open>Object keys\<close>

text \<open>\<open>rsplit_once\<close>: what follows the last separator.\<close>

definition after_last :: "char \<Rightarrow> string \<Rightarrow> string option" where
  "after_last c s = (if c \<in> set s then Some (rev (takeWhile (\<lambda>x. x \<noteq> c) (rev s))) else None)"

fun default_extension :: "part_type \<Rightarrow> string" where
  "default_extension ImagePart = ''.png''"
| "default_extension VideoPart = ''.mp4''"
| "default_extension AudioPart = ''.m4a''"
| "default_extension FilePart = ''.bin''"
| "default_extension TextPart = ''.txt''"

definition extension_of :: "char \<Rightarrow> string option \<Rightarrow> string option" where
  "extension_of c name = (case Option.bind name (after_last c) of Some (x # xs) \<Rightarrow> Some (x # xs) | _ \<Rightarrow> None)"

definition infer_attachment_extension :: "string option \<Rightarrow> string option \<Rightarrow> part_type \<Rightarrow> string" where
  "infer_attachment_extension filename ctype t =
     (case extension_of (CHR ''.'') filename of
        Some e \<Rightarrow> ''.'' @ to_ascii_lowercase e
      | None \<Rightarrow>
          (case extension_of (CHR ''/'') (map_option (\<lambda>m. to_ascii_lowercase (trim m)) ctype) of
             Some e \<Rightarrow> ''.'' @ e
           | None \<Rightarrow> default_extension t))"

fun key_category :: "part_type \<Rightarrow> string" where
  "key_category TextPart = ''text''"
| "key_category ImagePart = ''images''"
| "key_category VideoPart = ''videos''"
| "key_category AudioPart = ''audios''"
| "key_category FilePart = ''files''"

record key_source =
  ks_uuid :: "uuid \<Rightarrow> string"
  ks_date :: string
  ks_random :: string

definition build_message_attachment_key ::
  "key_source \<Rightarrow> uuid \<Rightarrow> part_type \<Rightarrow> string option \<Rightarrow> string option \<Rightarrow> string" where
  "build_message_attachment_key ks room t filename ctype =
     ''messages/'' @ ks_uuid ks room @ ''/'' @ key_category t @ ''_'' @ ks_date ks @ ''/''
       @ take 8 (ks_random ks) @ infer_attachment_extension filename ctype t"

definition build_release_object_key :: "key_source \<Rightarrow> string \<Rightarrow> string \<Rightarrow> string option \<Rightarrow> string" where
  "build_release_object_key ks platform channel filename =
     ''releases/'' @ platform @ ''/'' @ channel @ ''/'' @ ks_date ks @ ''-'' @ take 8 (ks_random ks)
       @ ''.'' @ (case Option.bind filename (after_last (CHR ''.'')) of Some e \<Rightarrow> e | None \<Rightarrow> ''pkg'')"

definition is_valid_message_attachment_object_key :: "string \<Rightarrow> bool" where
  "is_valid_message_attachment_object_key key =
     (let t = trim key in
      t \<noteq> [] \<and> \<not> contains t ''..'' \<and> \<not> contains t [char_of (92 :: nat)] \<and> starts_with t ''messages/'')"

definition is_message_attachment_object_key_for_room :: "key_source \<Rightarrow> uuid \<Rightarrow> string \<Rightarrow> bool" where
  "is_message_attachment_object_key_for_room ks room key \<longleftrightarrow>
     is_valid_message_attachment_object_key key
     \<and> starts_with (trim key) (''messages/'' @ ks_uuid ks room @ ''/'')"

section \<open>Signing an upload\<close>

text \<open>
  A completed and approved upload with the same hash and size is reused when its object is still
  stored; otherwise its record is marked deleted.
\<close>

definition reuse_stored ::
  "s3 \<Rightarrow> uuid \<Rightarrow> int \<Rightarrow> string \<Rightarrow> int \<Rightarrow> string option \<Rightarrow> files \<Rightarrow> string option result \<times> files" where
  "reuse_stored sv p alg hash sz prefix s =
     (case find_completed_by_hash p alg hash sz prefix s of
        None \<Rightarrow> (Inr None, s)
      | Some r \<Rightarrow>
          (case s3_exists sv p (fl_key r) (bucket s) of
             Inl e \<Rightarrow> (Inl e, s)
           | Inr True \<Rightarrow> (Inr (Some (fl_key r)), s)
           | Inr False \<Rightarrow> (Inr None, snd (mark_deleted_by_key p (fl_key r) s))))"

definition note_pending ::
  "instant \<Rightarrow> uuid \<Rightarrow> string \<Rightarrow> int \<Rightarrow> string \<Rightarrow> int option \<Rightarrow> string option \<Rightarrow> files \<Rightarrow> unit result \<times> files" where
  "note_pending now p k alg hash sz ctype =
     atomically (\<lambda>s. from_sqlx (create_pending_record p k alg hash sz ctype now s))"

text \<open>What the client declares about its file.\<close>

record file_claim =
  fc_type :: part_type
  fc_name :: "string option"
  fc_ctype :: "string option"
  fc_size :: "int option"
  fc_hash :: "string option"
  fc_alg :: "int option"

definition claimed_alg :: "int option \<Rightarrow> int" where
  "claimed_alg alg = (case alg of Some a \<Rightarrow> a | None \<Rightarrow> 1)"

definition room_prefix :: "key_source \<Rightarrow> uuid \<Rightarrow> string" where
  "room_prefix ks room = ''messages/'' @ ks_uuid ks room @ ''/''"

definition member_of :: "uuid \<Rightarrow> uuid \<Rightarrow> string \<Rightarrow> files \<Rightarrow> unit result" where
  "member_of room user msg s = require (is_user_in_room room user (base s)) (Forbidden msg)"

definition default_service :: "s3 \<Rightarrow> files \<Rightarrow> storage_provider result" where
  "default_service sv s =
     and_then (load_default_storage_provider s) (\<lambda>p. and_then (create_storage_service sv p) (\<lambda>_. Inr p))"

definition generate_message_attachment_signature ::
  "s3 \<Rightarrow> key_source \<Rightarrow> upload_policy \<Rightarrow> instant \<Rightarrow> uuid \<Rightarrow> uuid option \<Rightarrow> file_claim \<Rightarrow> files
     \<Rightarrow> (string \<times> string option) result \<times> files" where
  "generate_message_attachment_signature sv ks pol now room sub req =
     with_value (claims_user_id sub) (\<lambda>user.
     query (member_of room user ''message.attachment_upload_room_membership_required'') (\<lambda>_.
     with_value (require (fc_type req \<noteq> TextPart) (ValidationError ''message.attachment_signature_text_unsupported'')) (\<lambda>_.
     with_value (check_mime pol (fc_type req) (fc_ctype req)) (\<lambda>_.
     with_value (check_size pol (fc_type req) ''message.attachment_size_exceeded'' (fc_size req)) (\<lambda>_.
     query (default_service sv) (\<lambda>p.
     let hashed = (case (fc_hash req, fc_size req) of (Some h, Some n) \<Rightarrow> if n > 0 then Some (h, n) else None | _ \<Rightarrow> None) in
     run_then (case hashed of None \<Rightarrow> answer None
         | Some (h, n) \<Rightarrow> reuse_stored sv (sp_id p) (claimed_alg (fc_alg req)) h n (Some (room_prefix ks room))) (\<lambda>found.
     case found of Some k \<Rightarrow> answer (k, None) | None \<Rightarrow>
       let k = build_message_attachment_key ks room (fc_type req) (fc_name req) (fc_ctype req) in
       run_then (case hashed of None \<Rightarrow> answer ()
           | Some (h, n) \<Rightarrow> note_pending now (sp_id p) k (claimed_alg (fc_alg req)) h (Some n) (fc_ctype req)) (\<lambda>_.
       with_value (s3_sign sv (sp_id p) k (fc_ctype req)) (\<lambda>sig. answer (k, Some sig))))))))))"

section \<open>Starting an upload in parts\<close>

definition trimmed_hash :: "string option \<Rightarrow> string option" where
  "trimmed_hash h = (case h of None \<Rightarrow> None | Some v \<Rightarrow> if trim v = [] then None else Some (trim v))"

definition trimmed_type :: "string option \<Rightarrow> string option" where
  "trimmed_type c = (case c of None \<Rightarrow> None | Some v \<Rightarrow> if trim v = [] then None else Some (trim v))"

datatype initiated = Reused string | Started string upload_session

text \<open>
  The tail that \<open>initiate_message_attachment_multipart_upload\<close> and
  \<open>initiate_version_multipart_upload\<close> share once the plan is made and the provider is known.
\<close>

definition start_session ::
  "s3 \<Rightarrow> uuid \<Rightarrow> uuid \<Rightarrow> string \<Rightarrow> uuid \<Rightarrow> bool \<Rightarrow> int \<Rightarrow> string option \<Rightarrow> int \<Rightarrow> int \<Rightarrow> string
     \<Rightarrow> files \<Rightarrow> initiated result \<times> files" where
  "start_session sv new_id p k user is_admin n ctype part_size parts upload s =
     (case create_session new_id p k upload user is_admin (Some n) ctype part_size parts s of
        Inl e \<Rightarrow> (Inl (InternalError ''session''), s)
      | Inr (x, s') \<Rightarrow> (Inr (Started k x), s'))"

definition reuse_hashed ::
  "s3 \<Rightarrow> uuid \<Rightarrow> int option \<Rightarrow> string option \<Rightarrow> int \<Rightarrow> string option \<Rightarrow> files \<Rightarrow> string option result \<times> files" where
  "reuse_hashed sv p alg hash n prefix =
     (case trimmed_hash hash of None \<Rightarrow> answer None
      | Some h \<Rightarrow> reuse_stored sv p (claimed_alg alg) h n prefix)"

definition note_hashed ::
  "instant \<Rightarrow> uuid \<Rightarrow> string \<Rightarrow> int option \<Rightarrow> string option \<Rightarrow> int \<Rightarrow> string option \<Rightarrow> files \<Rightarrow> unit result \<times> files" where
  "note_hashed now p k alg hash n ctype =
     (case trimmed_hash hash of None \<Rightarrow> answer ()
      | Some h \<Rightarrow> note_pending now p k (claimed_alg alg) h (Some n) ctype)"

text \<open>\<open>req.file_size as i64\<close>: the request has a \<open>usize\<close>, which the policy bounds.\<close>

definition initiate_message_attachment_multipart_upload ::
  "s3 \<Rightarrow> key_source \<Rightarrow> upload_policy \<Rightarrow> instant \<Rightarrow> uuid \<Rightarrow> uuid \<Rightarrow> uuid option \<Rightarrow> bool \<Rightarrow> file_claim \<Rightarrow> int
     \<Rightarrow> files \<Rightarrow> initiated result \<times> files" where
  "initiate_message_attachment_multipart_upload sv ks pol now new_id room sub is_admin req n =
     with_value (claims_user_id sub) (\<lambda>user.
     query (member_of room user ''message.attachment_upload_room_membership_required'') (\<lambda>_.
     with_value (require (fc_type req \<noteq> TextPart) (ValidationError ''message.attachment_multipart_text_unsupported'')) (\<lambda>_.
     with_value (require (n \<noteq> 0) (ValidationError ''message.attachment_file_size_required'')) (\<lambda>_.
     with_value (check_mime pol (fc_type req) (fc_ctype req)) (\<lambda>_.
     with_value (check_size pol (fc_type req) ''message.attachment_file_size_exceeded_bytes'' (Some n)) (\<lambda>_.
     with_value (case plan_multipart_upload (wrap64 n) of Some r \<Rightarrow> r | None \<Rightarrow> Inl (InternalError ''no plan'')) (\<lambda>(part_size, parts).
     query (default_service sv) (\<lambda>p.
     run_then (reuse_hashed sv (sp_id p) (fc_alg req) (fc_hash req) (wrap64 n) (Some (room_prefix ks room))) (\<lambda>found.
     case found of Some k \<Rightarrow> answer (Reused k) | None \<Rightarrow>
       let k = build_message_attachment_key ks room (fc_type req) (fc_name req) (fc_ctype req);
           ctype = trimmed_type (fc_ctype req) in
       run_then (note_hashed now (sp_id p) k (fc_alg req) (fc_hash req) (wrap64 n) (fc_ctype req)) (\<lambda>_.
       with_value (s3_initiate sv (sp_id p) k ctype) (\<lambda>upload.
         start_session sv new_id (sp_id p) k user is_admin (wrap64 n) ctype part_size parts upload)))))))))))"

definition initiate_version_multipart_upload ::
  "s3 \<Rightarrow> key_source \<Rightarrow> instant \<Rightarrow> uuid \<Rightarrow> uuid option \<Rightarrow> bool \<Rightarrow> string \<Rightarrow> string \<Rightarrow> file_claim \<Rightarrow> int
     \<Rightarrow> files \<Rightarrow> initiated result \<times> files" where
  "initiate_version_multipart_upload sv ks now new_id sub is_admin platform channel req n =
     with_value (case plan_multipart_upload n of Some r \<Rightarrow> r | None \<Rightarrow> Inl (InternalError ''no plan'')) (\<lambda>(part_size, parts).
     query (default_service sv) (\<lambda>p.
     run_then (reuse_hashed sv (sp_id p) (fc_alg req) (fc_hash req) n None) (\<lambda>found.
     case found of Some k \<Rightarrow> answer (Reused k) | None \<Rightarrow>
       let k = build_release_object_key ks platform channel (fc_name req);
           ctype = trimmed_type (fc_ctype req) in
       run_then (note_hashed now (sp_id p) k (fc_alg req) (fc_hash req) n None) (\<lambda>_.
       with_value (s3_initiate sv (sp_id p) k ctype) (\<lambda>upload.
       with_value (claims_user_id sub) (\<lambda>user.
         start_session sv new_id (sp_id p) k user is_admin n ctype part_size parts upload))))))"

section \<open>Reporting an upload complete\<close>

definition is_hex_32 :: "string \<Rightarrow> bool" where
  "is_hex_32 value =
     (let v = trim value in length v = 32 \<and> list_all (\<lambda>c. let n = (of_char c :: nat) in
        (48 \<le> n \<and> n \<le> 57) \<or> (65 \<le> n \<and> n \<le> 70) \<or> (97 \<le> n \<and> n \<le> 102)) v)"

definition normalize_hash_hex :: "string \<Rightarrow> string" where
  "normalize_hash_hex value = to_ascii_lowercase (trim value)"

text \<open>The etag of an object that was not uploaded in parts is its MD5.\<close>

definition hash_mismatch :: "string option \<Rightarrow> int option \<Rightarrow> string option \<Rightarrow> bool" where
  "hash_mismatch hash alg etag =
     (case (hash, etag) of
        (Some raw, Some e) \<Rightarrow>
          let h = trim raw in
          h \<noteq> [] \<and> claimed_alg alg = 1 \<and> CHR ''-'' \<notin> set e \<and> is_hex_32 e \<and> is_hex_32 h
          \<and> normalize_hash_hex e \<noteq> normalize_hash_hex h
      | _ \<Rightarrow> False)"

definition size_mismatch :: "int option \<Rightarrow> int option \<Rightarrow> bool" where
  "size_mismatch claimed actual = (case (claimed, actual) of (Some a, Some b) \<Rightarrow> b \<noteq> a | _ \<Rightarrow> False)"

definition check_object ::
  "s3 \<Rightarrow> uuid \<Rightarrow> string \<Rightarrow> int option \<Rightarrow> string option \<Rightarrow> int option \<Rightarrow> files \<Rightarrow> unit result" where
  "check_object sv p k sz hash alg s =
     (case s3_head sv p k (bucket s) of
        Inr h \<Rightarrow>
          if size_mismatch sz (oh_length h) then Inl (ValidationError ''message.attachment_size_mismatch'')
          else require (\<not> hash_mismatch hash alg (oh_etag h)) (ValidationError ''message.attachment_hash_mismatch'')
      | Inl (NotFound _) \<Rightarrow> Inl (NotFound ''message.attachment_object_not_found'')
      | Inl (ValidationError _) \<Rightarrow>
          and_then (s3_exists sv p k (bucket s)) (\<lambda>there.
            require there (NotFound ''message.attachment_object_not_found''))
      | Inl e \<Rightarrow> Inl e)"

definition note_claimed ::
  "instant \<Rightarrow> uuid \<Rightarrow> string \<Rightarrow> int option \<Rightarrow> string option \<Rightarrow> int option \<Rightarrow> files \<Rightarrow> unit result \<times> files" where
  "note_claimed now p k sz hash alg =
     (case (hash, sz) of
        (Some raw, Some n) \<Rightarrow>
          if trim raw \<noteq> [] \<and> n > 0 then note_pending now p k (claimed_alg alg) (trim raw) (Some n) None
          else answer ()
      | _ \<Rightarrow> answer ())"

definition note_missing ::
  "instant \<Rightarrow> uuid \<Rightarrow> string \<Rightarrow> int option \<Rightarrow> files \<Rightarrow> unit result \<times> files" where
  "note_missing now p k sz s =
     (if get_by_key p k s = None then note_pending now p k 0 k sz None s else (Inr (), s))"

definition commit_message_attachment_upload ::
  "s3 \<Rightarrow> key_source \<Rightarrow> instant \<Rightarrow> uuid \<Rightarrow> uuid \<Rightarrow> uuid option \<Rightarrow> string \<Rightarrow> int option \<Rightarrow> string option
     \<Rightarrow> int option \<Rightarrow> files \<Rightarrow> unit result \<times> files" where
  "commit_message_attachment_upload sv ks now task_id room sub raw_key sz hash alg =
     with_value (claims_user_id sub) (\<lambda>user.
     query (member_of room user ''message.attachment_commit_room_membership_required'') (\<lambda>_.
     let k = trim raw_key in
     with_value (require (k \<noteq> []) (ValidationError ''message.attachment_key_required'')) (\<lambda>_.
     with_value (require (is_valid_message_attachment_object_key k) (ValidationError ''message.attachment_key_invalid'')) (\<lambda>_.
     with_value (require (is_message_attachment_object_key_for_room ks room k) (ValidationError ''message.attachment_key_invalid'')) (\<lambda>_.
     query (default_service sv) (\<lambda>p.
     query (check_object sv (sp_id p) k sz hash alg) (\<lambda>_.
     run_then (note_claimed now (sp_id p) k sz hash alg) (\<lambda>_.
     run_then (note_missing now (sp_id p) k sz) (\<lambda>_.
     run_then (atomically (\<lambda>s. from_sqlx (record_room_attachment_commit (sp_id p) room k user sz now s))) (\<lambda>recorded.
     with_value (require recorded (Forbidden ''committed by another user'')) (\<lambda>_ s.
       let record = get_by_key (sp_id p) k s;
           ctype = Option.bind record fl_ctype;
           known = or_else (Option.bind record fl_size) sz
       in run_then (atomically (\<lambda>t. from_sqlx (upsert_task task_id (sp_id p) k ''message_attachment''
            (infer_media_kind_from_message_attachment_object_key k) ctype known now t))) answer s)))))))))))"

section \<open>Opening a file\<close>

text \<open>
  A member may open a file that a stored message of the room names, one that is committed to the
  room, or one that Redis still grants to the room: \<open>grant\<close> is its answer, with the seconds left.
\<close>

datatype access = PersistReference | RelayGrant int

definition granted :: "(uuid \<Rightarrow> string \<Rightarrow> int option result) \<Rightarrow> uuid \<Rightarrow> string \<Rightarrow> access result" where
  "granted grant room k =
     and_then (grant room k) (\<lambda>left. case left of
        Some n \<Rightarrow> Inr (RelayGrant n) | None \<Rightarrow> Inl (NotFound ''message.attachment_not_found''))"

definition attachment_access ::
  "(uuid \<Rightarrow> string \<Rightarrow> int option result) \<Rightarrow> key_source \<Rightarrow> instant \<Rightarrow> uuid \<Rightarrow> uuid \<Rightarrow> string \<Rightarrow> bool
     \<Rightarrow> files \<Rightarrow> access result \<times> files" where
  "attachment_access grant ks now room user k relay_only s =
     (if relay_only then (granted grant room k, s)
      else
        let stored = room_has_message_object_key room k s;
            (committed, s') = (if is_message_attachment_object_key_for_room ks room k
               then claim_room_attachment_access room k user now s else (False, s))
        in if stored \<or> committed then (Inr PersistReference, s') else (granted grant room k, s'))"

definition expires_for :: "int option \<Rightarrow> access \<Rightarrow> int" where
  "expires_for requested a =
     (let r = max 60 (min 86400 (case requested of Some n \<Rightarrow> n | None \<Rightarrow> 600))
      in case a of PersistReference \<Rightarrow> r | RelayGrant left \<Rightarrow> min r left)"

text \<open>
  The provider, key and lifetime of the URL that the storage service signs or the cache still has.
\<close>

definition generate_message_attachment_download_url ::
  "s3 \<Rightarrow> (uuid \<Rightarrow> string \<Rightarrow> int option result) \<Rightarrow> key_source \<Rightarrow> instant \<Rightarrow> uuid \<Rightarrow> uuid option \<Rightarrow> string
     \<Rightarrow> int option \<Rightarrow> files \<Rightarrow> (uuid \<times> string \<times> int) result \<times> files" where
  "generate_message_attachment_download_url sv grant ks now room sub raw_key requested =
     with_value (claims_user_id sub) (\<lambda>user.
     query (member_of room user ''message.attachment_download_room_membership_required'') (\<lambda>_.
     let k = trim raw_key in
     with_value (require (k \<noteq> []) (ValidationError ''message.attachment_key_required'')) (\<lambda>_.
     with_value (require (is_valid_message_attachment_object_key k) (ValidationError ''message.attachment_key_invalid'')) (\<lambda>_.
     query (\<lambda>s. is_relay_only_runtime (base s)) (\<lambda>relay_only.
     run_then (attachment_access grant ks now room user k relay_only) (\<lambda>a.
     query (default_service sv) (\<lambda>p. answer (sp_id p, k, expires_for requested a))))))))"

end
