(* ===== verification/Messaging.thy ===== *)
theory Messaging
  imports AttachmentHandlers GroupHandlers Friends Envelope "HOL-Library.List_Lexorder" "HOL-Library.Char_ord"
begin

text \<open>
  The message handlers of \<open>api/src/handlers/message.rs\<close>: sending in plaintext and encrypted,
  forwarding, editing, deleting, pinning and clearing.  What the handlers publish to connected
  clients and queue for push comes after the last write and is not part of the model; in the mode
  \<open>relay_only\<close> nothing is stored and \<open>relay\<close> is what Redis answers to the broadcast.  \<open>rate\<close> is
  what Redis answers to \<open>INCR\<close>, with whether \<open>EXPIRE\<close> succeeded.
\<close>

section \<open>Steps on the database\<close>

definition on_base :: "(db \<Rightarrow> 'a result \<times> db) \<Rightarrow> files \<Rightarrow> 'a result \<times> files" where
  "on_base f s = (let (r, d) = f (base s) in (r, s\<lparr>base := d\<rparr>))"

definition file_tx :: "(files \<Rightarrow> sqlx_error + ('a \<times> files)) \<Rightarrow> files \<Rightarrow> 'a result \<times> files" where
  "file_tx f = atomically (\<lambda>s. from_sqlx (f s))"

definition file_step :: "(files \<Rightarrow> 'a \<times> files) \<Rightarrow> files \<Rightarrow> 'a result \<times> files" where
  "file_step f s = (let (a, s') = f s in (Inr a, s'))"

section \<open>Parts\<close>

datatype part_payload =
    PText string
  | PImage string "string option" "int option" "string option"
  | PVideo string "string option" "int option" "string option"
  | PAudio string "string option" "int option"
  | PFile string "string option" "int option"

text \<open>The content goes first; blank texts are dropped.\<close>

definition normalized_payloads :: "string option \<Rightarrow> part_payload list \<Rightarrow> part_payload list" where
  "normalized_payloads content payloads =
     (case content of Some t \<Rightarrow> if trim t \<noteq> [] then [PText (trim t)] else [] | None \<Rightarrow> [])
     @ filter (\<lambda>p. case p of PText t \<Rightarrow> trim t \<noteq> [] | _ \<Rightarrow> True) payloads"

definition file_part ::
  "int \<Rightarrow> part_type \<Rightarrow> string \<Rightarrow> string option \<Rightarrow> int option \<Rightarrow> string option \<Rightarrow> new_part result" where
  "file_part pos t key mime sz thumb =
     and_then (require (trim key \<noteq> []) (ValidationError ''attachment key'')) (\<lambda>_.
       Inr \<lparr>np_position = pos, np_type = t, np_text = None, np_attachment = Some (trim key),
            np_mime = mime, np_size = sz, np_thumbnail = thumb\<rparr>)"

fun prepared_part :: "int \<Rightarrow> part_payload \<Rightarrow> new_part result" where
  "prepared_part pos (PText t) =
     Inr \<lparr>np_position = pos, np_type = TextPart, np_text = Some (trim t), np_attachment = None,
          np_mime = None, np_size = None, np_thumbnail = None\<rparr>"
| "prepared_part pos (PImage key mime sz thumb) = file_part pos ImagePart key mime sz thumb"
| "prepared_part pos (PVideo key mime sz thumb) = file_part pos VideoPart key mime sz thumb"
| "prepared_part pos (PAudio key mime sz) = file_part pos AudioPart key mime sz None"
| "prepared_part pos (PFile key mime sz) = file_part pos FilePart key mime sz None"

text \<open>\<open>position\<close> is an \<open>i16\<close>.\<close>

definition next_position :: "int \<Rightarrow> int" where
  "next_position pos = (pos + 1 + 2 ^ 15) mod 2 ^ 16 - 2 ^ 15"

fun prepare_parts :: "int \<Rightarrow> part_payload list \<Rightarrow> new_part list result" where
  "prepare_parts pos [] = Inr []"
| "prepare_parts pos (PText t # ps) =
     (if trim t = [] then prepare_parts pos ps
      else and_then (prepared_part pos (PText t)) (\<lambda>q.
           and_then (prepare_parts (next_position pos) ps) (\<lambda>qs. Inr (q # qs))))"
| "prepare_parts pos (p # ps) =
     and_then (prepared_part pos p) (\<lambda>q.
     and_then (prepare_parts (next_position pos) ps) (\<lambda>qs. Inr (q # qs)))"

definition is_file_part :: "new_part \<Rightarrow> bool" where
  "is_file_part p \<longleftrightarrow> np_type p \<noteq> TextPart"

fun type_of_part :: "part_type \<Rightarrow> message_type" where
  "type_of_part ImagePart = ImageMsg"
| "type_of_part VideoPart = VideoMsg"
| "type_of_part FilePart = FileMsg"
| "type_of_part AudioPart = AudioMsg"
| "type_of_part TextPart = TextMsg"

definition infer_message_type :: "bool \<Rightarrow> part_type list \<Rightarrow> nat \<Rightarrow> message_type" where
  "infer_message_type has_text types audio_count =
     (if audio_count > 0 then AudioMsg
      else if types = [] then TextMsg
      else case remdups types of
        [t] \<Rightarrow> if \<not> has_text then type_of_part t else MixedMsg
      | _ \<Rightarrow> MixedMsg)"

fun join :: "string \<Rightarrow> string list \<Rightarrow> string" where
  "join sep [] = []"
| "join sep [x] = x"
| "join sep (x # xs) = x @ sep @ join sep xs"

fun summary_segment :: "new_part \<Rightarrow> string list" where
  "summary_segment p =
     (case np_type p of
        TextPart \<Rightarrow> (case np_text p of Some t \<Rightarrow> [t] | None \<Rightarrow> [])
      | ImagePart \<Rightarrow> [''[image]''] | VideoPart \<Rightarrow> [''[video]'']
      | AudioPart \<Rightarrow> [''[voice]''] | FilePart \<Rightarrow> [''[file]''])"

definition summarize_message_parts :: "new_part list \<Rightarrow> string" where
  "summarize_message_parts parts =
     (let s = join '' '' (concat (map summary_segment parts)) in if trim s = [] then ''[message]'' else s)"

definition normalize_message_parts ::
  "string option \<Rightarrow> part_payload list \<Rightarrow> (new_part list \<times> message_type \<times> string) result" where
  "normalize_message_parts content payloads =
     (let ps = normalized_payloads content payloads in
      and_then (require (ps \<noteq> []) (ValidationError ''empty message'')) (\<lambda>_.
      and_then (prepare_parts 0 ps) (\<lambda>parts.
        let files = filter is_file_part parts;
            audio_count = length (filter (\<lambda>p. np_type p = AudioPart) parts);
            has_text = list_ex (\<lambda>p. np_type p = TextPart) parts in
        if parts = [] then Inl (ValidationError ''empty message'')
        else if audio_count > 0 \<and> length parts > 1 then Inl (ValidationError ''voice message with other content'')
        else Inr (parts, infer_message_type has_text (map np_type files) audio_count,
                  summarize_message_parts parts))))"

section \<open>The upload policy on a message\<close>

definition check_part_policy :: "upload_policy \<Rightarrow> new_part \<Rightarrow> unit result" where
  "check_part_policy pol p =
     and_then (check_mime pol (np_type p) (np_mime p)) (\<lambda>_.
       case np_size p of
         Some n \<Rightarrow> if n > 0 then check_size pol (np_type p) ''message.size'' (Some n) else Inr ()
       | None \<Rightarrow> Inr ())"

definition total_size :: "new_part list \<Rightarrow> int" where
  "total_size parts = fold (\<lambda>p acc. case np_size p of
     Some n \<Rightarrow> if n > 0 then saturating_add acc n else acc | None \<Rightarrow> acc) parts 0"

definition check_upload_policy :: "upload_policy \<Rightarrow> new_part list \<Rightarrow> unit result" where
  "check_upload_policy pol parts =
     (let files = filter is_file_part parts in
      and_then (require (\<not> (pol_max_attachments pol \<ge> 0 \<and> int (length files) > pol_max_attachments pol))
        (ValidationError ''number of attachments'')) (\<lambda>_.
      and_then (collect (check_part_policy pol) files) (\<lambda>_.
        require (\<not> (pol_max_total_mb pol > 0 \<and> total_size files > pol_max_total_mb pol * 1024 * 1024))
          (ValidationError ''size of attachments''))))"

section \<open>The keys a message names\<close>

definition valid_keys :: "new_part list \<Rightarrow> unit result" where
  "valid_keys parts =
     (if list_all (\<lambda>p. list_all is_valid_message_attachment_object_key (part_keys p)) (filter is_file_part parts)
      then Inr () else Inl (ValidationError ''attachment key''))"

definition ensure_relay_only_attachment_keys_belong_to_room ::
  "key_source \<Rightarrow> uuid \<Rightarrow> new_part list \<Rightarrow> unit result" where
  "ensure_relay_only_attachment_keys_belong_to_room ks room parts =
     require (list_all (\<lambda>p. list_all (is_message_attachment_object_key_for_room ks room) (part_keys p))
         (filter is_file_part parts)) (ValidationError ''key of another room'')"

definition collect_attachment_keys :: "new_part list \<Rightarrow> string list" where
  "collect_attachment_keys parts =
     dedup_by id (sort (filter (\<lambda>k. k \<noteq> []) (map trim (concat (map part_keys (filter is_file_part parts))))))"

definition ensure_message_attachment_keys_are_committed :: "new_part list \<Rightarrow> files \<Rightarrow> unit result" where
  "ensure_message_attachment_keys_are_committed parts s =
     (let keys = collect_attachment_keys parts in
      if keys = [] then Inr ()
      else and_then (load_default_storage_provider s) (\<lambda>p.
        require (list_all (\<lambda>k. has_completed_by_key (sp_id p) k s) keys)
          (ValidationError ''attachment is not committed'')))"

fun kind_of_part :: "part_type \<Rightarrow> string" where
  "kind_of_part ImagePart = ''image''"
| "kind_of_part VideoPart = ''video''"
| "kind_of_part AudioPart = ''audio''"
| "kind_of_part FilePart = ''document''"
| "kind_of_part TextPart = ''text''"

type_synonym audit_item = "string \<times> string \<times> string option \<times> int option"

definition audit_items_of :: "new_part \<Rightarrow> audit_item list" where
  "audit_items_of p =
     (case np_attachment p of Some k \<Rightarrow> [(k, kind_of_part (np_type p), np_mime p, np_size p)] | None \<Rightarrow> [])
     @ (case np_thumbnail p of Some k \<Rightarrow> [(k, ''image'', None, None)] | None \<Rightarrow> [])"

fun queue_audits :: "instant \<Rightarrow> (nat \<Rightarrow> uuid) \<Rightarrow> uuid \<Rightarrow> nat \<Rightarrow> audit_item list \<Rightarrow> files \<Rightarrow> unit result \<times> files" where
  "queue_audits now gen p n [] = answer ()"
| "queue_audits now gen p n ((k, kind, ctype, sz) # items) =
     run_then (file_tx (upsert_task (gen n) p k ''message_attachment'' kind ctype sz now)) (\<lambda>_.
       queue_audits now gen p (Suc n) items)"

definition audit_parts ::
  "instant \<Rightarrow> (nat \<Rightarrow> uuid) \<Rightarrow> new_part list \<Rightarrow> files \<Rightarrow> unit result \<times> files" where
  "audit_parts now gen parts =
     (let items = dedup_by fst (sort_key fst (concat (map audit_items_of (filter is_file_part parts)))) in
      if items = [] then answer ()
      else query load_default_storage_provider (\<lambda>p. queue_audits now gen (sp_id p) 0 items))"

section \<open>Sending\<close>

record redis_answers =
  rate :: "int option \<times> bool"
  relay :: "unit result"
  reserve :: "bool result" \<comment> \<open>\<open>SET NX\<close> of the idempotency key\<close>

definition check_send_rate :: "redis_answers \<Rightarrow> unit result" where
  "check_send_rate rd =
     (case fst (rate rd) of
        None \<Rightarrow> Inl (CacheError ''INCR'')
      | Some count \<Rightarrow>
          if count = 1 \<and> \<not> snd (rate rd) then Inl (CacheError ''EXPIRE'')
          else if count > 30 then Inl (RateLimitExceeded ''30 messages in 10 seconds'')
          else Inr ())"

text \<open>A private room with a block between its two members.\<close>

definition check_not_blocked :: "uuid \<Rightarrow> uuid \<Rightarrow> files \<Rightarrow> unit result" where
  "check_not_blocked room sender s =
     (case get_room room (base s) of
        Inl _ \<Rightarrow> Inr ()
      | Inr r \<Rightarrow>
          if rm_type r = PrivateRoom
          then case fetch_optional (\<lambda>m. mb_user m \<noteq> sender) (list_members room (base s)) of
                 Some peer \<Rightarrow> ensure_not_mutually_blocked sender (mb_user peer) (base s)
               | None \<Rightarrow> Inr ()
          else Inr ())"

definition check_quoted :: "uuid \<Rightarrow> uuid option \<Rightarrow> files \<Rightarrow> uuid option result" where
  "check_quoted room quoted s =
     (case quoted of
        None \<Rightarrow> Inr None
      | Some q \<Rightarrow>
          (case get_message q s of
             None \<Rightarrow> Inl (ValidationError ''quoted message'')
           | Some m \<Rightarrow>
               if msg_room m \<noteq> room then Inl (ValidationError ''quoted message of another room'')
               else if msg_deleted m \<noteq> None then Inl (ValidationError ''quoted message is deleted'')
               else Inr (Some q)))"

record send_request =
  sr_content :: "string option"
  sr_parts :: "part_payload list"
  sr_quoted :: "uuid option"

definition runtime_sender :: "uuid \<Rightarrow> files \<Rightarrow> unit result" where
  "runtime_sender sender s = require (sender \<in> set (users (base s))) (NotFound ''sender'')"

definition send_message ::
  "redis_answers \<Rightarrow> key_source \<Rightarrow> upload_policy \<Rightarrow> (nat \<Rightarrow> uuid) \<Rightarrow> instant \<Rightarrow> uuid \<Rightarrow> uuid \<Rightarrow> uuid option
     \<Rightarrow> send_request \<Rightarrow> files \<Rightarrow> message result \<times> files" where
  "send_message rd ks pol gen now new_id room sub req =
     with_value (claims_user_id sub) (\<lambda>sender.
     query (\<lambda>s. load_message_runtime_settings (base s)) (\<lambda>runtime.
     with_value (ensure_plaintext_sending runtime) (\<lambda>_.
     let relay_only = is_relay_only runtime in
     query (member_of room sender ''not a member of the room'') (\<lambda>_.
     query (check_not_blocked room sender) (\<lambda>_.
     run_then (on_base (ensure_group_message_permissions now room sender)) (\<lambda>_.
     with_value (check_send_rate rd) (\<lambda>_.
     with_value (require (\<not> (relay_only \<and> sr_quoted req \<noteq> None)) (ValidationError ''relay_only: quote'')) (\<lambda>_.
     with_value (normalize_message_parts (sr_content req) (sr_parts req)) (\<lambda>(parts, ty, summary).
     with_value (check_upload_policy pol parts) (\<lambda>_.
     with_value (valid_keys parts) (\<lambda>_.
     with_value (if relay_only then ensure_relay_only_attachment_keys_belong_to_room ks room parts else Inr ()) (\<lambda>_.
     query (ensure_message_attachment_keys_are_committed parts) (\<lambda>_.
     run_then (audit_parts now gen parts) (\<lambda>_.
     query (check_quoted room (sr_quoted req)) (\<lambda>quoted.
     if relay_only then
       query (runtime_sender sender) (\<lambda>_.
       with_value (relay rd) (\<lambda>_. answer (plain_message new_id room sender summary ty None now)))
     else
       run_then (file_tx (create_message_with_parts new_id room sender summary ty quoted parts now)) (\<lambda>m.
       query (\<lambda>s. require (get_message_with_sender (msg_id m) s \<noteq> None) (InternalError ''new message'')) (\<lambda>_.
         answer m)))))))))))))))))"

text \<open>
  The metadata as the JSON that is stored, its members in key order; \<open>ks_uuid\<close> prints a UUID.
\<close>

fun content_type_json :: "content_type \<Rightarrow> string" where
  "content_type_json CtApplication = ''application''"
| "content_type_json CtCommit = ''commit''"
| "content_type_json CtWelcome = ''welcome''"

definition metadata_json :: "key_source \<Rightarrow> encryption_metadata \<Rightarrow> json" where
  "metadata_json ks m = JObject
     ([(''content_type'', JString (content_type_json (em_content_type m)))]
      @ (case em_control_message m of
           Some c \<Rightarrow> [(''control_message_id'', JString (ks_uuid ks c))] | None \<Rightarrow> [])
      @ [(''epoch'', JNumber (uint (em_epoch m))), (''protocol'', JString ''mls''),
         (''sender_device_id'', JString (ks_uuid ks (em_sender_device m))),
         (''version'', JNumber (uint (em_version m)))])"

record encrypted_request =
  er_payload :: string
  er_metadata :: encryption_metadata
  er_idem :: uuid
  er_quoted :: "uuid option"

definition encrypted_placeholder :: string where
  "encrypted_placeholder = ''[encrypted]''"

text \<open>The checks on the body of an encrypted message, up to the store call; \<open>dec\<close> decodes base64.\<close>

definition check_encrypted ::
  "(string \<Rightarrow> bytes option) \<Rightarrow> key_source \<Rightarrow> encrypted_request \<Rightarrow> encrypted_send result" where
  "check_encrypted dec ks req =
     (let m = er_metadata req in
      case dec (trim (er_payload req)) of
        None \<Rightarrow> Inl (ValidationError ''encrypted_content is not base64'')
      | Some b \<Rightarrow>
          and_then (require (b \<noteq> []) (ValidationError ''encrypted_content is empty'')) (\<lambda>_.
          and_then (case validate_envelope b m of Inl e \<Rightarrow> Inl (ValidationError e) | Inr u \<Rightarrow> Inr u) (\<lambda>_.
          and_then (require (em_content_type m = CtApplication) (ValidationError ''not an application envelope'')) (\<lambda>_.
          and_then (require (\<not> uuid_is_nil (er_idem req)) (ValidationError ''idempotency_key'')) (\<lambda>_.
          and_then (case em_control_message m of Some c \<Rightarrow> Inr c
                    | None \<Rightarrow> Inl (ValidationError ''control_message_id'')) (\<lambda>control.
          and_then (require (uint (em_epoch m) < 2 ^ 63) (ValidationError ''epoch'')) (\<lambda>_.
            Inr \<lparr>en_content = encrypted_placeholder, en_type = TextMsg, en_payload = b,
                 en_metadata = Some (metadata_json ks m), en_quoted = er_quoted req,
                 en_parts = [text_part encrypted_placeholder], en_idem = er_idem req,
                 en_device = em_sender_device m, en_epoch = uint (em_epoch m), en_control = control\<rparr>)))))))"

text \<open>In \<open>relay_only\<close> mode the message is checked and broadcast, and its key is reserved in Redis.\<close>

definition relay_encrypted ::
  "redis_answers \<Rightarrow> uuid \<Rightarrow> uuid \<Rightarrow> uuid \<Rightarrow> encrypted_send \<Rightarrow> instant \<Rightarrow> files \<Rightarrow> message result" where
  "relay_encrypted rd new_id room sender inp now s =
     and_then (validate_application_send_conn room sender (en_device inp) (en_epoch inp) (en_control inp) (base s)) (\<lambda>_.
     and_then (runtime_sender sender s) (\<lambda>_.
     and_then (reserve rd) (\<lambda>reserved.
     and_then (require reserved (MessageRuntimeConflict ''idempotency_key is used'')) (\<lambda>_.
     and_then (relay rd) (\<lambda>_. Inr (encrypted_row new_id room sender inp now))))))"

definition send_encrypted_message ::
  "redis_answers \<Rightarrow> (string \<Rightarrow> bytes option) \<Rightarrow> key_source \<Rightarrow> instant \<Rightarrow> uuid \<Rightarrow> uuid \<Rightarrow> uuid option
     \<Rightarrow> encrypted_request \<Rightarrow> files \<Rightarrow> message result \<times> files" where
  "send_encrypted_message rd dec ks now new_id room sub req =
     with_value (claims_user_id sub) (\<lambda>sender.
     query (\<lambda>s. load_message_runtime_settings (base s)) (\<lambda>runtime.
     with_value (ensure_encrypted_sending runtime) (\<lambda>_.
     let relay_only = is_relay_only runtime in
     query (member_of room sender ''not a member of the room'') (\<lambda>_.
     run_then (on_base (ensure_group_message_permissions now room sender)) (\<lambda>_.
     with_value (check_send_rate rd) (\<lambda>_.
     with_value (require (\<not> (relay_only \<and> er_quoted req \<noteq> None)) (ValidationError ''relay_only: quote'')) (\<lambda>_.
     with_value (check_encrypted dec ks req) (\<lambda>inp.
     query (check_quoted room (er_quoted req)) (\<lambda>_.
     if relay_only then query (relay_encrypted rd new_id room sender inp now) answer
     else
       run_then (atomically (create_encrypted_message_with_parts new_id room sender inp now)) (\<lambda>(m, _).
       query (\<lambda>s. require (get_message_with_sender (msg_id m) s \<noteq> None) (InternalError ''new message'')) (\<lambda>_.
         answer m)))))))))))"

section \<open>Forwarding, editing, deleting\<close>

definition found_message :: "uuid \<Rightarrow> string \<Rightarrow> files \<Rightarrow> message result" where
  "found_message i text s =
     (case get_message_with_sender i s of None \<Rightarrow> Inl (ValidationError text) | Some m \<Rightarrow> Inr m)"

definition not_relay_only :: "files \<Rightarrow> unit result" where
  "not_relay_only s =
     and_then (is_relay_only_runtime (base s)) (\<lambda>r. require (\<not> r) (ValidationError ''relay_only''))"

definition forward_message ::
  "(nat \<Rightarrow> uuid) \<Rightarrow> instant \<Rightarrow> uuid \<Rightarrow> uuid \<Rightarrow> uuid option \<Rightarrow> uuid \<Rightarrow> files \<Rightarrow> message result \<times> files" where
  "forward_message gen now new_id room sub original_id =
     with_value (claims_user_id sub) (\<lambda>sender.
     query (\<lambda>s. is_relay_only_runtime (base s)) (\<lambda>relay_only.
     query (\<lambda>s. is_e2ee_runtime (base s)) (\<lambda>e2ee.
     with_value (require (\<not> e2ee) (ValidationError ''forwarding is off in encrypted mode'')) (\<lambda>_.
     query (member_of room sender ''not a member of the target room'') (\<lambda>_.
     run_then (on_base (ensure_group_message_permissions now room sender)) (\<lambda>_.
     with_value (require (\<not> relay_only) (ValidationError ''relay_only'')) (\<lambda>_.
     query (found_message original_id ''original message'') (\<lambda>orig.
     with_value (require (msg_deleted orig = None) (ValidationError ''original message is deleted'')) (\<lambda>_.
     query (member_of (msg_room orig) sender ''not a member of the original room'') (\<lambda>_.
     with_value (require (msg_type orig \<noteq> SystemMsg) (ValidationError ''system message'')) (\<lambda>_.
     query (\<lambda>s. Inr (parts_of (msg_id orig) s)) (\<lambda>parts.
     run_then (audit_parts now gen (map copied_part parts)) (\<lambda>_.
     run_then (file_tx (create_forward_message new_id room sender orig parts now)) (\<lambda>m.
     query (\<lambda>s. require (get_message_with_sender (msg_id m) s \<noteq> None) (InternalError ''new message'')) (\<lambda>_.
       answer m)))))))))))))))"

text \<open>Only the sender touches a message.\<close>

definition own_message :: "uuid \<Rightarrow> uuid \<Rightarrow> uuid \<Rightarrow> files \<Rightarrow> message result" where
  "own_message room user i s =
     and_then (found_message i ''message'' s) (\<lambda>m.
     and_then (require (msg_room m = room) (ValidationError ''message of another room'')) (\<lambda>_.
     and_then (require (msg_sender m = user) (Forbidden ''message of another user'')) (\<lambda>_. Inr m)))"

definition delete_message ::
  "instant \<Rightarrow> uuid \<Rightarrow> uuid \<Rightarrow> uuid option \<Rightarrow> files \<Rightarrow> message result \<times> files" where
  "delete_message now room i sub =
     with_value (claims_user_id sub) (\<lambda>user.
     query (member_of room user ''not a member of the room'') (\<lambda>_.
     query not_relay_only (\<lambda>_.
     query (own_message room user i) (\<lambda>_.
     run_then (file_step (mark_message_deleted now i)) (\<lambda>marked.
     with_value (require (marked \<noteq> None) (ValidationError ''message is deleted'')) (\<lambda>_.
     run_then (file_step (remove_room_pin room (Some i))) (\<lambda>_.
     query (\<lambda>s. case get_message_with_sender i s of
        None \<Rightarrow> Inl (InternalError ''deleted message'') | Some m \<Rightarrow> Inr m) answer)))))))"

definition edit_message ::
  "uuid \<Rightarrow> uuid \<Rightarrow> uuid option \<Rightarrow> string \<Rightarrow> files \<Rightarrow> message result \<times> files" where
  "edit_message room i sub content =
     with_value (claims_user_id sub) (\<lambda>user.
     query (member_of room user ''not a member of the room'') (\<lambda>_.
     query not_relay_only (\<lambda>_.
     let new_content = trim content in
     with_value (require (new_content \<noteq> []) (ValidationError ''empty message'')) (\<lambda>_.
     with_value (require (length new_content \<le> 10000) (ValidationError ''message too long'')) (\<lambda>_.
     query (own_message room user i) (\<lambda>m.
     with_value (require (msg_deleted m = None) (ValidationError ''message is deleted'')) (\<lambda>_.
     with_value (require (msg_type m = TextMsg) (ValidationError ''only text messages'')) (\<lambda>_.
     run_then (file_step (update_message_content i new_content)) (\<lambda>updated.
     with_value (require (updated \<noteq> None) (InternalError ''edit'')) (\<lambda>_.
     query (\<lambda>s. case get_message_with_sender i s of
        None \<Rightarrow> Inl (InternalError ''edited message'') | Some m \<Rightarrow> Inr m) answer))))))))))"

definition pin_message ::
  "instant \<Rightarrow> uuid \<Rightarrow> uuid \<Rightarrow> uuid option \<Rightarrow> files \<Rightarrow> room_pin result \<times> files" where
  "pin_message now room i sub =
     with_value (claims_user_id sub) (\<lambda>user.
     query (member_of room user ''not a member of the room'') (\<lambda>_.
     query not_relay_only (\<lambda>_.
     query (found_message i ''message'') (\<lambda>m.
     with_value (require (msg_room m = room) (ValidationError ''message of another room'')) (\<lambda>_.
     with_value (require (msg_deleted m = None) (ValidationError ''message is deleted'')) (\<lambda>_.
     file_tx (upsert_room_pin now room i user)))))))"

definition unpin_message :: "uuid \<Rightarrow> uuid \<Rightarrow> uuid option \<Rightarrow> files \<Rightarrow> unit result \<times> files" where
  "unpin_message room i sub =
     with_value (claims_user_id sub) (\<lambda>user.
     query (member_of room user ''not a member of the room'') (\<lambda>_.
     query not_relay_only (\<lambda>_.
     run_then (file_step (remove_room_pin room (Some i))) (\<lambda>_. answer ()))))"

definition clear_room_messages ::
  "instant \<Rightarrow> uuid \<Rightarrow> uuid option \<Rightarrow> files \<Rightarrow> nat result \<times> files" where
  "clear_room_messages now room sub =
     with_value (claims_user_id sub) (\<lambda>user.
     query (member_of room user ''message.clear_room_membership_required'') (\<lambda>_.
     query not_relay_only (\<lambda>_.
     query (\<lambda>s. case get_room room (base s) of
        Inl _ \<Rightarrow> Inl (NotFound ''message.clear_room_not_found'') | Inr r \<Rightarrow> Inr r) (\<lambda>r.
     with_value (require (\<not> (rm_type r \<noteq> PrivateRoom \<and> rm_owner r \<noteq> user))
       (Forbidden ''message.clear_group_owner_only'')) (\<lambda>_.
     run_then (file_step (mark_room_messages_deleted now room)) (\<lambda>n.
     run_then (file_step (remove_room_pin room None)) (\<lambda>_. answer n)))))))"

end
