(* ===== verification/FileWorkers.thy ===== *)
theory FileWorkers
  imports Attachments UploadSessions
begin

text \<open>
  The two background workers on uploaded files: \<open>api/src/services/file_upload_cleanup.rs\<close>, which
  settles uploads that were never reported and deletes objects that nothing refers to, and
  \<open>api/src/services/file_upload_audit.rs\<close>, which checks that a reported object is stored, with the
  queue of \<open>api/src/database/file_upload_audit_store.rs\<close>.  A run of a worker sees one clock; \<open>gen\<close>
  supplies the ids of new rows.
\<close>

section \<open>Cleaning up\<close>

record cleanup_config =
  cc_pending :: int
  cc_orphan :: int
  cc_retention :: int
  cc_batch :: int

definition read_i64_positive :: "(string \<Rightarrow> string option) \<Rightarrow> string \<Rightarrow> int \<Rightarrow> int" where
  "read_i64_positive env name dflt =
     (case Option.bind (env name) (\<lambda>v. parse_i64 (trim v)) of
        Some v \<Rightarrow> if v > 0 then v else dflt
      | None \<Rightarrow> dflt)"

definition cleanup_config_from_env :: "(string \<Rightarrow> string option) \<Rightarrow> cleanup_config" where
  "cleanup_config_from_env env =
     \<lparr>cc_pending = read_i64_positive env ''FILE_UPLOAD_PENDING_TIMEOUT_SECONDS'' (6 * 3600),
      cc_orphan = read_i64_positive env ''FILE_UPLOAD_ORPHAN_DELETE_AFTER_SECONDS'' (7 * 24 * 3600),
      cc_retention = read_i64_positive env ''FILE_UPLOAD_UNREFERENCED_RETENTION_SECONDS'' (30 * 24 * 3600),
      cc_batch = read_i64_positive env ''FILE_UPLOAD_CLEANUP_BATCH_SIZE'' 200\<rparr>"

definition cleanup_scene :: "string \<Rightarrow> string" where
  "cleanup_scene object_key =
     (let key = trim object_key in
      if starts_with key ''avatars/'' then ''avatar''
      else if starts_with key ''room_avatars/'' then ''room_avatar''
      else if starts_with key ''messages/'' then ''message_attachment''
      else if starts_with key ''reports/'' then ''report_attachment''
      else if starts_with key ''releases/'' then ''version''
      else ''unknown'')"

definition cleanup_media_kind :: "string \<Rightarrow> string option \<Rightarrow> string" where
  "cleanup_media_kind object_key ctype =
     (case ctype of
        Some t \<Rightarrow> media_kind_of_type t
      | None \<Rightarrow>
          let key = trim object_key in
          if starts_with key ''messages/'' then infer_media_kind_from_message_attachment_object_key key
          else if starts_with key ''avatars/'' \<or> starts_with key ''room_avatars/'' then ''image''
          else if starts_with key ''reports/'' then ''image''
          else if starts_with key ''releases/'' then ''document''
          else ''unknown'')"

text \<open>Whether the object is stored; \<open>None\<close> where the worker gives up on it.\<close>

definition object_stored :: "s3 \<Rightarrow> uuid \<Rightarrow> string \<Rightarrow> files \<Rightarrow> bool option" where
  "object_stored sv p k s =
     (case s3_head sv p k (bucket s) of
        Inr _ \<Rightarrow> Some True
      | Inl (NotFound _) \<Rightarrow> Some False
      | Inl (ValidationError _) \<Rightarrow>
          (case s3_exists sv p k (bucket s) of Inr there \<Rightarrow> Some there | Inl _ \<Rightarrow> None)
      | Inl _ \<Rightarrow> None)"

definition commit_deleted_record :: "uuid \<Rightarrow> string \<Rightarrow> files \<Rightarrow> files" where
  "commit_deleted_record p k s =
     s\<lparr>file_records := update_where (of_object p k) (\<lambda>r. r\<lparr>fl_status := FileDeleted\<rparr>) (file_records s)\<rparr>"

text \<open>
  The transaction that holds the lock is rolled back when the object cannot be examined or deleted.
\<close>

definition delete_locked_object :: "s3 \<Rightarrow> uuid \<Rightarrow> string \<Rightarrow> files \<Rightarrow> files" where
  "delete_locked_object sv p k s =
     (case object_stored sv p k s of
        None \<Rightarrow> s
      | Some there \<Rightarrow>
          if there then
            (case s3_delete sv p k (bucket s) of
               (Inl _, b) \<Rightarrow> s\<lparr>bucket := b\<rparr>
             | (Inr _, b) \<Rightarrow> commit_deleted_record p k (s\<lparr>bucket := b\<rparr>))
          else commit_deleted_record p k s)"

definition delete_unlocked_object :: "s3 \<Rightarrow> uuid \<Rightarrow> string \<Rightarrow> files \<Rightarrow> files" where
  "delete_unlocked_object sv p k s =
     (case object_stored sv p k s of
        None \<Rightarrow> s
      | Some there \<Rightarrow>
          if there then
            (case s3_delete sv p k (bucket s) of
               (Inl _, b) \<Rightarrow> s\<lparr>bucket := b\<rparr>
             | (Inr _, b) \<Rightarrow> snd (mark_deleted_by_key p k (s\<lparr>bucket := b\<rparr>)))
          else snd (mark_deleted_by_key p k s))"

text \<open>The services a run has opened are remembered by their provider.\<close>

definition get_service_for_provider :: "s3 \<Rightarrow> uuid list \<Rightarrow> uuid \<Rightarrow> files \<Rightarrow> uuid list result" where
  "get_service_for_provider sv opened p s =
     (if p \<in> set opened then Inr opened
      else case get_provider_by_id p s of
        None \<Rightarrow> Inl (NotFound ''storage provider'')
      | Some q \<Rightarrow>
          if \<not> sp_active q then Inl (ValidationError ''provider inactive'')
          else and_then (create_storage_service sv q) (\<lambda>_. Inr (p # opened)))"

text \<open>What both loops do with an object that nothing refers to.\<close>

definition delete_unreferenced :: "s3 \<Rightarrow> instant \<Rightarrow> uuid \<Rightarrow> string \<Rightarrow> files \<Rightarrow> files" where
  "delete_unreferenced sv now p k s =
     (if \<not> starts_with k messages_prefix then delete_unlocked_object sv p k s
      else if begin_unreferenced_deletion now p k s then delete_locked_object sv p k s
      else s)"

definition settle_pending ::
  "s3 \<Rightarrow> cleanup_config \<Rightarrow> instant \<Rightarrow> uuid \<Rightarrow> file_record \<Rightarrow> uuid list \<Rightarrow> files \<Rightarrow> uuid list result \<times> files" where
  "settle_pending sv cfg now new_id r opened s =
     (let k = fl_key r; p = fl_provider r in
      if is_object_key_referenced now k s then
        let s1 = snd (mark_completed_by_key now p k s)
        in (Inr opened,
            case upsert_task new_id p k (cleanup_scene k) (cleanup_media_kind k (fl_ctype r)) (fl_ctype r)
                   (fl_size r) now s1 of
              Inl _ \<Rightarrow> s1 | Inr (_, s2) \<Rightarrow> s2)
      else case get_service_for_provider sv opened p s of
        Inl e \<Rightarrow> (Inl e, s)
      | Inr opened \<Rightarrow>
          (Inr opened,
           case s3_head sv p k (bucket s) of
             Inr _ \<Rightarrow>
               let s1 = snd (mark_failed_by_key p k s)
               in if fl_created r < now - seconds (cc_orphan cfg) then delete_unreferenced sv now p k s1 else s1
           | Inl (NotFound _) \<Rightarrow> snd (mark_failed_by_key p k s)
           | Inl (ValidationError _) \<Rightarrow>
               (case s3_exists sv p k (bucket s) of
                  Inr _ \<Rightarrow> snd (mark_failed_by_key p k s) | Inl _ \<Rightarrow> s)
           | Inl _ \<Rightarrow> s))"

definition drop_completed ::
  "s3 \<Rightarrow> instant \<Rightarrow> file_record \<Rightarrow> uuid list \<Rightarrow> files \<Rightarrow> uuid list result \<times> files" where
  "drop_completed sv now r opened s =
     (let k = fl_key r; p = fl_provider r in
      if is_object_key_referenced now k s then (Inr opened, s)
      else case get_service_for_provider sv opened p s of
        Inl e \<Rightarrow> (Inl e, s)
      | Inr opened \<Rightarrow> (Inr opened, delete_unreferenced sv now p k s))"

text \<open>\<open>for record in records\<close>, left at the first error.\<close>

fun each_record ::
  "(nat \<Rightarrow> file_record \<Rightarrow> uuid list \<Rightarrow> files \<Rightarrow> uuid list result \<times> files) \<Rightarrow> nat \<Rightarrow> file_record list
     \<Rightarrow> uuid list \<Rightarrow> files \<Rightarrow> uuid list result \<times> files" where
  "each_record f n [] opened s = (Inr opened, s)"
| "each_record f n (r # rs) opened s = run_then (f n r opened) (each_record f (Suc n) rs) s"

definition run_file_upload_cleanup ::
  "s3 \<Rightarrow> cleanup_config \<Rightarrow> instant \<Rightarrow> (nat \<Rightarrow> uuid) \<Rightarrow> files \<Rightarrow> unit result \<times> files" where
  "run_file_upload_cleanup sv cfg now gen s =
     run_then
       (each_record (\<lambda>n r. settle_pending sv cfg now (gen n) r) 0
         (list_stale_pending_records (now - seconds (cc_pending cfg)) (cc_batch cfg) s) [])
       (\<lambda>opened s1.
         run_then
           (each_record (\<lambda>_ r. drop_completed sv now r) 0
             (list_old_completed_records (now - seconds (cc_retention cfg)) (cc_batch cfg) s1) opened)
           (\<lambda>_. answer ()) s1) s"

section \<open>The audit queue\<close>

definition is_task :: "uuid \<Rightarrow> audit_task \<Rightarrow> bool" where
  "is_task i a \<longleftrightarrow> at_id a = i"

definition update_tasks :: "(audit_task \<Rightarrow> bool) \<Rightarrow> (audit_task \<Rightarrow> audit_task) \<Rightarrow> files \<Rightarrow> bool \<times> files" where
  "update_tasks P f s = (exists_row P (audit_tasks s), s\<lparr>audit_tasks := update_where P f (audit_tasks s)\<rparr>)"

definition get_task_by_id :: "uuid \<Rightarrow> files \<Rightarrow> audit_task option" where
  "get_task_by_id i s = fetch_optional (is_task i) (audit_tasks s)"

definition requeue_task :: "instant \<Rightarrow> uuid \<Rightarrow> files \<Rightarrow> bool \<times> files" where
  "requeue_task now i = update_tasks (is_task i) (\<lambda>a. a\<lparr>at_status := AuditQueued, at_job := None,
     at_error := None, at_rejected := None, at_audited := None, at_attempts := 0, at_next := now\<rparr>)"

definition mark_submitted :: "uuid \<Rightarrow> string \<Rightarrow> instant \<Rightarrow> files \<Rightarrow> bool \<times> files" where
  "mark_submitted i job next_run = update_tasks (is_task i) (\<lambda>a. a\<lparr>at_status := AuditQueued,
     at_job := Some job, at_next := next_run, at_error := None\<rparr>)"

definition mark_approved :: "uuid \<Rightarrow> instant \<Rightarrow> files \<Rightarrow> bool \<times> files" where
  "mark_approved i audited = update_tasks (is_task i) (\<lambda>a. a\<lparr>at_status := AuditApproved,
     at_rejected := None, at_error := None, at_audited := Some audited\<rparr>)"

definition mark_rejected :: "uuid \<Rightarrow> string \<Rightarrow> instant \<Rightarrow> files \<Rightarrow> bool \<times> files" where
  "mark_rejected i reason audited = update_tasks (is_task i) (\<lambda>a. a\<lparr>at_status := AuditRejected,
     at_rejected := Some reason, at_error := None, at_audited := Some audited\<rparr>)"

definition mark_retry :: "uuid \<Rightarrow> string \<Rightarrow> instant \<Rightarrow> files \<Rightarrow> bool \<times> files" where
  "mark_retry i text next_run =
     update_tasks (\<lambda>a. is_task i a \<and> at_status a \<noteq> AuditFailed) (\<lambda>a. a\<lparr>at_status := AuditRetry,
       at_attempts := at_attempts a + 1, at_error := Some text, at_next := next_run\<rparr>)"

definition mark_failed :: "uuid \<Rightarrow> string \<Rightarrow> files \<Rightarrow> bool \<times> files" where
  "mark_failed i text = update_tasks (is_task i) (\<lambda>a. a\<lparr>at_status := AuditFailed, at_error := Some text\<rparr>)"

definition set_next_run_at :: "uuid \<Rightarrow> instant \<Rightarrow> files \<Rightarrow> bool \<times> files" where
  "set_next_run_at i next_run = update_tasks (is_task i) (\<lambda>a. a\<lparr>at_next := next_run\<rparr>)"

definition due :: "instant \<Rightarrow> audit_task \<Rightarrow> bool" where
  "due now a \<longleftrightarrow> at_status a \<in> {AuditQueued, AuditRetry} \<and> at_next a \<le> now"

definition leased :: "instant \<Rightarrow> int \<Rightarrow> audit_task \<Rightarrow> audit_task" where
  "leased now lease a = a\<lparr>at_next := now + seconds lease\<rparr>"

definition claim_due_tasks :: "instant \<Rightarrow> int \<Rightarrow> int \<Rightarrow> files \<Rightarrow> audit_task list \<times> files" where
  "claim_due_tasks now limit lease s =
     (let picked = take (nat limit) (sort_key (\<lambda>a. (at_next a, at_created a)) (filter (due now) (audit_tasks s)));
          mine = (\<lambda>a. at_id a \<in> set (map at_id picked))
      in (map (leased now lease) picked,
          s\<lparr>audit_tasks := update_where mine (leased now lease) (audit_tasks s)\<rparr>))"

definition claim_task_by_id :: "instant \<Rightarrow> uuid \<Rightarrow> int \<Rightarrow> files \<Rightarrow> audit_task option \<times> files" where
  "claim_task_by_id now i lease s =
     (map_option (leased now lease) (get_task_by_id i s),
      s\<lparr>audit_tasks := update_where (is_task i) (leased now lease) (audit_tasks s)\<rparr>)"

section \<open>Auditing\<close>

record audit_config =
  au_enabled :: bool
  au_batch :: int
  au_lease :: int
  au_max_attempts :: int
  au_poll :: int
  au_retry_base :: int
  au_retry_max :: int

definition saturating_mul :: "int \<Rightarrow> int \<Rightarrow> int" where
  "saturating_mul a b = max (- (2 ^ 63)) (min (2 ^ 63 - 1) (a * b))"

definition retry_delay :: "audit_config \<Rightarrow> int \<Rightarrow> int" where
  "retry_delay cfg attempts =
     (let capped = min (max attempts 0) 30;
          base = max (au_retry_base cfg) 1;
          delay = saturating_mul base (2 ^ nat capped);
          delay = (if delay > au_retry_max cfg then au_retry_max cfg else delay)
      in max delay 1)"

definition next_retry_at :: "audit_config \<Rightarrow> int \<Rightarrow> instant \<Rightarrow> instant" where
  "next_retry_at cfg attempts now = now + seconds (retry_delay cfg attempts)"

definition process_task :: "s3 \<Rightarrow> audit_config \<Rightarrow> instant \<Rightarrow> audit_task \<Rightarrow> files \<Rightarrow> unit result \<times> files" where
  "process_task sv cfg now t s =
     (if at_attempts t \<ge> au_max_attempts cfg \<and> at_status t = AuditRetry then
        (Inr (), snd (mark_failed_by_key (at_provider t) (at_key t)
                        (snd (mark_failed (at_id t) ''too many attempts'' s))))
      else case get_provider_by_id (at_provider t) s of
        None \<Rightarrow> (Inl (NotFound ''storage provider''), s)
      | Some p \<Rightarrow>
          if \<not> sp_active p then
            (Inr (), snd (mark_retry (at_id t) ''provider inactive'' (next_retry_at cfg (at_attempts t) now) s))
          else if \<not> sp_s3 p then (Inr (), snd (mark_failed (at_id t) ''provider type'' s))
          else with_value (create_storage_service sv p) (\<lambda>_ s.
            (Inr (),
             case s3_head sv (sp_id p) (at_key t) (bucket s) of
               Inr _ \<Rightarrow> snd (mark_completed_by_key now (sp_id p) (at_key t)
                             (snd (mark_approved (at_id t) now s)))
             | Inl (NotFound _) \<Rightarrow>
                 snd (mark_retry (at_id t) ''object is not stored yet'' (now + seconds (max (au_poll cfg) 1)) s)
             | Inl e \<Rightarrow> snd (mark_retry (at_id t) (display_error e) (next_retry_at cfg (at_attempts t) now) s))) s)"

text \<open>An error of one task is logged and the loop goes on.\<close>

fun process_all :: "s3 \<Rightarrow> audit_config \<Rightarrow> instant \<Rightarrow> audit_task list \<Rightarrow> files \<Rightarrow> files" where
  "process_all sv cfg now [] s = s"
| "process_all sv cfg now (t # ts) s = process_all sv cfg now ts (snd (process_task sv cfg now t s))"

definition run_file_upload_audit_once :: "s3 \<Rightarrow> audit_config \<Rightarrow> instant \<Rightarrow> files \<Rightarrow> files" where
  "run_file_upload_audit_once sv cfg now s =
     (if \<not> au_enabled cfg then s
      else let (tasks, s1) = claim_due_tasks now (au_batch cfg) (au_lease cfg) s
           in process_all sv cfg now tasks s1)"

definition trigger_task_now :: "s3 \<Rightarrow> audit_config \<Rightarrow> instant \<Rightarrow> uuid \<Rightarrow> files \<Rightarrow> files" where
  "trigger_task_now sv cfg now i s =
     (if \<not> au_enabled cfg then s
      else case claim_task_by_id now i (au_lease cfg) s of
        (None, s1) \<Rightarrow> s1
      | (Some t, s1) \<Rightarrow> snd (process_task sv cfg now t s1))"

end
