(* ===== verification/FileInvariant.thy ===== *)
theory FileInvariant
  imports Messaging FileWorkers
begin

text \<open>
  The invariant of uploaded files and messages, and that every message handler keeps it.
  \<open>files_wf\<close> is there for its consequence that an object that a stored message or a live commit
  names is never missing; \<open>FileSystem\<close> carries it through uploads and the workers.
\<close>

section \<open>The invariant\<close>

definition live_key :: "instant \<Rightarrow> string \<Rightarrow> files \<Rightarrow> bool" where
  "live_key now k s \<longleftrightarrow> committed_key now k s \<or> message_key k s"

definition stored_key :: "string \<Rightarrow> files \<Rightarrow> bool" where
  "stored_key k s \<longleftrightarrow> (\<exists>p. (p, k) \<in> set (bucket s))"

abbreviation attachment :: "string \<Rightarrow> bool" where
  "attachment k \<equiv> starts_with k messages_prefix"

text \<open>
  \<open>issued\<close> are the keys handed out for uploads, each for one provider; whatever is stored, recorded
  or uploaded in parts has such a key.  A completed attachment is stored, and so is one that is named.
\<close>

definition issued_ok :: "stored \<Rightarrow> files \<Rightarrow> bool" where
  "issued_ok issued s \<longleftrightarrow>
     (\<forall>p q k. (p, k) \<in> set issued \<longrightarrow> (q, k) \<in> set issued \<longrightarrow> p = q)
   \<and> set (bucket s) \<subseteq> set issued
   \<and> (\<forall>r \<in> set (file_records s). (fl_provider r, fl_key r) \<in> set issued)
   \<and> (\<forall>x \<in> set (upload_sessions s). (us_provider x, us_key x) \<in> set issued)"

definition completed_ok :: "files \<Rightarrow> bool" where
  "completed_ok s \<longleftrightarrow> (\<forall>r \<in> set (file_records s). fl_status r = FileCompleted \<longrightarrow> attachment (fl_key r) \<longrightarrow>
     (fl_provider r, fl_key r) \<in> set (bucket s))"

definition live_ok :: "instant \<Rightarrow> files \<Rightarrow> bool" where
  "live_ok now s \<longleftrightarrow> (\<forall>k. live_key now k s \<longrightarrow> attachment k \<longrightarrow> stored_key k s)"

definition parts_ok :: "files \<Rightarrow> bool" where
  "parts_ok s \<longleftrightarrow> mp_message ` set (message_parts s) \<subseteq> msg_id ` set (messages (base s))"

definition files_wf :: "instant \<Rightarrow> stored \<Rightarrow> files \<Rightarrow> bool" where
  "files_wf now issued s \<longleftrightarrow> issued_ok issued s \<and> completed_ok s \<and> live_ok now s \<and> parts_ok s
     \<and> (\<forall>k \<in> set (other_keys s). \<not> attachment k)"

lemma files_wfD:
  assumes "files_wf now issued s"
  shows "issued_ok issued s" "completed_ok s" "live_ok now s" "parts_ok s" "k \<in> set (other_keys s) \<Longrightarrow> \<not> attachment k"
  using assms by (auto simp: files_wf_def)

text \<open>The provider that stores a live key is the one of every record of the key.\<close>

lemma live_record_stored:
  assumes wf: "files_wf now issued s" and live: "live_key now k s" "attachment k"
    and key: "(p, k) \<in> set issued"
  shows "(p, k) \<in> set (bucket s)"
proof -
  obtain q where q: "(q, k) \<in> set (bucket s)"
    using files_wfD(3) [OF wf] live by (auto simp: live_ok_def stored_key_def)
  then have "q = p" using files_wfD(1) [OF wf] key unfolding issued_ok_def by blast
  with q show ?thesis by simp
qed

section \<open>Steps that keep it\<close>

text \<open>A change that takes nothing away from what the invariant needs and adds no live key.\<close>

definition same_files :: "instant \<Rightarrow> files \<Rightarrow> files \<Rightarrow> bool" where
  "same_files now s s' \<longleftrightarrow> bucket s' = bucket s \<and> file_records s' = file_records s
     \<and> other_keys s' = other_keys s
     \<and> (\<lambda>x. (us_provider x, us_key x)) ` set (upload_sessions s')
         \<subseteq> (\<lambda>x. (us_provider x, us_key x)) ` set (upload_sessions s)
     \<and> mp_message ` set (message_parts s') \<subseteq> mp_message ` set (message_parts s)
     \<and> msg_id ` set (messages (base s)) \<subseteq> msg_id ` set (messages (base s'))
     \<and> (\<forall>k. live_key now k s' \<longrightarrow> live_key now k s)"

lemma files_wf_frame:
  assumes "files_wf now issued s" "same_files now s s'"
  shows "files_wf now issued s'"
proof -
  have "(us_provider x, us_key x) \<in> set issued" if "x \<in> set (upload_sessions s')" for x
  proof -
    have "(us_provider x, us_key x) \<in> (\<lambda>x. (us_provider x, us_key x)) ` set (upload_sessions s)"
      using assms(2) that by (auto simp: same_files_def)
    then show ?thesis using assms(1) by (auto simp: files_wf_def issued_ok_def)
  qed
  then have "issued_ok issued s'" using assms by (simp add: files_wf_def same_files_def issued_ok_def)
  moreover have "parts_ok s'" using assms by (fastforce simp: files_wf_def same_files_def parts_ok_def)
  ultimately show ?thesis using assms
    by (simp add: files_wf_def same_files_def completed_ok_def live_ok_def stored_key_def)
qed

lemma keeps_frame: "(\<And>s. same_files now s (snd (f s))) \<Longrightarrow> keeps (files_wf now issued) f"
  by (auto simp: keeps_def intro: files_wf_frame)

lemma live_key_cong:
  assumes "attachment_commits s' = attachment_commits s" "message_parts s' = message_parts s"
    "messages (base s') = messages (base s)"
  shows "live_key now k s' \<longleftrightarrow> live_key now k s"
  using assms by (simp add: live_key_def committed_key_def message_key_def live_message_def)

text \<open>Records: a new status, a new pending record.\<close>

lemma live_key_records [simp]: "live_key now k (s\<lparr>file_records := rs\<rparr>) = live_key now k s"
  "live_key now k (s\<lparr>bucket := b\<rparr>) = live_key now k s"
  "live_key now k (s\<lparr>audit_tasks := ts\<rparr>) = live_key now k s"
  "live_key now k (s\<lparr>upload_sessions := xs\<rparr>) = live_key now k s"
  "live_key now k (s\<lparr>room_pins := ps\<rparr>) = live_key now k s"
  by (rule live_key_cong; simp)+

lemma update_records_wf:
  assumes wf: "files_wf now issued s"
    and same: "\<And>r. P r \<Longrightarrow> fl_provider (f r) = fl_provider r \<and> fl_key (f r) = fl_key r"
    and stored: "\<And>r. r \<in> set (file_records s) \<Longrightarrow> P r \<Longrightarrow> fl_status (f r) = FileCompleted \<Longrightarrow>
      attachment (fl_key r) \<Longrightarrow> (fl_provider r, fl_key r) \<in> set (bucket s)"
  shows "files_wf now issued (s\<lparr>file_records := update_where P f (file_records s)\<rparr>)" (is "files_wf _ _ ?s")
proof -
  have row: "(fl_provider x, fl_key x) \<in> set issued
      \<and> (fl_status x = FileCompleted \<longrightarrow> attachment (fl_key x) \<longrightarrow> (fl_provider x, fl_key x) \<in> set (bucket s))"
    if "x \<in> set (update_where P f (file_records s))" for x
    using that
  proof (cases rule: update_where_cases)
    case kept
    then show ?thesis using files_wfD(1,2) [OF wf] by (simp add: issued_ok_def completed_ok_def)
  next
    case (changed y)
    then show ?thesis using files_wfD(1) [OF wf] same [OF changed(2)] stored [OF changed(1,2)]
      by (simp add: issued_ok_def)
  qed
  have "issued_ok issued ?s" using files_wfD(1) [OF wf] row by (simp add: issued_ok_def)
  moreover have "completed_ok ?s" using row by (simp add: completed_ok_def)
  moreover have "live_ok now ?s" using files_wfD(3) [OF wf] by (auto simp: live_ok_def stored_key_def)
  ultimately show ?thesis using wf by (simp add: files_wf_def parts_ok_def)
qed

lemma mark_completed_wf:
  assumes "files_wf now issued s" "attachment k \<Longrightarrow> (p, k) \<in> set (bucket s)"
  shows "files_wf now issued (snd (mark_completed_by_key t p k s))"
  using assms unfolding mark_completed_by_key_def set_status_def snd_conv
  by (intro update_records_wf) (auto simp: completed_now_def of_object_def)

lemma mark_failed_wf: "files_wf now issued s \<Longrightarrow> files_wf now issued (snd (mark_failed_by_key p k s))"
  unfolding mark_failed_by_key_def set_status_def snd_conv by (intro update_records_wf) auto

lemma mark_deleted_wf: "files_wf now issued s \<Longrightarrow> files_wf now issued (snd (mark_deleted_by_key p k s))"
  unfolding mark_deleted_by_key_def set_status_def snd_conv by (intro update_records_wf) auto

lemma commit_deleted_eq: "commit_deleted_record p k s = snd (mark_deleted_by_key p k s)"
  by (simp add: commit_deleted_record_def mark_deleted_by_key_def set_status_def)

lemma create_pending_wf:
  assumes wf: "files_wf now issued s" and key: "(p, k) \<in> set issued"
    and ok: "create_pending_record p k alg h sz ct t s = Inr ((), s')"
  shows "files_wf now issued s'"
proof (cases "get_by_key p k s = None")
  case True
  have "s' = s\<lparr>file_records := file_records s @ [pending_record p k alg h sz ct t]\<rparr>"
    using ok True by (simp add: create_pending_record_def split: if_splits)
  moreover have "issued_ok issued s'" using files_wfD(1) [OF wf] key calculation
    by (auto simp: issued_ok_def pending_record_def)
  moreover have "completed_ok s'" using files_wfD(2) [OF wf] calculation(1)
    by (auto simp: completed_ok_def pending_record_def)
  ultimately show ?thesis using wf by (auto simp: files_wf_def live_ok_def stored_key_def parts_ok_def)
next
  case False
  with ok have "s' = s\<lparr>file_records := update_where (of_object p k)
      (\<lambda>r. r\<lparr>fl_hash_alg := alg, fl_hash := h, fl_size := sz, fl_ctype := ct, fl_status := FilePending\<rparr>)
      (file_records s)\<rparr>"
    by (auto simp: create_pending_record_def split: if_splits)
  then show ?thesis by (simp only:) (rule update_records_wf [OF wf]; simp)
qed

lemma note_pending_wf:
  "(p, k) \<in> set issued \<Longrightarrow> keeps (files_wf now issued) (note_pending t p k alg h sz ct)"
  unfolding note_pending_def
proof (rule keeps_atomically)
  fix s a s'
  assume "(p, k) \<in> set issued" "files_wf now issued s" "from_sqlx (create_pending_record p k alg h sz ct t s) = Inr (a, s')"
  then show "files_wf now issued s'" by (cases a) (auto intro: create_pending_wf)
qed

text \<open>Messages: what is inserted names only complete files.\<close>

lemma all_completed_stored:
  assumes "files_wf now issued s" "all_completed k s" "attachment k"
  shows "stored_key k s"
proof -
  obtain r where r: "r \<in> set (file_records s)" "fl_key r = k" "fl_status r = FileCompleted"
    using assms(2) by (auto simp: all_completed_def)
  then have "(fl_provider r, k) \<in> set (bucket s)"
    using files_wfD(2) [OF assms(1)] assms(3) by (auto simp: completed_ok_def)
  then show ?thesis by (auto simp: stored_key_def)
qed

lemma part_keys_iff: "k \<in> set (part_keys p) \<longleftrightarrow> names_key k (part_row m p)"
  by (auto simp: part_keys_def part_row_def names_key_def map_filter_def)

lemma live_wfI:
  assumes "files_wf now issued s" "bucket s' = bucket s" "file_records s' = file_records s"
    "upload_sessions s' = upload_sessions s" "other_keys s' = other_keys s" "parts_ok s'"
    "\<And>k. live_key now k s' \<Longrightarrow> attachment k \<Longrightarrow> live_key now k s \<or> stored_key k s"
  shows "files_wf now issued s'"
proof -
  have "stored_key k s' = stored_key k s" for k using assms(2) by (simp add: stored_key_def)
  then have "live_ok now s'" using assms(1,7) by (auto simp: files_wf_def live_ok_def)
  then show ?thesis using assms(1-6) by (simp add: files_wf_def issued_ok_def completed_ok_def)
qed

lemma insert_parts_wf:
  "files_wf now issued s \<Longrightarrow> m \<in> msg_id ` set (messages (base s)) \<Longrightarrow>
   insert_message_parts m ps s = Inr s' \<Longrightarrow> files_wf now issued s'"
proof (induction ps arbitrary: s)
  case (Cons p ps)
  let ?s = "s\<lparr>message_parts := message_parts s @ [part_row m p]\<rparr>"
  have keys: "\<forall>k \<in> set (part_keys p). all_completed k s" and rest: "insert_message_parts m ps ?s = Inr s'"
    using Cons.prems(3) by (auto simp: list_all_iff split: if_splits)
  have "files_wf now issued ?s"
  proof (rule live_wfI [OF Cons.prems(1)])
    show "parts_ok ?s" using files_wfD(4) [OF Cons.prems(1)] Cons.prems(2)
      by (auto simp: parts_ok_def part_row_def)
    fix k assume "live_key now k ?s" "attachment k"
    then have "live_key now k s \<or> k \<in> set (part_keys p)"
      by (auto simp: live_key_def committed_key_def message_key_def live_message_def part_keys_iff [of _ _ m])
    then show "live_key now k s \<or> stored_key k s"
      using keys \<open>attachment k\<close> all_completed_stored [OF Cons.prems(1)] by blast
  qed simp_all
  with rest Cons.IH [of ?s] Cons.prems(2) show ?case by simp
qed simp

lemma insert_message_wf:
  assumes wf: "files_wf now issued s" and ok: "insert_message m s = Inr s'"
  shows "files_wf now issued s' \<and> msg_id m \<in> msg_id ` set (messages (base s'))"
proof -
  have s': "s' = s\<lparr>base := (base s)\<lparr>messages := messages (base s) @ [m]\<rparr>\<rparr>"
    and fresh: "msg_id m \<notin> msg_id ` set (messages (base s))"
    using ok by (auto simp: insert_message_def Let_def split: if_splits)
  have "files_wf now issued s'"
  proof (rule live_wfI [OF wf])
    show "parts_ok s'" using files_wfD(4) [OF wf] by (auto simp: parts_ok_def s')
    fix k assume "live_key now k s'" "attachment k"
    then have "live_key now k s"
      using fresh files_wfD(4) [OF wf]
      by (auto simp: s' live_key_def committed_key_def message_key_def live_message_def parts_ok_def)
    then show "live_key now k s \<or> stored_key k s" ..
  qed (simp_all add: s')
  then show ?thesis by (simp add: s')
qed

lemma insert_with_parts_wf:
  assumes "files_wf now issued s" "insert_with_parts m ps s = Inr (a, s')"
  shows "files_wf now issued s'"
proof -
  obtain s1 where s1: "insert_message m s = Inr s1" "insert_message_parts (msg_id m) ps s1 = Inr s'"
    using assms(2) by (auto simp: insert_with_parts_def split: sum.splits)
  from insert_message_wf [OF assms(1) s1(1)] show ?thesis by (auto intro: insert_parts_wf [OF _ _ s1(2)])
qed

lemma file_tx_wf:
  "(\<And>s a s'. files_wf now issued s \<Longrightarrow> f s = Inr (a, s') \<Longrightarrow> files_wf now issued s') \<Longrightarrow>
   keeps (files_wf now issued) (file_tx f)"
  unfolding file_tx_def by (rule keeps_atomically) (simp only: from_sqlx_Inr)

lemma create_message_keeps: "keeps (files_wf now issued) (file_tx (create_message_with_parts i room u c ty q ps t))"
  unfolding create_message_with_parts_def by (rule file_tx_wf) (rule insert_with_parts_wf)

lemma create_forward_keeps: "keeps (files_wf now issued) (file_tx (create_forward_message i room u m ps t))"
  unfolding create_forward_message_def by (rule file_tx_wf) (rule insert_with_parts_wf)

lemma create_encrypted_keeps:
  "keeps (files_wf now issued) (atomically (create_encrypted_message_with_parts i room u inp t))"
proof (rule keeps_atomically)
  fix s a s'
  assume wf: "files_wf now issued s" and ok: "create_encrypted_message_with_parts i room u inp t s = Inr (a, s')"
  show "files_wf now issued s'"
  proof (cases "sent_before room u (en_idem inp) s")
    case None
    with ok obtain m where "insert_with_parts (encrypted_row i room u inp t) (en_parts inp) s = Inr (m, s')"
      by (auto simp: create_encrypted_message_with_parts_def and_then_Inr)
    with wf show ?thesis by (rule insert_with_parts_wf)
  next
    case (Some m)
    with ok wf show ?thesis
      by (auto simp: create_encrypted_message_with_parts_def split: if_splits)
  qed
qed

text \<open>Frames: what only deletes messages, or writes tables that the invariant does not read.\<close>

lemma update_messages_frame:
  assumes "\<And>m. P m \<Longrightarrow> msg_id (f m) = msg_id m" "\<And>m. P m \<Longrightarrow> msg_deleted (f m) = None \<Longrightarrow> msg_deleted m = None"
  shows "same_files now s (s\<lparr>base := (base s)\<lparr>messages := update_where P f (messages (base s))\<rparr>\<rparr>)"
    (is "same_files now s ?s")
proof -
  have ids: "msg_id ` set (update_where P f (messages (base s))) = msg_id ` set (messages (base s))"
    using column_update_where [of P msg_id f "messages (base s)"] assms(1) by (metis list.set_map)
  have "live_message i ?s \<Longrightarrow> live_message i s" for i
    using assms unfolding live_message_def
    by (fastforce elim!: update_where_cases)
  then have "message_key k ?s \<Longrightarrow> message_key k s" for k by (auto simp: message_key_def)
  then show ?thesis using ids
    by (auto simp: same_files_def live_key_def committed_key_def)
qed

lemma file_step_frame: "(\<And>s. same_files now s (snd (f s))) \<Longrightarrow> keeps (files_wf now issued) (file_step f)"
  by (rule keeps_frame) (simp add: file_step_def split_beta)

lemma mark_message_deleted_keeps [intro!]: "keeps (files_wf now issued) (file_step (mark_message_deleted t i))"
  by (rule file_step_frame) (simp add: mark_message_deleted_def Let_def, rule update_messages_frame; simp)

lemma update_message_content_keeps [intro!]: "keeps (files_wf now issued) (file_step (update_message_content i c))"
  by (rule file_step_frame) (simp add: update_message_content_def Let_def, rule update_messages_frame; simp)

lemma mark_room_messages_deleted_keeps [intro!]:
  "keeps (files_wf now issued) (file_step (mark_room_messages_deleted t r))"
  by (rule file_step_frame) (simp add: mark_room_messages_deleted_def Let_def, rule update_messages_frame; simp)

lemma other_tables_frame:
  "same_files now s (s\<lparr>room_pins := ps\<rparr>)" "same_files now s (s\<lparr>audit_tasks := ts\<rparr>)"
  by (simp_all add: same_files_def)

lemma remove_room_pin_keeps [intro!]: "keeps (files_wf now issued) (file_step (remove_room_pin r m))"
  by (rule file_step_frame) (simp add: remove_room_pin_def Let_def other_tables_frame)

lemma upsert_room_pin_keeps [intro!]: "keeps (files_wf now issued) (file_tx (upsert_room_pin t r m u))"
  by (rule file_tx_wf) (auto simp: upsert_room_pin_def Let_def split: if_splits
      intro: files_wf_frame other_tables_frame)

lemma upsert_task_wf:
  "files_wf now issued s \<Longrightarrow> upsert_task i p k sc kd ct sz t s = Inr (a, s') \<Longrightarrow> files_wf now issued s'"
  by (auto simp: upsert_task_def split: if_splits intro: files_wf_frame other_tables_frame)

lemma queue_audits_keeps [intro!]: "keeps (files_wf now issued) (queue_audits t gen p n items)"
proof (induction items arbitrary: n)
  case (Cons x items)
  obtain k kd ct sz where x: "x = (k, kd, ct, sz)" by (cases x) auto
  have "keeps (files_wf now issued) (file_tx (upsert_task (gen n) p k ''message_attachment'' kd ct sz t))"
    by (rule file_tx_wf) (rule upsert_task_wf)
  then show ?case using Cons.IH by (simp add: x keeps_run_then)
qed (simp add: keeps_answer)

lemma audit_parts_keeps [intro!]: "keeps (files_wf now issued) (audit_parts t gen ps)"
  unfolding audit_parts_def Let_def by (auto intro!: keeps_query)

text \<open>The check before a message to a group writes settings and mutes only.\<close>

lemma permissions_keep_messages:
  "messages (snd (ensure_group_message_permissions t room u d)) = messages d"
proof -
  have "keeps (\<lambda>x. messages x = messages d) (total (find_active_mute t room u))"
    by (auto simp: keeps_def total_def find_active_mute_def unmute_user_def Let_def split_beta split: option.splits)
  moreover have "keeps (\<lambda>x. messages x = messages d) (tx (get_group_settings t room))"
    unfolding tx_def
    by (rule keeps_atomically) (auto simp: get_group_settings_def clear_global_mute_def
        update_settings_row_def split: option.splits if_splits)
  ultimately have "keeps (\<lambda>x. messages x = messages d) (ensure_group_message_permissions t room u)"
    unfolding ensure_group_message_permissions_def
    by (auto intro!: keeps_query keeps_run_then keeps_with_value keeps_answer split: option.split)
  then show ?thesis by (auto dest: keepsD)
qed

lemma on_base_permissions_keeps [intro!]:
  "keeps (files_wf now issued) (on_base (ensure_group_message_permissions t room u))"
proof (rule keeps_frame)
  fix s
  show "same_files now s (snd (on_base (ensure_group_message_permissions t room u) s))"
    using permissions_keep_messages [of t room u "base s"]
    by (simp add: on_base_def split_beta same_files_def live_key_def committed_key_def message_key_def live_message_def)
qed

lemmas step_keeps = keeps_query keeps_run_then keeps_with_value keeps_answer

lemma send_message_keeps: "keeps (files_wf now issued) (send_message rd ks pol gen t i room sub req)"
  unfolding send_message_def Let_def
  by (auto intro!: step_keeps create_message_keeps simp del: with_value_simps split: prod.split if_split)

lemma send_encrypted_keeps: "keeps (files_wf now issued) (send_encrypted_message rd dec ks t i room sub req)"
  unfolding send_encrypted_message_def Let_def
  by (auto intro!: step_keeps create_encrypted_keeps simp del: with_value_simps split: prod.split if_split)

lemma forward_message_keeps: "keeps (files_wf now issued) (forward_message gen t i room sub orig)"
  unfolding forward_message_def
  by (auto intro!: step_keeps create_forward_keeps simp del: with_value_simps)

lemma delete_message_keeps: "keeps (files_wf now issued) (delete_message t room i sub)"
  unfolding delete_message_def by (auto intro!: step_keeps simp del: with_value_simps)

lemma edit_message_keeps: "keeps (files_wf now issued) (edit_message room i sub c)"
  unfolding edit_message_def Let_def by (auto intro!: step_keeps simp del: with_value_simps)

lemma pin_message_keeps: "keeps (files_wf now issued) (pin_message t room i sub)"
  unfolding pin_message_def by (auto intro!: step_keeps simp del: with_value_simps)

lemma unpin_message_keeps: "keeps (files_wf now issued) (unpin_message room i sub)"
  unfolding unpin_message_def by (auto intro!: step_keeps simp del: with_value_simps)

lemma clear_room_messages_keeps: "keeps (files_wf now issued) (clear_room_messages t room sub)"
  unfolding clear_room_messages_def by (auto intro!: step_keeps simp del: with_value_simps)

end
