(* ===== verification/FileSystem.thy ===== *)
theory FileSystem
  imports FileInvariant
begin

text \<open>
  Uploaded files, messages and the two workers as one machine: any interleaving of requests, of
  uploads by clients and of runs of the workers keeps the invariant of \<open>FileInvariant\<close>.
\<close>

section \<open>Uploads in parts\<close>

lemma update_session_frame:
  "(\<And>x. us_provider (f x) = us_provider x \<and> us_key (f x) = us_key x) \<Longrightarrow>
   same_files now s (snd (update_session i f s))"
  by (auto simp: same_files_def update_session_def set_update_where)

lemma session_frames:
  "same_files now s (snd (upsert_part_etag i n e s))"
  "same_files now s (snd (mark_completed t i ps s))"
  "same_files now s (snd (mark_aborted i s))"
  unfolding upsert_part_etag_def mark_completed_def mark_aborted_def
  by (rule update_session_frame; simp)+

lemma create_session_wf:
  assumes "files_wf now issued s" "(p, k) \<in> set issued"
    "create_session i p k up u adm sz ct ps n s = Inr (x, s')"
  shows "files_wf now issued s'"
proof -
  have s': "s' = s\<lparr>upload_sessions := upload_sessions s @ [x]\<rparr>" and x: "us_provider x = p" "us_key x = k"
    using assms(3) by (auto simp: create_session_def Let_def split: if_splits)
  have "issued_ok issued s'" using files_wfD(1) [OF assms(1)] assms(2) x by (auto simp: issued_ok_def s')
  with assms(1) show ?thesis
    by (auto simp: files_wf_def s' completed_ok_def live_ok_def stored_key_def parts_ok_def)
qed

lemma get_session_SomeD: "get_session i s = Some x \<Longrightarrow> x \<in> set (upload_sessions s) \<and> us_id x = i"
  unfolding get_session_def by (auto dest: fetch_SomeD)

lemma owned_session_Inr:
  "owned_session i u adm s = Inr x \<longleftrightarrow> get_session i s = Some x \<and> us_creator x = u \<and> us_admin x = adm"
  by (auto simp: owned_session_def split: option.splits)

lemma active_provider_Inr:
  "active_provider i s = Inr p \<longleftrightarrow> get_provider_by_id i s = Some p \<and> sp_active p"
  by (auto simp: active_provider_def split: option.splits)

lemma get_provider_id: "get_provider_by_id i s = Some p \<Longrightarrow> sp_id p = i"
  unfolding get_provider_by_id_def by (auto dest: fetch_SomeD)

lemma commit_part_keeps: "keeps (files_wf now issued) (commit_multipart_part sid sub adm n e)"
proof -
  have "keeps (files_wf now issued) (\<lambda>s. (Inr (), snd (upsert_part_etag i n (trim e) s)))" for i
    by (rule keeps_frame) (simp add: session_frames)
  then show ?thesis unfolding commit_multipart_part_def
    by (auto intro!: step_keeps simp del: with_value_simps)
qed

lemma abort_keeps: "keeps (files_wf now issued) (abort_multipart_upload sv sid sub adm)"
proof -
  have "keeps (files_wf now issued) (\<lambda>s. (Inr (), snd (mark_aborted i s)))" for i
    by (rule keeps_frame) (simp add: session_frames)
  then have "keeps (files_wf now issued) (\<lambda>s.
       if us_status x \<noteq> SessionOpen then (Inr (), s)
       else query (active_provider (us_provider x)) (\<lambda>p.
         with_value (create_storage_service sv p) (\<lambda>_ s. (Inr (), snd (mark_aborted i s)))) s)" for i x
    using keeps_query [where r = "active_provider (us_provider x)" and I = "files_wf now issued"
        and f = "\<lambda>p. with_value (create_storage_service sv p) (\<lambda>_ s. (Inr (), snd (mark_aborted i s)))"]
      keeps_with_value [where I = "files_wf now issued" and f = "\<lambda>_ s. (Inr (), snd (mark_aborted i s))"]
    by (auto simp: keeps_def)
  then show ?thesis unfolding abort_multipart_upload_def
    by (auto intro!: step_keeps simp del: with_value_simps)
qed

text \<open>A merge stores the object before the record is marked complete.\<close>

lemma bucket_wf:
  assumes wf: "files_wf now issued s" and b: "set (bucket s) \<subseteq> set b" "set b \<subseteq> set issued"
  shows "files_wf now issued (s\<lparr>bucket := b\<rparr>)"
proof -
  have "issued_ok issued (s\<lparr>bucket := b\<rparr>)" using files_wfD(1) [OF wf] b by (simp add: issued_ok_def)
  moreover have "completed_ok (s\<lparr>bucket := b\<rparr>)" using files_wfD(2) [OF wf] b by (auto simp: completed_ok_def)
  moreover have "live_ok now (s\<lparr>bucket := b\<rparr>)" using files_wfD(3) [OF wf] b
    by (force simp: live_ok_def stored_key_def)
  ultimately show ?thesis using wf by (simp add: files_wf_def parts_ok_def)
qed

text \<open>The answers of the storage.\<close>

lemma honest_head: "honest sv \<Longrightarrow> s3_head sv p k b = Inr h \<Longrightarrow> (p, k) \<in> set b"
  by (simp add: honest_def)

lemma honest_exists: "honest sv \<Longrightarrow> s3_exists sv p k b = Inr True \<Longrightarrow> (p, k) \<in> set b"
  by (simp add: honest_def)

lemma honest_delete:
  "honest sv \<Longrightarrow> s3_delete sv p k b = (r, b') \<Longrightarrow>
   set b' = (case r of Inl _ \<Rightarrow> set b | Inr _ \<Rightarrow> set b - {(p, k)})"
  unfolding honest_def by (elim conjE) (drule spec [of _ p], drule spec [of _ k], drule spec [of _ b],
    auto split: sum.splits)

lemma honest_complete:
  assumes "honest sv" "s3_complete sv p k u ps b = (r, b')"
  shows "set b' = (case r of Inl _ \<Rightarrow> set b | Inr _ \<Rightarrow> insert (p, k) (set b))"
proof -
  have "\<forall>p k u ps b. case s3_complete sv p k u ps b of
      (Inl _, b') \<Rightarrow> set b' = set b | (Inr _, b') \<Rightarrow> set b' = insert (p, k) (set b)"
    using assms(1) by (simp add: honest_def)
  from this [THEN spec, of p, THEN spec, of k, THEN spec, of u, THEN spec, of ps, THEN spec, of b] show ?thesis by (cases r) (simp_all add: assms(2))
qed

lemma merge_parts_wf:
  assumes "honest sv" "files_wf now issued s" "(p, us_key x) \<in> set issued" "merge_parts sv x p ps s = (r, s')"
  shows "files_wf now issued s'" "r = Inr () \<Longrightarrow> (p, us_key x) \<in> set (bucket s')"
proof -
  obtain b where c: "s3_complete sv p (us_key x) (us_upload x) ps (bucket s) = (r, b)"
    and s': "s' = s\<lparr>bucket := b\<rparr>" using assms(4) by (auto simp: merge_parts_def split: prod.splits)
  note b = honest_complete [OF assms(1) c]
  have "set (bucket s) \<subseteq> set issued" using files_wfD(1) [OF assms(2)] by (simp add: issued_ok_def)
  then have "files_wf now issued (s\<lparr>bucket := b\<rparr>)"
    using b assms(3) by (intro bucket_wf [OF assms(2)]) (auto split: sum.splits)
  then show "files_wf now issued s'" by (simp add: s')
  show "r = Inr () \<Longrightarrow> (p, us_key x) \<in> set (bucket s')" using b by (simp add: s')
qed

lemma keeps_queryI: "(\<And>s a. I s \<Longrightarrow> r s = Inr a \<Longrightarrow> I (snd (f a s))) \<Longrightarrow> keeps I (query r f)"
  by (auto simp: keeps_def query_def with_value_def split: sum.splits)

text \<open>What the completion does once the parts are checked.\<close>

definition merged ::
  "s3 \<Rightarrow> instant \<Rightarrow> uuid \<Rightarrow> uuid \<Rightarrow> upload_session \<Rightarrow> uuid \<Rightarrow> (int \<times> string) list \<Rightarrow> files \<Rightarrow> unit result \<times> files" where
  "merged sv now task_id i x p parts =
     run_then (merge_parts sv x p parts) (\<lambda>_ s.
       (let s1 = snd (mark_completed now i (Some parts) s);
            s2 = snd (mark_completed_by_key now p (us_key x) s1)
        in run_then (atomically (\<lambda>t. from_sqlx (upsert_task task_id p (us_key x)
               (infer_audit_scene_from_object_key (us_key x))
               (infer_media_kind_from_object_key (us_key x) (us_ctype x)) (us_ctype x) (us_size x) now t)))
             answer s2))"

lemma queue_audit_keeps: "keeps (files_wf now issued)
    (atomically (\<lambda>t'. from_sqlx (upsert_task tid p k sc kd ct sz t t')))"
  by (rule keeps_atomically) (simp only: from_sqlx_Inr, rule upsert_task_wf)

lemma merged_wf:
  assumes "honest sv" "files_wf now issued s" "(p, us_key x) \<in> set issued"
  shows "files_wf now issued (snd (merged sv t tid i x p ps s))"
proof -
  obtain r s' where m: "merge_parts sv x p ps s = (r, s')" by fastforce
  note wf = merge_parts_wf [OF assms m]
  show ?thesis
  proof (cases r)
    case (Inl e)
    with m wf show ?thesis by (simp add: merged_def run_then_def)
  next
    case (Inr v)
    let ?s = "snd (mark_completed t i (Some ps) s')"
    have "files_wf now issued ?s" using wf by (intro files_wf_frame [OF _ session_frames(2)])
    moreover have "bucket ?s = bucket s'" by (simp add: mark_completed_def update_session_def)
    ultimately have "files_wf now issued (snd (mark_completed_by_key t p (us_key x) ?s))"
      using wf(2) Inr by (intro mark_completed_wf) simp_all
    then have "files_wf now issued (snd (run_then (atomically (\<lambda>ta. from_sqlx (upsert_task tid p (us_key x)
        (infer_audit_scene_from_object_key (us_key x))
        (infer_media_kind_from_object_key (us_key x) (us_ctype x)) (us_ctype x) (us_size x) t ta))) answer
        (snd (mark_completed_by_key t p (us_key x) ?s))))"
      by (rule keepsD [OF keeps_run_then [OF queue_audit_keeps keeps_answer]])
    then show ?thesis using m Inr by (simp add: merged_def run_then_def [of "merge_parts sv x p ps"])
  qed
qed

lemma complete_merged:
  "complete_multipart_upload sv now task_id session_id sub is_admin req_parts =
     with_value (path_id session_id) (\<lambda>i.
     with_value (require (req_parts \<noteq> []) (ValidationError ''parts'')) (\<lambda>_.
     with_value (claims_user_id sub) (\<lambda>requester.
     query (owned_session i requester is_admin) (\<lambda>x.
     with_value (require (us_status x = SessionOpen) (ValidationError ''session has ended'')) (\<lambda>_.
     with_value (collect checked_part req_parts) (\<lambda>listed.
     with_value (complete_parts (us_total x) (dedup_by fst (sort_key fst listed))) (\<lambda>_.
     query (active_provider (us_provider x)) (\<lambda>p.
     with_value (create_storage_service sv p) (\<lambda>_.
       merged sv now task_id i x (sp_id p) (dedup_by fst (sort_key fst listed)))))))))))"
  unfolding complete_multipart_upload_def merged_def Let_def ..

lemma complete_keeps:
  assumes "honest sv"
  shows "keeps (files_wf now issued) (complete_multipart_upload sv t tid sid sub adm ps)"
  unfolding complete_merged
proof (intro keeps_with_value keeps_queryI)
  fix i u s x
  assume wf: "files_wf now issued s" and x: "owned_session i u adm s = Inr x"
  then have issued: "(us_provider x, us_key x) \<in> set issued"
    using files_wfD(1) [OF wf] by (auto simp: owned_session_Inr issued_ok_def dest: get_session_SomeD)
  have "keeps (files_wf now issued) (query (active_provider (us_provider x)) (\<lambda>p.
      with_value (create_storage_service sv p) (\<lambda>_. merged sv t tid i x (sp_id p) qs)))" for qs
  proof (intro keeps_queryI)
    fix s p assume "files_wf now issued s" "active_provider (us_provider x) s = Inr p"
    then show "files_wf now issued (snd (with_value (create_storage_service sv p)
        (\<lambda>_. merged sv t tid i x (sp_id p) qs) s))"
      using merged_wf [OF assms, of now issued s "sp_id p" x] issued get_provider_id [of "us_provider x" s p]
      by (auto simp: with_value_def active_provider_Inr split: sum.split)
  qed
  then have "keeps (files_wf now issued)
      (with_value (require (us_status x = SessionOpen) (ValidationError ''session has ended'')) (\<lambda>_.
       with_value (collect checked_part ps) (\<lambda>listed.
       with_value (complete_parts (us_total x) (dedup_by fst (sort_key fst listed))) (\<lambda>_.
       query (active_provider (us_provider x)) (\<lambda>p.
       with_value (create_storage_service sv p) (\<lambda>_.
         merged sv t tid i x (sp_id p) (dedup_by fst (sort_key fst listed))))))))"
    by (intro keeps_with_value)
  from keepsD [OF this wf] show "files_wf now issued (snd (
       with_value (require (us_status x = SessionOpen) (ValidationError ''session has ended'')) (\<lambda>_.
       with_value (collect checked_part ps) (\<lambda>listed.
       with_value (complete_parts (us_total x) (dedup_by fst (sort_key fst listed))) (\<lambda>_.
       query (active_provider (us_provider x)) (\<lambda>p.
       with_value (create_storage_service sv p) (\<lambda>_.
         merged sv t tid i x (sp_id p) (dedup_by fst (sort_key fst listed))))))) s))" .
qed

section \<open>Signing, starting, reporting and opening\<close>

text \<open>The part of a handler that runs on the state it was called in.\<close>

lemma query_at:
  "files_wf now issued s \<Longrightarrow> (\<And>a. r s = Inr a \<Longrightarrow> files_wf now issued (snd (f a s))) \<Longrightarrow>
   files_wf now issued (snd (query r f s))"
  by (simp add: query_def with_value_def split: sum.split)

lemma with_value_at:
  "files_wf now issued s \<Longrightarrow> (\<And>a. r = Inr a \<Longrightarrow> files_wf now issued (snd (f a s))) \<Longrightarrow>
   files_wf now issued (snd (with_value r f s))"
  by (simp add: with_value_def split: sum.split)

lemmas at_state = query_at with_value_at

lemma files_wf_after: "files_wf now issued s \<Longrightarrow> keeps (files_wf now issued) f \<Longrightarrow> files_wf now issued (snd (f s))"
  by (simp add: keeps_def)

lemma default_service_Inr:
  "default_service sv s = Inr p \<longleftrightarrow> load_default_storage_provider s = Inr p \<and> create_storage_service sv p = Inr ()"
  by (auto simp: default_service_def and_then_Inr)

lemma reuse_stored_keeps: "keeps (files_wf now issued) (reuse_stored sv p alg h n pre)"
  unfolding keeps_def reuse_stored_def by (auto split: option.split sum.split bool.split intro: mark_deleted_wf)

lemma reuse_hashed_keeps: "keeps (files_wf now issued) (reuse_hashed sv p alg h n pre)"
  unfolding reuse_hashed_def by (auto intro: reuse_stored_keeps keeps_answer split: option.split)

lemma note_hashed_keeps: "(p, k) \<in> set issued \<Longrightarrow> keeps (files_wf now issued) (note_hashed t p k alg h n ct)"
  unfolding note_hashed_def by (auto intro: note_pending_wf keeps_answer split: option.split)

lemma start_session_keeps:
  "(p, k) \<in> set issued \<Longrightarrow> keeps (files_wf now issued) (start_session sv i p k u adm n ct ps parts up)"
  unfolding keeps_def start_session_def by (auto split: sum.split intro: create_session_wf)

text \<open>The key that an upload gets is issued for the default provider of the moment.\<close>

definition issued_for :: "stored \<Rightarrow> files \<Rightarrow> string \<Rightarrow> bool" where
  "issued_for issued s k \<longleftrightarrow> (\<forall>p. load_default_storage_provider s = Inr p \<longrightarrow> (sp_id p, k) \<in> set issued)"

lemma issued_forD: "issued_for issued s k \<Longrightarrow> default_service sv s = Inr p \<Longrightarrow> (sp_id p, k) \<in> set issued"
  by (simp add: issued_for_def default_service_Inr)

lemma signature_wf:
  assumes wf: "files_wf now issued s"
    and key: "issued_for issued s (build_message_attachment_key ks room (fc_type req) (fc_name req) (fc_ctype req))"
  shows "files_wf now issued (snd (generate_message_attachment_signature sv ks pol t room sub req s))"
  unfolding generate_message_attachment_signature_def Let_def
  by (intro at_state wf, rule files_wf_after [OF wf], insert issued_forD [OF key],
      auto intro!: step_keeps reuse_stored_keeps note_pending_wf simp del: with_value_simps split: option.split)

lemma initiate_attachment_wf:
  assumes wf: "files_wf now issued s"
    and key: "issued_for issued s (build_message_attachment_key ks room (fc_type req) (fc_name req) (fc_ctype req))"
  shows "files_wf now issued (snd (initiate_message_attachment_multipart_upload sv ks pol t i room sub adm req n s))"
  unfolding initiate_message_attachment_multipart_upload_def Let_def case_prod_beta
  by (intro at_state wf, rule files_wf_after [OF wf], insert issued_forD [OF key],
      auto intro!: step_keeps reuse_hashed_keeps note_hashed_keeps start_session_keeps
        simp del: with_value_simps split: option.split)

lemma initiate_version_wf:
  assumes wf: "files_wf now issued s"
    and key: "issued_for issued s (build_release_object_key ks platform channel (fc_name req))"
  shows "files_wf now issued (snd (initiate_version_multipart_upload sv ks t i sub adm platform channel req n s))"
  unfolding initiate_version_multipart_upload_def Let_def case_prod_beta
  by (intro at_state wf, rule files_wf_after [OF wf], insert issued_forD [OF key],
      auto intro!: step_keeps reuse_hashed_keeps note_hashed_keeps start_session_keeps
        simp del: with_value_simps split: option.split)

text \<open>An upload is reported complete only when its object is stored.\<close>

definition stored_wf :: "uuid \<Rightarrow> string \<Rightarrow> instant \<Rightarrow> stored \<Rightarrow> files \<Rightarrow> bool" where
  "stored_wf p k now issued s \<longleftrightarrow> files_wf now issued s \<and> (p, k) \<in> set (bucket s)"

lemma check_object_stored: "honest sv \<Longrightarrow> check_object sv p k sz h alg s = Inr () \<Longrightarrow> (p, k) \<in> set (bucket s)"
  by (auto simp: check_object_def and_then_Inr split: sum.splits app_error.splits
      dest: honest_head honest_exists)

lemma stored_wf_issued: "stored_wf p k now issued s \<Longrightarrow> (p, k) \<in> set issued"
  by (auto simp: stored_wf_def files_wf_def issued_ok_def)

lemma create_pending_bucket: "create_pending_record p k alg h sz ct t s = Inr (u, s') \<Longrightarrow> bucket s' = bucket s"
  by (auto simp: create_pending_record_def split: if_splits)

lemma note_pending_stored: "keeps (stored_wf p k now issued) (note_pending t p k alg h sz ct)"
  unfolding note_pending_def
proof (rule keeps_atomically)
  fix s a s'
  assume s: "stored_wf p k now issued s" and ok: "from_sqlx (create_pending_record p k alg h sz ct t s) = Inr (a, s')"
  then show "stored_wf p k now issued s'"
    using stored_wf_issued [OF s] create_pending_wf [of now issued s p k alg h sz ct t s']
    by (auto simp: stored_wf_def create_pending_bucket)
qed

lemma upsert_commit_wf:
  assumes wf: "stored_wf p k now issued s" and ok: "upsert_commit room k u sz t s = Inr (b, s')"
  shows "stored_wf p k now issued s'"
proof -
  have same: "bucket s' = bucket s" "file_records s' = file_records s" "upload_sessions s' = upload_sessions s"
    "other_keys s' = other_keys s" "message_parts s' = message_parts s" "base s' = base s"
    using ok by (auto simp: upsert_commit_def split: option.splits if_splits)
  have message: "message_key k' s' = message_key k' s" for k'
    by (simp add: message_key_def live_message_def same)
  have commit: "committed_key now k' s' \<Longrightarrow> committed_key now k' s \<or> k' = k" for k'
    using ok by (auto simp: upsert_commit_def committed_key_def is_commit_def renewed_def
        split: option.splits if_splits elim!: update_where_cases)
  have live: "live_key now k' s' \<Longrightarrow> live_key now k' s \<or> k' = k" for k'
    using commit by (auto simp: live_key_def message)
  have "files_wf now issued s'"
  proof (rule live_wfI [of now issued s])
    show "parts_ok s'" using wf same by (simp add: stored_wf_def files_wf_def parts_ok_def)
    show "live_key now k' s' \<Longrightarrow> attachment k' \<Longrightarrow> live_key now k' s \<or> stored_key k' s" for k'
      using live [of k'] wf by (auto simp: stored_wf_def stored_key_def)
  qed (use wf same in \<open>simp_all add: stored_wf_def\<close>)
  with wf same show ?thesis by (simp add: stored_wf_def)
qed

lemma record_commit_wf:
  assumes wf: "stored_wf p k now issued s" and ok: "record_room_attachment_commit p room k u sz t s = Inr (b, s')"
  shows "stored_wf p k now issued s'"
proof -
  have "stored_wf p k now issued (snd (mark_completed_by_key t p k s))"
    using wf mark_completed_wf [of now issued s k p t]
    by (simp add: stored_wf_def mark_completed_by_key_def set_status_def)
  then show ?thesis using wf ok upsert_commit_wf
    by (auto simp: record_room_attachment_commit_def split: prod.splits sum.splits if_splits)
qed

lemma commit_upload_wf:
  assumes "honest sv" and wf: "files_wf now issued s"
  shows "files_wf now issued (snd (commit_message_attachment_upload sv ks t tid room sub rk sz h alg s))"
proof -
  let ?k = "trim rk"
  have claimed: "keeps (stored_wf p ?k now issued) (note_claimed t p ?k sz h alg)" for p
    unfolding note_claimed_def by (auto intro: note_pending_stored keeps_answer split: option.split)
  have missing: "keeps (stored_wf p ?k now issued) (note_missing t p ?k sz)" for p
    using keepsD [OF note_pending_stored] by (auto simp: keeps_def note_missing_def)
  have commit: "keeps (stored_wf p ?k now issued)
      (atomically (\<lambda>s. from_sqlx (record_room_attachment_commit p room ?k u sz t s)))" for p u
    by (rule keeps_atomically) (simp only: from_sqlx_Inr, rule record_commit_wf)
  have audit: "keeps (stored_wf p ?k now issued) (atomically (\<lambda>t'. from_sqlx (upsert_task tid q k' sc kd ct sz' t t')))"
    for p q k' sc kd ct sz'
    by (rule keeps_atomically) (auto simp: upsert_task_def stored_wf_def split: if_splits
        intro: files_wf_frame other_tables_frame)
  have tail: "keeps (stored_wf p ?k now issued)
      (\<lambda>s. run_then (atomically (\<lambda>t'. from_sqlx (upsert_task tid q k' sc kd (ct s) (n s) t t'))) answer s)"
    for p q k' sc kd ct n
    unfolding keeps_def by (intro allI impI, rule keepsD [OF keeps_run_then [OF audit keeps_answer]])
  have "files_wf now issued (snd (f s))" if "stored_wf p ?k now issued s" "keeps (stored_wf p ?k now issued) f"
    for p and f :: "files \<Rightarrow> unit result \<times> files"
    using keepsD [OF that(2,1)] by (simp add: stored_wf_def)
  note after = this
  have stored: "stored_wf (sp_id p) ?k now issued s" if "check_object sv (sp_id p) ?k sz h alg s = Inr a" for p a
    using wf check_object_stored [OF assms(1)] that by (simp add: stored_wf_def)
  show ?thesis
    unfolding commit_message_attachment_upload_def Let_def
    by (intro at_state wf, rule after [OF stored], assumption,
        intro keeps_run_then keeps_with_value claimed missing commit tail)
qed

text \<open>Opening a file turns leases into permanent commits, never dead ones into live ones.\<close>

lemma claim_access_frame: "same_files now s (snd (claim_room_attachment_access room k u now s))"
proof -
  have "committed_key now k' (snd (claim_room_attachment_access room k u now s)) \<Longrightarrow> committed_key now k' s" for k'
    by (auto simp: claim_room_attachment_access_def Let_def committed_key_def confirmed_by_def
        elim!: update_where_cases split: if_splits)
  then show ?thesis
    by (auto simp: same_files_def live_key_def message_key_def live_message_def claim_room_attachment_access_def Let_def)
qed

lemma access_keeps: "keeps (files_wf now issued) (attachment_access grant ks now room u k only)"
proof (rule keeps_frame)
  fix s show "same_files now s (snd (attachment_access grant ks now room u k only s))"
    using claim_access_frame [of now s room k u]
    by (auto simp: attachment_access_def Let_def split_beta) (simp_all add: same_files_def)
qed

lemma download_url_keeps:
  "keeps (files_wf now issued) (generate_message_attachment_download_url sv grant ks now room sub rk n)"
  unfolding generate_message_attachment_download_url_def Let_def
  by (intro step_keeps access_keeps)

section \<open>The workers\<close>

lemma object_storedD: "honest sv \<Longrightarrow> object_stored sv p k s = Some True \<Longrightarrow> (p, k) \<in> set (bucket s)"
  by (auto simp: object_stored_def split: sum.splits app_error.splits dest: honest_head honest_exists)

text \<open>An object that is not live may go when its record goes with it.\<close>

lemma remove_object_wf:
  assumes wf: "files_wf now issued s" and b: "set b = set (bucket s) - {(p, k)}"
    and dead: "attachment k \<Longrightarrow> \<not> live_key now k s"
  shows "files_wf now issued (commit_deleted_record p k (s\<lparr>bucket := b\<rparr>))"
proof -
  let ?s = "commit_deleted_record p k (s\<lparr>bucket := b\<rparr>)"
  have row: "(fl_provider x, fl_key x) \<in> set issued
      \<and> (fl_status x = FileCompleted \<longrightarrow> attachment (fl_key x) \<longrightarrow> (fl_provider x, fl_key x) \<in> set b)"
    if "x \<in> set (update_where (of_object p k) (\<lambda>r. r\<lparr>fl_status := FileDeleted\<rparr>) (file_records s))" for x
    using that
  proof (cases rule: update_where_cases)
    case kept
    then show ?thesis using files_wfD(1,2) [OF wf] b by (auto simp: issued_ok_def completed_ok_def of_object_def)
  next
    case (changed y)
    then show ?thesis using files_wfD(1) [OF wf] by (simp add: issued_ok_def)
  qed
  have live: "live_key now k' ?s = live_key now k' s" for k' by (simp add: commit_deleted_record_def)
  have "issued_ok issued ?s" using files_wfD(1) [OF wf] row b
    by (auto simp: issued_ok_def commit_deleted_record_def)
  moreover have "completed_ok ?s" using row by (simp add: completed_ok_def commit_deleted_record_def)
  moreover have "live_ok now ?s"
    unfolding live_ok_def live
  proof (intro allI impI)
    fix k' assume k': "live_key now k' s" "attachment k'"
    then obtain q where "(q, k') \<in> set (bucket s)" "k' \<noteq> k"
      using files_wfD(3) [OF wf] dead by (auto simp: live_ok_def stored_key_def)
    then show "stored_key k' ?s" using b by (auto simp: stored_key_def commit_deleted_record_def)
  qed
  ultimately show ?thesis using wf by (simp add: files_wf_def parts_ok_def commit_deleted_record_def)
qed

lemma delete_object_wf:
  assumes "honest sv" and wf: "files_wf now issued s" and dead: "attachment k \<Longrightarrow> \<not> live_key now k s"
  shows "files_wf now issued (delete_locked_object sv p k s)"
proof -
  have deleted: "files_wf now issued (commit_deleted_record p k s)"
    using wf by (simp add: commit_deleted_eq mark_deleted_wf)
  have "files_wf now issued (case s3_delete sv p k (bucket s) of (Inl _, b) \<Rightarrow> s\<lparr>bucket := b\<rparr>
      | (Inr _, b) \<Rightarrow> commit_deleted_record p k (s\<lparr>bucket := b\<rparr>))"
  proof -
    obtain r b where d: "s3_delete sv p k (bucket s) = (r, b)" by fastforce
    note b = honest_delete [OF assms(1) d]
    have "set (bucket s) \<subseteq> set issued" using files_wfD(1) [OF wf] by (simp add: issued_ok_def)
    then show ?thesis using d b remove_object_wf [OF wf _ dead] bucket_wf [OF wf, of b]
      by (cases r) auto
  qed
  with wf deleted show ?thesis by (auto simp: delete_locked_object_def split: option.split)
qed

lemma delete_unlocked_eq: "delete_unlocked_object sv p k s = delete_locked_object sv p k s"
  unfolding delete_unlocked_object_def delete_locked_object_def commit_deleted_eq ..

lemma delete_unreferenced_wf:
  assumes "honest sv" "files_wf now issued s"
  shows "files_wf now issued (delete_unreferenced sv now p k s)"
  using assms delete_object_wf [OF assms]
  by (auto simp: delete_unreferenced_def delete_unlocked_eq messages_prefix_def begin_unreferenced_deletion_def live_key_def)

text \<open>A referenced upload is complete: its object is stored already.\<close>

lemma settle_pending_wf:
  assumes "honest sv" and key: "(fl_provider r, fl_key r) \<in> set issued"
  shows "keeps (files_wf now issued) (settle_pending sv cfg now i r opened)"
  unfolding keeps_def
proof (intro allI impI)
  fix s assume wf: "files_wf now issued s"
  let ?p = "fl_provider r" and ?k = "fl_key r"
  show "files_wf now issued (snd (settle_pending sv cfg now i r opened s))"
  proof (cases "is_object_key_referenced now ?k s")
    case True
    have "attachment ?k \<Longrightarrow> live_key now ?k s"
      using True files_wfD(5) [OF wf, of ?k] by (auto simp: is_object_key_referenced_def live_key_def)
    then have wf1: "files_wf now issued (snd (mark_completed_by_key now ?p ?k s))"
      using live_record_stored [OF wf _ _ key] by (intro mark_completed_wf wf) auto
    then show ?thesis using True
      by (auto simp: settle_pending_def Let_def split: sum.split intro: upsert_task_wf)
  next
    case False
    note failed = mark_failed_wf [OF wf, of ?p ?k]
    from False show ?thesis
      using wf failed delete_unreferenced_wf [OF assms(1) failed]
      by (auto simp: settle_pending_def Let_def split: sum.split app_error.split)
  qed
qed

lemma drop_completed_wf: "honest sv \<Longrightarrow> keeps (files_wf now issued) (drop_completed sv now r opened)"
  by (auto simp: keeps_def drop_completed_def Let_def split: sum.split intro: delete_unreferenced_wf)

lemma each_record_keeps:
  "(\<And>n r opened. r \<in> set rs \<Longrightarrow> keeps I (f n r opened)) \<Longrightarrow> keeps I (each_record f n rs opened)"
proof (induction rs arbitrary: n opened)
  case Nil then show ?case by (simp add: keeps_def)
next
  case (Cons r rs)
  have "keeps I (run_then (f n r opened) (each_record f (Suc n) rs))"
    using Cons by (intro keeps_run_then) simp_all
  then show ?case by (simp add: keeps_def)
qed

lemma cleanup_wf:
  assumes "honest sv" and wf: "files_wf now issued s"
  shows "files_wf now issued (snd (run_file_upload_cleanup sv cfg now gen s))"
proof -
  have old: "(fl_provider r, fl_key r) \<in> set issued"
    if "r \<in> set (list_stale_pending_records c n s)" for r c n
    using that files_wfD(1) [OF wf]
    by (auto simp: list_stale_pending_records_def issued_ok_def dest: in_set_takeD)
  have "keeps (files_wf now issued) (\<lambda>s1. run_then
         (each_record (\<lambda>_ r. drop_completed sv now r) 0
            (list_old_completed_records (now - seconds (cc_retention cfg)) (cc_batch cfg) s1) opened)
         (\<lambda>_. answer ()) s1)" for opened
    unfolding keeps_def
    by (intro allI impI, rule keepsD [OF keeps_run_then [OF each_record_keeps keeps_answer]])
      (rule drop_completed_wf [OF assms(1)])
  then show ?thesis unfolding run_file_upload_cleanup_def
    by (intro files_wf_after [OF wf] keeps_run_then each_record_keeps settle_pending_wf assms(1) old)
qed

lemma update_tasks_frame: "same_files now s (snd (update_tasks P f s))"
  by (simp add: update_tasks_def other_tables_frame)

lemma update_tasks_keep: "files_wf now issued s \<Longrightarrow> files_wf now issued (snd (update_tasks P f s))"
  by (rule files_wf_frame [OF _ update_tasks_frame])

lemma marked_tasks_keep:
  assumes "files_wf now issued s"
  shows "files_wf now issued (snd (mark_approved i t s))" "files_wf now issued (snd (mark_retry i e t s))"
    "files_wf now issued (snd (mark_failed i e s))" "files_wf now issued (snd (requeue_task t i s))"
    "files_wf now issued (snd (mark_submitted i e t s))" "files_wf now issued (snd (mark_rejected i e t s))"
    "files_wf now issued (snd (set_next_run_at i t s))"
  unfolding mark_approved_def mark_retry_def mark_failed_def requeue_task_def mark_submitted_def
    mark_rejected_def set_next_run_at_def
  by (rule update_tasks_keep [OF assms])+

lemma process_task_wf:
  assumes "honest sv" and wf: "files_wf now issued s"
  shows "files_wf now issued (snd (process_task sv cfg t a s))"
proof -
  have approved: "files_wf now issued (snd (mark_completed_by_key t p (at_key a) (snd (mark_approved (at_id a) t s))))"
    if "s3_head sv p (at_key a) (bucket s) = Inr h" for p h
    using honest_head [OF assms(1) that]
    by (intro mark_completed_wf marked_tasks_keep wf) (simp add: mark_approved_def update_tasks_def)
  show ?thesis
    using wf approved marked_tasks_keep [OF wf] mark_failed_wf [OF marked_tasks_keep(3) [OF wf]]
    by (auto simp: process_task_def with_value_def split: option.split sum.split app_error.split)
qed

lemma process_all_wf: "honest sv \<Longrightarrow> files_wf now issued s \<Longrightarrow> files_wf now issued (process_all sv cfg t ts s)"
  by (induction ts arbitrary: s) (simp_all add: process_task_wf)

lemma audit_run_wf:
  "honest sv \<Longrightarrow> files_wf now issued s \<Longrightarrow> files_wf now issued (run_file_upload_audit_once sv cfg t s)"
  by (auto simp: run_file_upload_audit_once_def claim_due_tasks_def Let_def
      intro!: process_all_wf intro: files_wf_frame other_tables_frame)

lemma trigger_wf: "honest sv \<Longrightarrow> files_wf now issued s \<Longrightarrow> files_wf now issued (trigger_task_now sv cfg t i s)"
  by (auto simp: trigger_task_now_def claim_task_by_id_def
      split: option.split intro!: process_task_wf intro: files_wf_frame other_tables_frame)

end
