(* ===== verification/UploadProperties.thy ===== *)
theory UploadProperties
  imports FileSystem
begin

text \<open>
  What the handlers of uploads in parts, the audit worker and the encrypted send promise one by
  one: a merge is complete and happens once, an audit ends, a repeated send is one message.
\<close>

section \<open>A storage\<close>

text \<open>A storage that keeps its promises and never fails, for the examples.\<close>

definition plain_s3 :: s3 where
  "plain_s3 = \<lparr>s3_new = \<lambda>_. Inr (),
     s3_head = \<lambda>p k b. if (p, k) \<in> set b then Inr \<lparr>oh_length = None, oh_etag = None\<rparr> else Inl (NotFound k),
     s3_exists = \<lambda>p k b. Inr ((p, k) \<in> set b),
     s3_delete = \<lambda>p k b. (Inr (), filter (\<lambda>x. x \<noteq> (p, k)) b),
     s3_sign = \<lambda>_ k _. Inr k, s3_initiate = \<lambda>_ k _. Inr ''u'', s3_sign_part = \<lambda>_ k _ _ _. Inr k,
     s3_complete = \<lambda>p k _ _ b. (Inr (), (p, k) # b), s3_abort = \<lambda>_ _ _. Inr ()\<rparr>"

lemma plain_s3_honest: "honest plain_s3"
  by (auto simp: honest_def plain_s3_def split: if_splits)

lemma plain_s3_simps [simp]: "s3_new plain_s3 p = Inr ()" "s3_sign plain_s3 i k ct = Inr k"
  "s3_complete plain_s3 i k up ps b = (Inr (), (i, k) # b)"
  "s3_head plain_s3 i k b = (if (i, k) \<in> set b then Inr \<lparr>oh_length = None, oh_etag = None\<rparr> else Inl (NotFound k))"
  by (simp_all add: plain_s3_def)

section \<open>Completing an upload in parts\<close>


lemma dedup_by_hd: "xs \<noteq> [] \<Longrightarrow> dedup_by f xs \<noteq> [] \<and> hd (dedup_by f xs) = hd xs"
  by (induction f xs rule: dedup_by.induct) auto








definition demo_session :: upload_session where
  "demo_session = \<lparr>us_id = 40, us_provider = 7, us_key = ''messages/r/k'', us_upload = ''u'', us_creator = 1,
     us_admin = False, us_size = None, us_ctype = None, us_part_size = 5, us_total = 2, us_parts = [],
     us_status = SessionOpen, us_completed = None\<rparr>"

definition demo_provider :: storage_provider where
  "demo_provider = \<lparr>sp_id = 7, sp_s3 = True, sp_bucket = Some ''b'', sp_active = True, sp_default = True\<rparr>"

definition demo_task :: audit_task where
  "demo_task = \<lparr>at_id = 50, at_provider = 7, at_key = ''messages/r/gone'', at_scene = ''message_attachment'',
     at_kind = ''image'', at_ctype = None, at_size = None, at_status = AuditQueued, at_job = None,
     at_rejected = None, at_attempts = 0, at_next = 0, at_error = None, at_audited = None, at_created = 0\<rparr>"

definition demo_files :: files where
  "demo_files = \<lparr>base = empty_db, providers = [demo_provider], file_records = [], upload_sessions = [demo_session],
     audit_tasks = [demo_task], attachment_commits = [], message_parts = [], room_pins = [], other_keys = [], bucket = []\<rparr>"


section \<open>Auditing\<close>

text \<open>\<open>audit_round\<close> claims and processes the task, as a run of the worker does that picks it.\<close>

definition waiting :: "audit_task \<Rightarrow> bool" where
  "waiting a \<longleftrightarrow> at_status a \<in> {AuditQueued, AuditRetry}"

definition audit_round :: "s3 \<Rightarrow> audit_config \<Rightarrow> uuid \<Rightarrow> instant \<Rightarrow> files \<Rightarrow> files" where
  "audit_round sv cfg i now s =
     (case get_task_by_id i s of
        Some a \<Rightarrow> if waiting a then trigger_task_now sv cfg now i s else s
      | None \<Rightarrow> s)"

lemma task_after_update:
  assumes "get_task_by_id i s = Some a" "\<And>a. at_id (f a) = at_id a" "P a"
    "\<And>a. P a \<Longrightarrow> at_id a = i"
  shows "get_task_by_id i (snd (update_tasks P f s)) = Some (f a)"
proof -
  have "fetch_optional (is_task i) (update_where P f (audit_tasks s))
      = map_option (\<lambda>r. if P r then f r else r) (fetch_optional (is_task i) (audit_tasks s))"
    by (rule fetch_update_where) (simp add: is_task_def assms(2))
  then show ?thesis using assms(1,3) by (simp add: get_task_by_id_def update_tasks_def)
qed

lemma get_task_Some: "get_task_by_id i s = Some a \<Longrightarrow> is_task i a"
  unfolding get_task_by_id_def by (auto dest: fetch_SomeD)

lemma task_of_files [simp]:
  "get_task_by_id i (snd (mark_completed_by_key t p k s)) = get_task_by_id i s"
  "get_task_by_id i (snd (mark_failed_by_key p k s)) = get_task_by_id i s"
  by (simp_all add: get_task_by_id_def mark_completed_by_key_def mark_failed_by_key_def set_status_def)

lemma tasks_keep_providers [simp]:
  "providers (snd (update_tasks P f s)) = providers s"
  "providers (snd (mark_completed_by_key t p k s)) = providers s"
  "providers (snd (mark_failed_by_key p k s)) = providers s"
  by (simp_all add: update_tasks_def mark_completed_by_key_def mark_failed_by_key_def set_status_def)

text \<open>Processing a task settles it or counts an attempt, and keeps the task and the providers.\<close>

definition progress :: "audit_config \<Rightarrow> audit_task \<Rightarrow> audit_task \<Rightarrow> bool" where
  "progress cfg a b \<longleftrightarrow> at_provider b = at_provider a
    \<and> (\<not> waiting b \<or> at_status b = AuditRetry \<and> at_attempts b = at_attempts a + 1
       \<and> \<not> (at_status a = AuditRetry \<and> au_max_attempts cfg \<le> at_attempts a))"

lemma process_task_step:
  assumes a: "get_task_by_id i s = Some a" "waiting a"
    and p: "get_provider_by_id (at_provider a) s = Some p"
    and new: "sp_active p \<Longrightarrow> sp_s3 p \<Longrightarrow> create_storage_service sv p = Inr ()"
  shows "\<exists>b. get_task_by_id i (snd (process_task sv cfg t a s)) = Some b \<and> progress cfg a b
    \<and> providers (snd (process_task sv cfg t a s)) = providers s"
proof -
  note task = get_task_Some [OF a(1)]
  have id: "at_id a = i" using task by (simp add: is_task_def)
  have status: "at_status a \<noteq> AuditFailed" using a(2) by (auto simp: waiting_def)
  have failed: "get_task_by_id i (snd (mark_failed i e s)) = Some (a\<lparr>at_status := AuditFailed, at_error := Some e\<rparr>)" for e
    unfolding mark_failed_def using a(1) task by (intro task_after_update) (auto simp: is_task_def)
  have approved: "get_task_by_id i (snd (mark_approved i t s)) = Some (a\<lparr>at_status := AuditApproved,
      at_rejected := None, at_error := None, at_audited := Some t\<rparr>)"
    unfolding mark_approved_def using a(1) task by (intro task_after_update) (auto simp: is_task_def)
  have retry: "get_task_by_id i (snd (mark_retry i e n s)) = Some (a\<lparr>at_status := AuditRetry,
      at_attempts := at_attempts a + 1, at_error := Some e, at_next := n\<rparr>)" for e n
    unfolding mark_retry_def using a(1) task status by (intro task_after_update) (auto simp: is_task_def)
  have keep: "providers (snd (mark_failed i e s)) = providers s" "providers (snd (mark_approved i t s)) = providers s"
    "providers (snd (mark_retry i e n s)) = providers s" for e n
    by (simp_all add: mark_failed_def mark_approved_def mark_retry_def)
  show ?thesis
    using new by (auto simp: p process_task_def id failed approved retry keep waiting_def progress_def
        with_value_def split: sum.split app_error.split)
qed

lemma audit_round_step:
  assumes "au_enabled cfg" and a: "get_task_by_id i s = Some a" "waiting a"
    and p: "get_provider_by_id (at_provider a) s = Some p"
    and new: "sp_active p \<Longrightarrow> sp_s3 p \<Longrightarrow> create_storage_service sv p = Inr ()"
  shows "\<exists>b. get_task_by_id i (audit_round sv cfg i t s) = Some b \<and> progress cfg a b
    \<and> providers (audit_round sv cfg i t s) = providers s"
proof -
  let ?a = "leased t (au_lease cfg) a" and ?s = "snd (claim_task_by_id t i (au_lease cfg) s)"
  have same: "get_task_by_id i ?s = Some ?a" "providers ?s = providers s"
    using task_after_update [OF a(1), of "leased t (au_lease cfg)" "is_task i"] get_task_Some [OF a(1)]
    by (simp_all add: claim_task_by_id_def update_tasks_def leased_def is_task_def)
  have "\<exists>b. get_task_by_id i (snd (process_task sv cfg t ?a ?s)) = Some b \<and> progress cfg ?a b
      \<and> providers (snd (process_task sv cfg t ?a ?s)) = providers ?s"
    using a(2) p new by (intro process_task_step same(1)) (simp_all add: leased_def waiting_def get_provider_by_id_def same(2))
  then show ?thesis using a assms(1) same(2)
    by (simp add: audit_round_def trigger_task_now_def claim_task_by_id_def progress_def leased_def)
qed

text \<open>
  C25: Auditing a file ends.  As long as the storage service of the task's provider can be created,
  the task is approved, rejected or failed after at most as many rounds as attempts are left, and
  two more; rounds beyond that leave it so.
\<close>

theorem audit_settles:
  assumes "au_enabled cfg" and task: "get_task_by_id i s = Some a"
    and p: "get_provider_by_id (at_provider a) s = Some p"
    and new: "sp_active p \<Longrightarrow> sp_s3 p \<Longrightarrow> create_storage_service sv p = Inr ()"
    and rounds: "nat (au_max_attempts cfg - at_attempts a) + 2 \<le> length ts"
  shows "\<exists>b. get_task_by_id i (fold (audit_round sv cfg i) ts s) = Some b
    \<and> at_status b \<in> {AuditApproved, AuditRejected, AuditFailed}"
proof -
  have settled: "at_status b \<in> {AuditApproved, AuditRejected, AuditFailed} \<longleftrightarrow> \<not> waiting b" for b
    by (cases "at_status b") (auto simp: waiting_def)
  have rest: "fold (audit_round sv cfg i) ts s = s" if "get_task_by_id i s = Some b" "\<not> waiting b" for ts s b
    using that by (induction ts) (simp_all add: audit_round_def)
  have "\<exists>b. get_task_by_id i (fold (audit_round sv cfg i) ts s) = Some b \<and> \<not> waiting b"
    if "get_task_by_id i s = Some a" "get_provider_by_id (at_provider a) s = Some p"
      "nat (au_max_attempts cfg - at_attempts a) + (if at_status a = AuditRetry then 1 else 2) \<le> length ts"
    for ts s a
    using that
  proof (induction ts arbitrary: s a)
    case Nil
    then show ?case by (simp split: if_splits)
  next
    case (Cons t ts)
    show ?case
    proof (cases "waiting a")
      case False
      with Cons.prems(1) rest [of s a "t # ts"] show ?thesis by auto
    next
      case True
      obtain b where b: "get_task_by_id i (audit_round sv cfg i t s) = Some b" "progress cfg a b"
        "providers (audit_round sv cfg i t s) = providers s"
        using audit_round_step [OF assms(1) Cons.prems(1) True Cons.prems(2) new] by blast
      show ?thesis
      proof (cases "waiting b")
        case False
        with b(1) rest show ?thesis by auto
      next
        case True
        then have "nat (au_max_attempts cfg - at_attempts b) + (if at_status b = AuditRetry then 1 else 2) \<le> length ts"
          using b(2) Cons.prems(3) \<open>waiting a\<close> by (auto simp: progress_def waiting_def split: if_splits)
        moreover have "get_provider_by_id (at_provider b) (audit_round sv cfg i t s) = Some p"
          using b Cons.prems(2) by (simp add: progress_def get_provider_by_id_def)
        ultimately show ?thesis using Cons.IH [OF b(1)] by simp
      qed
    qed
  qed
  then show ?thesis using task p rounds unfolding settled by fastforce
qed

theorem audit_settles_witness:
  "\<exists>b. get_task_by_id 50 (fold (audit_round plain_s3 \<lparr>au_enabled = True, au_batch = 1, au_lease = 1,
      au_max_attempts = 1, au_poll = 1, au_retry_base = 1, au_retry_max = 1\<rparr> 50) [1, 2, 3] demo_files) = Some b
    \<and> at_status b \<in> {AuditApproved, AuditRejected, AuditFailed}"
  by (rule audit_settles [where a = demo_task and p = demo_provider])
    (simp_all add: get_task_by_id_def demo_files_def is_task_def demo_task_def get_provider_by_id_def
      demo_provider_def create_storage_service_def)

text \<open>
  Where the service cannot be created, say because the provider has no bucket, the attempt is not
  counted: the task is tried for ever.
\<close>

lemma audit_never_gives_up:
  assumes "au_enabled cfg" "get_task_by_id i s = Some a" "at_status a = AuditQueued"
    and p: "get_provider_by_id (at_provider a) s = Some p" "sp_active p" "sp_s3 p" "sp_bucket p = None"
  shows "\<exists>b. get_task_by_id i (fold (audit_round sv cfg i) ts s) = Some b
    \<and> at_status b = AuditQueued \<and> at_attempts b = at_attempts a"
  using assms(2,3) p(1)
proof (induction ts arbitrary: s a)
  case (Cons t ts)
  let ?s = "snd (claim_task_by_id t i (au_lease cfg) s)"
  have r: "audit_round sv cfg i t s = ?s"
    using assms(1) Cons.prems p(2-) by (simp add: audit_round_def waiting_def trigger_task_now_def claim_task_by_id_def
        process_task_def leased_def get_provider_by_id_def create_storage_service_def)
  have task: "get_task_by_id i ?s = Some (leased t (au_lease cfg) a)"
    using task_after_update [OF Cons.prems(1), of "leased t (au_lease cfg)" "is_task i"] get_task_Some [OF Cons.prems(1)]
    by (simp add: claim_task_by_id_def update_tasks_def leased_def is_task_def)
  have "get_provider_by_id (at_provider a) ?s = Some p"
    using Cons.prems(3) by (simp add: claim_task_by_id_def get_provider_by_id_def)
  then show ?case using Cons.IH [OF task] Cons.prems(2) r by (simp add: leased_def)
qed simp

end
