(* ===== verification/FileProperties.thy ===== *)
theory FileProperties
  imports UploadProperties
begin

text \<open>
  Uploads, messages and the workers as one machine, and what it promises.  The machine interleaves
  the handlers of \<open>AttachmentHandlers\<close>, \<open>UploadSessions\<close> and \<open>Messaging\<close>, uploads by clients, the
  runs of \<open>FileWorkers\<close>, and whatever else the server does to the tables beside these.
\<close>

section \<open>The machine\<close>

text \<open>\<open>handed\<close> are the keys that were handed out, each with the provider it was signed for.\<close>

record file_world =
  clock :: instant
  handed :: stored
  tables :: files

definition after :: "file_world \<Rightarrow> (files \<Rightarrow> 'a \<times> files) \<Rightarrow> file_world" where
  "after w f = w\<lparr>tables := snd (f (tables w))\<rparr>"

definition hand_out :: "string \<Rightarrow> file_world \<Rightarrow> file_world" where
  "hand_out k w = (case load_default_storage_provider (tables w) of
     Inl _ \<Rightarrow> w | Inr p \<Rightarrow> w\<lparr>handed := (sp_id p, k) # handed w\<rparr>)"

definition unused_key :: "string \<Rightarrow> file_world \<Rightarrow> bool" where
  "unused_key k w \<longleftrightarrow> k \<notin> snd ` set (handed w)"

definition attachment_key :: "key_source \<Rightarrow> uuid \<Rightarrow> file_claim \<Rightarrow> string" where
  "attachment_key ks room req = build_message_attachment_key ks room (fc_type req) (fc_name req) (fc_ctype req)"

text \<open>
  The random part of a key makes it an unused one.  A client puts objects only under the keys that
  were signed for it.  \<open>elsewhere\<close> is the rest of the server: it changes what is no message, the
  providers, and the keys of avatars, releases and reports, which have other prefixes.
\<close>

inductive moves :: "s3 \<Rightarrow> file_world \<Rightarrow> file_world \<Rightarrow> bool" for sv :: s3 where
  tick: "clock w \<le> t \<Longrightarrow> moves sv w (w\<lparr>clock := t\<rparr>)"
| put: "(p, k) \<in> set (handed w) \<Longrightarrow>
    moves sv w (w\<lparr>tables := (tables w)\<lparr>bucket := (p, k) # bucket (tables w)\<rparr>\<rparr>)"
| elsewhere: "messages d = messages (base (tables w)) \<Longrightarrow> \<forall>k \<in> set ks. \<not> attachment k \<Longrightarrow>
    moves sv w (w\<lparr>tables := (tables w)\<lparr>base := d, providers := ps, other_keys := ks\<rparr>\<rparr>)"
| sign: "unused_key (attachment_key ks room req) w \<Longrightarrow> moves sv w (after (hand_out (attachment_key ks room req) w)
    (generate_message_attachment_signature sv ks pol (clock w) room sub req))"
| initiate: "unused_key (attachment_key ks room req) w \<Longrightarrow> moves sv w (after (hand_out (attachment_key ks room req) w)
    (initiate_message_attachment_multipart_upload sv ks pol (clock w) i room sub adm req n))"
| initiate_release: "unused_key (build_release_object_key ks platform channel (fc_name req)) w \<Longrightarrow>
    moves sv w (after (hand_out (build_release_object_key ks platform channel (fc_name req)) w)
      (initiate_version_multipart_upload sv ks (clock w) i sub adm platform channel req n))"
| part: "moves sv w (after w (commit_multipart_part sid sub adm n etag))"
| complete: "moves sv w (after w (complete_multipart_upload sv (clock w) i sid sub adm parts))"
| abort: "moves sv w (after w (abort_multipart_upload sv sid sub adm))"
| report: "moves sv w (after w (commit_message_attachment_upload sv ks (clock w) i room sub k sz hash alg))"
| open_file: "moves sv w (after w (generate_message_attachment_download_url sv grant ks (clock w) room sub k n))"
| send: "moves sv w (after w (send_message rd ks pol gen (clock w) i room sub req'))"
| send_encrypted: "moves sv w (after w (send_encrypted_message rd dec ks (clock w) i room sub enc))"
| forward: "moves sv w (after w (forward_message gen (clock w) i room sub orig))"
| edit: "moves sv w (after w (edit_message room i sub content))"
| delete: "moves sv w (after w (delete_message (clock w) room i sub))"
| pin: "moves sv w (after w (pin_message (clock w) room i sub))"
| unpin: "moves sv w (after w (unpin_message room i sub))"
| clear: "moves sv w (after w (clear_room_messages (clock w) room sub))"
| cleanup: "moves sv w (after w (run_file_upload_cleanup sv cfg (clock w) gen))"
| audit: "moves sv w (w\<lparr>tables := run_file_upload_audit_once sv au (clock w) (tables w)\<rparr>)"
| trigger: "moves sv w (w\<lparr>tables := trigger_task_now sv au (clock w) i (tables w)\<rparr>)"

definition no_files :: "file_world \<Rightarrow> bool" where
  "no_files w \<longleftrightarrow> handed w = [] \<and> file_records (tables w) = [] \<and> upload_sessions (tables w) = []
     \<and> attachment_commits (tables w) = [] \<and> message_parts (tables w) = [] \<and> bucket (tables w) = []
     \<and> other_keys (tables w) = []"

inductive file_reachable :: "s3 \<Rightarrow> file_world \<Rightarrow> bool" for sv :: s3 where
  start: "no_files w \<Longrightarrow> file_reachable sv w"
| move: "file_reachable sv w \<Longrightarrow> moves sv w w' \<Longrightarrow> file_reachable sv w'"

section \<open>The invariant holds in every reachable world\<close>

definition world_wf :: "file_world \<Rightarrow> bool" where
  "world_wf w \<longleftrightarrow> files_wf (clock w) (handed w) (tables w)"

lemma after_wf: "files_wf (clock w) (handed w) (snd (f (tables w))) \<Longrightarrow> world_wf (after w f)"
  by (simp add: world_wf_def after_def)

lemma kept_wf: "world_wf w \<Longrightarrow> keeps (files_wf (clock w) (handed w)) f \<Longrightarrow> world_wf (after w f)"
  by (simp add: world_wf_def after_def keeps_def)

text \<open>Time only ends leases.\<close>

lemma live_key_earlier: "t \<le> t' \<Longrightarrow> live_key t' k s \<Longrightarrow> live_key t k s"
  by (auto simp: live_key_def committed_key_def live_commit_def)

lemma tick_wf: "world_wf w \<Longrightarrow> clock w \<le> t \<Longrightarrow> world_wf (w\<lparr>clock := t\<rparr>)"
  by (auto simp: world_wf_def files_wf_def live_ok_def dest: live_key_earlier)

lemma put_wf: "world_wf w \<Longrightarrow> (p, k) \<in> set (handed w) \<Longrightarrow>
    world_wf (w\<lparr>tables := (tables w)\<lparr>bucket := (p, k) # bucket (tables w)\<rparr>\<rparr>)"
  using bucket_wf [of "clock w" "handed w" "tables w" "(p, k) # bucket (tables w)"]
  by (auto simp: world_wf_def files_wf_def issued_ok_def)

lemma elsewhere_wf:
  assumes "world_wf w" "messages d = messages (base (tables w))" "\<forall>k \<in> set ks. \<not> attachment k"
  shows "world_wf (w\<lparr>tables := (tables w)\<lparr>base := d, providers := ps, other_keys := ks\<rparr>\<rparr>)"
proof -
  let ?s = "(tables w)\<lparr>base := d, providers := ps, other_keys := ks\<rparr>"
  have live: "live_key t k ?s = live_key t k (tables w)" for t k
    by (rule live_key_cong) (simp_all add: assms(2))
  note wf = assms(1) [unfolded world_wf_def]
  have "issued_ok (handed w) ?s" using files_wfD(1) [OF wf] by (simp add: issued_ok_def)
  moreover have "completed_ok ?s" using files_wfD(2) [OF wf] by (simp add: completed_ok_def)
  moreover have "live_ok (clock w) ?s" using files_wfD(3) [OF wf] unfolding live_ok_def live stored_key_def by simp
  moreover have "parts_ok ?s" using files_wfD(4) [OF wf] unfolding parts_ok_def by (simp add: assms(2))
  ultimately show ?thesis using assms(3) by (simp add: world_wf_def files_wf_def)
qed

lemma hand_out_wf:
  assumes "world_wf w" "unused_key k w"
  shows "files_wf (clock w) (handed (hand_out k w)) (tables w)" "issued_for (handed (hand_out k w)) (tables w) k"
    "clock (hand_out k w) = clock w" "tables (hand_out k w) = tables w"
proof -
  note wf = assms(1) [unfolded world_wf_def]
  have fresh: "(q, k) \<notin> set (handed w)" for q
    using assms(2) by (auto simp: unused_key_def image_iff)
  have "issued_ok ((p, k) # handed w) (tables w)" for p
    using files_wfD(1) [OF wf] fresh unfolding issued_ok_def by auto
  then have "files_wf (clock w) ((p, k) # handed w) (tables w)" for p
    using wf by (simp add: files_wf_def)
  with wf show "files_wf (clock w) (handed (hand_out k w)) (tables w)"
    by (simp add: hand_out_def split: sum.split)
qed (auto simp: hand_out_def issued_for_def split: sum.split)

lemma moves_wf:
  assumes "honest sv" "moves sv w w'" "world_wf w"
  shows "world_wf w'"
  using assms(2,3)
proof cases
  case (sign ks room req pol sub)
  note k = hand_out_wf [OF assms(3) sign(2)]
  show ?thesis unfolding sign(1)
    using k signature_wf [OF k(1), of ks room req] by (intro after_wf) (simp add: attachment_key_def)
next
  case (initiate ks room req pol i sub adm n)
  note k = hand_out_wf [OF assms(3) initiate(2)]
  show ?thesis unfolding initiate(1)
    using k initiate_attachment_wf [OF k(1), of ks room req] by (intro after_wf) (simp add: attachment_key_def)
next
  case (initiate_release ks platform channel req i sub adm n)
  note k = hand_out_wf [OF assms(3) initiate_release(2)]
  show ?thesis unfolding initiate_release(1)
    using k initiate_version_wf [OF k(1), of ks platform channel req] by (intro after_wf) simp
next
  case (report ks i room sub k sz hash alg)
  show ?thesis unfolding report
    using assms(3) by (intro after_wf commit_upload_wf assms(1)) (simp add: world_wf_def)
next
  case (cleanup cfg gen)
  show ?thesis unfolding cleanup
    using assms(3) by (intro after_wf cleanup_wf assms(1)) (simp add: world_wf_def)
next
  case (audit au)
  then show ?thesis using assms(1,3) by (simp add: world_wf_def audit_run_wf)
next
  case (trigger au i)
  then show ?thesis using assms(1,3) by (simp add: world_wf_def trigger_wf)
qed (simp_all add: tick_wf put_wf elsewhere_wf kept_wf commit_part_keeps abort_keeps complete_keeps
    download_url_keeps send_message_keeps send_encrypted_keeps forward_message_keeps edit_message_keeps
    delete_message_keeps pin_message_keeps unpin_message_keeps clear_room_messages_keeps assms(1))

lemma start_wf: "no_files w \<Longrightarrow> world_wf w"
  by (auto simp: no_files_def world_wf_def files_wf_def issued_ok_def completed_ok_def live_ok_def parts_ok_def
      live_key_def committed_key_def message_key_def)

lemma file_reachable_wf: "file_reachable sv w \<Longrightarrow> honest sv \<Longrightarrow> world_wf w"
  by (induction rule: file_reachable.induct) (auto intro: start_wf moves_wf)

lemma named_objects_stored:
  assumes "honest sv" "file_reachable sv w" "attachment k"
    and "committed_key (clock w) k (tables w) \<or> message_key k (tables w)"
  shows "\<exists>p. (p, k) \<in> set (bucket (tables w))"
  using file_reachable_wf [OF assms(2,1)] assms(3,4)
  by (auto simp: world_wf_def files_wf_def live_ok_def live_key_def stored_key_def)

lemma room_key_live: "room_has_message_object_key room k s \<Longrightarrow> message_key k s"
  unfolding room_has_message_object_key_def message_key_def live_message_def by metis

section \<open>An example\<close>

definition demo_source :: key_source where
  "demo_source = \<lparr>ks_uuid = \<lambda>_. ''r'', ks_date = ''d'', ks_random = ''x''\<rparr>"

definition demo_policy :: upload_policy where
  "demo_policy = \<lparr>pol_max_total_mb = 1, pol_max_attachments = 1, pol_image_mb = 1, pol_video_mb = 1,
     pol_audio_mb = 1, pol_file_mb = 1, pol_image = [], pol_video = [], pol_audio = [], pol_file = []\<rparr>"

definition demo_claim :: file_claim where
  "demo_claim = \<lparr>fc_type = ImagePart, fc_name = None, fc_ctype = None, fc_size = None, fc_hash = None, fc_alg = None\<rparr>"

definition demo_key :: string where
  "demo_key = ''messages/r/images_d/x.png''"

definition demo_db :: db where
  "demo_db = empty_db\<lparr>users := [1],
     rooms := [\<lparr>rm_id = 10, rm_name = ''r'', rm_type = GroupRoom, rm_owner = 1, rm_created = 0, rm_deleted = None\<rparr>],
     room_members := [\<lparr>mb_room = 10, mb_user = 1, mb_role = OwnerRole, mb_joined = 0, mb_deleted = None\<rparr>]\<rparr>"

definition demo_start :: file_world where
  "demo_start = \<lparr>clock = 5, handed = [], tables =
     \<lparr>base = demo_db, providers = [\<lparr>sp_id = 7, sp_s3 = True, sp_bucket = Some ''b'', sp_active = True, sp_default = True\<rparr>],
      file_records = [], upload_sessions = [], audit_tasks = [], attachment_commits = [], message_parts = [],
      room_pins = [], other_keys = [], bucket = []\<rparr>\<rparr>"

text \<open>A member of room 10 gets a signature, uploads the object and reports it.\<close>

definition demo_signed :: file_world where
  "demo_signed = after (hand_out demo_key demo_start)
     (generate_message_attachment_signature plain_s3 demo_source demo_policy 5 10 (Some 1) demo_claim)"

definition demo_put :: file_world where
  "demo_put = demo_signed\<lparr>tables := (tables demo_signed)\<lparr>bucket := [(7, demo_key)]\<rparr>\<rparr>"

definition demo_committed :: file_world where
  "demo_committed = after demo_put
     (commit_message_attachment_upload plain_s3 demo_source 5 20 10 (Some 1) demo_key None None None)"

lemma demo_key_eq: "attachment_key demo_source 10 demo_claim = demo_key" by code_simp

lemma demo_member [simp]: "is_user_in_room 10 1 demo_db" "room_exists 10 demo_db" "1 \<in> set (users demo_db)"
  by (simp_all add: demo_db_def is_user_in_room_def is_member_def room_exists_def)

lemma demo_default: "providers s = [\<lparr>sp_id = 7, sp_s3 = True, sp_bucket = Some ''b'', sp_active = True, sp_default = True\<rparr>] \<Longrightarrow>
    default_service plain_s3 s = Inr (hd (providers s)) \<and> load_default_storage_provider s = Inr (hd (providers s))"
  by (simp add: default_service_def create_storage_service_def load_default_storage_provider_def get_default_provider_def)

lemmas step_simps = query_def member_of_def run_then_def answer_def require_def claims_user_id_def

lemma demo_signed_eq: "demo_signed = demo_start\<lparr>handed := [(7, demo_key)]\<rparr>"
proof -
  have "generate_message_attachment_signature plain_s3 demo_source demo_policy 5 10 (Some 1) demo_claim (tables demo_start)
    = (Inr (demo_key, Some demo_key), tables demo_start)"
    using demo_key_eq demo_default [of "tables demo_start"]
    by (simp add: generate_message_attachment_signature_def step_simps
       demo_claim_def check_mime_def check_size_def attachment_key_def demo_start_def)
  moreover have "hand_out demo_key demo_start = demo_start\<lparr>handed := [(7, demo_key)]\<rparr>"
    using demo_default [of "tables demo_start"] by (simp add: hand_out_def) (simp add: demo_start_def)
  ultimately show ?thesis by (simp add: demo_signed_def after_def)
qed

lemma trim_demo: "trim demo_key = demo_key" by (rule trim_plain) code_simp+

lemma demo_valid: "is_valid_message_attachment_object_key demo_key"
  "is_message_attachment_object_key_for_room demo_source 10 demo_key"
proof -
  show "is_valid_message_attachment_object_key demo_key"
    unfolding is_valid_message_attachment_object_key_def trim_demo Let_def by code_simp
  then show "is_message_attachment_object_key_for_room demo_source 10 demo_key"
    unfolding is_message_attachment_object_key_for_room_def trim_demo by simp code_simp
qed

definition demo_record :: file_record where
  "demo_record = completed_now 5 (pending_record 7 demo_key 0 demo_key None None 5)"

definition demo_commit :: attachment_commit where
  "demo_commit = \<lparr>ac_room = 10, ac_key = demo_key, ac_by = 1, ac_size = None, ac_committed = 5,
     ac_expires = commit_lease 5, ac_confirmed = None\<rparr>"

lemma demo_committed_eq: "\<exists>ts. tables demo_committed = (tables demo_start)\<lparr>bucket := [(7, demo_key)],
    file_records := [demo_record], attachment_commits := [demo_commit], audit_tasks := ts\<rparr>"
proof -
  have "demo_key \<noteq> []" by (simp add: demo_key_def)
  moreover have "default_service plain_s3 (tables demo_put) = Inr (hd (providers (tables demo_put)))"
    by (rule demo_default [THEN conjunct1]) (simp add: demo_put_def demo_signed_eq demo_start_def)
  ultimately show ?thesis
    unfolding demo_committed_def after_def
    by (simp add: commit_message_attachment_upload_def trim_demo demo_valid step_simps)
     (simp add: demo_put_def demo_signed_eq demo_start_def check_object_def size_mismatch_def hash_mismatch_def
       step_simps note_claimed_def note_missing_def get_by_key_def note_pending_def create_pending_record_def atomically_def
       record_room_attachment_commit_def mark_completed_by_key_def set_status_def upsert_commit_def
       of_object_def pending_record_def upsert_task_def update_where_def demo_record_def demo_commit_def)
qed

lemma demo_tables: "file_records (tables demo_committed) = [demo_record]" "base (tables demo_committed) = demo_db"
  "attachment_commits (tables demo_committed) = [demo_commit]" "bucket (tables demo_committed) = [(7, demo_key)]"
  "providers (tables demo_committed) = providers (tables demo_start)"
  using demo_committed_eq by (auto simp: demo_start_def)

lemma demo_live: "committed_key 5 demo_key (tables demo_committed)"
  using demo_committed_eq by (auto simp: committed_key_def demo_commit_def live_commit_def commit_lease_def)

lemma demo_persists: "is_relay_only_runtime demo_db = Inr False"
  by code_simp

text \<open>The committed file is opened with the default provider of the moment.\<close>

lemma demo_download:
  assumes "default_service plain_s3 s = Inr p"
    and "file_records s = [demo_record]" "attachment_commits s = [demo_commit]" "base s = demo_db"
  shows "\<exists>s'. generate_message_attachment_download_url plain_s3 (\<lambda>_ _. Inr None) demo_source 5 10 (Some 1) demo_key None s
    = (Inr (sp_id p, demo_key, 600), s')"
proof -
  let ?access = "claim_room_attachment_access 10 demo_key 1 5 s"
  have claim: "?access = (True, s\<lparr>attachment_commits := update_where (\<lambda>c. is_commit 10 demo_key c \<and> live_commit 5 c)
      (confirmed_by 1 5) [demo_commit]\<rparr>)"
    using assms by (simp add: claim_room_attachment_access_def all_completed_def demo_record_def demo_commit_def
        completed_now_def pending_record_def is_commit_def live_commit_def commit_lease_def)
  have "default_service plain_s3 (snd ?access) = Inr p"
    using assms(1) by (simp add: claim default_service_def load_default_storage_provider_def get_default_provider_def)
  moreover have "demo_key \<noteq> []" by (simp add: demo_key_def)
  ultimately show ?thesis
    by (simp add: generate_message_attachment_download_url_def trim_demo demo_valid step_simps assms demo_persists
        attachment_access_def claim expires_for_def)
qed

lemma demo_reachable: "file_reachable plain_s3 demo_committed" "clock demo_committed = 5"
proof -
  have "file_reachable plain_s3 demo_start"
    by (rule file_reachable.start) (simp add: no_files_def demo_start_def)
  moreover have "moves plain_s3 demo_start demo_signed"
    using moves.sign [of demo_source 10 demo_claim demo_start plain_s3 demo_policy "Some 1"]
    by (simp add: demo_key_eq demo_signed_def unused_key_def demo_start_def)
  moreover have "moves plain_s3 demo_signed demo_put"
    using moves.put [of 7 demo_key demo_signed plain_s3]
    by (simp add: demo_put_def demo_signed_eq demo_start_def)
  moreover have clock: "clock demo_put = 5" by (simp add: demo_put_def demo_signed_eq demo_start_def)
  moreover have "moves plain_s3 demo_put demo_committed"
    using moves.report [of plain_s3 demo_put demo_source 20 10 "Some 1" demo_key None None None]
    by (simp add: demo_committed_def clock)
  ultimately show "file_reachable plain_s3 demo_committed" by (meson file_reachable.move)
  show "clock demo_committed = 5" by (simp add: demo_committed_def after_def clock)
qed

section \<open>Properties\<close>




text \<open>
  Whoever gets a download link outside the relay_only mode, and not by a grant of Redis, gets it
  for a key under which an object is stored, belongs to the room, and asked for a file that the
  room has: a message of the room names it, or it is committed to the room and the lease runs.
\<close>

lemma download_links_lead_somewhere:
  assumes "honest sv" "file_reachable sv w"
    and ok: "generate_message_attachment_download_url sv grant ks (clock w) room sub raw n (tables w) = (Inr (p, k, e), s')"
    and stored: "is_relay_only_runtime (base (tables w)) = Inr False" "\<And>k. grant room k = Inr None"
  shows "(\<exists>q. (q, k) \<in> set (bucket (tables w)))
    \<and> (\<exists>u. sub = Some u \<and> is_user_in_room room u (base (tables w)))
    \<and> (room_has_message_object_key room k (tables w)
       \<or> (\<exists>c \<in> set (attachment_commits (tables w)). is_commit room k c \<and> live_commit (clock w) c))"
proof -
  from ok obtain u a s1 where u: "sub = Some u" "is_user_in_room room u (base (tables w))"
    and k: "k = trim raw" "is_valid_message_attachment_object_key k"
    and a: "attachment_access grant ks (clock w) room u k False (tables w) = (Inr a, s1)"
    by (auto simp: generate_message_attachment_download_url_def Let_def with_value_Inr query_Inr run_then_Inr
        member_of_def stored(1))
  from a have named: "room_has_message_object_key room k (tables w)
       \<or> (\<exists>c \<in> set (attachment_commits (tables w)). is_commit room k c \<and> live_commit (clock w) c)"
    using stored(2) by (auto simp: attachment_access_def granted_def claim_room_attachment_access_def Let_def
        split: if_splits)
  then have "committed_key (clock w) k (tables w) \<or> message_key k (tables w)"
    using room_key_live by (auto simp: committed_key_def is_commit_def)
  moreover have "attachment k"
    using k by (simp add: is_valid_message_attachment_object_key_def Let_def trim_trim messages_prefix_def)
  ultimately have "\<exists>q. (q, k) \<in> set (bucket (tables w))"
    using named_objects_stored [OF assms(1,2)] by blast
  with u named show ?thesis by blast
qed


text \<open>
  The link is signed by the provider that is the default one now, not by the one that stores the
  object: once an administrator makes another provider the default, links to the older attachments
  lead nowhere, although the record of the upload names the right provider.
\<close>

definition demo_moved :: file_world where
  "demo_moved = demo_committed\<lparr>tables := (tables demo_committed)\<lparr>base := demo_db,
     providers := [\<lparr>sp_id = 7, sp_s3 = True, sp_bucket = Some ''b'', sp_active = True, sp_default = False\<rparr>,
                   \<lparr>sp_id = 8, sp_s3 = True, sp_bucket = Some ''c'', sp_active = True, sp_default = True\<rparr>],
     other_keys := []\<rparr>\<rparr>"

lemma link_to_another_provider:
  "file_reachable plain_s3 demo_moved
   \<and> committed_key (clock demo_moved) demo_key (tables demo_moved)
   \<and> (\<exists>s'. generate_message_attachment_download_url plain_s3 (\<lambda>_ _. Inr None) demo_source (clock demo_moved) 10 (Some 1)
        demo_key None (tables demo_moved) = (Inr (8, demo_key, 600), s'))
   \<and> bucket (tables demo_moved) = [(7, demo_key)]"
proof (intro conjI)
  have "moves plain_s3 demo_committed demo_moved"
    unfolding demo_moved_def by (intro moves.elsewhere) (simp_all add: demo_tables)
  then show "file_reachable plain_s3 demo_moved" using demo_reachable(1) by (rule file_reachable.move [rotated])
  have t: "clock demo_moved = 5" by (simp add: demo_moved_def demo_reachable)
  show "committed_key (clock demo_moved) demo_key (tables demo_moved)"
    using demo_live unfolding t by (simp add: demo_moved_def committed_key_def)
  show "\<exists>s'. generate_message_attachment_download_url plain_s3 (\<lambda>_ _. Inr None) demo_source (clock demo_moved) 10 (Some 1)
        demo_key None (tables demo_moved) = (Inr (8, demo_key, 600), s')"
    unfolding t using demo_download [of "tables demo_moved"]
    by (simp add: demo_moved_def demo_tables default_service_def create_storage_service_def
        load_default_storage_provider_def get_default_provider_def)
  show "bucket (tables demo_moved) = [(7, demo_key)]" by (simp add: demo_moved_def demo_tables)
qed

end
