(* ===== verification/MessageProperties.thy ===== *)
theory MessageProperties
  imports FileSystem E2eeSystem
begin

text \<open>
  What the message handlers promise in encrypted mode: an encrypted message is stored once however
  often it is sent, and sending and forwarding let no plaintext in.
\<close>

section \<open>A repeated encrypted send\<close>

lemma insert_parts_base: "insert_message_parts i ps s = Inr s' \<Longrightarrow> base s' = base s"
  by (induction ps arbitrary: s) (auto split: if_splits)

lemma insert_with_parts_Inr:
  assumes "insert_with_parts m ps s = Inr (m', s')"
  shows "m' = m" "messages (base s') = messages (base s) @ [m]"
  using assms by (auto simp: insert_with_parts_def insert_message_def Let_def dest!: insert_parts_base
      split: sum.splits if_splits)

text \<open>\<open>new_id\<close> gives the id that each attempt would use; a retry does not use its own.\<close>

definition encrypted_send_call ::
  "(instant \<Rightarrow> uuid) \<Rightarrow> uuid \<Rightarrow> uuid \<Rightarrow> encrypted_send \<Rightarrow> instant \<Rightarrow> files \<Rightarrow> (message \<times> files) result" where
  "encrypted_send_call new_id room sender inp now s =
     (case create_encrypted_message_with_parts (new_id now) room sender inp now s of
        Inl e \<Rightarrow> Inl e | Inr ((m, _), s') \<Rightarrow> Inr (m, s'))"

lemma encrypted_send_cases:
  assumes "create_encrypted_message_with_parts i room u inp t s = Inr ((m, fresh), s')"
  obtains (repeated) "\<not> fresh" "s' = s" "sent_before room u (en_idem inp) s = Some m"
      "msg_encrypted m = Some (en_payload inp)" "msg_metadata m = en_metadata inp" "msg_quoted m = en_quoted inp"
    | (stored) "fresh" "sent_before room u (en_idem inp) s = None" "m = encrypted_row i room u inp t"
      "validate_application_send_conn room u (en_device inp) (en_epoch inp) (en_control inp) (base s) = Inr ()"
      "messages (base s') = messages (base s) @ [m]"
proof (cases "sent_before room u (en_idem inp) s")
  case (Some x)
  with assms show ?thesis
    by (intro repeated) (auto simp: create_encrypted_message_with_parts_def split: if_splits)
next
  case None
  with assms have v: "validate_application_send_conn room u (en_device inp) (en_epoch inp) (en_control inp) (base s) = Inr ()"
    and ins: "insert_with_parts (encrypted_row i room u inp t) (en_parts inp) s = Inr (m, s')" "fresh"
    by (auto simp: create_encrypted_message_with_parts_def and_then_Inr)
  from insert_with_parts_Inr [OF ins(1)] show ?thesis using None v ins(2) by (intro stored) auto
qed

lemma found_again:
  assumes "sent_before room u k s = None" "m = encrypted_row i room u inp t" "en_idem inp = k"
    "messages (base s') = messages (base s) @ [m]"
  shows "sent_before room u k s' = Some m"
  using assms fetch_inserted
    [where P = "\<lambda>m. msg_room m = room \<and> msg_sender m = u \<and> msg_idem m = Some k" and t = "messages (base s)" and r = m]
  by (simp add: sent_before_def fetch_None encrypted_row_def plain_message_def)

lemma encrypted_send_retry:
  assumes "encrypted_send_call g room u inp t s = Inr (m, s')"
  shows "encrypted_send_call g room u inp t' s' = Inr (m, s')"
proof -
  obtain fresh where c: "create_encrypted_message_with_parts (g t) room u inp t s = Inr ((m, fresh), s')"
    using assms by (auto simp: encrypted_send_call_def split: sum.splits)
  then show ?thesis
  proof (cases rule: encrypted_send_cases)
    case repeated
    then show ?thesis by (simp add: encrypted_send_call_def create_encrypted_message_with_parts_def)
  next
    case stored
    have "sent_before room u (en_idem inp) s' = Some m" by (rule found_again [OF stored(2,3) refl stored(5)])
    then show ?thesis using stored(3)
      by (simp add: encrypted_send_call_def create_encrypted_message_with_parts_def encrypted_row_def plain_message_def)
  qed
qed

interpretation encrypted_send: retryable "encrypted_send_call g room u inp" for g room u inp
  by unfold_locales (rule encrypted_send_retry)


definition sample_files :: files where
  "sample_files = \<lparr>base = sample_db, providers = [], file_records = [], upload_sessions = [], audit_tasks = [],
     attachment_commits = [], message_parts = [], room_pins = [], other_keys = [], bucket = []\<rparr>"

definition sample_send :: encrypted_send where
  "sample_send = \<lparr>en_content = encrypted_placeholder, en_type = TextMsg, en_payload = [1], en_metadata = None,
     en_quoted = None, en_parts = [text_part encrypted_placeholder], en_idem = 60, en_device = 101, en_epoch = 1,
     en_control = 70\<rparr>"



section \<open>Plaintext in encrypted mode\<close>

lemma e2ee_loaded:
  "load_message_runtime_settings d = Inr rt \<Longrightarrow> is_e2ee_runtime d = Inr (rs_audit rt = E2ee)"
  by (auto simp: load_message_runtime_settings_def is_e2ee_runtime_def Let_def split: prod.splits sum.splits)

lemma relay_loaded:
  "load_message_runtime_settings d = Inr rt \<Longrightarrow> is_relay_only_runtime d = Inr (is_relay_only rt)"
  by (simp add: is_relay_only_runtime_def)

lemma check_encrypted_Inr:
  assumes "check_encrypted dec ks req = Inr inp"
  shows "en_content inp = encrypted_placeholder" "en_parts inp = [text_part encrypted_placeholder]"
    "dec (trim (er_payload req)) = Some (en_payload inp)" "en_payload inp \<noteq> []" "en_idem inp = er_idem req"
  using assms by (auto simp: check_encrypted_def Let_def and_then_Inr split: option.splits)

lemma encrypted_answer:
  assumes "send_encrypted_message rd dec ks t i room sub enc s = (Inr m, s')"
  obtains inp where "check_encrypted dec ks enc = Inr inp" "msg_encrypted m = Some (en_payload inp)"
    "messages (base s') = messages (base s)
      \<or> messages (base s') = messages (base s) @ [m] \<and> msg_content m = encrypted_placeholder"
proof -
  from assms have "\<exists>u a s1 inp. on_base (ensure_group_message_permissions t room u) s = (a, s1)
      \<and> check_encrypted dec ks enc = Inr inp
      \<and> (relay_encrypted rd i room u inp t s1 = Inr m \<and> s' = s1
         \<or> (\<exists>fresh. create_encrypted_message_with_parts i room u inp t s1 = Inr ((m, fresh), s')))"
    unfolding send_encrypted_message_def Let_def
    by (auto simp: with_value_Inr query_Inr run_then_Inr split: if_splits prod.splits) blast+
  then obtain u a s1 inp where
    s1: "on_base (ensure_group_message_permissions t room u) s = (a, s1)"
    and inp: "check_encrypted dec ks enc = Inr inp"
    and sent: "relay_encrypted rd i room u inp t s1 = Inr m \<and> s' = s1
      \<or> (\<exists>fresh. create_encrypted_message_with_parts i room u inp t s1 = Inr ((m, fresh), s'))" by blast
  have base: "messages (base s1) = messages (base s)"
    using s1 permissions_keep_messages [of t room u "base s"] by (auto simp: on_base_def split_beta)
  have row: "msg_encrypted (encrypted_row i room u inp t) = Some (en_payload inp)"
    "msg_content (encrypted_row i room u inp t) = encrypted_placeholder"
    using check_encrypted_Inr(1) [OF inp] by (simp_all add: encrypted_row_def plain_message_def)
  from sent show ?thesis
  proof (elim disjE exE)
    assume "relay_encrypted rd i room u inp t s1 = Inr m \<and> s' = s1"
    with row base show ?thesis by (intro that [OF inp]) (auto simp: relay_encrypted_def and_then_Inr)
  next
    fix fresh assume "create_encrypted_message_with_parts i room u inp t s1 = Inr ((m, fresh), s')"
    then show ?thesis
      by (cases rule: encrypted_send_cases) (use row base in \<open>auto intro: that [OF inp]\<close>)
  qed
qed

text \<open>
  C27: While encrypted messaging is on, no request to send or to forward plaintext gets through: it is
  refused before anything is read or written.  An encrypted message that is answered carries the
  decoded payload, and whatever is newly stored for it has the placeholder as its only text.
\<close>

theorem encrypted_mode_refuses_plaintext:
  assumes rt: "load_message_runtime_settings (base s) = Inr rt" "rs_audit rt = E2ee"
  shows "(\<exists>e. send_message rd ks pol gen now i room sub req s = (Inl e, s))
    \<and> (\<exists>e. forward_message gen now i room sub orig s = (Inl e, s))
    \<and> (send_encrypted_message rd dec ks now i room sub enc s = (Inr m, s') \<longrightarrow>
        dec (trim (er_payload enc)) = msg_encrypted m
        \<and> (messages (base s') = messages (base s)
           \<or> messages (base s') = messages (base s) @ [m] \<and> msg_content m = encrypted_placeholder))"
proof (intro conjI impI)
  show "\<exists>e. send_message rd ks pol gen now i room sub req s = (Inl e, s)"
    using rt by (cases sub) (simp_all add: send_message_def claims_user_id_def query_def ensure_plaintext_sending_def)
  show "\<exists>e. forward_message gen now i room sub orig s = (Inl e, s)"
    using rt by (cases sub) (simp_all add: forward_message_def claims_user_id_def query_def relay_loaded e2ee_loaded require_def)
next
  assume ok: "send_encrypted_message rd dec ks now i room sub enc s = (Inr m, s')"
  then obtain inp where inp: "check_encrypted dec ks enc = Inr inp" "msg_encrypted m = Some (en_payload inp)"
    and stored: "messages (base s') = messages (base s)
      \<or> messages (base s') = messages (base s) @ [m] \<and> msg_content m = encrypted_placeholder"
    by (rule encrypted_answer)
  show "dec (trim (er_payload enc)) = msg_encrypted m" using check_encrypted_Inr(3) [OF inp(1)] inp(2) by simp
  show "messages (base s') = messages (base s)
      \<or> messages (base s') = messages (base s) @ [m] \<and> msg_content m = encrypted_placeholder" by (rule stored)
qed

definition sample_e2ee :: files where
  "sample_e2ee = sample_files\<lparr>base := snd (update_message_runtime_settings 1 Persist E2ee None empty_db)\<rparr>"

theorem encrypted_mode_refuses_plaintext_witness:
  "\<forall>rd ks pol gen req. \<exists>e. send_message rd ks pol gen 5 30 10 (Some 1) req sample_e2ee = (Inl e, sample_e2ee)"
proof -
  have "base sample_e2ee = snd (update_message_runtime_settings 1 Persist E2ee None empty_db)"
    by (simp add: sample_e2ee_def)
  moreover obtain rt where
    "load_message_runtime_settings (snd (update_message_runtime_settings 1 Persist E2ee None empty_db)) = Inr rt"
    "rs_audit rt = E2ee"
    using settings_round_trip [of 1 Persist E2ee None empty_db]
    by (auto simp: update_message_runtime_settings_def Let_def)
  ultimately show ?thesis using encrypted_mode_refuses_plaintext by metis
qed

text \<open>
  C28: Editing is not refused in encrypted mode: the sender of an encrypted message replaces its placeholder by plaintext,
  which the server stores and broadcasts, beside the ciphertext of the old text.
\<close>

theorem edits_store_plaintext:
  assumes m: "get_message_with_sender i s = Some m" "msg_room m = room" "msg_sender m = u" "msg_deleted m = None"
      "msg_type m = TextMsg" "msg_encrypted m = Some b"
    and member: "is_user_in_room room u (base s)"
    and rt: "load_message_runtime_settings (base s) = Inr rt" "rs_audit rt = E2ee" "\<not> is_relay_only rt"
    and new: "trim c \<noteq> []" "length (trim c) \<le> 10000"
  shows "\<exists>m' s'. edit_message room i (Some u) c s = (Inr m', s')
    \<and> m' \<in> set (messages (base s')) \<and> msg_content m' = trim c \<and> msg_encrypted m' = Some b"
proof -
  let ?P = "\<lambda>m. msg_id m = i \<and> msg_deleted m = None" and ?f = "\<lambda>m. m\<lparr>msg_content := trim c\<rparr>"
  let ?s = "snd (update_message_content i (trim c) s)"
  have in_m: "m \<in> set (messages (base s))" "msg_id m = i"
    using m(1) unfolding get_message_with_sender_def by (auto dest: fetch_SomeD)
  then have some: "exists_row ?P (messages (base s))" using m(4) by blast
  have "fetch_optional (\<lambda>m. msg_id m = i \<and> msg_sender m \<in> set (users (base s))) (update_where ?P ?f (messages (base s)))
      = map_option (\<lambda>r. if ?P r then ?f r else r) (get_message_with_sender i s)"
    unfolding get_message_with_sender_def by (rule fetch_update_where) simp
  then have found: "get_message_with_sender i ?s = Some (?f m)"
    using m(1,4) in_m(2) by (simp add: get_message_with_sender_def update_message_content_def Let_def)
  have "fst (update_message_content i (trim c) s) \<noteq> None"
    using fetch_exists [OF some] by (auto simp: update_message_content_def Let_def)
  then have "edit_message room i (Some u) c s = (Inr (?f m), ?s)"
    using m member new rt found
    by (auto simp: edit_message_def claims_user_id_def query_def member_of_def require_def not_relay_only_def
        relay_loaded own_message_def found_message_def run_then_def file_step_def answer_def split_beta and_then_Inr)
  moreover have "?f m \<in> set (messages (base ?s))"
    using found unfolding get_message_with_sender_def by (auto dest: fetch_SomeD)
  ultimately show ?thesis using m(6) by auto
qed

definition sample_encrypted_mode :: files where
  "sample_encrypted_mode = sample_files\<lparr>base := snd (update_message_runtime_settings 1 Persist E2ee None
     (empty_db\<lparr>users := [1],
        room_members := [\<lparr>mb_room = 10, mb_user = 1, mb_role = OwnerRole, mb_joined = 0, mb_deleted = None\<rparr>],
        messages := [encrypted_row 30 10 1 sample_send 6]\<rparr>))\<rparr>"

theorem edits_store_plaintext_witness:
  "\<exists>m s'. edit_message 10 30 (Some 1) ''hi'' sample_encrypted_mode = (Inr m, s')
    \<and> msg_content m = ''hi'' \<and> msg_encrypted m = Some [1]"
proof -
  have t: "trim ''hi'' = ''hi''" by (rule trim_plain) code_simp+
  obtain rt where rt: "load_message_runtime_settings (base sample_encrypted_mode) = Inr rt" "rs_audit rt = E2ee"
      "rs_storage rt = Persist"
    using settings_round_trip [of 1 Persist E2ee None]
    by (force simp: sample_encrypted_mode_def update_message_runtime_settings_def Let_def)
  have frame: "messages (snd (update_message_runtime_settings n a b c d)) = messages d"
    "users (snd (update_message_runtime_settings n a b c d)) = users d"
    "room_members (snd (update_message_runtime_settings n a b c d)) = room_members d" for n a b c d
    by (auto simp: update_message_runtime_settings_def Let_def
        upsert_general_setting_def split_beta)
  have "get_message_with_sender 30 sample_encrypted_mode = Some (encrypted_row 30 10 1 sample_send 6)"
    by (simp add: get_message_with_sender_def sample_encrypted_mode_def frame encrypted_row_def plain_message_def)
  moreover have "is_user_in_room 10 1 (base sample_encrypted_mode)"
    by (simp add: is_user_in_room_def is_member_def sample_encrypted_mode_def frame)
  ultimately show ?thesis
    using edits_store_plaintext [of 30 sample_encrypted_mode _ 10 1 "[1]" rt "''hi''"] rt
    by (simp add: encrypted_row_def plain_message_def sample_send_def is_relay_only_def t) blast
qed

end
