(* ===== verification/SqlScript.thy ===== *)
theory SqlScript
  imports Prelude
begin

text \<open>
  The SQL script splitter of \<open>api/src/database/mod.rs\<close>: a migration file is cut into
  top-level statements by one loop over its characters with a lexer state
  (\<open>split_sql_statements\<close>), and \<open>BEGIN\<close>/\<open>COMMIT\<close> statements are recognised after
  leading comments are dropped (\<open>is_transaction_control_statement\<close>).  A script is the list
  of its Unicode scalar values (\<open>script.chars().collect()\<close>), so that the place where the
  code compares a length in bytes with a number of characters is kept.  The reference
  definition is a tokeniser that finds the end of every quoted region by searching for its
  closing delimiter.
\<close>

section \<open>Characters\<close>

type_synonym scalars = "nat list"

abbreviation newline :: nat where "newline \<equiv> 10"
abbreviation double_quote :: nat where "double_quote \<equiv> 34"
abbreviation dollar :: nat where "dollar \<equiv> 36"
abbreviation quote :: nat where "quote \<equiv> 39"
abbreviation star :: nat where "star \<equiv> 42"
abbreviation dash :: nat where "dash \<equiv> 45"
abbreviation slash :: nat where "slash \<equiv> 47"
abbreviation semicolon :: nat where "semicolon \<equiv> 59"

text \<open>\<open>char::is_whitespace\<close>: the Unicode property White\_Space.\<close>

definition is_whitespace :: "nat \<Rightarrow> bool" where
  "is_whitespace c \<longleftrightarrow>
     (9 \<le> c \<and> c \<le> 13) \<or> c = 32 \<or> c = 133 \<or> c = 160 \<or> c = 5760 \<or> (8192 \<le> c \<and> c \<le> 8202)
     \<or> c = 8232 \<or> c = 8233 \<or> c = 8239 \<or> c = 8287 \<or> c = 12288"

definition trim_left :: "scalars \<Rightarrow> scalars" where
  "trim_left s = dropWhile is_whitespace s"

definition trim_right :: "scalars \<Rightarrow> scalars" where
  "trim_right s = rev (dropWhile is_whitespace (rev s))"

definition trim_both :: "scalars \<Rightarrow> scalars" where
  "trim_both s = trim_right (trim_left s)"

text \<open>\<open>str::len\<close>: the length of the UTF-8 encoding.\<close>

definition utf8_width :: "nat \<Rightarrow> nat" where
  "utf8_width c = (if c < 128 then 1 else if c < 2048 then 2 else if c < 65536 then 3 else 4)"

definition byte_len :: "scalars \<Rightarrow> nat" where
  "byte_len s = sum_list (map utf8_width s)"

section \<open>The splitter\<close>

datatype lex_state =
    Normal
  | Single
  | Double
  | LineComment
  | BlockComment
  | Dollar scalars

text \<open>
  One iteration of the loop, on the characters from \<open>i\<close> on (there is at least one): either
  it pushes the next characters to \<open>current\<close> and passes over as many, or it meets the
  semicolon that ends the statement.
\<close>

datatype action = Push nat lex_state | Cut

definition next_is :: "nat \<Rightarrow> scalars \<Rightarrow> bool" where
  "next_is c s \<longleftrightarrow> (case s of [] \<Rightarrow> False | x # _ \<Rightarrow> x = c)"

definition in_normal :: "nat \<Rightarrow> scalars \<Rightarrow> action" where
  "in_normal ch rest =
     (if ch = dash \<and> next_is dash rest then Push 2 LineComment
      else if ch = slash \<and> next_is star rest then Push 2 BlockComment
      else if ch = quote then Push 1 Single
      else if ch = double_quote then Push 1 Double
      else if ch = dollar then
        (let tag = takeWhile (\<lambda>c. c \<noteq> dollar) rest in
         if length tag < length rest
         then Push (length tag + 2) (Dollar (dollar # tag @ [dollar]))
         else Push 1 Normal)
      else if ch = semicolon then Cut
      else Push 1 Normal)"

definition loop_body :: "lex_state \<Rightarrow> nat \<Rightarrow> scalars \<Rightarrow> action" where
  "loop_body st ch rest =
     (case st of
        Normal \<Rightarrow> in_normal ch rest
      | Single \<Rightarrow>
          if ch = quote then (if next_is quote rest then Push 2 Single else Push 1 Normal)
          else Push 1 Single
      | Double \<Rightarrow> Push 1 (if ch = double_quote then Normal else Double)
      | LineComment \<Rightarrow> Push 1 (if ch = newline then Normal else LineComment)
      | BlockComment \<Rightarrow>
          if ch = star \<and> next_is slash rest then Push 2 Normal else Push 1 BlockComment
      | Dollar delim \<Rightarrow>
          let m = byte_len delim in
          if ch = (case delim of [] \<Rightarrow> dollar | d # _ \<Rightarrow> d)
             \<and> m \<le> length (ch # rest) \<and> take m (ch # rest) = delim
          then Push m Normal
          else Push 1 (Dollar delim))"

definition push_statement :: "scalars \<Rightarrow> scalars list \<Rightarrow> scalars list" where
  "push_statement current stmts =
     (let stmt = trim_both current in if stmt \<noteq> [] then stmts @ [stmt @ [semicolon]] else stmts)"

definition push_tail :: "scalars \<Rightarrow> scalars list \<Rightarrow> scalars list" where
  "push_tail current stmts =
     (let tail = trim_both current in if tail \<noteq> [] then stmts @ [tail] else stmts)"

text \<open>
  Every step passes over at least one character: the delimiters the loop stores are
  \<open>$...$\<close>, so \<open>m\<close> is positive (an empty one, which is never stored, counts as a step of
  one character below).
\<close>

function split_loop :: "lex_state \<Rightarrow> scalars \<Rightarrow> scalars \<Rightarrow> scalars list \<Rightarrow> scalars list" where
  "split_loop st [] current stmts = push_tail current stmts"
| "split_loop st (ch # rest) current stmts =
     (case loop_body st ch rest of
        Cut \<Rightarrow> split_loop Normal rest [] (push_statement current stmts)
      | Push k st' \<Rightarrow>
          split_loop st' (drop (k - 1) rest) (current @ ch # take (k - 1) rest) stmts)"
  by pat_completeness auto

termination
  by (relation "measure (\<lambda>(st, chars, current, stmts). length chars)") auto

definition split_sql_statements :: "scalars \<Rightarrow> scalars list" where
  "split_sql_statements script = split_loop Normal script [] []"

section \<open>Transaction control\<close>

definition eq_ignore_ascii_case_scalars :: "scalars \<Rightarrow> scalars \<Rightarrow> bool" where
  "eq_ignore_ascii_case_scalars a b \<longleftrightarrow>
     (let lower = map (\<lambda>c. if 65 \<le> c \<and> c \<le> 90 then c + 32 else c) in lower a = lower b)"

text \<open>What follows the first newline, or nothing; what follows the first \<open>*/\<close>, or nothing.\<close>

fun after_newline :: "scalars \<Rightarrow> scalars" where
  "after_newline [] = []"
| "after_newline (c # s) = (if c = newline then s else after_newline s)"

fun after_block :: "scalars \<Rightarrow> scalars" where
  "after_block [] = []"
| "after_block (c # s) = (if c = star \<and> next_is slash s then tl s else after_block s)"

lemma after_newline_shorter: "length (after_newline s) \<le> length s"
  by (induction s) auto

lemma after_block_shorter: "length (after_block s) \<le> length s"
  by (induction s) (auto intro: le_trans)

lemma trim_left_shorter: "length (trim_left s) \<le> length s"
  by (simp add: trim_left_def length_dropWhile_le)

function strip_comments :: "scalars \<Rightarrow> scalars" where
  "strip_comments s =
     (if take 2 s = [dash, dash] then strip_comments (trim_left (after_newline (drop 2 s)))
      else if take 2 s = [slash, star] then strip_comments (trim_left (after_block (drop 2 s)))
      else s)"
  by pat_completeness auto

termination
proof (relation "measure length")
  fix s :: scalars
  have shorter: "length (trim_left (f (drop 2 s))) < length s"
    if "take 2 s = [a, b]" "\<And>u. length (f u) \<le> length u" for a b and f :: "scalars \<Rightarrow> scalars"
  proof -
    have "2 \<le> length s" using arg_cong [OF that(1), of length] by (simp add: min_def split: if_splits)
    moreover have "length (trim_left (f (drop 2 s))) \<le> length (drop 2 s)"
      using trim_left_shorter that(2) le_trans by blast
    ultimately show ?thesis by simp
  qed
  show "(trim_left (after_newline (drop 2 s)), s) \<in> measure length" if "take 2 s = [dash, dash]"
    using shorter [OF that] after_newline_shorter by simp
  show "(trim_left (after_block (drop 2 s)), s) \<in> measure length" if "take 2 s = [slash, star]"
    using shorter [OF that] after_block_shorter by simp
qed simp

declare strip_comments.simps [simp del]

definition strip_leading_sql_comments :: "scalars \<Rightarrow> scalars" where
  "strip_leading_sql_comments stmt = strip_comments (trim_left stmt)"

definition is_transaction_control_statement :: "scalars \<Rightarrow> bool" where
  "is_transaction_control_statement stmt \<longleftrightarrow>
     (let t = trim_both (strip_leading_sql_comments stmt);
          trimmed = trim_both (rev (dropWhile (\<lambda>c. c = semicolon) (rev t)))
      in eq_ignore_ascii_case_scalars trimmed (map of_char ''BEGIN'')
         \<or> eq_ignore_ascii_case_scalars trimmed (map of_char ''COMMIT''))"

section \<open>One statement at a time\<close>

text \<open>
  The text up to the next top-level semicolon, and what follows it (nothing when the script
  ends first): the loop emits one statement for every such piece.
\<close>

function piece :: "lex_state \<Rightarrow> scalars \<Rightarrow> scalars \<times> scalars option" where
  "piece st [] = ([], None)"
| "piece st (ch # rest) =
     (case loop_body st ch rest of
        Cut \<Rightarrow> ([], Some rest)
      | Push k st' \<Rightarrow> map_prod (\<lambda>p. ch # take (k - 1) rest @ p) id (piece st' (drop (k - 1) rest)))"
  by pat_completeness auto

termination
  by (relation "measure (\<lambda>(st, chars). length chars)") auto

lemma loop_body_Cut: "loop_body st ch rest = Cut \<Longrightarrow> ch = semicolon"
  by (cases st) (auto simp: loop_body_def in_normal_def Let_def split: if_splits)

lemma piece_text: "piece st s = (p, r) \<Longrightarrow> s = p @ (case r of None \<Rightarrow> [] | Some t \<Rightarrow> semicolon # t)"
proof (induction st s arbitrary: p r rule: piece.induct)
  case (1 st)
  then show ?case by simp
next
  case (2 st ch rest)
  show ?case
  proof (cases "loop_body st ch rest")
    case (Push k st')
    obtain p' r' where p': "piece st' (drop (k - 1) rest) = (p', r')" by fastforce
    with "2.prems" Push have pr: "p = ch # take (k - 1) rest @ p'" "r = r'" by auto
    have "drop (k - 1) rest = p' @ (case r' of None \<Rightarrow> [] | Some t \<Rightarrow> semicolon # t)"
      by (rule "2.IH" [OF Push p'])
    then have "take (k - 1) rest @ p' @ (case r' of None \<Rightarrow> [] | Some t \<Rightarrow> semicolon # t)
        = take (k - 1) rest @ drop (k - 1) rest" by simp
    with pr show ?thesis by simp
  next
    case Cut
    then show ?thesis using "2.prems" loop_body_Cut by auto
  qed
qed

lemma split_loop_piece:
  "split_loop st s current stmts =
     (case piece st s of
        (p, None) \<Rightarrow> push_tail (current @ p) stmts
      | (p, Some r) \<Rightarrow> split_loop Normal r [] (push_statement (current @ p) stmts))"
proof (induction st s current stmts rule: split_loop.induct)
  case (2 st ch rest current stmts)
  show ?case
  proof (cases "loop_body st ch rest")
    case (Push k st')
    from 2(1) [OF Push] show ?thesis
      by (simp add: Push case_prod_beta map_prod_def split: option.splits)
  next
    case Cut
    then show ?thesis by simp
  qed
qed simp

section \<open>Cutting is local\<close>

text \<open>
  Trimming a piece does not change how its characters are read: the loop looks ahead only for
  characters that are neither white space nor a semicolon.
\<close>

abbreviation blank :: "scalars \<Rightarrow> bool" where
  "blank w \<equiv> \<forall>c \<in> set w. is_whitespace c"

definition stops :: "scalars \<Rightarrow> bool" where
  "stops v \<longleftrightarrow> v = [] \<or> (\<exists>t. v = semicolon # t)"

definition delim_ok :: "lex_state \<Rightarrow> bool" where
  "delim_ok st \<longleftrightarrow> (case st of Dollar d \<Rightarrow> d \<noteq> [] \<and> last d = dollar | _ \<Rightarrow> True)"

lemma delim_ok_simps [simp]:
  "delim_ok Normal" "delim_ok Single" "delim_ok Double" "delim_ok LineComment"
  "delim_ok BlockComment" "delim_ok (Dollar (x # t @ [dollar]))"
  by (simp_all add: delim_ok_def)

lemma marks_not_white [simp]:
  "\<not> is_whitespace dash" "\<not> is_whitespace slash" "\<not> is_whitespace star" "\<not> is_whitespace quote"
  "\<not> is_whitespace dollar" "\<not> is_whitespace semicolon"
  by (simp_all add: is_whitespace_def)

lemma next_is_local:
  assumes "blank w" "stops v" "\<not> is_whitespace c" "c \<noteq> semicolon"
  shows "next_is c (q @ w @ v) = next_is c q"
  using assms by (cases q; cases w) (auto simp: next_is_def stops_def)

lemma next_is_here: "stops v \<Longrightarrow> \<not> is_whitespace c \<Longrightarrow> c \<noteq> semicolon \<Longrightarrow> next_is c (q @ v) = next_is c q"
  using next_is_local [of "[]" v c q] by simp

lemma delimiter_inside:
  assumes d: "d \<noteq> []" "last d = dollar" and m: "take m (q @ x) = d" "m \<le> length (q @ x)"
    and x: "\<forall>c \<in> set (take (m - length q) x). c \<noteq> dollar"
  shows "m \<le> length q"
proof (rule ccontr)
  assume "\<not> m \<le> length q"
  then have "take (m - length q) x \<noteq> []" "d = q @ take (m - length q) x" using m by auto
  then have "last d \<in> set (take (m - length q) x)" by (metis last_appendR last_in_set)
  with d(2) x show False by auto
qed

lemma tag_inside:
  "dollar \<in> set q \<Longrightarrow> takeWhile (\<lambda>c. c \<noteq> dollar) (q @ x) = takeWhile (\<lambda>c. c \<noteq> dollar) q
     \<and> length (takeWhile (\<lambda>c. c \<noteq> dollar) q) < length q"
proof -
  assume q: "dollar \<in> set q"
  have "takeWhile (\<lambda>c. c \<noteq> dollar) q \<noteq> q" using q by (auto dest!: takeWhile_eq_all_conv [THEN iffD1])
  then have "length (takeWhile (\<lambda>c. c \<noteq> dollar) q) \<noteq> length q"
    by (metis length_takeWhile_le takeWhile_eq_take take_all le_refl)
  then show ?thesis using q by (simp add: takeWhile_append1 le_neq_implies_less length_takeWhile_le)
qed

lemma tag_found_iff: "length (takeWhile (\<lambda>c. c \<noteq> dollar) q) < length q \<longleftrightarrow> dollar \<in> set q"
proof
  show "dollar \<in> set q" if "length (takeWhile (\<lambda>c. c \<noteq> dollar) q) < length q"
    using that by (metis (mono_tags, lifting) less_irrefl takeWhile_eq_all_conv)
qed (use tag_inside [of q "[]"] in simp)

lemma next_is_fits: "next_is c s \<Longrightarrow> 1 \<le> length s"
  by (cases s) (simp_all add: next_is_def)

lemma in_normal_cases:
  assumes "in_normal ch rest = Push k st'"
  obtains "k = 1" "delim_ok st'"
    | x where "k = 2" "next_is x rest" "delim_ok st'"
    | tag where "k = length tag + 2" "length tag < length rest" "st' = Dollar (dollar # tag @ [dollar])"
proof (cases "ch = dollar")
  case True
  define tag where "tag = takeWhile (\<lambda>c. c \<noteq> dollar) rest"
  have "(if length tag < length rest then Push (length tag + 2) (Dollar (dollar # tag @ [dollar]))
     else Push 1 Normal) = Push k st'"
    using assms True unfolding in_normal_def Let_def tag_def by simp
  then show thesis using that by (auto split: if_splits)
next
  case False
  then show thesis using assms that unfolding in_normal_def by (simp split: if_splits)
qed

lemma in_normal_fits: "in_normal ch rest = Push k st' \<Longrightarrow> k \<le> length (ch # rest) \<and> delim_ok st'"
  by (erule in_normal_cases) (auto dest: next_is_fits)

lemma loop_body_fits:
  assumes "loop_body st ch rest = Push k st'" "delim_ok st"
  shows "k \<le> length (ch # rest) \<and> delim_ok st'"
proof (cases st)
  case Normal
  then show ?thesis using assms in_normal_fits by (simp add: loop_body_def)
next
  case Single
  then show ?thesis using assms by (auto simp: loop_body_def split: if_splits dest: next_is_fits)
next
  case BlockComment
  then show ?thesis using assms by (auto simp: loop_body_def split: if_splits dest: next_is_fits)
next
  case (Dollar d)
  then show ?thesis using assms by (auto simp: loop_body_def Let_def split: if_splits)
qed (use assms in \<open>auto simp: loop_body_def split: if_splits\<close>)

text \<open>A step that stays inside the piece reads the same after trimming.\<close>

lemma in_normal_local:
  assumes a: "in_normal c (q @ w @ v) = a" and w: "blank w" and v: "stops v" and u: "stops u"
    and u1: "length u \<le> 1"
    and fits: "case a of Push k st' \<Rightarrow> k \<le> length (c # q @ w) | Cut \<Rightarrow> True"
  shows "in_normal c (q @ u) = a"
    and "case a of Push k st' \<Rightarrow> k \<le> length (c # q) | Cut \<Rightarrow> True"
proof -
  have nx: "next_is x (q @ w @ v) = next_is x q" "next_is x (q @ u) = next_is x q"
    if "x = dash \<or> x = star" for x
    using that next_is_local [OF w v] next_is_here [OF u] by auto
  have u': "dollar \<notin> set u" using u u1 by (auto simp: stops_def)
  have w': "dollar \<notin> set w" using w by auto
  have "in_normal c (q @ u) = a \<and> (case a of Push k st' \<Rightarrow> k \<le> length (c # q) | Cut \<Rightarrow> True)"
  proof (cases "c = dollar")
    case False
    then show ?thesis using a unfolding in_normal_def
      by (auto simp: nx split: if_splits dest: next_is_fits)
  next
    case True
    let ?tag = "\<lambda>s. takeWhile (\<lambda>c. c \<noteq> dollar) s"
    have normal: "in_normal c s = (if dollar \<in> set s then Push (length (?tag s) + 2) (Dollar (dollar # ?tag s @ [dollar]))
        else Push 1 Normal)" for s
      unfolding in_normal_def Let_def tag_found_iff True by simp
    have q: "dollar \<in> set q" if "dollar \<in> set (q @ w @ v)"
    proof (rule ccontr)
      assume "dollar \<notin> set q"
      then have "?tag (q @ w @ v) = q @ w @ ?tag v" using w'
        by (metis (mono_tags, lifting) takeWhile_append2)
      then show False using fits that a unfolding normal by auto
    qed
    show ?thesis
    proof (cases "dollar \<in> set q")
      case True
      note t = tag_inside [OF True, of "w @ v"] tag_inside [OF True, of u]
      have "a = Push (length (?tag q) + 2) (Dollar (dollar # ?tag q @ [dollar]))"
        using a True t(1) unfolding normal by auto
      moreover have "in_normal c (q @ u) = Push (length (?tag q) + 2) (Dollar (dollar # ?tag q @ [dollar]))"
        using True t(2) unfolding normal by auto
      ultimately show ?thesis using t(1) by auto
    next
      case False
      then have "a = Push 1 Normal" using a q unfolding normal by (auto split: if_splits)
      then show ?thesis using False u' unfolding normal by auto
    qed
  qed
  then show "in_normal c (q @ u) = a" "case a of Push k st' \<Rightarrow> k \<le> length (c # q) | Cut \<Rightarrow> True" by auto
qed

text \<open>Inside a dollar-quoted body: the closing delimiter never reaches the trimmed part.\<close>

lemma delimiter_local:
  assumes d: "d \<noteq> []" "last d = dollar" and w: "blank w" and v: "stops v" and u: "stops u" "length u \<le> 1"
    and fits: "m \<le> length (q @ w @ v) \<and> take m (q @ w @ v) = d \<Longrightarrow> m \<le> length (q @ w)"
  shows "(m \<le> length (q @ w @ v) \<and> take m (q @ w @ v) = d) = (m \<le> length q \<and> take m q = d)"
    and "(m \<le> length (q @ u) \<and> take m (q @ u) = d) = (m \<le> length q \<and> take m q = d)"
proof -
  have "m \<le> length q" if m: "m \<le> length (q @ w @ v)" "take m (q @ w @ v) = d"
  proof (rule delimiter_inside [OF d m(2,1)])
    have "set (take (m - length q) (w @ v)) \<subseteq> set w" using fits [OF conjI [OF m]] by (auto dest: in_set_takeD)
    moreover have "dollar \<notin> set w" using w by auto
    ultimately show "\<forall>c \<in> set (take (m - length q) (w @ v)). c \<noteq> dollar" by blast
  qed
  then show "(m \<le> length (q @ w @ v) \<and> take m (q @ w @ v) = d) = (m \<le> length q \<and> take m q = d)"
    by auto
  have "m \<le> length q" if m: "m \<le> length (q @ u)" "take m (q @ u) = d"
    by (rule delimiter_inside [OF d m(2,1)]) (use u in \<open>auto simp: stops_def dest!: in_set_takeD\<close>)
  then show "(m \<le> length (q @ u) \<and> take m (q @ u) = d) = (m \<le> length q \<and> take m q = d)" by auto
qed

lemma loop_body_local:
  assumes a: "loop_body st c (q @ w @ v) = Push k st'" and ok: "delim_ok st"
    and w: "blank w" and v: "stops v" and u: "stops u" "length u \<le> 1"
    and fits: "k \<le> length (c # q @ w)"
  shows "loop_body st c (q @ u) = Push k st' \<and> k \<le> length (c # q)"
proof -
  have nx: "next_is x (q @ w @ v) = next_is x q" "next_is x (q @ u) = next_is x q"
    if "x = quote \<or> x = slash" for x
    using that next_is_local [OF w v] next_is_here [OF u(1)] by auto
  show ?thesis
  proof (cases st)
    case Normal
    then show ?thesis using in_normal_local [OF _ w v u, of c q "Push k st'"] a fits by (simp add: loop_body_def)
  next
    case (Dollar d)
    then have d: "d \<noteq> []" "last d = dollar" using ok by (simp_all add: delim_ok_def)
    let ?first = "c = (case d of [] \<Rightarrow> dollar | x # _ \<Rightarrow> x)" and ?m = "byte_len d"
    have body: "loop_body st c r = (if ?first \<and> ?m \<le> length (c # r) \<and> take ?m (c # r) = d
        then Push ?m Normal else Push 1 (Dollar d))" for r
      by (simp add: loop_body_def Dollar Let_def)
    show ?thesis
    proof (cases ?first)
      case True
      have f: "?m \<le> length ((c # q) @ w)"
        if "?m \<le> length ((c # q) @ w @ v) \<and> take ?m ((c # q) @ w @ v) = d"
        using that a fits True unfolding body by auto
      show ?thesis using a delimiter_local [OF d w v u f] unfolding body
        by (auto split: if_splits)
    next
      case False
      then show ?thesis using a unfolding body by simp
    qed
  qed (use a in \<open>auto simp: loop_body_def nx split: if_splits dest: next_is_fits\<close>)
qed

text \<open>A piece read alone, without the white space at its end.\<close>

lemma piece_alone:
  assumes "piece st (q @ w @ v) = (q @ w, r)" "delim_ok st" "blank w" "stops v"
  shows "piece st q = (q, None)"
    and "piece st (q @ [semicolon]) \<in> {(q, Some []), (q @ [semicolon], None)}"
proof -
  have "piece st (q @ u) = (q, if u = [] then None else Some []) \<or> (u \<noteq> [] \<and> piece st (q @ u) = (q @ u, None))"
    if u: "stops u" "length u \<le> 1" for u
    using assms
  proof (induction q arbitrary: st r rule: length_induct)
    case (1 q)
    show ?case
    proof (cases q)
      case Nil
      then show ?thesis using u by (auto simp: stops_def split: action.splits)
    next
      case (Cons c q')
      show ?thesis
      proof (cases "loop_body st c (q' @ w @ v)")
        case Cut
        with Cons 1(2) show ?thesis by simp
      next
        case (Push k st')
        obtain p1 r1 where p1: "piece st' (drop (k - 1) (q' @ w @ v)) = (p1, r1)" by fastforce
        then have p: "take (k - 1) (q' @ w @ v) @ p1 = q' @ w" "r = r1" using 1(2) Push Cons by auto
        have "k \<le> length (c # q' @ w @ v)" using loop_body_fits [OF Push 1(3)] by simp
        moreover have "length (take (k - 1) (q' @ w @ v)) \<le> length (q' @ w)"
          using p(1) by (metis le_add1 length_append)
        ultimately have "k \<le> length (c # q' @ w)" by auto
        note loc = loop_body_local [OF Push 1(3) 1(4,5) u this]
        then have k: "k - 1 \<le> length q'" by auto
        have "p1 = drop (k - 1) q' @ w" using p(1) k by (metis append.assoc append_eq_append_conv append_take_drop_id
              diff_is_0_eq' drop_0 drop_append take_0 take_append append_Nil2)
        then have "piece st' (drop (k - 1) q' @ w @ v) = (drop (k - 1) q' @ w, r1)" using p1 k by simp
        moreover have "delim_ok st'" using loop_body_fits [OF Push 1(3)] by simp
        moreover have "length (drop (k - 1) q') < length q" using Cons by simp
        ultimately have ih: "piece st' (drop (k - 1) q' @ u) = (drop (k - 1) q', if u = [] then None else Some [])
            \<or> (u \<noteq> [] \<and> piece st' (drop (k - 1) q' @ u) = (drop (k - 1) q' @ u, None))"
          using 1(1,4,5) by blast
        have "piece st (q @ u) = map_prod (\<lambda>p. c # take (k - 1) q' @ p) id (piece st' (drop (k - 1) q' @ u))"
          using Cons loc k by simp
        with ih Cons k show ?thesis by auto
      qed
    qed
  qed
  from this [of "[]"] this [of "[semicolon]"]
  show "piece st q = (q, None)" "piece st (q @ [semicolon]) \<in> {(q, Some []), (q @ [semicolon], None)}"
    by (auto simp: stops_def)
qed

lemma push_acc:
  "push_tail current stmts = stmts @ push_tail current []"
  "push_statement current stmts = stmts @ push_statement current []"
  by (simp_all add: push_tail_def push_statement_def Let_def)

lemma split_loop_acc: "split_loop st s current stmts = stmts @ split_loop st s current []"
proof (induction s arbitrary: st current stmts rule: length_induct)
  case (1 s)
  obtain p r where p: "piece st s = (p, r)" by fastforce
  show ?case
  proof (cases r)
    case None
    then show ?thesis using p push_acc(1) [of "current @ p" stmts] by (simp add: split_loop_piece [of st s])
  next
    case (Some t)
    then have "length t < length s" using piece_text [OF p] by simp
    with 1 have ih: "split_loop Normal t [] x = x @ split_loop Normal t [] []" for x by blast
    have body: "split_loop st s current x = split_loop Normal t [] (push_statement (current @ p) x)" for x
      using p Some by (simp add: split_loop_piece [of st s])
    show ?thesis
      unfolding body ih [of "push_statement (current @ p) []"] push_acc(2) [of "current @ p" stmts]
      by (subst ih) simp
  qed
qed

lemma split_rec:
  "split_sql_statements s =
     (case piece Normal s of
        (p, None) \<Rightarrow> push_tail p []
      | (p, Some r) \<Rightarrow> push_statement p [] @ split_sql_statements r)"
proof -
  obtain p r where p: "piece Normal s = (p, r)" by fastforce
  have "split_loop Normal s [] [] = (case r of None \<Rightarrow> push_tail p []
      | Some t \<Rightarrow> split_loop Normal t [] (push_statement p []))"
    using p by (simp add: split_loop_piece [of Normal s])
  also have "\<dots> = (case r of None \<Rightarrow> push_tail p [] | Some t \<Rightarrow> push_statement p [] @ split_loop Normal t [] [])"
    by (cases r) (simp_all add: split_loop_acc [of Normal _ "[]" "push_statement p []"])
  finally show ?thesis using p by (simp add: split_sql_statements_def)
qed

section \<open>Every statement is one statement\<close>

lemma piece_blank: "blank l \<Longrightarrow> piece Normal (l @ s) = map_prod ((@) l) id (piece Normal s)"
proof (induction l)
  case (Cons c l)
  then have "is_whitespace c" by simp
  then have "c \<noteq> dash" "c \<noteq> slash" "c \<noteq> quote" "c \<noteq> double_quote" "c \<noteq> dollar" "c \<noteq> semicolon"
    by (auto simp: is_whitespace_def)
  then have "loop_body Normal c (l @ s) = Push 1 Normal" by (simp add: loop_body_def in_normal_def)
  with Cons show ?case by (simp add: map_prod_def case_prod_beta)
qed (simp add: map_prod_def)

lemma dropWhile_front: "\<exists>l. s = l @ dropWhile P s \<and> (\<forall>c \<in> set l. P c)"
  by (rule exI [of _ "takeWhile P s"]) (auto dest: set_takeWhileD)

lemma trim_both_parts: "\<exists>l w. p = l @ trim_both p @ w \<and> blank l \<and> blank w"
proof -
  obtain l where l: "p = l @ trim_left p" "blank l"
    using dropWhile_front [of p is_whitespace] unfolding trim_left_def by blast
  obtain w where w: "rev (trim_left p) = w @ dropWhile is_whitespace (rev (trim_left p))" "blank w"
    using dropWhile_front [of "rev (trim_left p)" is_whitespace] by blast
  have "trim_left p = trim_both p @ rev w"
    unfolding trim_both_def trim_right_def by (subst rev_append [symmetric], subst w(1) [symmetric]) simp
  with l have "p = l @ trim_both p @ rev w" by metis
  with l(2) w(2) show ?thesis by (intro exI [of _ l] exI [of _ "rev w"]) simp
qed

lemma trim_both_ends:
  "trim_both p \<noteq> [] \<Longrightarrow> \<not> is_whitespace (hd (trim_both p)) \<and> \<not> is_whitespace (last (trim_both p))"
proof -
  assume ne: "trim_both p \<noteq> []"
  then have "\<not> is_whitespace (last (trim_both p))"
    unfolding trim_both_def trim_right_def by (simp add: hd_dropWhile last_rev)
  moreover have "trim_left p \<noteq> []" using ne by (auto simp: trim_both_def trim_right_def)
  then have "\<not> is_whitespace (hd (trim_left p))" unfolding trim_left_def by (rule hd_dropWhile)
  moreover have "\<exists>w. trim_left p = trim_both p @ w"
    using dropWhile_front [of "rev (trim_left p)" is_whitespace] unfolding trim_both_def trim_right_def
    by (metis rev_append rev_rev_ident)
  then have "hd (trim_left p) = hd (trim_both p)" using ne by (metis hd_append2)
  ultimately show ?thesis by simp
qed

lemma trim_both_fixed: "s \<noteq> [] \<Longrightarrow> \<not> is_whitespace (hd s) \<Longrightarrow> \<not> is_whitespace (last s) \<Longrightarrow> trim_both s = s"
proof -
  assume s: "s \<noteq> []" "\<not> is_whitespace (hd s)" "\<not> is_whitespace (last s)"
  have "dropWhile is_whitespace s = s" using s(1,2) by (cases s) auto
  moreover have "dropWhile is_whitespace (rev s) = rev s" using s(1,3) by (cases s rule: rev_cases) auto
  ultimately show ?thesis by (simp add: trim_both_def trim_left_def trim_right_def)
qed

text \<open>Every statement is the trimmed text of one piece, with its semicolon if it had one.\<close>

lemma statement_from_piece:
  "t \<in> set (split_sql_statements s) \<Longrightarrow>
   \<exists>s' p r. piece Normal s' = (p, r) \<and> trim_both p \<noteq> []
     \<and> t = trim_both p @ (case r of None \<Rightarrow> [] | Some _ \<Rightarrow> [semicolon])"
proof (induction s rule: length_induct)
  case (1 s)
  obtain p r where p: "piece Normal s = (p, r)" by fastforce
  show ?case
  proof (cases r)
    case None
    with 1(2) p have "trim_both p \<noteq> []" "t = trim_both p"
      by (auto simp: split_rec [of s] push_tail_def Let_def split: if_splits)
    with p None show ?thesis by (intro exI [of _ s] exI [of _ p] exI [of _ None]) simp
  next
    case (Some q)
    then have "length q < length s" using piece_text [OF p] by simp
    moreover have "t \<in> set (split_sql_statements q) \<or> (trim_both p \<noteq> [] \<and> t = trim_both p @ [semicolon])"
      using 1(2) p Some by (auto simp: split_rec [of s] push_statement_def Let_def split: if_splits)
    ultimately show ?thesis using 1(1) p Some
      by (elim disjE) (blast, intro exI [of _ s] exI [of _ p] exI [of _ "Some q"], simp)
  qed
qed

lemma piece_trimmed:
  assumes "piece Normal s = (p, r)"
  shows "piece Normal (trim_both p) = (trim_both p, None)"
    and "piece Normal (trim_both p @ [semicolon]) \<in>
      {(trim_both p, Some []), (trim_both p @ [semicolon], None)}"
proof -
  obtain l w where lw: "p = l @ trim_both p @ w" "blank l" "blank w" using trim_both_parts by blast
  define v where "v = (case r of None \<Rightarrow> [] | Some t \<Rightarrow> semicolon # t)"
  have "s = l @ (trim_both p @ w @ v)" using piece_text [OF assms] lw(1) by (metis append.assoc v_def)
  with assms piece_blank [OF lw(2)] have "map_prod ((@) l) id (piece Normal (trim_both p @ w @ v)) = (p, r)"
    by metis
  then have "piece Normal (trim_both p @ w @ v) = (trim_both p @ w, r)"
    using lw(1) by (cases "piece Normal (trim_both p @ w @ v)") auto
  moreover have "stops v" by (simp add: v_def stops_def split: option.splits)
  ultimately show "piece Normal (trim_both p) = (trim_both p, None)"
    "piece Normal (trim_both p @ [semicolon]) \<in>
      {(trim_both p, Some []), (trim_both p @ [semicolon], None)}"
    using piece_alone [of Normal "trim_both p" w v r] lw(3) by simp_all
qed

lemma statement_splits_to_itself:
  assumes "t \<in> set (split_sql_statements s)"
  shows "split_sql_statements t = [t]"
proof -
  obtain s' p r where p: "piece Normal s' = (p, r)" "trim_both p \<noteq> []"
    and t: "t = trim_both p @ (case r of None \<Rightarrow> [] | Some _ \<Rightarrow> [semicolon])"
    using statement_from_piece [OF assms] by blast
  have fixed: "trim_both (trim_both p) = trim_both p"
    "trim_both (trim_both p @ [semicolon]) = trim_both p @ [semicolon]"
    using trim_both_ends [OF p(2)] p(2) by (auto intro!: trim_both_fixed)
  have nil: "split_sql_statements [] = []"
    by (simp add: split_sql_statements_def push_tail_def trim_both_def trim_left_def trim_right_def)
  show ?thesis
  proof (cases r)
    case None
    then show ?thesis using piece_trimmed(1) [OF p(1)] t p(2) fixed
      by (simp add: split_rec [of "trim_both p"] push_tail_def)
  next
    case (Some q)
    from piece_trimmed(2) [OF p(1)] show ?thesis
      using t p(2) fixed nil Some
      by (auto simp: split_rec [of "trim_both p @ [semicolon]"] push_tail_def push_statement_def)
  qed
qed

section \<open>The reference: tokens found by searching for closing delimiters\<close>

text \<open>A text up to and including the first \<open>d\<close> (the whole of it when there is none), and the rest.\<close>

fun upto_delim :: "scalars \<Rightarrow> scalars \<Rightarrow> scalars \<times> scalars" where
  "upto_delim d [] = ([], [])"
| "upto_delim d (c # s) =
     (if take (length d) (c # s) = d then (d, drop (length d) (c # s))
      else apfst (Cons c) (upto_delim d s))"

text \<open>The rest of a string literal: a doubled quote stays inside.\<close>

fun upto_quote :: "scalars \<Rightarrow> scalars \<times> scalars" where
  "upto_quote [] = ([], [])"
| "upto_quote (c # s) =
     (if c \<noteq> quote then apfst (Cons c) (upto_quote s)
      else case s of
        x # s' \<Rightarrow> if x = quote then apfst (\<lambda>b. c # x # b) (upto_quote s') else ([c], s)
      | [] \<Rightarrow> ([c], []))"

text \<open>
  The rest of the region a state stands for.  A dollar quote is closed by its first repetition
  when the tag is ASCII; the code compares as many characters as the tag has bytes, so any
  other tag is never closed.
\<close>

definition region_rest :: "lex_state \<Rightarrow> scalars \<Rightarrow> scalars \<times> scalars" where
  "region_rest st s =
     (case st of
        Normal \<Rightarrow> ([], s)
      | Single \<Rightarrow> upto_quote s
      | Double \<Rightarrow> upto_delim [double_quote] s
      | LineComment \<Rightarrow> upto_delim [newline] s
      | BlockComment \<Rightarrow> upto_delim [star, slash] s
      | Dollar d \<Rightarrow> if byte_len d = length d then upto_delim d s else (s, []))"

text \<open>The opening delimiter at the front of a text, and the region it opens.\<close>

definition opens_region :: "scalars \<Rightarrow> (scalars \<times> lex_state) option" where
  "opens_region s =
     (case s of
        [] \<Rightarrow> None
      | c # r \<Rightarrow>
          if take 2 s = [dash, dash] then Some ([dash, dash], LineComment)
          else if take 2 s = [slash, star] then Some ([slash, star], BlockComment)
          else if c = quote then Some ([quote], Single)
          else if c = double_quote then Some ([double_quote], Double)
          else if c = dollar \<and> dollar \<in> set r
            then let d = dollar # takeWhile (\<lambda>x. x \<noteq> dollar) r @ [dollar] in Some (d, Dollar d)
          else None)"

datatype token = Plain nat | Region scalars | Terminator

fun token_text :: "token \<Rightarrow> scalars" where
  "token_text (Plain c) = [c]"
| "token_text (Region r) = r"
| "token_text Terminator = [semicolon]"

lemma upto_delim_text: "upto_delim d s = (b, r) \<Longrightarrow> s = b @ r"
proof (induction d s arbitrary: b rule: upto_delim.induct)
  case (2 d c s)
  show ?case
  proof (cases "take (length d) (c # s) = d")
    case True
    with "2.prems" show ?thesis by (metis append_take_drop_id prod.inject upto_delim.simps(2))
  next
    case False
    with 2 show ?thesis by (cases "upto_delim d s") auto
  qed
qed simp

lemma upto_quote_text: "upto_quote s = (b, r) \<Longrightarrow> s = b @ r"
proof (induction s arbitrary: b rule: upto_quote.induct)
  case (2 c s)
  show ?case
  proof (cases "c = quote")
    case False
    with 2 show ?thesis by (cases "upto_quote s") auto
  next
    case True
    with 2 show ?thesis by (cases s) (auto split: if_splits simp: apfst_def map_prod_def case_prod_beta)
  qed
qed simp

lemma region_rest_text: "region_rest st s = (b, r) \<Longrightarrow> s = b @ r"
  by (auto simp: region_rest_def upto_delim_text upto_quote_text split: lex_state.splits if_splits)

lemma first_dollar:
  "dollar \<in> set r \<Longrightarrow> \<exists>x. r = takeWhile (\<lambda>x. x \<noteq> dollar) r @ dollar # x"
  by (induction r) auto

lemma opens_region_text: "opens_region s = Some (d, st) \<Longrightarrow> \<exists>r. s = d @ r \<and> d \<noteq> []"
proof -
  assume o: "opens_region s = Some (d, st)"
  then obtain c r where s: "s = c # r" by (cases s) (auto simp: opens_region_def)
  consider "take 2 s = d" "d \<noteq> []" | "d = [c]"
    | "c = dollar" "dollar \<in> set r" "d = dollar # takeWhile (\<lambda>x. x \<noteq> dollar) r @ [dollar]"
    using o s by (auto simp: opens_region_def Let_def split: if_splits)
  then show ?thesis
  proof cases
    case 1
    then show ?thesis by (metis append_take_drop_id)
  next
    case 2
    then show ?thesis using s by simp
  next
    case 3
    then show ?thesis using s first_dollar [OF 3(2)] by auto
  qed
qed

lemma region_shorter:
  assumes "opens_region s = Some (d, st)" "region_rest st (drop (length d) s) = (b, r)"
  shows "length r < length s"
proof -
  obtain x where "s = d @ x" "d \<noteq> []" using opens_region_text [OF assms(1)] by blast
  moreover have "drop (length d) s = b @ r" using region_rest_text [OF assms(2)] .
  ultimately show ?thesis by auto
qed

function tokens :: "scalars \<Rightarrow> token list" where
  "tokens [] = []"
| "tokens (c # s) =
     (case opens_region (c # s) of
        Some (d, st) \<Rightarrow>
          let (body, rest) = region_rest st (drop (length d) (c # s)) in Region (d @ body) # tokens rest
      | None \<Rightarrow> (if c = semicolon then Terminator else Plain c) # tokens s)"
  by pat_completeness auto

termination
  by (relation "measure length") (auto dest: region_shorter [OF _ sym])

text \<open>The tokens are the script, cut.\<close>

lemma tokens_text: "concat (map token_text (tokens s)) = s"
proof (induction s rule: tokens.induct)
  case (2 c s)
  show ?case
  proof (cases "opens_region (c # s)")
    case None
    with 2 show ?thesis by simp
  next
    case (Some x)
    obtain d st where x: "x = (d, st)" by fastforce
    obtain b r where b: "region_rest st (drop (length d) (c # s)) = (b, r)" by fastforce
    have "concat (map token_text (tokens r)) = r"
      by (rule "2.IH"(2) [of "(d, st)" d st "(b, r)" b r]) (use Some x b in simp_all)
    moreover have "drop (length d) (c # s) = b @ r" by (rule region_rest_text [OF b])
    moreover have "c # s = d @ drop (length d) (c # s)"
      using opens_region_text Some x by (metis append_eq_conv_conj)
    moreover have "tokens (c # s) = Region (d @ b) # tokens r" using Some x b by simp
    ultimately show ?thesis by (metis append.assoc concat.simps(2) list.simps(9) token_text.simps(2))
  qed
qed simp

text \<open>The statements between the terminators.\<close>

fun statements_of :: "scalars \<Rightarrow> token list \<Rightarrow> scalars list" where
  "statements_of current [] = push_tail current []"
| "statements_of current (Terminator # ts) = push_statement current [] @ statements_of [] ts"
| "statements_of current (Plain c # ts) = statements_of (current @ [c]) ts"
| "statements_of current (Region r # ts) = statements_of (current @ r) ts"

text \<open>The loop goes through a region to its end and continues in the normal state.\<close>

lemma piece_region:
  assumes "st \<noteq> Normal" "delim_ok st" "region_rest st s = (b, r)"
  shows "piece st s = map_prod ((@) b) id (piece Normal r)"
proof (cases st)
  case Single
  have "piece Single s = map_prod ((@) (fst (upto_quote s))) id (piece Normal (snd (upto_quote s)))"
  proof (induction s rule: upto_quote.induct)
    case (2 c s)
    show ?case
    proof (cases "c = quote")
      case False
      with 2 show ?thesis by (simp add: loop_body_def map_prod_def case_prod_beta)
    next
      case True
      with 2 show ?thesis
        by (cases s) (auto simp: loop_body_def next_is_def map_prod_def case_prod_beta)
    qed
  qed simp
  with assms Single show ?thesis by (simp add: region_rest_def)
next
  case Double
  have "piece Double s = map_prod ((@) (fst (upto_delim [double_quote] s))) id
      (piece Normal (snd (upto_delim [double_quote] s)))"
    by (induction s) (auto simp: loop_body_def map_prod_def case_prod_beta)
  with assms Double show ?thesis by (simp add: region_rest_def)
next
  case LineComment
  have "piece LineComment s = map_prod ((@) (fst (upto_delim [newline] s))) id
      (piece Normal (snd (upto_delim [newline] s)))"
    by (induction s) (auto simp: loop_body_def map_prod_def case_prod_beta)
  with assms LineComment show ?thesis by (simp add: region_rest_def)
next
  case BlockComment
  have close: "take (length [star, slash]) (c # s) = [star, slash] \<longleftrightarrow> c = star \<and> next_is slash s" for c s
    by (cases s) (auto simp: next_is_def)
  have "piece BlockComment s = map_prod ((@) (fst (upto_delim [star, slash] s))) id
      (piece Normal (snd (upto_delim [star, slash] s)))"
  proof (induction s)
    case (Cons c s)
    then show ?case
      by (cases s) (auto simp: loop_body_def next_is_def map_prod_def case_prod_beta)
  qed simp
  with assms BlockComment show ?thesis by (simp add: region_rest_def)
next
  case (Dollar d)
  then have d: "d \<noteq> []" using assms(2) by (simp add: delim_ok_def)
  show ?thesis
  proof (cases "byte_len d = length d")
    case True
    have body: "loop_body (Dollar d) c x
        = (if take (length d) (c # x) = d then Push (length d) Normal else Push 1 (Dollar d))" for c x
    proof -
      have "c = (case d of [] \<Rightarrow> dollar | x # _ \<Rightarrow> x) \<and> length d \<le> length (c # x)"
        if m: "take (length d) (c # x) = d"
      proof -
        have "min (length (c # x)) (length d) = length d" using arg_cong [OF m, of length] by simp
        then show ?thesis using d m by (cases d) auto
      qed
      then show ?thesis unfolding loop_body_def lex_state.case Let_def True by auto
    qed
    have "piece (Dollar d) s = map_prod ((@) (fst (upto_delim d s))) id (piece Normal (snd (upto_delim d s)))"
    proof (induction s)
      case (Cons c s)
      show ?case
      proof (cases "take (length d) (c # s) = d")
        case True
        then have "d = c # take (length d - 1) s" "drop (length d) (c # s) = drop (length d - 1) s"
          using d by (cases d; simp)+
        then show ?thesis using True by (simp add: body map_prod_def case_prod_beta)
      next
        case False
        with Cons show ?thesis by (simp add: body map_prod_def case_prod_beta)
      qed
    qed simp
    with assms Dollar True show ?thesis by (simp add: region_rest_def)
  next
    case False
    have "piece (Dollar d) s = (s, None)"
    proof (induction s)
      case (Cons c s)
      have "\<not> (byte_len d \<le> length (c # s) \<and> take (byte_len d) (c # s) = d)"
        using False by (metis length_take min.absorb2)
      then have "loop_body (Dollar d) c s = Push 1 (Dollar d)" by (simp add: loop_body_def Let_def)
      with Cons show ?case by simp
    qed simp
    with assms Dollar False show ?thesis by (auto simp: region_rest_def)
  qed
qed (use assms in simp)

lemma split_loop_region:
  assumes "st \<noteq> Normal" "delim_ok st" "region_rest st s = (b, r)"
  shows "split_loop st s current stmts = split_loop Normal r (current @ b) stmts"
  unfolding split_loop_piece [of st s] split_loop_piece [of Normal r] piece_region [OF assms]
  by (cases "piece Normal r") (simp split: option.splits)

lemma opens_region_None:
  "opens_region (c # s) = None \<Longrightarrow> loop_body Normal c s = (if c = semicolon then Cut else Push 1 Normal)"
  by (cases s) (auto simp: opens_region_def loop_body_def in_normal_def next_is_def tag_found_iff Let_def
      split: if_splits)

lemma opens_region_Some:
  assumes "opens_region (c # s) = Some (d, st)"
  shows "loop_body Normal c s = Push (length d) st" "st \<noteq> Normal" "delim_ok st"
    "c # take (length d - 1) s = d" "drop (length d - 1) s = drop (length d) (c # s)"
proof -
  have d: "d \<noteq> []" "c # s = d @ drop (length d) (c # s)"
    using opens_region_text [OF assms] by (auto simp: append_eq_conv_conj)
  then show "drop (length d - 1) s = drop (length d) (c # s)" by (cases d) simp_all
  have "take (length d) (c # s) = d" using d(2) by (metis append_eq_conv_conj)
  then show "c # take (length d - 1) s = d" using d(1) by (cases d) simp_all
  show "st \<noteq> Normal" "delim_ok st" using assms
    by (auto simp: opens_region_def Let_def split: if_splits)
  have "loop_body Normal c s = Push (length d) st"
    using assms by (cases s) (auto simp: opens_region_def loop_body_def in_normal_def next_is_def tag_found_iff Let_def
        split: if_splits)
  then show "loop_body Normal c s = Push (length d) st" .
qed

text \<open>The loop cuts the script where the reference does, and the tokens are the whole script.\<close>

lemma split_loop_tokens: "split_loop Normal s current [] = statements_of current (tokens s)"
proof (induction s arbitrary: current rule: tokens.induct)
  case 1
  then show ?case by simp
next
  case (2 c s)
  show ?case
  proof (cases "opens_region (c # s)")
    case None
    note body = opens_region_None [OF None]
    show ?thesis
    proof (cases "c = semicolon")
      case True
      have "split_loop Normal (c # s) current [] = split_loop Normal s [] (push_statement current [])"
        using body True by simp
      also have "\<dots> = push_statement current [] @ split_loop Normal s [] []" by (rule split_loop_acc)
      also have "\<dots> = statements_of current (tokens (c # s))"
        unfolding "2.IH"(1) [OF None] using None True by simp
      finally show ?thesis .
    next
      case False
      with body "2.IH"(1) [OF None] None show ?thesis by simp
    qed
  next
    case (Some x)
    obtain d st where x: "x = (d, st)" by fastforce
    obtain b r where b: "region_rest st (drop (length d) (c # s)) = (b, r)" by fastforce
    note o = opens_region_Some [OF Some [unfolded x]]
    have "split_loop Normal (c # s) current [] = split_loop st (drop (length d) (c # s)) (current @ d) []"
      using o(1,4,5) by simp
    also have "\<dots> = split_loop Normal r (current @ d @ b) []"
      using split_loop_region [OF o(2,3) b] by simp
    also have "\<dots> = statements_of (current @ d @ b) (tokens r)"
      by (rule "2.IH"(2) [of "(d, st)" d st "(b, r)" b r]) (use Some x b in simp_all)
    also have "\<dots> = statements_of current (tokens (c # s))" using Some x b by simp
    finally show ?thesis .
  qed
qed

section \<open>Properties\<close>

text \<open>
  C40: The splitter cuts exactly where a tokeniser does that knows comments, string literals,
  quoted identifiers and dollar-quoted bodies as regions ending at their first closing
  delimiter: its statements are the trimmed, non-empty texts between the semicolons outside
  every region, and the tokens, put together, are the script.
\<close>

theorem splitter_follows_tokens:
  "split_sql_statements script = statements_of [] (tokens script)
    \<and> concat (map token_text (tokens script)) = script"
  unfolding split_sql_statements_def by (simp add: split_loop_tokens tokens_text)

text \<open>
  A statement the splitter emits, sent through the splitter again, comes out as it is:
  trimming it and adding its semicolon has not moved any region, and it holds no other
  statement.
\<close>

theorem statements_split_no_further:
  assumes "stmt \<in> set (split_sql_statements script)"
  shows "split_sql_statements stmt = [stmt]"
  using assms by (rule statement_splits_to_itself)

lemma statements_split_no_further_witness:
  "split_sql_statements (map of_char ''$$;$$;'') = [map of_char ''$$;$$;'']"
  by (rule statements_split_no_further [of _ "map of_char ''a;$$;$$;''"])
    (simp add: split_sql_statements_def loop_body_def in_normal_def next_is_def push_statement_def push_tail_def
      trim_both_def trim_left_def trim_right_def is_whitespace_def byte_len_def utf8_width_def Let_def)

text \<open>A tag with a character outside ASCII is never closed: the rest of the script is one statement.\<close>

lemma non_ascii_tag_swallows:
  "split_sql_statements (dollar # [233] @ dollar # body) =
     push_tail (dollar # [233] @ dollar # body) []"
proof -
  have "opens_region (dollar # 233 # dollar # body) = Some ([dollar, 233, dollar], Dollar [dollar, 233, dollar])"
    by (simp add: opens_region_def Let_def)
  moreover have "region_rest (Dollar [dollar, 233, dollar]) body = (body, [])"
    by (simp add: region_rest_def byte_len_def utf8_width_def)
  ultimately show ?thesis
    using split_loop_tokens [of "dollar # 233 # dollar # body" "[]"] by (simp add: split_sql_statements_def)
qed

section \<open>Transaction control\<close>

lemma strip_comments_plain: "take 1 s \<noteq> [dash] \<Longrightarrow> take 1 s \<noteq> [slash] \<Longrightarrow> strip_comments s = s"
  by (cases s) (auto simp: strip_comments.simps)

text \<open>\<open>BEGIN\<close> and \<open>COMMIT\<close> are left out in any case; no other spelling is.\<close>

lemma transaction_control_examples:
  "is_transaction_control_statement (map of_char ''begin;'')"
  "is_transaction_control_statement (map of_char ''COMMIT;'')"
  "\<not> is_transaction_control_statement (map of_char ''BEGIN TRANSACTION;'')"
  "\<not> is_transaction_control_statement (map of_char ''ROLLBACK;'')"
  by (simp_all add: is_transaction_control_statement_def strip_leading_sql_comments_def strip_comments_plain
      trim_left_def trim_both_def trim_right_def is_whitespace_def eq_ignore_ascii_case_scalars_def Let_def)

end
