(* ===== verification/Migrations.thy ===== *)
theory Migrations
  imports SqlScript
begin

text \<open>
  Schema migrations (\<open>Database::migrate\<close> and the pool settings of
  \<open>api/src/database/mod.rs\<close>).  A database is the \<open>db_migrations\<close> table, which this code
  alone reads and writes, and everything else (\<open>content\<close>); PostgreSQL itself is a record of
  functions on the content: what a statement does to it, whether \<open>gen_random_uuid()\<close> works,
  what enabling \<open>pgcrypto\<close> does, and what the catalog lists.  The advisory lock makes the
  starts of several instances a sequence, so one start is one function of the database.
\<close>

section \<open>Pool settings\<close>

type_synonym environment = "string \<Rightarrow> string option"

fun read_positive_alias :: "nat \<Rightarrow> environment \<Rightarrow> string list \<Rightarrow> nat \<Rightarrow> nat" where
  "read_positive_alias bits env [] fallback = fallback"
| "read_positive_alias bits env (name # names) fallback =
     (case env name of
        None \<Rightarrow> read_positive_alias bits env names fallback
      | Some value \<Rightarrow>
          (case parse_unsigned bits (trim value) of
             None \<Rightarrow> read_positive_alias bits env names fallback
           | Some n \<Rightarrow> if n > 0 then n else read_positive_alias bits env names fallback))"

definition read_positive_u32_alias :: "environment \<Rightarrow> string list \<Rightarrow> nat \<Rightarrow> nat" where
  "read_positive_u32_alias = read_positive_alias 32"

definition read_positive_u64_alias :: "environment \<Rightarrow> string list \<Rightarrow> nat \<Rightarrow> nat" where
  "read_positive_u64_alias = read_positive_alias 64"

record pool_config =
  max_connections :: nat
  min_connections :: nat
  acquire_timeout :: nat

definition default_pool :: pool_config where
  "default_pool = \<lparr>max_connections = 20, min_connections = 0, acquire_timeout = 30\<rparr>"

definition pool_from_env :: "environment \<Rightarrow> pool_config" where
  "pool_from_env env =
     (let maximum = read_positive_u32_alias env
            [''DATABASE_MAX_CONNECTIONS'', ''DATABASE_POOL_MAX_CONNECTIONS'', ''PG_POOL_MAX'']
            (max_connections default_pool);
          minimum = min (read_positive_u32_alias env
            [''DATABASE_MIN_CONNECTIONS'', ''DATABASE_POOL_MIN_CONNECTIONS'', ''PG_POOL_MIN'']
            (min_connections default_pool)) maximum;
          timeout = read_positive_u64_alias env
            [''DATABASE_ACQUIRE_TIMEOUT_SECONDS'', ''DATABASE_POOL_ACQUIRE_TIMEOUT_SECONDS'',
             ''PG_POOL_ACQUIRE_TIMEOUT_SECONDS''] (acquire_timeout default_pool)
      in \<lparr>max_connections = maximum, min_connections = minimum, acquire_timeout = timeout\<rparr>)"

section \<open>The database and the server\<close>

text \<open>A row of \<open>db_migrations\<close>: the name and the checksum (\<open>None\<close> is \<open>NULL\<close>).\<close>

type_synonym migration_record = "string \<times> string option"

record 's database =
  content :: 's
  ledger :: "migration_record list option"  \<comment> \<open>\<open>None\<close>: the table does not exist\<close>

record ('s, 'e) server =
  execute :: "scalars \<Rightarrow> 's \<Rightarrow> 'e + 's"
  uuid_check :: "'s \<Rightarrow> 'e option"  \<comment> \<open>\<open>SELECT gen_random_uuid()\<close>\<close>
  create_pgcrypto :: "'s \<Rightarrow> 'e + 's"

record 's catalog =
  base_tables :: "'s \<Rightarrow> string list"  \<comment> \<open>of the schema \<open>public\<close>, \<open>db_migrations\<close> apart\<close>
  views :: "'s \<Rightarrow> string list"
  columns :: "'s \<Rightarrow> (string \<times> string) list"

datatype 'e migrate_error =
    Sql 'e
  | Checksum_mismatch string string string
  | Adoption_refused
  | Baseline_incomplete "string list"

definition ledger_rows :: "'s database \<Rightarrow> migration_record list" where
  "ledger_rows d = (case ledger d of None \<Rightarrow> [] | Some t \<Rightarrow> t)"

definition ensure_migrations_table :: "'s database \<Rightarrow> 's database" where
  "ensure_migrations_table d = d\<lparr>ledger := Some (ledger_rows d)\<rparr>"

definition get_migration_record :: "string \<Rightarrow> 's database \<Rightarrow> string option option" where
  "get_migration_record name d =
     map_option snd (fetch_optional (\<lambda>r. fst r = name) (ledger_rows d))"

definition update_migration_checksum :: "string \<Rightarrow> string \<Rightarrow> 's database \<Rightarrow> 's database" where
  "update_migration_checksum name checksum d =
     d\<lparr>ledger := map_option (update_where (\<lambda>r. fst r = name) (\<lambda>r. (fst r, Some checksum))) (ledger d)\<rparr>"

definition insert_migration_record :: "string \<Rightarrow> string \<Rightarrow> 's database \<Rightarrow> 's database" where
  "insert_migration_record name checksum d =
     d\<lparr>ledger := map_option (\<lambda>t.
        if exists_row (\<lambda>r. fst r = name) t
        then update_where (\<lambda>r. fst r = name) (\<lambda>r. (fst r, Some checksum)) t
        else t @ [(name, Some checksum)]) (ledger d)\<rparr>"

definition ensure_migration_record_checksum ::
  "string \<Rightarrow> string \<Rightarrow> string option \<Rightarrow> 's database \<Rightarrow> 'e migrate_error + 's database" where
  "ensure_migration_record_checksum name expected existing d =
     (case existing of
        Some checksum \<Rightarrow>
          if checksum = expected then Inr d else Inl (Checksum_mismatch name checksum expected)
      | None \<Rightarrow> Inr (update_migration_checksum name expected d))"

section \<open>Running scripts\<close>

text \<open>The statements of one file, inside a transaction.\<close>

fun execute_statements :: "('s, 'e) server \<Rightarrow> scalars list \<Rightarrow> 's \<Rightarrow> 'e + 's" where
  "execute_statements sv [] c = Inr c"
| "execute_statements sv (stmt # stmts) c =
     (if is_transaction_control_statement stmt then execute_statements sv stmts c
      else let trimmed = trim_both stmt in
        if trimmed = [] then execute_statements sv stmts c
        else case execute sv trimmed c of
          Inl e \<Rightarrow> Inl e
        | Inr c' \<Rightarrow> execute_statements sv stmts c')"

definition run_script :: "('s, 'e) server \<Rightarrow> scalars \<Rightarrow> 's \<Rightarrow> 'e + 's" where
  "run_script sv sql c = execute_statements sv (split_sql_statements sql) c"

text \<open>
  \<open>migrate_result\<close>: what the transaction of one migration computes, \<open>False\<close> when the second
  look at the table finds the record, and with it the database it would commit.
\<close>

definition migrate_result ::
  "('s, 'e) server \<Rightarrow> string \<Rightarrow> scalars \<Rightarrow> string \<Rightarrow> 's database
    \<Rightarrow> 'e migrate_error + bool \<times> 's database" where
  "migrate_result sv name sql checksum d =
     (case get_migration_record name d of
        Some recorded \<Rightarrow> map_sum id (Pair False) (ensure_migration_record_checksum name checksum recorded d)
      | None \<Rightarrow>
          (case run_script sv sql (content d) of
             Inl e \<Rightarrow> Inl (Sql e)
           | Inr c \<Rightarrow> Inr (True, insert_migration_record name checksum (d\<lparr>content := c\<rparr>))))"

text \<open>The database after the loop, and its first error.\<close>

fun apply_migrations ::
  "(scalars \<Rightarrow> string) \<Rightarrow> ('s, 'e) server \<Rightarrow> (string \<times> scalars) list \<Rightarrow> 's database
    \<Rightarrow> 's database \<times> 'e migrate_error option" where
  "apply_migrations digest sv [] d = (d, None)"
| "apply_migrations digest sv ((name, sql) # migrations) d =
     (let checksum = digest sql in
      case get_migration_record name d of
        Some recorded \<Rightarrow>
          (case ensure_migration_record_checksum name checksum recorded d of
             Inl e \<Rightarrow> (d, Some e)
           | Inr d' \<Rightarrow> apply_migrations digest sv migrations d')
      | None \<Rightarrow>
          (case migrate_result sv name sql checksum d of
             Inr (False, _) \<Rightarrow> apply_migrations digest sv migrations d
           | Inr (True, d') \<Rightarrow> apply_migrations digest sv migrations d'
           | Inl e \<Rightarrow> (d, Some e)))"

section \<open>A start\<close>

text \<open>The names of \<open>MIGRATIONS\<close>, in the order of the array; the files are an argument.\<close>

definition base_migration_name :: string where
  "base_migration_name = ''base.sql''"

definition migration_names :: "string list" where
  "migration_names =
     [base_migration_name,
      ''20260703172000_auth_account_default.sql'',
      ''20260728175513_user_room_preferences.sql'',
      ''20260804084500_e2ee_mls_state.sql'',
      ''20260804143000_e2ee_device_approval_key.sql'',
      ''20260804160000_e2ee_room_membership_revision.sql'',
      ''20260804173000_e2ee_revision_deleted_room_guard.sql'',
      ''20260804190000_encrypted_message_idempotency.sql'',
      ''20260804180000_api_2_0_capability_expansion.sql'',
      ''20260804181000_group_announcements_rebuild.sql'',
      ''20260805120000_e2ee_runtime_admin_gate.sql'',
      ''20260805193000_message_attachment_commits.sql'',
      ''20260805201000_message_attachment_commit_leases.sql'']"

definition migrations :: "(string \<Rightarrow> scalars) \<Rightarrow> (string \<times> scalars) list" where
  "migrations files = map (\<lambda>n. (n, files n)) migration_names"

definition allow_insecure_migration_baseline_adopt :: "environment \<Rightarrow> bool" where
  "allow_insecure_migration_baseline_adopt env =
     (let v = (case env ''ALLOW_INSECURE_MIGRATION_BASELINE_ADOPT'' of None \<Rightarrow> [] | Some v \<Rightarrow> v) in
      to_ascii_lowercase (trim v) \<in> set [''1'', ''true'', ''yes'', ''on''])"

definition required_tables :: "string list" where
  "required_tables =
     [''admin_users'', ''users'', ''rooms'', ''messages'', ''storage_providers'', ''file_upload_records'',
      ''reports'', ''file_upload_multipart_sessions'', ''system_logs'', ''file_upload_audit_tasks'',
      ''message_reactions'', ''push_devices'', ''push_provider_configs'', ''push_logs'', ''push_job_queue'',
      ''e2ee_identity_keys'', ''e2ee_account_identities'', ''e2ee_devices'', ''e2ee_key_packages'',
      ''e2ee_room_epochs'', ''e2ee_control_messages'', ''e2ee_control_receipts'', ''object_storage_configs'']"

definition required_views :: "string list" where
  "required_views = [''group_detail_view'']"

definition required_columns :: "(string \<times> string) list" where
  "required_columns =
     [(''messages'', ''edited_at''), (''messages'', ''encrypted_content''),
      (''messages'', ''encryption_metadata''), (''app_versions'', ''app_store_url''),
      (''emoji_packs'', ''icon_object_key''), (''emoji_items'', ''image_object_key'')]"

definition table_exists :: "'s catalog \<Rightarrow> 's \<Rightarrow> string \<Rightarrow> bool" where
  "table_exists cat c t \<longleftrightarrow> t \<in> set (base_tables cat c)"

definition view_exists :: "'s catalog \<Rightarrow> 's \<Rightarrow> string \<Rightarrow> bool" where
  "view_exists cat c v \<longleftrightarrow> v \<in> set (views cat c)"

definition column_exists :: "'s catalog \<Rightarrow> 's \<Rightarrow> string \<Rightarrow> string \<Rightarrow> bool" where
  "column_exists cat c t col \<longleftrightarrow> (t, col) \<in> set (columns cat c)"

definition missing_objects :: "'s catalog \<Rightarrow> 's \<Rightarrow> string list" where
  "missing_objects cat c =
     map (\<lambda>t. ''table:'' @ t) (filter (\<lambda>t. \<not> table_exists cat c t) required_tables)
     @ map (\<lambda>v. ''view:'' @ v) (filter (\<lambda>v. \<not> view_exists cat c v) required_views)
     @ map (\<lambda>(t, col). ''column:'' @ t @ ''.'' @ col)
         (filter (\<lambda>(t, col). \<not> column_exists cat c t col) required_columns)"

definition ensure_database_matches_current_baseline :: "'s catalog \<Rightarrow> 's \<Rightarrow> 'e migrate_error option" where
  "ensure_database_matches_current_baseline cat c =
     (if missing_objects cat c = [] then None else Some (Baseline_incomplete (missing_objects cat c)))"

text \<open>The check for \<open>gen_random_uuid()\<close>, which may enable \<open>pgcrypto\<close>.\<close>

definition uuid_ready :: "('s, 'e) server \<Rightarrow> 's \<Rightarrow> 's \<times> 'e migrate_error option" where
  "uuid_ready sv c =
     (case uuid_check sv c of
        None \<Rightarrow> (c, None)
      | Some e \<Rightarrow>
          (case create_pgcrypto sv c of
             Inl _ \<Rightarrow> (c, Some (Sql e))
           | Inr c' \<Rightarrow>
               (case uuid_check sv c' of None \<Rightarrow> (c', None) | Some e2 \<Rightarrow> (c', Some (Sql e2)))))"

definition adopt_records :: "(scalars \<Rightarrow> string) \<Rightarrow> (string \<times> scalars) list \<Rightarrow> 's database \<Rightarrow> 's database" where
  "adopt_records digest ms d = fold (\<lambda>(name, sql). insert_migration_record name (digest sql)) ms d"

definition migrate_with_conn ::
  "(scalars \<Rightarrow> string) \<Rightarrow> 's catalog \<Rightarrow> (string \<Rightarrow> scalars) \<Rightarrow> ('s, 'e) server \<Rightarrow> environment
    \<Rightarrow> 's database \<Rightarrow> 's database \<times> 'e migrate_error option" where
  "migrate_with_conn digest cat files sv env d =
     (case uuid_ready sv (content d) of
        (c, Some e) \<Rightarrow> (d\<lparr>content := c\<rparr>, Some e)
      | (c, None) \<Rightarrow>
          let d = d\<lparr>content := c\<rparr>;
              table_count = length (base_tables cat c) + (if ledger d = None then 0 else 1);
              is_empty_database = (table_count = 0);
              migrations_table_exists = (ledger d \<noteq> None);
              d = ensure_migrations_table d
          in if is_empty_database then apply_migrations digest sv (migrations files) d
             else if \<not> migrations_table_exists then
               (if \<not> allow_insecure_migration_baseline_adopt env then (d, Some Adoption_refused)
                else case ensure_database_matches_current_baseline cat c of
                  Some e \<Rightarrow> (d, Some e)
                | None \<Rightarrow> (adopt_records digest (migrations files) d, None))
             else apply_migrations digest sv (migrations files) d)"

text \<open>
  \<open>Database::migrate\<close> takes the advisory lock around this and releases it whatever the
  result.  The server process exits when it fails and the next start runs it again, perhaps
  with another environment, on a server that may answer otherwise.
\<close>

type_synonym ('s, 'e) starts = "(('s, 'e) server \<times> environment) list"

fun run_starts ::
  "(scalars \<Rightarrow> string) \<Rightarrow> 's catalog \<Rightarrow> (string \<Rightarrow> scalars) \<Rightarrow> ('s, 'e) starts \<Rightarrow> 's database \<Rightarrow> 's database" where
  "run_starts digest cat files [] d = d"
| "run_starts digest cat files ((sv, env) # starts) d =
     run_starts digest cat files starts (fst (migrate_with_conn digest cat files sv env d))"

section \<open>Pool bounds\<close>

lemma read_positive_alias_bounds:
  "read_positive_alias bits env names fallback = n \<Longrightarrow> n = fallback \<or> (0 < n \<and> n < 2 ^ bits)"
  by (induction names) (auto simp: parse_unsigned_def Let_def split: option.splits if_splits)

lemma pool_from_env_bounds:
  "min_connections (pool_from_env env) \<le> max_connections (pool_from_env env)"
  "0 < max_connections (pool_from_env env)" "max_connections (pool_from_env env) < 2 ^ 32"
  "0 < acquire_timeout (pool_from_env env)"
proof -
  have "0 < n \<and> n < 2 ^ 32"
    if "n = read_positive_u32_alias env ns (max_connections default_pool)" for n ns
    using read_positive_alias_bounds [of 32 env ns "max_connections default_pool"] that
    by (auto simp: read_positive_u32_alias_def default_pool_def)
  moreover have "0 < read_positive_u64_alias env ns (acquire_timeout default_pool)" for ns
    using read_positive_alias_bounds [of 64 env ns "acquire_timeout default_pool", OF refl]
    by (auto simp: read_positive_u64_alias_def default_pool_def)
  ultimately show "min_connections (pool_from_env env) \<le> max_connections (pool_from_env env)"
    "0 < max_connections (pool_from_env env)" "max_connections (pool_from_env env) < 2 ^ 32"
    "0 < acquire_timeout (pool_from_env env)"
    unfolding pool_from_env_def Let_def by simp_all
qed

section \<open>The ledger\<close>

definition recorded :: "(scalars \<Rightarrow> string) \<Rightarrow> (string \<Rightarrow> scalars) \<Rightarrow> string \<Rightarrow> 's database \<Rightarrow> bool" where
  "recorded digest files n d \<longleftrightarrow> get_migration_record n d = Some (Some (digest (files n)))"

abbreviation batch :: "(string \<Rightarrow> scalars) \<Rightarrow> string list \<Rightarrow> (string \<times> scalars) list" where
  "batch files ns \<equiv> map (\<lambda>n. (n, files n)) ns"

lemma find_update_where:
  "fetch_optional (\<lambda>r. fst r = n) (update_where (\<lambda>r. fst r = m) (\<lambda>r. (fst r, x)) t)
     = (if n = m then map_option (\<lambda>r. (fst r, x)) (fetch_optional (\<lambda>r. fst r = n) t)
        else fetch_optional (\<lambda>r. fst r = n) t)"
  by (induction t) (auto simp: update_where_def)

lemma find_append: "fetch_optional P (s @ t) = (case fetch_optional P s of None \<Rightarrow> fetch_optional P t | Some x \<Rightarrow> Some x)"
  by (induction s) auto

lemma get_after_update:
  "get_migration_record n (update_migration_checksum m x d)
     = (if n = m then map_option (\<lambda>_. Some x) (get_migration_record n d) else get_migration_record n d)"
  by (cases "ledger d")
    (auto simp: get_migration_record_def update_migration_checksum_def ledger_rows_def
      find_update_where option.map_comp comp_def)

lemma get_after_insert:
  assumes "ledger d \<noteq> None"
  shows "get_migration_record n (insert_migration_record m x d)
     = (if n = m then Some (Some x) else get_migration_record n d)"
proof -
  obtain t where t: "ledger d = Some t" using assms by blast
  show ?thesis
  proof (cases "fetch_optional (\<lambda>r. fst r = m) t")
    case None
    then have "\<not> exists_row (\<lambda>r. fst r = m) t" by (simp only: find_None_iff) blast
    with t None show ?thesis
      by (auto simp: get_migration_record_def insert_migration_record_def ledger_rows_def find_append
          split: option.splits)
  next
    case (Some r)
    then have "exists_row (\<lambda>r. fst r = m) t" by (auto simp: find_Some_iff)
    with t Some show ?thesis
      by (auto simp: get_migration_record_def insert_migration_record_def ledger_rows_def find_update_where)
  qed
qed

lemma ledger_kept [simp]:
  "ledger (update_migration_checksum m x d) = None \<longleftrightarrow> ledger d = None"
  "ledger (insert_migration_record m x d) = None \<longleftrightarrow> ledger d = None"
  "content (update_migration_checksum m x d) = content d"
  "content (insert_migration_record m x d) = content d"
  by (simp_all add: update_migration_checksum_def insert_migration_record_def)

lemma get_content [simp]: "get_migration_record n (d\<lparr>content := c\<rparr>) = get_migration_record n d"
  by (simp add: get_migration_record_def ledger_rows_def)

text \<open>What is recorded is skipped.\<close>

lemma apply_recorded:
  "(\<And>n. n \<in> set ns \<Longrightarrow> recorded digest files n d) \<Longrightarrow>
   apply_migrations digest sv (batch files ns @ ms) d = apply_migrations digest sv ms d"
  by (induction ns) (simp_all add: recorded_def ensure_migration_record_checksum_def Let_def)

text \<open>A loop that succeeds has recorded every migration, with the checksum of its file.\<close>

lemma apply_step:
  assumes "apply_migrations digest sv ((n, files n) # ms) d = (d', None)" "ledger d \<noteq> None"
  obtains d1 where "apply_migrations digest sv ms d1 = (d', None)" "ledger d1 \<noteq> None"
    "recorded digest files n d1" "\<And>m. m \<noteq> n \<Longrightarrow> get_migration_record m d1 = get_migration_record m d"
proof (cases "get_migration_record n d")
  case None
  then obtain c where "run_script sv (files n) (content d) = Inr c"
    "apply_migrations digest sv ms (insert_migration_record n (digest (files n)) (d\<lparr>content := c\<rparr>)) = (d', None)"
    using assms(1) by (auto simp: migrate_result_def Let_def split: sum.splits)
  with assms(2) show thesis
    by (intro that [of "insert_migration_record n (digest (files n)) (d\<lparr>content := c\<rparr>)"])
      (simp_all add: recorded_def get_after_insert)
next
  case (Some x)
  show thesis
  proof (cases x)
    case None
    with Some assms show thesis
      by (intro that [of "update_migration_checksum n (digest (files n)) d"])
        (simp_all add: recorded_def get_after_update ensure_migration_record_checksum_def Let_def)
  next
    case (Some y)
    with \<open>get_migration_record n d = Some x\<close> assms show thesis
      by (intro that [of d])
        (simp_all add: recorded_def ensure_migration_record_checksum_def Let_def split: if_splits)
  qed
qed

lemma apply_records_all:
  "apply_migrations digest sv (batch files ns) d = (d', None) \<Longrightarrow> ledger d \<noteq> None \<Longrightarrow> distinct ns \<Longrightarrow>
   ledger d' \<noteq> None \<and> (\<forall>n \<in> set ns. recorded digest files n d')
     \<and> (\<forall>m. m \<notin> set ns \<longrightarrow> get_migration_record m d' = get_migration_record m d)"
proof (induction ns arbitrary: d)
  case (Cons n ns)
  then have "apply_migrations digest sv ((n, files n) # batch files ns) d = (d', None)" by simp
  then obtain d1 where d1: "apply_migrations digest sv (batch files ns) d1 = (d', None)" "ledger d1 \<noteq> None"
    "recorded digest files n d1" "\<And>m. m \<noteq> n \<Longrightarrow> get_migration_record m d1 = get_migration_record m d"
    using Cons.prems(2) by (rule apply_step) blast
  have "distinct ns" "n \<notin> set ns" using Cons.prems(3) by simp_all
  with Cons.IH [OF d1(1,2)] d1(3,4) show ?case by (auto simp: recorded_def)
qed simp

lemma adopt_records_all:
  "ledger d \<noteq> None \<Longrightarrow> distinct ns \<Longrightarrow>
   ledger (adopt_records digest (batch files ns) d) \<noteq> None
     \<and> (\<forall>n \<in> set ns. recorded digest files n (adopt_records digest (batch files ns) d))
     \<and> (\<forall>m. m \<notin> set ns \<longrightarrow> get_migration_record m (adopt_records digest (batch files ns) d) = get_migration_record m d)"
proof (induction ns arbitrary: d)
  case (Cons n ns)
  let ?d = "insert_migration_record n (digest (files n)) d"
  have "adopt_records digest (batch files (n # ns)) d = adopt_records digest (batch files ns) ?d"
    by (simp add: adopt_records_def)
  with Cons.IH [of ?d] Cons.prems show ?case by (auto simp: recorded_def get_after_insert)
qed (simp add: adopt_records_def)

lemma distinct_names: "distinct migration_names"
  by code_simp

section \<open>The content is what the recorded scripts built\<close>

text \<open>
  \<open>built svs files c0 ns c\<close>: the content \<open>c\<close> is what the scripts \<open>ns\<close>, each run once and in
  this order, by servers of \<open>svs\<close>, made of \<open>c0\<close>; \<open>pgcrypto\<close> may have been enabled between.
\<close>

inductive built :: "('s, 'e) server set \<Rightarrow> (string \<Rightarrow> scalars) \<Rightarrow> 's \<Rightarrow> string list \<Rightarrow> 's \<Rightarrow> bool"
  for svs files c0 where
  start: "built svs files c0 [] c0"
| script: "built svs files c0 ns c \<Longrightarrow> sv \<in> svs \<Longrightarrow> run_script sv (files n) c = Inr c' \<Longrightarrow>
    built svs files c0 (ns @ [n]) c'"
| pgcrypto: "built svs files c0 ns c \<Longrightarrow> sv \<in> svs \<Longrightarrow> create_pgcrypto sv c = Inr c' \<Longrightarrow>
    built svs files c0 ns c'"

definition records_of :: "(scalars \<Rightarrow> string) \<Rightarrow> (string \<Rightarrow> scalars) \<Rightarrow> string list \<Rightarrow> migration_record list" where
  "records_of digest files ns = map (\<lambda>n. (n, Some (digest (files n)))) ns"

lemma get_records_of:
  "ledger d = Some (records_of digest files ns) \<Longrightarrow>
   get_migration_record n d = (if n \<in> set ns then Some (Some (digest (files n))) else None)"
proof -
  have "map_option snd (fetch_optional (\<lambda>r. fst r = n) (records_of digest files ns))
    = (if n \<in> set ns then Some (Some (digest (files n))) else None)"
    by (induction ns) (auto simp: records_of_def)
  then show "ledger d = Some (records_of digest files ns) \<Longrightarrow> ?thesis"
    by (simp add: get_migration_record_def ledger_rows_def)
qed

lemma insert_new_record:
  "ledger d = Some (records_of digest files ns) \<Longrightarrow> n \<notin> set ns \<Longrightarrow>
   ledger (insert_migration_record n (digest (files n)) d) = Some (records_of digest files (ns @ [n]))"
  by (auto simp: insert_migration_record_def records_of_def)

text \<open>The rest of the loop, from a state where \<open>before\<close> has been applied.\<close>

lemma apply_pending:
  assumes "apply_migrations digest sv (batch files pending) d = (d', e)" "sv \<in> svs"
    "ledger d = Some (records_of digest files before)" "built svs files c0 before (content d)"
    "distinct (before @ pending)"
  shows "\<exists>done_now rest. pending = done_now @ rest \<and> ledger d' = Some (records_of digest files (before @ done_now))
    \<and> built svs files c0 (before @ done_now) (content d')"
  using assms
proof (induction pending arbitrary: d before)
  case (Cons n pending)
  have new: "get_migration_record n d = None"
    using get_records_of [OF Cons.prems(3)] Cons.prems(5) by simp
  show ?case
  proof (cases "run_script sv (files n) (content d)")
    case (Inl x)
    then have "d' = d" using Cons.prems(1) new by (simp add: migrate_result_def Let_def)
    then show ?thesis using Cons.prems(3,4) by (intro exI [of _ "[]"] exI [of _ "n # pending"]) simp
  next
    case (Inr c)
    let ?d = "insert_migration_record n (digest (files n)) (d\<lparr>content := c\<rparr>)"
    have "apply_migrations digest sv (batch files pending) ?d = (d', e)"
      using Cons.prems(1) new Inr by (simp add: migrate_result_def Let_def)
    moreover have "ledger ?d = Some (records_of digest files (before @ [n]))"
      using Cons.prems(3,5) by (intro insert_new_record) simp_all
    moreover have "built svs files c0 (before @ [n]) (content ?d)"
      using built.script [OF Cons.prems(4,2) Inr] by simp
    moreover have "distinct ((before @ [n]) @ pending)" using Cons.prems(5) by simp
    ultimately obtain done_now rest where "pending = done_now @ rest"
      "ledger d' = Some (records_of digest files ((before @ [n]) @ done_now))"
      "built svs files c0 ((before @ [n]) @ done_now) (content d')"
      using Cons.IH Cons.prems(2) by blast
    then show ?thesis by (intro exI [of _ "n # done_now"] exI [of _ rest]) simp
  qed
qed (auto intro: exI [of _ "[]"])

definition in_step ::
  "(scalars \<Rightarrow> string) \<Rightarrow> ('s, 'e) server set \<Rightarrow> (string \<Rightarrow> scalars) \<Rightarrow> 's \<Rightarrow> 's database \<Rightarrow> bool" where
  "in_step digest svs files c0 d \<longleftrightarrow>
     (\<exists>k. ledger_rows d = records_of digest files (take k migration_names)
       \<and> built svs files c0 (take k migration_names) (content d))"

lemma apply_in_step:
  assumes "in_step digest svs files c0 d" "sv \<in> svs" "ledger d \<noteq> None"
  shows "in_step digest svs files c0 (fst (apply_migrations digest sv (migrations files) d))
    \<and> ledger (fst (apply_migrations digest sv (migrations files) d)) \<noteq> None"
proof -
  obtain k where k: "ledger d = Some (records_of digest files (take k migration_names))"
    "built svs files c0 (take k migration_names) (content d)"
    using assms(1,3) by (auto simp: in_step_def ledger_rows_def)
  let ?done = "take k migration_names" and ?todo = "drop k migration_names"
  have "batch files ?done @ batch files ?todo = migrations files"
    unfolding migrations_def by (metis append_take_drop_id map_append)
  moreover have "apply_migrations digest sv (batch files ?done @ batch files ?todo) d
      = apply_migrations digest sv (batch files ?todo) d"
    by (rule apply_recorded) (simp add: recorded_def get_records_of [OF k(1)])
  moreover obtain d' e where d': "apply_migrations digest sv (batch files ?todo) d = (d', e)" by fastforce
  moreover have "distinct (?done @ ?todo)" using distinct_names by simp
  with apply_pending [OF d' assms(2) k] obtain now rest where now: "?todo = now @ rest"
    "ledger d' = Some (records_of digest files (?done @ now))" "built svs files c0 (?done @ now) (content d')"
    by blast
  moreover have "take (length ?done + length now) migration_names = ?done @ now"
  proof -
    have "migration_names = ?done @ now @ rest" using now(1) by (metis append_take_drop_id)
    then show ?thesis by (metis append.assoc append_eq_conv_conj length_append)
  qed
  ultimately show ?thesis
    by (auto simp: in_step_def ledger_rows_def intro!: exI [of _ "length ?done + length now"])
qed

lemma uuid_ready_cases:
  assumes "uuid_ready sv c = (c', e)"
  shows "c' = c \<or> create_pgcrypto sv c = Inr c'"
  using assms by (auto simp: uuid_ready_def split: option.splits sum.splits)

text \<open>A database this code set up: no ledger yet and no table, or a ledger in step.\<close>

definition ours ::
  "(scalars \<Rightarrow> string) \<Rightarrow> 's catalog \<Rightarrow> ('s, 'e) server set \<Rightarrow> (string \<Rightarrow> scalars) \<Rightarrow> 's \<Rightarrow> 's database \<Rightarrow> bool" where
  "ours digest cat svs files c0 d \<longleftrightarrow>
     in_step digest svs files c0 d \<and> (ledger d = None \<longrightarrow> base_tables cat (content d) = [])"

lemma migrate_keeps_ours:
  assumes d: "ours digest cat svs files c0 d" and sv: "sv \<in> svs"
    and quiet: "\<And>c c'. create_pgcrypto sv c = Inr c' \<Longrightarrow> base_tables cat c' = base_tables cat c"
  shows "ours digest cat svs files c0 (fst (migrate_with_conn digest cat files sv env d))"
proof -
  obtain c e where c: "uuid_ready sv (content d) = (c, e)" by fastforce
  let ?d = "d\<lparr>content := c\<rparr>"
  have ours: "ours digest cat svs files c0 ?d"
    using uuid_ready_cases [OF c]
  proof
    assume "c = content d"
    then show ?thesis using d by simp
  next
    assume p: "create_pgcrypto sv (content d) = Inr c"
    then show ?thesis using d built.pgcrypto [OF _ sv p] quiet [OF p]
      by (auto simp: ours_def in_step_def ledger_rows_def)
  qed
  show ?thesis
  proof (cases e)
    case (Some x)
    with c ours show ?thesis by (simp add: migrate_with_conn_def)
  next
    case None
    let ?e = "ensure_migrations_table ?d"
    have e: "in_step digest svs files c0 ?e" "ledger ?e \<noteq> None"
      using ours by (simp_all add: ours_def in_step_def ensure_migrations_table_def ledger_rows_def)
    have "migrate_with_conn digest cat files sv env d = apply_migrations digest sv (migrations files) ?e"
      using c None ours by (simp add: migrate_with_conn_def Let_def ours_def)
    with apply_in_step [OF e(1) sv e(2)] show ?thesis by (auto simp: ours_def)
  qed
qed

lemma starts_keep_ours:
  "ours digest cat svs files c0 d \<Longrightarrow> fst ` set starts \<subseteq> svs \<Longrightarrow>
   (\<forall>sv \<in> svs. \<forall>c c'. create_pgcrypto sv c = Inr c' \<longrightarrow> base_tables cat c' = base_tables cat c) \<Longrightarrow>
   ours digest cat svs files c0 (run_starts digest cat files starts d)"
proof (induction starts arbitrary: d)
  case (Cons x starts)
  obtain sv env where x: "x = (sv, env)" by fastforce
  then have "sv \<in> svs" using Cons.prems(2) by force
  then have "ours digest cat svs files c0 (fst (migrate_with_conn digest cat files sv env d))"
    using Cons.prems(1,3) by (intro migrate_keeps_ours) auto
  with Cons show ?case by (simp add: x)
qed simp

text \<open>A start on a complete ledger changes nothing.\<close>

lemma migrate_complete:
  assumes "uuid_check sv (content d) = None" "ledger d \<noteq> None"
    "\<forall>n \<in> set migration_names. recorded digest files n d"
  shows "migrate_with_conn digest cat files sv env d = (d, None)"
proof -
  have "apply_migrations digest sv (batch files migration_names @ []) d = (d, None)"
    using apply_recorded [of migration_names digest files d sv "[]"] assms(3) by simp
  moreover have "ensure_migrations_table d = d" using assms(2) by (auto simp: ensure_migrations_table_def ledger_rows_def)
  ultimately show ?thesis using assms(1,2)
    by (simp add: migrate_with_conn_def uuid_ready_def Let_def migrations_def)
qed

lemma migrate_success:
  assumes "migrate_with_conn digest cat files sv env d = (d', None)"
  shows "ledger d' \<noteq> None \<and> (\<forall>n \<in> set migration_names. recorded digest files n d')"
proof -
  obtain c where c: "uuid_ready sv (content d) = (c, None)"
    using assms by (auto simp: migrate_with_conn_def split: prod.splits option.splits)
  let ?e = "ensure_migrations_table (d\<lparr>content := c\<rparr>)"
  have e: "ledger ?e \<noteq> None" by (simp add: ensure_migrations_table_def)
  have "apply_migrations digest sv (batch files migration_names) ?e = (d', None)
      \<or> d' = adopt_records digest (batch files migration_names) ?e"
    using assms c
    by (auto simp: migrate_with_conn_def Let_def migrations_def split: if_splits option.splits)
  then show ?thesis
    using apply_records_all [OF _ e distinct_names] adopt_records_all [OF e distinct_names] by blast
qed

text \<open>On a server that executes every statement, only a changed checksum stops the loop.\<close>

lemma run_script_total:
  assumes "\<And>s c. \<exists>c'. execute sv s c = Inr c'"
  shows "\<exists>c'. run_script sv sql c = Inr c'"
proof -
  have "\<exists>c'. execute_statements sv stmts c = Inr c'" for stmts
  proof (induction stmts arbitrary: c)
    case (Cons s stmts)
    obtain c' where "execute sv (trim_both s) c = Inr c'" using assms by blast
    with Cons show ?case by (simp add: Let_def)
  qed simp
  then show ?thesis by (simp add: run_script_def)
qed

lemma apply_total:
  assumes "\<And>s c. \<exists>c'. execute sv s c = Inr c'"
  shows "ledger d \<noteq> None \<Longrightarrow> distinct ns \<Longrightarrow>
    \<forall>n \<in> set ns. get_migration_record n d \<in> {None, Some None, Some (Some (digest (files n)))} \<Longrightarrow>
    snd (apply_migrations digest sv (batch files ns) d) = None"
proof (induction ns arbitrary: d)
  case (Cons n ns)
  obtain c where c: "run_script sv (files n) (content d) = Inr c"
    using run_script_total [of sv "files n" "content d"] assms by auto
  let ?new = "insert_migration_record n (digest (files n)) (d\<lparr>content := c\<rparr>)"
  let ?upd = "update_migration_checksum n (digest (files n)) d"
  have ih: "snd (apply_migrations digest sv (batch files ns) d1) = None"
    if "ledger d1 \<noteq> None" "\<And>m. m \<noteq> n \<Longrightarrow> get_migration_record m d1 = get_migration_record m d" for d1
  proof (rule Cons.IH [OF that(1)])
    show "distinct ns" using Cons.prems(2) by simp
    have "m \<noteq> n" if "m \<in> set ns" for m using Cons.prems(2) that by auto
    then show "\<forall>m \<in> set ns. get_migration_record m d1 \<in> {None, Some None, Some (Some (digest (files m)))}"
      using Cons.prems(3) that(2) by simp
  qed
  have "snd (apply_migrations digest sv (batch files ns) ?new) = None"
    "snd (apply_migrations digest sv (batch files ns) ?upd) = None"
    "snd (apply_migrations digest sv (batch files ns) d) = None"
    using Cons.prems(1)
    by (intro ih; simp add: get_after_insert get_after_update del: not_None_eq)+
  moreover have "get_migration_record n d \<in> {None, Some None, Some (Some (digest (files n)))}"
    using Cons.prems(3) by simp
  ultimately show ?case
    using c by (auto simp: migrate_result_def ensure_migration_record_checksum_def Let_def)
qed simp

section \<open>Properties\<close>

text \<open>
  C8: On a database that starts out new, whatever the number of starts, whichever of them
  fail and wherever they fail, the ledger table lists a prefix of the migrations with
  the checksums of their files, and the content of the database is what the scripts of that
  prefix make of the initial one, each script run exactly once and in order: a script that
  fails leaves nothing behind and a script that succeeded is never run again.
\<close>

theorem migrations_run_once:
  assumes "ledger d = None" "base_tables cat (content d) = []"
    and "\<forall>sv \<in> fst ` set starts. \<forall>c c'. create_pgcrypto sv c = Inr c' \<longrightarrow> base_tables cat c' = base_tables cat c"
  shows "\<exists>k. ledger_rows (run_starts digest cat files starts d) = records_of digest files (take k migration_names)
    \<and> built (fst ` set starts) files (content d) (take k migration_names)
        (content (run_starts digest cat files starts d))"
proof -
  have "in_step digest (fst ` set starts) files (content d) d"
    unfolding in_step_def using assms(1)
    by (intro exI [of _ 0]) (simp add: ledger_rows_def records_of_def built.start)
  then have "ours digest cat (fst ` set starts) files (content d) d"
    using assms(2) by (simp add: ours_def)
  from starts_keep_ours [OF this subset_refl assms(3)] show ?thesis
    by (simp add: ours_def in_step_def)
qed

definition log_server :: "(scalars list, nat) server" where
  "log_server = \<lparr>execute = \<lambda>s c. if s = [70] then Inl 1 else Inr (c @ [s]),
     uuid_check = \<lambda>c. None, create_pgcrypto = \<lambda>c. Inl 0\<rparr>"

definition log_catalog :: "scalars list catalog" where
  "log_catalog = \<lparr>base_tables = map (\<lambda>_. ''t''), views = \<lambda>_. [], columns = \<lambda>_. []\<rparr>"

lemma migrations_run_once_witness:
  "\<exists>k. ledger_rows (run_starts (\<lambda>_. []) log_catalog (\<lambda>n. if n = base_migration_name then [65] else [70])
        [(log_server, \<lambda>_. None), (log_server, \<lambda>_. None)] \<lparr>content = [], ledger = None\<rparr>)
      = records_of (\<lambda>_. []) (\<lambda>n. if n = base_migration_name then [65] else [70]) (take k migration_names)
    \<and> built {log_server} (\<lambda>n. if n = base_migration_name then [65] else [70]) [] (take k migration_names)
        (content (run_starts (\<lambda>_. []) log_catalog (\<lambda>n. if n = base_migration_name then [65] else [70])
          [(log_server, \<lambda>_. None), (log_server, \<lambda>_. None)] \<lparr>content = [], ledger = None\<rparr>))"
  using migrations_run_once [of "\<lparr>content = [], ledger = None\<rparr>" log_catalog
      "[(log_server, \<lambda>_. None), (log_server, \<lambda>_. None)]" "\<lambda>_. []"
      "\<lambda>n. if n = base_migration_name then [65] else [70]"]
  by (simp add: log_catalog_def log_server_def)

text \<open>
  After a start that succeeded, on any database and in any of the three cases of
  a migration, the table has every migration with the checksum of its file, and another start
  succeeds and changes nothing, whatever the environment.
\<close>

lemma successful_start_is_final:
  assumes "migrate_with_conn digest cat files sv env d = (d', None)" "uuid_check sv' (content d') = None"
  shows "(\<forall>n \<in> set migration_names. get_migration_record n d' = Some (Some (digest (files n))))
    \<and> migrate_with_conn digest cat files sv' env' d' = (d', None)"
  using migrate_success [OF assms(1)] migrate_complete [OF assms(2)] by (simp add: recorded_def)

lemma successful_start_is_final_witness:
  "\<exists>d'. migrate_with_conn (\<lambda>_. []) log_catalog (\<lambda>_. [65]) (log_server\<lparr>execute := \<lambda>s c. Inr (c @ [s])\<rparr>)
        (\<lambda>_. None) \<lparr>content = [], ledger = None\<rparr> = (d', None)
    \<and> migrate_with_conn (\<lambda>_. []) log_catalog (\<lambda>_. [65]) (log_server\<lparr>execute := \<lambda>s c. Inr (c @ [s])\<rparr>)
        (\<lambda>_. None) d' = (d', None)"
proof -
  define sv where "sv = log_server\<lparr>execute := \<lambda>s c. Inr (c @ [s])\<rparr>"
  define d where "d = \<lparr>content = [] :: scalars list, ledger = None\<rparr>"
  let ?m = "migrate_with_conn (\<lambda>_. []) log_catalog (\<lambda>_. [65]) sv (\<lambda>_. None)"
  have "snd (apply_migrations (\<lambda>_. []) sv (batch (\<lambda>_. [65]) migration_names) (ensure_migrations_table d)) = None"
    by (rule apply_total [OF _ _ distinct_names])
      (simp_all add: sv_def d_def ensure_migrations_table_def get_migration_record_def ledger_rows_def)
  then have "snd (?m d) = None"
    by (simp add: migrate_with_conn_def uuid_ready_def sv_def d_def log_server_def log_catalog_def
        Let_def migrations_def)
  then have m: "?m d = (fst (?m d), None)" by (metis prod.collapse)
  have "uuid_check sv c = None" for c by (simp add: sv_def log_server_def)
  from successful_start_is_final [OF m this] m show ?thesis unfolding d_def sv_def by blast
qed

text \<open>
  A database with tables and without a ledger table is refused when the
  environment does not ask for adoption, but only once: the table is created before the
  refusal, so the next start, even one whose environment does ask for adoption, takes the
  database for one that is being upgraded and runs the base script on it, recording it when it
  succeeds.
\<close>

lemma adoption_refused_once:
  assumes "ledger d = None" "base_tables cat (content d) \<noteq> []"
    and "\<not> allow_insecure_migration_baseline_adopt env"
    and "uuid_check sv (content d) = None" "uuid_check sv' (content d) = None"
  shows "migrate_with_conn digest cat files sv env d = (d\<lparr>ledger := Some []\<rparr>, Some Adoption_refused)
    \<and> migrate_with_conn digest cat files sv' env' (d\<lparr>ledger := Some []\<rparr>)
      = (case run_script sv' (files base_migration_name) (content d) of
           Inl e \<Rightarrow> (d\<lparr>ledger := Some []\<rparr>, Some (Sql e))
         | Inr c \<Rightarrow> apply_migrations digest sv' (tl (migrations files))
             (d\<lparr>content := c, ledger := Some [(base_migration_name, Some (digest (files base_migration_name)))]\<rparr>))"
proof
  show "migrate_with_conn digest cat files sv env d = (d\<lparr>ledger := Some []\<rparr>, Some Adoption_refused)"
    using assms by (simp add: migrate_with_conn_def uuid_ready_def Let_def ensure_migrations_table_def ledger_rows_def)
  obtain ms where ms: "migrations files = (base_migration_name, files base_migration_name) # ms"
    by (simp add: migrations_def migration_names_def)
  have "migrate_with_conn digest cat files sv' env' (d\<lparr>ledger := Some []\<rparr>)
      = apply_migrations digest sv' (migrations files) (d\<lparr>ledger := Some []\<rparr>)"
    using assms by (simp add: migrate_with_conn_def uuid_ready_def Let_def ensure_migrations_table_def ledger_rows_def)
  then show "migrate_with_conn digest cat files sv' env' (d\<lparr>ledger := Some []\<rparr>)
      = (case run_script sv' (files base_migration_name) (content d) of
           Inl e \<Rightarrow> (d\<lparr>ledger := Some []\<rparr>, Some (Sql e))
         | Inr c \<Rightarrow> apply_migrations digest sv' (tl (migrations files))
             (d\<lparr>content := c, ledger := Some [(base_migration_name, Some (digest (files base_migration_name)))]\<rparr>))"
    by (simp add: ms migrate_result_def get_migration_record_def ledger_rows_def
        insert_migration_record_def Let_def split: sum.splits)
qed

lemma adoption_refused_once_witness:
  "migrate_with_conn (\<lambda>_. []) log_catalog (\<lambda>_. [70]) log_server (\<lambda>_. None) \<lparr>content = [[84]], ledger = None\<rparr>
     = (\<lparr>content = [[84]], ledger = Some []\<rparr>, Some Adoption_refused)
   \<and> migrate_with_conn (\<lambda>_. []) log_catalog (\<lambda>_. [70]) log_server (\<lambda>_. Some ''true'') \<lparr>content = [[84]], ledger = Some []\<rparr>
     = (\<lparr>content = [[84]], ledger = Some []\<rparr>, Some (Sql 1))"
proof -
  have "\<not> allow_insecure_migration_baseline_adopt (\<lambda>_. None)"
    by (simp add: allow_insecure_migration_baseline_adopt_def to_ascii_lowercase_def)
  moreover have "run_script log_server [70] [[84]] = Inl 1"
  proof -
    have "split_sql_statements [70] = [[70]]" "trim_both [70] = [70]"
      by (simp_all add: split_sql_statements_def loop_body_def in_normal_def push_tail_def trim_both_def
          trim_left_def trim_right_def is_whitespace_def)
    moreover have "\<not> is_transaction_control_statement [70]"
      by (simp add: is_transaction_control_statement_def strip_leading_sql_comments_def strip_comments_plain
          trim_left_def trim_both_def trim_right_def is_whitespace_def eq_ignore_ascii_case_scalars_def Let_def)
    ultimately show ?thesis by (simp add: run_script_def log_server_def)
  qed
  ultimately show ?thesis
    using adoption_refused_once [of "\<lparr>content = [[84]], ledger = None\<rparr>" log_catalog "\<lambda>_. None" log_server log_server
        "\<lambda>_. []" "\<lambda>_. [70]" "\<lambda>_. Some ''true''"]
    by (simp add: log_catalog_def log_server_def)
qed

end
