(* ===== verification/Accounts.thy ===== *)
theory Accounts
  imports RuntimeGate
begin

text \<open>
  User accounts and login devices: \<open>api/src/database/user_store.rs\<close>,
  \<open>api/src/database/user_device_store.rs\<close> and the account settings of
  \<open>api/src/database/settings_store.rs\<close>.  The state of this part of the program is the
  database of the other components together with the tables that only the account code
  reads, and the cache in Redis (theory \<open>Sessions\<close>).  Password hashes, tokens, regular
  expressions and the textual form of UUIDs are third-party code and are the functions of the
  record \<open>auth_env\<close>.
\<close>

section \<open>Rows\<close>

datatype user_status = UserActive | UserInactive | UserBanned

record user_account =
  ua_id :: uuid
  ua_name :: string
  ua_email :: string
  ua_hash :: string
  ua_nickname :: "string option"
  ua_signature :: "string option"
  ua_avatar_url :: "string option"
  ua_avatar_key :: "string option"
  ua_status :: user_status
  ua_created :: instant
  ua_updated :: instant
  ua_deleted :: "instant option"

record login_device =
  ld_id :: uuid
  ld_user :: uuid
  ld_name :: string
  ld_platform :: string
  ld_seen :: instant
  ld_created :: instant
  ld_revoked :: "instant option"

datatype qr_status = QrPending | QrConfirmed | QrCancelled | QrExpired

record qr_session =
  qs_token :: uuid
  qs_user :: "uuid option"
  qs_status :: qr_status
  qs_code :: "string option"
  qs_expires :: instant
  qs_created :: instant
  qs_confirmed :: "instant option"
  qs_cancelled :: "instant option"

datatype admin_status = AdminActive | AdminInactive | AdminBanned | AdminLocked

record admin_account =
  ad_id :: uuid
  ad_name :: string
  ad_email :: string
  ad_hash :: string
  ad_nickname :: "string option"
  ad_avatar_url :: "string option"
  ad_status :: admin_status
  ad_last_login :: "instant option"
  ad_attempts :: int
  ad_locked_until :: "instant option"
  ad_change_required :: bool
  ad_password_changed :: instant
  ad_created :: instant
  ad_updated :: instant
  ad_deleted :: "instant option"

record captcha_setting =
  cap_enabled :: bool
  cap_code :: string
  cap_description :: string
  cap_required :: bool
  cap_updated :: instant
  cap_updated_by :: "uuid option"

record account_limit =
  al_phone :: bool
  al_email :: bool
  al_length :: bool
  al_min :: int
  al_max :: int
  al_alnum :: bool
  al_updated :: instant
  al_updated_by :: "uuid option"

text \<open>A refresh token in Redis: the fields of \<open>RefreshTokenPayload\<close>, which is stored as JSON.\<close>

record refresh_payload =
  rp_user :: string
  rp_admin :: bool
  rp_device :: "string option"

datatype cache_value =
    TextValue string
  | TokenValue refresh_payload
  | SetValue "string list"

text \<open>The value of a key and the instant it expires, if it does.\<close>

type_synonym cache = "string \<Rightarrow> (cache_value \<times> instant option) option"

record auth_state =
  core :: db
  accounts :: "user_account list"
  login_devices :: "login_device list"
  qr_sessions :: "qr_session list"
  admin_accounts :: "admin_account list"
  admin_roles :: "(uuid \<times> uuid) list"  \<comment> \<open>\<open>admin_user_roles\<close>: administrator and role\<close>
  captcha :: "captcha_setting option"
  limits :: "account_limit option"
  redis :: cache

section \<open>Third-party code\<close>

record claims =
  cl_sub :: string
  cl_name :: string
  cl_admin :: bool
  cl_device :: "string option"
  cl_exp :: int
  cl_iat :: int

text \<open>
  \<open>Uuid::to_string\<close>, the simple form and \<open>Uuid::parse_str\<close>; \<open>bcrypt\<close>; \<open>jsonwebtoken\<close>; the
  \<open>regex\<close> crate; and whether Redis answers during the request.
\<close>

record auth_env =
  ae_show :: "uuid \<Rightarrow> string"
  ae_simple :: "uuid \<Rightarrow> string"
  ae_parse :: "string \<Rightarrow> uuid option"
  ae_hash :: "string \<Rightarrow> string option"
  ae_verify :: "string \<Rightarrow> string \<Rightarrow> bool option"
  ae_sign :: "claims \<Rightarrow> string option"
  ae_decode :: "instant \<Rightarrow> string \<Rightarrow> claims option"
  ae_matches :: "string \<Rightarrow> string \<Rightarrow> bool"
  ae_redis :: bool

section \<open>The user store\<close>

text \<open>\<open>VARCHAR\<close> bounds and the unique indexes of \<open>users\<close>, which cover deleted rows too.\<close>

definition account_too_long :: "user_account \<Rightarrow> bool" where
  "account_too_long a \<longleftrightarrow> char_count (ua_name a) > 50 \<or> char_count (ua_email a) > 100
     \<or> char_count (ua_hash a) > 255"

definition account_clashes :: "user_account \<Rightarrow> auth_state \<Rightarrow> bool" where
  "account_clashes a s \<longleftrightarrow>
     exists_row (\<lambda>b. ua_id b = ua_id a \<or> ua_name b = ua_name a \<or> ua_email b = ua_email a) (accounts s)"

record create_user_request =
  cu_name :: string
  cu_email :: string
  cu_password :: string
  cu_nickname :: "string option"

definition create_user ::
  "auth_env \<Rightarrow> uuid \<Rightarrow> instant \<Rightarrow> create_user_request \<Rightarrow> auth_state \<Rightarrow> sqlx_error + (user_account \<times> auth_state)" where
  "create_user ae user_id now req s =
     (case ae_hash ae (cu_password req) of
        None \<Rightarrow> Inl (ProtocolError ''bcrypt'')
      | Some password_hash \<Rightarrow>
          let user = \<lparr>ua_id = user_id, ua_name = cu_name req, ua_email = cu_email req, ua_hash = password_hash,
                ua_nickname = cu_nickname req, ua_signature = None, ua_avatar_url = None, ua_avatar_key = None,
                ua_status = UserActive, ua_created = now, ua_updated = now, ua_deleted = None\<rparr> in
          if account_too_long user then Inl ValueTooLong
          else if account_clashes user s then Inl UniqueViolation
          else Inr (user, s\<lparr>accounts := accounts s @ [user],
                 core := (core s)\<lparr>users := users (core s) @ [user_id]\<rparr>\<rparr>))"

definition find_by_username :: "string \<Rightarrow> auth_state \<Rightarrow> user_account option" where
  "find_by_username name s =
     fetch_optional (\<lambda>a. ua_name a = name \<and> ua_status a = UserActive \<and> ua_deleted a = None) (accounts s)"

definition find_by_id :: "uuid \<Rightarrow> auth_state \<Rightarrow> user_account option" where
  "find_by_id u s =
     fetch_optional (\<lambda>a. ua_id a = u \<and> ua_status a = UserActive \<and> ua_deleted a = None) (accounts s)"

definition find_by_id_any_status :: "uuid \<Rightarrow> auth_state \<Rightarrow> user_account option" where
  "find_by_id_any_status u s = fetch_optional (\<lambda>a. ua_id a = u \<and> ua_deleted a = None) (accounts s)"

definition find_by_email :: "string \<Rightarrow> auth_state \<Rightarrow> user_account option" where
  "find_by_email email s =
     fetch_optional (\<lambda>a. ua_email a = email \<and> ua_status a = UserActive \<and> ua_deleted a = None) (accounts s)"

definition find_by_username_any_status :: "string \<Rightarrow> auth_state \<Rightarrow> user_account option" where
  "find_by_username_any_status name s =
     fetch_optional (\<lambda>a. ua_name a = name \<and> ua_deleted a = None) (accounts s)"

definition find_by_email_any_status :: "string \<Rightarrow> auth_state \<Rightarrow> user_account option" where
  "find_by_email_any_status email s =
     fetch_optional (\<lambda>a. ua_email a = email \<and> ua_deleted a = None) (accounts s)"

definition verify_password_blocking :: "auth_env \<Rightarrow> string \<Rightarrow> string \<Rightarrow> sqlx_error + bool" where
  "verify_password_blocking ae password hash =
     (case ae_verify ae password hash of None \<Rightarrow> Inl (ProtocolError ''bcrypt'') | Some b \<Rightarrow> Inr b)"

definition authenticate :: "auth_env \<Rightarrow> string \<Rightarrow> string \<Rightarrow> string \<Rightarrow> auth_state \<Rightarrow> user_account option" where
  "authenticate ae name email password s =
     (let user = (if trim email \<noteq> [] then find_by_email_any_status (trim email) s
                  else find_by_username_any_status (trim name) s) in
      case user of
        None \<Rightarrow> None
      | Some u \<Rightarrow>
          (case verify_password_blocking ae password (ua_hash u) of
             Inr True \<Rightarrow> Some u
           | _ \<Rightarrow> None))"

record update_user_request =
  uu_nickname :: "string option"
  uu_signature :: "string option"
  uu_avatar_url :: "string option"
  uu_avatar_key :: "string option"
  uu_status :: "user_status option"

definition has_update :: "update_user_request \<Rightarrow> bool" where
  "has_update req \<longleftrightarrow> uu_nickname req \<noteq> None \<or> uu_signature req \<noteq> None \<or> uu_avatar_url req \<noteq> None
     \<or> uu_avatar_key req \<noteq> None \<or> uu_status req \<noteq> None"

definition keep_or :: "'a option \<Rightarrow> 'a option \<Rightarrow> 'a option" where
  "keep_or old new = (case new of None \<Rightarrow> old | Some v \<Rightarrow> Some v)"

definition updated_account :: "instant \<Rightarrow> update_user_request \<Rightarrow> user_account \<Rightarrow> user_account" where
  "updated_account now req a =
     a\<lparr>ua_updated := now, ua_nickname := keep_or (ua_nickname a) (uu_nickname req),
       ua_signature := keep_or (ua_signature a) (uu_signature req),
       ua_avatar_url := keep_or (ua_avatar_url a) (uu_avatar_url req),
       ua_avatar_key := keep_or (ua_avatar_key a) (uu_avatar_key req),
       ua_status := (case uu_status req of None \<Rightarrow> ua_status a | Some st \<Rightarrow> st)\<rparr>"

definition update_user :: "uuid \<Rightarrow> instant \<Rightarrow> update_user_request \<Rightarrow> auth_state \<Rightarrow> user_account option \<times> auth_state" where
  "update_user u now req s =
     (if \<not> has_update req then (find_by_id u s, s)
      else (map_option (updated_account now req) (find_by_id u s),
        s\<lparr>accounts := update_where (\<lambda>a. ua_id a = u \<and> ua_status a = UserActive \<and> ua_deleted a = None)
            (updated_account now req) (accounts s)\<rparr>))"

definition write_accounts ::
  "(user_account \<Rightarrow> bool) \<Rightarrow> (user_account \<Rightarrow> user_account) \<Rightarrow> auth_state \<Rightarrow> bool \<times> auth_state" where
  "write_accounts P f s = (rows_affected P (accounts s) > 0, s\<lparr>accounts := update_where P f (accounts s)\<rparr>)"

definition delete_user :: "uuid \<Rightarrow> instant \<Rightarrow> auth_state \<Rightarrow> bool \<times> auth_state" where
  "delete_user u now =
     write_accounts (\<lambda>a. ua_id a = u \<and> ua_deleted a = None)
       (\<lambda>a. a\<lparr>ua_status := UserInactive, ua_deleted := Some now, ua_updated := now\<rparr>)"

definition username_exists :: "string \<Rightarrow> auth_state \<Rightarrow> bool" where
  "username_exists name s =
     exists_row (\<lambda>a. ua_name a = name \<and> ua_status a = UserActive \<and> ua_deleted a = None) (accounts s)"

definition email_exists :: "string \<Rightarrow> auth_state \<Rightarrow> bool" where
  "email_exists email s =
     exists_row (\<lambda>a. ua_email a = email \<and> ua_status a = UserActive \<and> ua_deleted a = None) (accounts s)"

definition count_users :: "auth_state \<Rightarrow> nat" where
  "count_users s = rows_affected (\<lambda>a. ua_status a = UserActive \<and> ua_deleted a = None) (accounts s)"

definition update_password :: "uuid \<Rightarrow> instant \<Rightarrow> string \<Rightarrow> auth_state \<Rightarrow> bool \<times> auth_state" where
  "update_password u now new_password_hash =
     write_accounts (\<lambda>a. ua_id a = u \<and> ua_status a = UserActive \<and> ua_deleted a = None)
       (\<lambda>a. a\<lparr>ua_hash := new_password_hash, ua_updated := now\<rparr>)"

definition update_user_status :: "uuid \<Rightarrow> instant \<Rightarrow> user_status \<Rightarrow> auth_state \<Rightarrow> bool \<times> auth_state" where
  "update_user_status u now st =
     write_accounts (\<lambda>a. ua_id a = u \<and> ua_deleted a = None) (\<lambda>a. a\<lparr>ua_status := st, ua_updated := now\<rparr>)"

definition find_by_ids :: "uuid list \<Rightarrow> auth_state \<Rightarrow> user_account list" where
  "find_by_ids ids s =
     (if ids = [] then []
      else filter (\<lambda>a. ua_id a \<in> set ids \<and> ua_deleted a = None \<and> ua_status a = UserActive) (accounts s))"

section \<open>The device store\<close>

definition nonblank_or_unknown :: "string option \<Rightarrow> string" where
  "nonblank_or_unknown v =
     (case v of None \<Rightarrow> ''unknown'' | Some x \<Rightarrow> if trim x = [] then ''unknown'' else trim x)"

text \<open>
  \<open>INSERT .. ON CONFLICT (id) DO UPDATE .. WHERE user_devices.user_id = $2\<close>: a row of another
  user with this id stays as it is, and the statement succeeds.
\<close>

definition upsert_device ::
  "auth_env \<Rightarrow> uuid \<Rightarrow> string \<Rightarrow> string option \<Rightarrow> string option \<Rightarrow> instant \<Rightarrow> auth_state \<Rightarrow> (unit \<times> auth_state) result" where
  "upsert_device ae user device_id device_name platform now s =
     (case ae_parse ae device_id of
        None \<Rightarrow> Inl (ValidationError ''device id'')
      | Some device_uuid \<Rightarrow>
          let name = nonblank_or_unknown device_name;
              platform_value = nonblank_or_unknown platform in
          if \<not> exists_row (\<lambda>a. a = user) (users (core s)) then Inl (DatabaseError ForeignKeyViolation)
          else if exists_row (\<lambda>d. ld_id d = device_uuid) (login_devices s)
          then Inr ((), s\<lparr>login_devices := update_where (\<lambda>d. ld_id d = device_uuid \<and> ld_user d = user)
                 (\<lambda>d. d\<lparr>ld_name := name, ld_platform := platform_value, ld_seen := now, ld_revoked := None\<rparr>)
                 (login_devices s)\<rparr>)
          else Inr ((), s\<lparr>login_devices := login_devices s @
                 [\<lparr>ld_id = device_uuid, ld_user = user, ld_name = name, ld_platform = platform_value,
                   ld_seen = now, ld_created = now, ld_revoked = None\<rparr>]\<rparr>))"

text \<open>\<open>ORDER BY last_seen_at DESC\<close>.\<close>

definition list_login_devices :: "uuid \<Rightarrow> auth_state \<Rightarrow> login_device list" where
  "list_login_devices user s =
     sort_key (\<lambda>d. - ld_seen d) (filter (\<lambda>d. ld_user d = user) (login_devices s))"

definition write_devices ::
  "(login_device \<Rightarrow> bool) \<Rightarrow> (login_device \<Rightarrow> login_device) \<Rightarrow> auth_state \<Rightarrow> nat \<times> auth_state" where
  "write_devices P f s =
     (rows_affected P (login_devices s), s\<lparr>login_devices := update_where P f (login_devices s)\<rparr>)"

definition revoke_login_device :: "uuid \<Rightarrow> uuid \<Rightarrow> instant \<Rightarrow> auth_state \<Rightarrow> bool \<times> auth_state" where
  "revoke_login_device user device_id now s =
     (let (n, s') = write_devices (\<lambda>d. ld_user d = user \<and> ld_id d = device_id \<and> ld_revoked d = None)
            (\<lambda>d. d\<lparr>ld_revoked := Some now\<rparr>) s
      in (n > 0, s'))"

definition revoke_all_for_user :: "uuid \<Rightarrow> instant \<Rightarrow> auth_state \<Rightarrow> nat \<times> auth_state" where
  "revoke_all_for_user user now =
     write_devices (\<lambda>d. ld_user d = user \<and> ld_revoked d = None) (\<lambda>d. d\<lparr>ld_revoked := Some now\<rparr>)"

section \<open>Settings of accounts\<close>

definition default_captcha :: "instant \<Rightarrow> captcha_setting" where
  "default_captcha now =
     \<lparr>cap_enabled = False, cap_code = [], cap_description = [], cap_required = False,
      cap_updated = now, cap_updated_by = None\<rparr>"

text \<open>The row is created at the first read.\<close>

definition get_captcha_setting :: "instant \<Rightarrow> auth_state \<Rightarrow> captcha_setting \<times> auth_state" where
  "get_captcha_setting now s =
     (case captcha s of
        Some setting \<Rightarrow> (setting, s)
      | None \<Rightarrow> (default_captcha now, s\<lparr>captcha := Some (default_captcha now)\<rparr>))"

definition upsert_captcha_setting ::
  "bool \<Rightarrow> string \<Rightarrow> string \<Rightarrow> bool \<Rightarrow> uuid option \<Rightarrow> instant \<Rightarrow> auth_state \<Rightarrow> captcha_setting \<times> auth_state" where
  "upsert_captcha_setting enabled code description required by now s =
     (let row = \<lparr>cap_enabled = enabled, cap_code = code, cap_description = description,
            cap_required = required, cap_updated = now, cap_updated_by = by\<rparr>
      in (row, s\<lparr>captcha := Some row\<rparr>))"

definition eq_ignore_ascii_case_text :: "string \<Rightarrow> string \<Rightarrow> bool" where
  "eq_ignore_ascii_case_text a b \<longleftrightarrow> to_ascii_lowercase a = to_ascii_lowercase b"

definition is_universal_captcha_code :: "string \<Rightarrow> instant \<Rightarrow> auth_state \<Rightarrow> bool \<times> auth_state" where
  "is_universal_captcha_code input now s =
     (let trimmed = trim input in
      if trimmed = [] then (False, s)
      else let (setting, s') = get_captcha_setting now s in
        (cap_enabled setting \<and> trim (cap_code setting) \<noteq> []
           \<and> eq_ignore_ascii_case_text (trim (cap_code setting)) trimmed, s'))"

definition require_captcha_for_login :: "instant \<Rightarrow> auth_state \<Rightarrow> bool \<times> auth_state" where
  "require_captcha_for_login now s =
     (let (setting, s') = get_captcha_setting now s in (cap_required setting, s'))"

definition auth_email_enabled_key :: string where
  "auth_email_enabled_key = ''auth_email_enabled''"

definition parse_bool_setting :: "string \<Rightarrow> bool" where
  "parse_bool_setting value \<longleftrightarrow>
     to_ascii_lowercase (trim value) \<in> set [''1'', ''true'', ''yes'', ''on'']"

definition is_email_auth_enabled :: "auth_state \<Rightarrow> bool" where
  "is_email_auth_enabled s =
     (case get_general_setting auth_email_enabled_key (core s) of
        None \<Rightarrow> False
      | Some r \<Rightarrow> parse_bool_setting (gs_value r))"

definition set_email_auth_enabled :: "bool \<Rightarrow> uuid option \<Rightarrow> instant \<Rightarrow> auth_state \<Rightarrow> auth_state" where
  "set_email_auth_enabled enabled by now s =
     s\<lparr>core := upsert_general_setting now auth_email_enabled_key (if enabled then ''1'' else ''0'') by (core s)\<rparr>"

definition default_account_limit :: "instant \<Rightarrow> account_limit" where
  "default_account_limit now =
     \<lparr>al_phone = False, al_email = False, al_length = True, al_min = 3, al_max = 20, al_alnum = False,
      al_updated = now, al_updated_by = None\<rparr>"

definition get_user_account_limit_setting :: "instant \<Rightarrow> auth_state \<Rightarrow> account_limit \<times> auth_state" where
  "get_user_account_limit_setting now s =
     (case limits s of
        Some l \<Rightarrow> (l, s)
      | None \<Rightarrow> (default_account_limit now, s\<lparr>limits := Some (default_account_limit now)\<rparr>))"

definition update_user_account_limit_setting ::
  "bool \<Rightarrow> bool \<Rightarrow> bool \<Rightarrow> int \<Rightarrow> int \<Rightarrow> bool \<Rightarrow> uuid option \<Rightarrow> instant \<Rightarrow> auth_state \<Rightarrow> account_limit \<times> auth_state" where
  "update_user_account_limit_setting phone email len lo hi alnum by now s =
     (let row = \<lparr>al_phone = phone, al_email = email, al_length = len, al_min = lo, al_max = hi,
            al_alnum = alnum, al_updated = now, al_updated_by = by\<rparr>
      in (row, s\<lparr>limits := Some row\<rparr>))"

section \<open>Checks of names and passwords\<close>

definition is_ascii_alphabetic :: "char \<Rightarrow> bool" where
  "is_ascii_alphabetic c \<longleftrightarrow>
     (let n = (of_char c :: nat) in (65 \<le> n \<and> n \<le> 90) \<or> (97 \<le> n \<and> n \<le> 122))"

definition is_ascii_digit :: "char \<Rightarrow> bool" where
  "is_ascii_digit c \<longleftrightarrow> (let n = (of_char c :: nat) in 48 \<le> n \<and> n \<le> 57)"

definition validate_password_length :: "string \<Rightarrow> bool" where
  "validate_password_length password \<longleftrightarrow> length password \<ge> 6"

definition validate_alphanumeric :: "string \<Rightarrow> bool" where
  "validate_alphanumeric name \<longleftrightarrow> list_ex is_ascii_alphabetic name \<and> list_ex is_ascii_digit name"

definition validate_admin_password_strength :: "string \<Rightarrow> bool" where
  "validate_admin_password_strength password \<longleftrightarrow>
     (if length password < 8 then False
      else list_ex is_ascii_alphabetic password \<and> list_ex is_ascii_digit password)"

definition phone_regex :: string where
  "phone_regex = ''^1[3-9]'' @ [char_of (92 :: nat)] @ ''d{9}$''"

definition email_regex :: string where
  "email_regex = ''^[a-zA-Z0-9._%+-]+@[a-zA-Z0-9.-]+'' @ [char_of (92 :: nat)] @ ''.[a-zA-Z]{2,}$''"

definition validate_phone_format :: "auth_env \<Rightarrow> string \<Rightarrow> bool" where
  "validate_phone_format ae phone = ae_matches ae phone_regex phone"

definition validate_email_format :: "auth_env \<Rightarrow> string \<Rightarrow> bool" where
  "validate_email_format ae email = ae_matches ae email_regex email"

text \<open>\<open>account_name.len() as i32\<close> wraps around for names of 2 GB; requests are far smaller.\<close>

definition to_i32 :: "nat \<Rightarrow> int" where
  "to_i32 n = sint (of_nat n :: 32 word)"

definition validate_username_length :: "string \<Rightarrow> int \<Rightarrow> int \<Rightarrow> bool" where
  "validate_username_length name lo hi \<longleftrightarrow> (let len = to_i32 (length name) in lo \<le> len \<and> len \<le> hi)"

definition validate_account_name :: "auth_env \<Rightarrow> string \<Rightarrow> account_limit \<Rightarrow> unit result" where
  "validate_account_name ae name limit =
     (if name = [] then Inl (ValidationError ''empty account'')
      else if al_phone limit \<and> \<not> ae_matches ae phone_regex name then Inl (ValidationError ''account is no phone number'')
      else if al_email limit \<and> \<not> validate_email_format ae name then Inl (ValidationError ''account is no email'')
      else if al_length limit \<and> (to_i32 (length name) < al_min limit \<or> to_i32 (length name) > al_max limit)
      then Inl (ValidationError ''account length'')
      else if al_alnum limit \<and> (\<not> list_ex is_ascii_alphabetic name \<or> \<not> list_ex is_ascii_digit name)
      then Inl (ValidationError ''account needs letters and digits'')
      else Inr ())"

end
