(* ===== verification/Sessions.thy ===== *)
theory Sessions
  imports Accounts Requests
begin

text \<open>
  Sessions of users: registration, the three ways to log in by password or code, the refresh
  tokens in Redis with their index per device, the list of login devices and its revocation,
  password changes and the end of an account (\<open>api/src/handlers/auth.rs\<close>,
  \<open>auth_device.rs\<close>, and the account handlers of \<open>user.rs\<close>, \<open>settings.rs\<close> and \<open>admin.rs\<close>).
  Random UUIDs, codes and passwords are arguments of a handler, as is the instant at which it
  runs.  Pushes to connected clients are left out.
\<close>

section \<open>Redis\<close>

text \<open>
  The commands the handlers send.  A key whose time has come is gone; \<open>GET\<close> of a set and
  \<open>SADD\<close> to a string are errors, as is every command when Redis does not answer.
\<close>

definition live :: "instant \<Rightarrow> string \<Rightarrow> auth_state \<Rightarrow> cache_value option" where
  "live now key s =
     (case redis s key of
        None \<Rightarrow> None
      | Some (v, None) \<Rightarrow> Some v
      | Some (v, Some e) \<Rightarrow> if now < e then Some v else None)"

definition redis_get :: "auth_env \<Rightarrow> instant \<Rightarrow> string \<Rightarrow> auth_state \<Rightarrow> cache_value option option" where
  "redis_get ae now key s =
     (if \<not> ae_redis ae then None
      else case live now key s of Some (SetValue _) \<Rightarrow> None | v \<Rightarrow> Some v)"

definition redis_set_ex :: "instant \<Rightarrow> string \<Rightarrow> cache_value \<Rightarrow> int \<Rightarrow> auth_state \<Rightarrow> auth_state" where
  "redis_set_ex now key v ttl s = s\<lparr>redis := (redis s)(key \<mapsto> (v, Some (now + seconds ttl)))\<rparr>"

definition redis_expire :: "instant \<Rightarrow> string \<Rightarrow> int \<Rightarrow> auth_state \<Rightarrow> auth_state" where
  "redis_expire now key ttl s =
     (case live now key s of
        None \<Rightarrow> s
      | Some v \<Rightarrow> s\<lparr>redis := (redis s)(key \<mapsto> (v, Some (now + seconds ttl)))\<rparr>)"

definition redis_del :: "string \<Rightarrow> auth_state \<Rightarrow> auth_state" where
  "redis_del key s = s\<lparr>redis := (redis s)(key := None)\<rparr>"

definition redis_sadd :: "instant \<Rightarrow> string \<Rightarrow> string \<Rightarrow> auth_state \<Rightarrow> auth_state option" where
  "redis_sadd now key member s =
     (case live now key s of
        None \<Rightarrow> Some (s\<lparr>redis := (redis s)(key \<mapsto> (SetValue [member], None))\<rparr>)
      | Some (SetValue ms) \<Rightarrow>
          Some (s\<lparr>redis := (redis s)(key \<mapsto> (SetValue (if member \<in> set ms then ms else ms @ [member]),
            snd (the (redis s key))))\<rparr>)
      | Some _ \<Rightarrow> None)"

definition redis_smembers :: "auth_env \<Rightarrow> instant \<Rightarrow> string \<Rightarrow> auth_state \<Rightarrow> string list option" where
  "redis_smembers ae now key s =
     (if \<not> ae_redis ae then None
      else case live now key s of
        None \<Rightarrow> Some []
      | Some (SetValue ms) \<Rightarrow> Some ms
      | Some _ \<Rightarrow> None)"

section \<open>Refresh tokens\<close>

definition refresh_token_prefix :: string where
  "refresh_token_prefix = ''auth:refresh:''"

definition refresh_token_ttl_seconds :: int where
  "refresh_token_ttl_seconds = 30 * 24 * 60 * 60"

definition refresh_key :: "string \<Rightarrow> string" where
  "refresh_key token = refresh_token_prefix @ token"

definition device_set_key :: "string \<Rightarrow> string" where
  "device_set_key device = ''auth:refresh:by-device:'' @ device"

definition sms_key :: "string \<Rightarrow> string" where
  "sms_key phone = ''auth:sms:'' @ phone"

definition resolve_device_id :: "auth_env \<Rightarrow> uuid \<Rightarrow> string option \<Rightarrow> string" where
  "resolve_device_id ae fresh payload_device =
     (case payload_device of
        None \<Rightarrow> ae_show ae fresh
      | Some v \<Rightarrow> if trim v = [] then ae_show ae fresh else trim v)"

definition register_login_device ::
  "auth_env \<Rightarrow> string \<Rightarrow> string \<Rightarrow> string option \<Rightarrow> string option \<Rightarrow> instant \<Rightarrow> auth_state \<Rightarrow> unit result \<times> auth_state" where
  "register_login_device ae user_id device_id device_name platform now =
     with_value (case ae_parse ae user_id of None \<Rightarrow> Inl (InvalidToken ''user id'') | Some u \<Rightarrow> Inr u) (\<lambda>user.
       atomically (upsert_device ae user device_id device_name platform now))"

definition generate_and_store_refresh_token ::
  "auth_env \<Rightarrow> uuid \<Rightarrow> string \<Rightarrow> bool \<Rightarrow> string option \<Rightarrow> instant \<Rightarrow> auth_state \<Rightarrow> string result \<times> auth_state" where
  "generate_and_store_refresh_token ae fresh user_id is_admin device_id now s =
     (let token = ae_show ae fresh;
          payload = \<lparr>rp_user = user_id, rp_admin = is_admin, rp_device = device_id\<rparr> in
      if \<not> ae_redis ae then (Inl (CacheError ''refresh token write''), s)
      else let s1 = redis_set_ex now (refresh_key token) (TokenValue payload) refresh_token_ttl_seconds s in
        case device_id of
          None \<Rightarrow> (Inr token, s1)
        | Some device \<Rightarrow>
            (case redis_sadd now (device_set_key device) token s1 of
               None \<Rightarrow> (Inl (CacheError ''refresh token index''), s1)
             | Some s2 \<Rightarrow> (Inr token, redis_expire now (device_set_key device) refresh_token_ttl_seconds s2)))"

section \<open>Answers\<close>

record user_info =
  ui_id :: string
  ui_name :: string
  ui_email :: string
  ui_nickname :: "string option"
  ui_signature :: "string option"
  ui_avatar_url :: "string option"
  ui_avatar_key :: "string option"
  ui_status :: user_status

definition db_user_to_api_user_info :: "auth_env \<Rightarrow> user_account \<Rightarrow> user_info" where
  "db_user_to_api_user_info ae a =
     \<lparr>ui_id = ae_show ae (ua_id a), ui_name = ua_name a, ui_email = ua_email a, ui_nickname = ua_nickname a,
      ui_signature = ua_signature a, ui_avatar_url = ua_avatar_url a, ui_avatar_key = ua_avatar_key a,
      ui_status = ua_status a\<rparr>"

record login_response =
  lr_token :: string
  lr_user :: user_info
  lr_device :: "string option"
  lr_refresh :: "string option"

text \<open>\<open>DateTime::timestamp\<close>: whole seconds.\<close>

definition timestamp :: "instant \<Rightarrow> int" where
  "timestamp t = t div 1000000"

definition user_claims :: "auth_env \<Rightarrow> user_account \<Rightarrow> string \<Rightarrow> instant \<Rightarrow> claims" where
  "user_claims ae a device_id now =
     \<lparr>cl_sub = ae_show ae (ua_id a), cl_name = ua_name a, cl_admin = False, cl_device = Some device_id,
      cl_exp = timestamp (now + hours 24), cl_iat = timestamp now\<rparr>"

definition sign_token :: "auth_env \<Rightarrow> claims \<Rightarrow> string result" where
  "sign_token ae c = (case ae_sign ae c of None \<Rightarrow> Inl (InternalError ''token'') | Some t \<Rightarrow> Inr t)"

definition internal_error :: "'a result \<times> 's \<Rightarrow> 'a result \<times> 's" where
  "internal_error r = (case r of (Inl _, s) \<Rightarrow> (Inl (InternalError ''refresh token''), s) | (Inr a, s) \<Rightarrow> (Inr a, s))"

text \<open>A store call that always succeeds and may write a default row.\<close>

definition fetching :: "('s \<Rightarrow> 'a \<times> 's) \<Rightarrow> 's \<Rightarrow> 'a result \<times> 's" where
  "fetching f s = (let (a, s') = f s in (Inr a, s'))"

text \<open>
  The end of \<open>login\<close> and \<open>login_with_sms\<close>: the device is registered, the access token signed
  and a refresh token stored.
\<close>

definition open_login_session ::
  "auth_env \<Rightarrow> uuid \<Rightarrow> user_account \<Rightarrow> string \<Rightarrow> string option \<Rightarrow> string option \<Rightarrow> instant \<Rightarrow> auth_state
    \<Rightarrow> login_response result \<times> auth_state" where
  "open_login_session ae fresh a device_id device_name platform now =
     run_then (register_login_device ae (ae_show ae (ua_id a)) device_id device_name platform now) (\<lambda>_.
     with_value (sign_token ae (user_claims ae a device_id now)) (\<lambda>token.
     run_then (\<lambda>s. internal_error
        (generate_and_store_refresh_token ae fresh (ae_show ae (ua_id a)) False (Some device_id) now s)) (\<lambda>refresh.
       answer \<lparr>lr_token = token, lr_user = db_user_to_api_user_info ae a, lr_device = Some device_id,
         lr_refresh = Some refresh\<rparr>)))"

section \<open>Password login\<close>

record login_request =
  lq_name :: string
  lq_email :: string
  lq_password :: string
  lq_device :: "string option"
  lq_device_name :: "string option"
  lq_platform :: "string option"

text \<open>\<open>fresh_device\<close> and \<open>fresh_token\<close> are the UUIDs the handler draws.\<close>

definition login ::
  "auth_env \<Rightarrow> uuid \<Rightarrow> uuid \<Rightarrow> login_request \<Rightarrow> instant \<Rightarrow> auth_state \<Rightarrow> login_response result \<times> auth_state" where
  "login ae fresh_device fresh_token req now =
     (let email = to_ascii_lowercase (trim (lq_email req));
          username = to_ascii_lowercase (trim (lq_name req));
          uses_email_login = (username = [] \<and> email \<noteq> []) in
      with_value (require (\<not> (email = [] \<and> username = [])) (ValidationError ''empty account'')) (\<lambda>_.
      query (\<lambda>s. require (uses_email_login \<longrightarrow> is_email_auth_enabled s) (ValidationError ''email login is off'')) (\<lambda>_.
      with_value (require (uses_email_login \<longrightarrow> validate_email_format ae email) (ValidationError ''email format'')) (\<lambda>_.
      query (\<lambda>s. case authenticate ae username (if uses_email_login then email else []) (lq_password req) s of
          None \<Rightarrow> Inl InvalidCredentials | Some a \<Rightarrow> Inr a) (\<lambda>a.
      with_value (require (ua_status a \<noteq> UserBanned) (Forbidden ''banned'')) (\<lambda>_.
      open_login_session ae fresh_token a (resolve_device_id ae fresh_device (lq_device req))
        (lq_device_name req) (lq_platform req) now))))))"

section \<open>Refreshing\<close>

definition refresh_token_handler ::
  "auth_env \<Rightarrow> uuid \<Rightarrow> string \<Rightarrow> instant \<Rightarrow> auth_state \<Rightarrow> login_response result \<times> auth_state" where
  "refresh_token_handler ae fresh_device raw now =
     (let token = trim raw; key = refresh_key token in
      with_value (require (token \<noteq> []) (ValidationError ''refresh_token'')) (\<lambda>_.
      query (\<lambda>s. case redis_get ae now key s of
          None \<Rightarrow> Inl (CacheError ''refresh token read'')
        | Some None \<Rightarrow> Inl (InvalidToken ''refresh token expired'')
        | Some (Some (TokenValue payload)) \<Rightarrow> Inr payload
        | Some (Some _) \<Rightarrow> Inl (InvalidToken ''refresh token'')) (\<lambda>payload.
      with_value (require (\<not> rp_admin payload) (InvalidToken ''refresh token type'')) (\<lambda>_.
      with_value (case ae_parse ae (rp_user payload) of None \<Rightarrow> Inl (InvalidToken ''user id'') | Some u \<Rightarrow> Inr u) (\<lambda>u.
      query (\<lambda>s. case find_by_id u s of None \<Rightarrow> Inl (NotFound ''user'') | Some a \<Rightarrow> Inr a) (\<lambda>a.
      with_value (require (ua_status a \<noteq> UserBanned) (Forbidden ''banned'')) (\<lambda>_.
      let device_id = (case rp_device payload of None \<Rightarrow> ae_show ae fresh_device | Some d \<Rightarrow> d) in
      run_then (register_login_device ae (ae_show ae (ua_id a)) device_id None None now) (\<lambda>_.
      with_value (sign_token ae (user_claims ae a device_id now)) (\<lambda>new_token.
      run_then (\<lambda>s. if \<not> ae_redis ae then (Inl (CacheError ''refresh token renewal''), s)
          else (Inr (), redis_expire now key refresh_token_ttl_seconds s)) (\<lambda>_.
        answer \<lparr>lr_token = new_token, lr_user = db_user_to_api_user_info ae a, lr_device = Some device_id,
          lr_refresh = Some token\<rparr>))))))))))"

section \<open>Registration\<close>

record register_payload =
  rg_name :: string
  rg_email :: string
  rg_password :: string
  rg_nickname :: "string option"

definition build_email_registration_username :: "auth_env \<Rightarrow> uuid \<Rightarrow> string" where
  "build_email_registration_username ae fresh = ''u_'' @ ae_simple ae fresh"

definition is_ascii_alphanumeric :: "char \<Rightarrow> bool" where
  "is_ascii_alphanumeric c \<longleftrightarrow> is_ascii_alphabetic c \<or> is_ascii_digit c"

definition build_account_registration_email :: "auth_env \<Rightarrow> uuid \<Rightarrow> string \<Rightarrow> string" where
  "build_account_registration_email ae fresh username =
     (let prefix = take 24 (filter (\<lambda>c. is_ascii_alphanumeric c \<or> c \<in> set ''._%+-'') username);
          prefix = (if prefix = [] then ''user'' else prefix)
      in prefix @ ''-'' @ ae_simple ae fresh @ ''@account.redcode.local'')"

text \<open>\<open>for _ in 0..3\<close>: another generated name while the last one is taken.\<close>

fun retry_username :: "auth_env \<Rightarrow> nat \<Rightarrow> (nat \<Rightarrow> uuid) \<Rightarrow> string \<Rightarrow> auth_state \<Rightarrow> string" where
  "retry_username ae 0 fresh name s = name"
| "retry_username ae (Suc n) fresh name s =
     (if \<not> username_exists name s then name
      else retry_username ae n fresh (build_email_registration_username ae (fresh n)) s)"

text \<open>\<open>fresh 3\<close> is for the first generated name and the email, \<open>fresh 0\<close> to \<open>fresh 2\<close> for the retries.\<close>

definition register ::
  "auth_env \<Rightarrow> uuid \<Rightarrow> (nat \<Rightarrow> uuid) \<Rightarrow> register_payload \<Rightarrow> instant \<Rightarrow> auth_state \<Rightarrow> user_info result \<times> auth_state" where
  "register ae user_id fresh req now =
     (let provided_email = to_ascii_lowercase (trim (rg_email req));
          password = trim (rg_password req);
          requested_username = to_ascii_lowercase (trim (rg_name req));
          uses_email = (requested_username = []);
          name0 = (if uses_email then build_email_registration_username ae (fresh 3) else requested_username) in
      with_value (require (\<not> (password = [] \<or> (requested_username = [] \<and> provided_email = [])))
        (ValidationError ''account and password'')) (\<lambda>_.
      with_value (require (\<not> length password < 6) (ValidationError ''password length'')) (\<lambda>_.
      run_then (fetching (get_user_account_limit_setting now)) (\<lambda>account_limit.
      query (\<lambda>s. require (uses_email \<longrightarrow> is_email_auth_enabled s) (ValidationError ''email registration is off'')) (\<lambda>_.
      with_value (require ((uses_email \<or> provided_email \<noteq> []) \<longrightarrow> validate_email_format ae provided_email)
        (ValidationError ''email format'')) (\<lambda>_.
      let email = (if uses_email then provided_email
                   else if provided_email = [] then build_account_registration_email ae (fresh 3) name0
                   else provided_email) in
      with_value (if uses_email then Inr () else validate_account_name ae name0 account_limit) (\<lambda>_.
      query (\<lambda>s. require (\<not> email_exists email s) (AlreadyExists ''email'')) (\<lambda>_.
      query (\<lambda>s. let name = (if uses_email then retry_username ae 3 fresh name0 s else name0) in
          if username_exists name s then Inl (AlreadyExists ''user name'') else Inr name) (\<lambda>name.
      let nickname = (case rg_nickname req of
            None \<Rightarrow> Some name
          | Some n \<Rightarrow> if trim n = [] then Some name else Some n) in
      run_then (\<lambda>s. atomically (\<lambda>s. from_sqlx (create_user ae user_id now
          \<lparr>cu_name = name, cu_email = email, cu_password = password, cu_nickname = nickname\<rparr> s)) s) (\<lambda>a.
        answer (db_user_to_api_user_info ae a)))))))))))"

section \<open>Codes by SMS\<close>

definition require_captcha_login :: "instant \<Rightarrow> auth_state \<Rightarrow> unit result \<times> auth_state" where
  "require_captcha_login now =
     run_then (fetching (require_captcha_for_login now)) (\<lambda>required.
       with_value (require required (ValidationError ''code login is off'')) answer)"

definition send_login_sms :: "auth_env \<Rightarrow> string \<Rightarrow> string \<Rightarrow> instant \<Rightarrow> auth_state \<Rightarrow> unit result \<times> auth_state" where
  "send_login_sms ae code raw_phone now =
     (let phone = trim raw_phone in
      with_value (require (phone \<noteq> []) (ValidationError ''empty phone'')) (\<lambda>_.
      run_then (require_captcha_login now) (\<lambda>_ s.
        if \<not> ae_redis ae then (Inl (CacheError ''code write''), s)
        else (Inr (), redis_set_ex now (sms_key phone) (TextValue code) 300 s))))"

text \<open>Whether the code matches the one sent, and whether it is the universal one.\<close>

definition match_code ::
  "auth_env \<Rightarrow> string \<Rightarrow> string \<Rightarrow> instant \<Rightarrow> auth_state \<Rightarrow> (bool \<times> bool) result \<times> auth_state" where
  "match_code ae phone code now =
     query (\<lambda>s. case redis_get ae now (sms_key phone) s of
         None \<Rightarrow> Inl (CacheError ''code read'')
       | Some stored \<Rightarrow> Inr (stored = Some (TextValue code))) (\<lambda>redis_matched.
     run_then (fetching (is_universal_captcha_code code now)) (\<lambda>universal_matched.
     with_value (require (redis_matched \<or> universal_matched) (ValidationError ''wrong code'')) (\<lambda>_.
       answer (redis_matched, universal_matched))))"

definition build_auto_registration_request :: "string \<Rightarrow> string \<Rightarrow> create_user_request" where
  "build_auto_registration_request password username =
     \<lparr>cu_name = username, cu_email = username @ ''@example.com'', cu_password = password,
      cu_nickname = Some username\<rparr>"

text \<open>\<open>random\<close>: the eight alphanumeric characters the generator draws.\<close>

definition build_auto_registration_password :: "string \<Rightarrow> string \<Rightarrow> string" where
  "build_auto_registration_password random username =
     (let digits = take 4 (filter is_ascii_digit username);
          prefix = (if digits = [] then ''rcim''
                    else if length digits < 4 then digits @ replicate (4 - length digits) (CHR ''0'')
                    else digits);
          p0 = prefix @ random;
          p1 = (if list_ex (\<lambda>c. is_ascii_alphabetic c \<and> ascii_lower c = c) p0 then p0 else p0 @ ''a'');
          p2 = (if list_ex (\<lambda>c. is_ascii_alphabetic c \<and> ascii_lower c \<noteq> c) p1 then p1 else p1 @ ''A'')
      in (if list_ex is_ascii_digit p2 then p2 else p2 @ ''7''))"

text \<open>The account of the number, created if there is none.\<close>

definition account_for_phone ::
  "auth_env \<Rightarrow> uuid \<Rightarrow> string \<Rightarrow> string \<Rightarrow> instant \<Rightarrow> auth_state \<Rightarrow> user_account result \<times> auth_state" where
  "account_for_phone ae user_id random phone now s =
     (case find_by_username phone s of
        Some a \<Rightarrow> if ua_status a = UserBanned then (Inl (Forbidden ''banned''), s) else (Inr a, s)
      | None \<Rightarrow>
          (case create_user ae user_id now
                  (build_auto_registration_request (build_auto_registration_password random phone) phone) s of
             Inr (a, s') \<Rightarrow> (Inr a, s')
           | Inl UniqueViolation \<Rightarrow>
               (case find_by_username phone s of
                  None \<Rightarrow> (Inl (ValidationError ''account exists and cannot log in''), s)
                | Some a \<Rightarrow> if ua_status a = UserBanned then (Inl (Forbidden ''banned''), s) else (Inr a, s))
           | Inl _ \<Rightarrow> (Inl (InternalError ''automatic registration''), s)))"

record sms_login_request =
  sl_phone :: string
  sl_code :: string
  sl_device :: "string option"
  sl_device_name :: "string option"
  sl_platform :: "string option"

definition login_with_sms ::
  "auth_env \<Rightarrow> uuid \<Rightarrow> string \<Rightarrow> uuid \<Rightarrow> uuid \<Rightarrow> sms_login_request \<Rightarrow> instant \<Rightarrow> auth_state
    \<Rightarrow> login_response result \<times> auth_state" where
  "login_with_sms ae user_id random fresh_device fresh_token req now =
     (let phone = trim (sl_phone req); code = trim (sl_code req) in
      with_value (require (\<not> (phone = [] \<or> code = [])) (ValidationError ''phone and code'')) (\<lambda>_.
      run_then (require_captcha_login now) (\<lambda>_.
      run_then (match_code ae phone code now) (\<lambda>(redis_matched, universal_matched).
      run_then (account_for_phone ae user_id random phone now) (\<lambda>a.
      run_then (\<lambda>s. if redis_matched then (Inr (), redis_del (sms_key phone) s) else (Inr (), s)) (\<lambda>_.
      open_login_session ae fresh_token a (resolve_device_id ae fresh_device (sl_device req))
        (sl_device_name req) (sl_platform req) now))))))"

definition reset_password_with_sms ::
  "auth_env \<Rightarrow> claims \<Rightarrow> string \<Rightarrow> string \<Rightarrow> string \<Rightarrow> instant \<Rightarrow> auth_state \<Rightarrow> unit result \<times> auth_state" where
  "reset_password_with_sms ae cl raw_phone raw_code raw_password now =
     (let phone = trim raw_phone; code = trim raw_code; new_password = trim raw_password in
      with_value (require (\<not> (phone = [] \<or> code = [] \<or> new_password = [])) (ValidationError ''empty field'')) (\<lambda>_.
      with_value (require (\<not> length new_password < 6) (ValidationError ''password length'')) (\<lambda>_.
      with_value (require (cl_name cl = phone) (Forbidden ''own account only'')) (\<lambda>_.
      run_then (match_code ae phone code now) (\<lambda>_.
      run_then (\<lambda>s. (Inr (), redis_del (sms_key phone) s)) (\<lambda>_.
      query (\<lambda>s. case find_by_username phone s of None \<Rightarrow> Inl (NotFound ''user'') | Some a \<Rightarrow> Inr a) (\<lambda>a.
      with_value (case ae_hash ae new_password of None \<Rightarrow> Inl (InternalError ''bcrypt'') | Some h \<Rightarrow> Inr h) (\<lambda>h.
      run_then (fetching (update_password (ua_id a) now h)) (\<lambda>_. answer ())))))))))"

section \<open>Devices\<close>

definition token_user :: "auth_env \<Rightarrow> claims \<Rightarrow> uuid result" where
  "token_user ae cl = claims_user_id (ae_parse ae (cl_sub cl))"

text \<open>A device and whether it is the one of the access token.\<close>

definition list_devices_handler ::
  "auth_env \<Rightarrow> claims \<Rightarrow> auth_state \<Rightarrow> (login_device \<times> bool) list result" where
  "list_devices_handler ae cl s =
     and_then (token_user ae cl) (\<lambda>user.
       Inr (map (\<lambda>d. (d, cl_device cl = Some (ae_show ae (ld_id d)))) (list_login_devices user s)))"

text \<open>The tokens in the index of the device, and the index, are deleted as far as Redis answers.\<close>

definition drop_device_tokens :: "auth_env \<Rightarrow> string \<Rightarrow> instant \<Rightarrow> auth_state \<Rightarrow> auth_state" where
  "drop_device_tokens ae device now s =
     (let set_key = device_set_key device;
          tokens = (case redis_smembers ae now set_key s of None \<Rightarrow> [] | Some ts \<Rightarrow> ts)
      in if \<not> ae_redis ae then s
         else redis_del set_key (fold (\<lambda>token. redis_del (refresh_key token)) tokens s))"

definition revoke_device_handler ::
  "auth_env \<Rightarrow> claims \<Rightarrow> uuid \<Rightarrow> instant \<Rightarrow> auth_state \<Rightarrow> unit result \<times> auth_state" where
  "revoke_device_handler ae cl device_id now =
     with_value (token_user ae cl) (\<lambda>user.
     run_then (fetching (revoke_login_device user device_id now)) (\<lambda>revoked.
     with_value (require revoked (NotFound ''device'')) (\<lambda>_ s.
       (Inr (), drop_device_tokens ae (ae_show ae device_id) now s))))"

section \<open>Passwords and the end of an account\<close>

definition change_password ::
  "auth_env \<Rightarrow> claims \<Rightarrow> string \<Rightarrow> string \<Rightarrow> instant \<Rightarrow> auth_state \<Rightarrow> unit result \<times> auth_state" where
  "change_password ae cl old_password new_password now =
     with_value (require (\<not> length new_password < 6) (ValidationError ''password length'')) (\<lambda>_.
     with_value (token_user ae cl) (\<lambda>user.
     query (\<lambda>s. case find_by_id user s of None \<Rightarrow> Inl (NotFound ''user'') | Some a \<Rightarrow> Inr a) (\<lambda>a.
     with_value (case ae_verify ae old_password (ua_hash a) of
         None \<Rightarrow> Inl (InternalError ''bcrypt'')
       | Some ok \<Rightarrow> require ok (ValidationError ''old password'')) (\<lambda>_.
     with_value (case ae_hash ae new_password of None \<Rightarrow> Inl (InternalError ''bcrypt'') | Some h \<Rightarrow> Inr h) (\<lambda>h.
     run_then (fetching (update_password user now h)) (\<lambda>_. answer ()))))))"

text \<open>The sessions of the connection manager and the push devices are not part of the model.\<close>

definition deactivate_me :: "auth_env \<Rightarrow> claims \<Rightarrow> instant \<Rightarrow> auth_state \<Rightarrow> unit result \<times> auth_state" where
  "deactivate_me ae cl now =
     with_value (token_user ae cl) (\<lambda>user.
     run_then (fetching (delete_user user now)) (\<lambda>deleted.
     with_value (require deleted (NotFound ''user'')) (\<lambda>_.
     run_then (fetching (revoke_all_for_user user now)) (\<lambda>_. answer ()))))"

text \<open>
  The administrator's deletion and status change; their refusals are no errors of the
  application, so their answer is a flag, or the HTTP status.
\<close>

definition admin_delete_user :: "auth_env \<Rightarrow> string \<Rightarrow> instant \<Rightarrow> auth_state \<Rightarrow> bool result \<times> auth_state" where
  "admin_delete_user ae raw now =
     with_value (case ae_parse ae raw of None \<Rightarrow> Inl (ValidationError ''user id'') | Some u \<Rightarrow> Inr u) (\<lambda>u.
       fetching (write_accounts (\<lambda>a. ua_id a = u \<and> ua_deleted a = None) (\<lambda>a. a\<lparr>ua_deleted := Some now\<rparr>)))"

definition parse_user_status :: "string \<Rightarrow> user_status option" where
  "parse_user_status v =
     (if v = ''active'' then Some UserActive else if v = ''inactive'' then Some UserInactive
      else if v = ''banned'' then Some UserBanned else None)"

definition admin_update_user_status ::
  "auth_env \<Rightarrow> string \<Rightarrow> string \<Rightarrow> instant \<Rightarrow> auth_state \<Rightarrow> (nat + unit) \<times> auth_state" where
  "admin_update_user_status ae raw status now s =
     (case ae_parse ae raw of
        None \<Rightarrow> (Inl 400, s)
      | Some u \<Rightarrow>
          (case parse_user_status status of
             None \<Rightarrow> (Inl 400, s)
           | Some st \<Rightarrow>
               (case find_by_id_any_status u s of
                  None \<Rightarrow> (Inl 404, s)
                | Some _ \<Rightarrow>
                    (let (updated, s') = update_user_status u now st s in
                     if updated then (Inr (), s') else (Inl 404, s')))))"

end
