(* ===== verification/QrLogin.thy ===== *)
theory QrLogin
  imports Sessions
begin

text \<open>
  Login by QR code (\<open>api/src/database/qr_login_store.rs\<close>, \<open>api/src/handlers/qr_login.rs\<close>): a
  computer creates a session and polls it, a telephone that is logged in confirms it, and the
  computer gets a refresh token of the telephone's user as its login code.  What is pushed to
  the sockets that wait for the session is the answer of a handler here, since it carries the
  login code.
\<close>

section \<open>The store\<close>

definition qr_ttl_minutes :: int where
  "qr_ttl_minutes = 5"

definition qr_create :: "uuid \<Rightarrow> int \<Rightarrow> instant \<Rightarrow> auth_state \<Rightarrow> (uuid \<times> instant) \<times> auth_state" where
  "qr_create token ttl now s =
     ((token, now + minutes ttl),
      s\<lparr>qr_sessions := qr_sessions s @
        [\<lparr>qs_token = token, qs_user = None, qs_status = QrPending, qs_code = None,
          qs_expires = now + minutes ttl, qs_created = now, qs_confirmed = None, qs_cancelled = None\<rparr>]\<rparr>)"

definition qr_get :: "uuid \<Rightarrow> auth_state \<Rightarrow> qr_session option" where
  "qr_get token s = fetch_optional (\<lambda>q. qs_token q = token) (qr_sessions s)"

definition write_qr :: "(qr_session \<Rightarrow> bool) \<Rightarrow> (qr_session \<Rightarrow> qr_session) \<Rightarrow> auth_state \<Rightarrow> bool \<times> auth_state" where
  "write_qr P f s = (rows_affected P (qr_sessions s) > 0, s\<lparr>qr_sessions := update_where P f (qr_sessions s)\<rparr>)"

definition qr_confirm :: "uuid \<Rightarrow> uuid \<Rightarrow> string \<Rightarrow> instant \<Rightarrow> auth_state \<Rightarrow> bool \<times> auth_state" where
  "qr_confirm token user login_code now =
     write_qr (\<lambda>q. qs_token q = token \<and> qs_status q = QrPending \<and> qs_expires q > now)
       (\<lambda>q. q\<lparr>qs_status := QrConfirmed, qs_user := Some user, qs_code := Some login_code,
          qs_confirmed := Some now\<rparr>)"

text \<open>\<open>consume_login_code\<close> reads the code in one statement and clears it in another.\<close>

definition qr_read_code :: "uuid \<Rightarrow> auth_state \<Rightarrow> string option" where
  "qr_read_code token s =
     (case fetch_optional (\<lambda>q. qs_token q = token \<and> qs_status q = QrConfirmed \<and> qs_code q \<noteq> None)
        (qr_sessions s) of
        None \<Rightarrow> None
      | Some q \<Rightarrow> qs_code q)"

definition qr_clear_code :: "uuid \<Rightarrow> auth_state \<Rightarrow> auth_state" where
  "qr_clear_code token s = snd (write_qr (\<lambda>q. qs_token q = token) (\<lambda>q. q\<lparr>qs_code := None\<rparr>) s)"

definition consume_login_code :: "uuid \<Rightarrow> auth_state \<Rightarrow> string option \<times> auth_state" where
  "consume_login_code token s =
     (let code = qr_read_code token s in
      if code \<noteq> None then (code, qr_clear_code token s) else (code, s))"

definition qr_cancel :: "uuid \<Rightarrow> instant \<Rightarrow> auth_state \<Rightarrow> bool \<times> auth_state" where
  "qr_cancel token now =
     write_qr (\<lambda>q. qs_token q = token \<and> qs_status q = QrPending)
       (\<lambda>q. q\<lparr>qs_status := QrCancelled, qs_cancelled := Some now\<rparr>)"

definition mark_expired_if_needed :: "uuid \<Rightarrow> instant \<Rightarrow> auth_state \<Rightarrow> auth_state" where
  "mark_expired_if_needed token now s =
     snd (write_qr (\<lambda>q. qs_token q = token \<and> qs_status q = QrPending \<and> qs_expires q \<le> now)
       (\<lambda>q. q\<lparr>qs_status := QrExpired\<rparr>) s)"

section \<open>The handlers\<close>

definition create_qr_session :: "uuid \<Rightarrow> instant \<Rightarrow> auth_state \<Rightarrow> (uuid \<times> instant) result \<times> auth_state" where
  "create_qr_session fresh now = fetching (qr_create fresh qr_ttl_minutes now)"

definition qr_session_or_not_found :: "uuid \<Rightarrow> auth_state \<Rightarrow> qr_session result" where
  "qr_session_or_not_found qr_id s = (case qr_get qr_id s of None \<Rightarrow> Inl (NotFound ''session'') | Some q \<Rightarrow> Inr q)"

definition get_qr_session :: "uuid \<Rightarrow> instant \<Rightarrow> auth_state \<Rightarrow> (qr_status \<times> string option) result \<times> auth_state" where
  "get_qr_session qr_id now =
     query (qr_session_or_not_found qr_id) (\<lambda>record s.
       if qs_status record = QrPending \<and> qs_expires record \<le> now
       then (Inr (QrExpired, None), mark_expired_if_needed qr_id now s)
       else if qs_status record = QrConfirmed
       then (let (login_code, s') = consume_login_code qr_id s in
             if login_code \<noteq> None then (Inr (QrConfirmed, login_code), s') else (Inr (QrExpired, None), s'))
       else (Inr (qs_status record, None), s))"

type_synonym qr_push = "uuid \<times> qr_status \<times> string option"

definition confirm_qr_session ::
  "auth_env \<Rightarrow> uuid \<Rightarrow> uuid \<Rightarrow> claims \<Rightarrow> uuid \<Rightarrow> string option \<Rightarrow> string option \<Rightarrow> instant \<Rightarrow> auth_state
    \<Rightarrow> qr_push result \<times> auth_state" where
  "confirm_qr_session ae fresh_device fresh_token cl qr_id device_name platform now =
     with_value (token_user ae cl) (\<lambda>user.
     query (qr_session_or_not_found qr_id) (\<lambda>record.
     with_value (require (qs_status record = QrPending) (BusinessError ''session already handled'')) (\<lambda>_.
     run_then (\<lambda>s. if qs_expires record \<le> now
         then (Inl (BusinessError ''session expired''), mark_expired_if_needed qr_id now s) else (Inr (), s)) (\<lambda>_.
     let device_id = ae_show ae fresh_device in
     run_then (register_login_device ae (ae_show ae user) device_id device_name platform now) (\<lambda>_.
     run_then (generate_and_store_refresh_token ae fresh_token (ae_show ae user) False (Some device_id) now) (\<lambda>login_code.
     run_then (fetching (qr_confirm qr_id user login_code now)) (\<lambda>confirmed.
     with_value (require confirmed (BusinessError ''session already handled'')) (\<lambda>_.
       answer (qr_id, QrConfirmed, Some login_code)))))))))"

definition cancel_qr_session :: "uuid \<Rightarrow> instant \<Rightarrow> auth_state \<Rightarrow> qr_push result \<times> auth_state" where
  "cancel_qr_session qr_id now =
     run_then (fetching (qr_cancel qr_id now)) (\<lambda>cancelled.
     with_value (require cancelled (BusinessError ''session already handled'')) (\<lambda>_.
       answer (qr_id, QrCancelled, None)))"

end
