(* ===== verification/AdminAuth.thy ===== *)
theory AdminAuth
  imports Sessions
begin

text \<open>
  Administrators: \<open>AdminUserStore\<close> of \<open>api/src/handlers/admin.rs\<close>, the handlers for them in
  \<open>api/src/handlers/auth.rs\<close>, and the two middlewares of \<open>api/src/auth/mod.rs\<close>.  The login
  history is only written and is left out, as are the roles and permissions of the answer.
\<close>

section \<open>Middlewares\<close>

definition verify_token :: "auth_env \<Rightarrow> instant \<Rightarrow> string \<Rightarrow> claims option" where
  "verify_token ae now token = ae_decode ae now token"

text \<open>The claims a request goes on with, or the HTTP status that ends it.\<close>

definition auth_middleware :: "auth_env \<Rightarrow> instant \<Rightarrow> string option \<Rightarrow> nat + claims" where
  "auth_middleware ae now header =
     (case header of
        None \<Rightarrow> Inl 401
      | Some h \<Rightarrow>
          (case strip_prefix ''Bearer '' h of
             None \<Rightarrow> Inl 401
           | Some token \<Rightarrow> (case verify_token ae now token of Some cl \<Rightarrow> Inr cl | None \<Rightarrow> Inl 401)))"

definition admin_only_middleware :: "claims option \<Rightarrow> nat + unit" where
  "admin_only_middleware cl = (if (case cl of None \<Rightarrow> False | Some c \<Rightarrow> cl_admin c) then Inr () else Inl 403)"

text \<open>The cost of a password hash; 12 is \<open>bcrypt::DEFAULT_COST\<close>.\<close>

definition parse_password_hash_cost :: "string option \<Rightarrow> nat" where
  "parse_password_hash_cost raw =
     (case raw of
        None \<Rightarrow> 12
      | Some value \<Rightarrow>
          (case parse_unsigned 32 (trim value) of
             None \<Rightarrow> 12
           | Some cost \<Rightarrow> if 4 \<le> cost \<and> cost \<le> 14 then cost else 12))"

definition password_hash_cost :: "(string \<Rightarrow> string option) \<Rightarrow> nat" where
  "password_hash_cost env =
     parse_password_hash_cost (case env ''BCRYPT_COST'' of
       Some v \<Rightarrow> Some v | None \<Rightarrow> env ''PASSWORD_HASH_COST'')"

lemma password_hash_cost_range: "4 \<le> password_hash_cost env \<and> password_hash_cost env \<le> 14"
  by (auto simp: password_hash_cost_def parse_password_hash_cost_def split: option.splits)

section \<open>The store\<close>

definition find_admin_by_username :: "string \<Rightarrow> auth_state \<Rightarrow> admin_account option" where
  "find_admin_by_username name s =
     fetch_optional (\<lambda>a. ad_name a = name \<and> ad_deleted a = None) (admin_accounts s)"

definition find_admin_by_id :: "uuid \<Rightarrow> auth_state \<Rightarrow> admin_account option" where
  "find_admin_by_id i s = fetch_optional (\<lambda>a. ad_id a = i \<and> ad_deleted a = None) (admin_accounts s)"

definition write_admins ::
  "(admin_account \<Rightarrow> bool) \<Rightarrow> (admin_account \<Rightarrow> admin_account) \<Rightarrow> auth_state \<Rightarrow> auth_state" where
  "write_admins P f s = s\<lparr>admin_accounts := update_where P f (admin_accounts s)\<rparr>"

text \<open>\<open>login_attempts\<close> is a \<open>SMALLINT\<close>: PostgreSQL refuses the addition beyond 32767.\<close>

definition record_login_failure :: "uuid \<Rightarrow> instant \<Rightarrow> auth_state \<Rightarrow> (unit \<times> auth_state) result" where
  "record_login_failure i now s =
     (if exists_row (\<lambda>a. ad_id a = i \<and> ad_attempts a \<ge> 32767) (admin_accounts s)
      then Inl (DatabaseError (ProtocolError ''smallint out of range''))
      else Inr ((), write_admins (\<lambda>a. ad_id a = i)
        (\<lambda>a. a\<lparr>ad_attempts := ad_attempts a + 1, ad_updated := now\<rparr>) s))"

definition update_login_info :: "uuid \<Rightarrow> instant \<Rightarrow> auth_state \<Rightarrow> auth_state" where
  "update_login_info i now =
     write_admins (\<lambda>a. ad_id a = i)
       (\<lambda>a. a\<lparr>ad_last_login := Some now, ad_attempts := 0, ad_locked_until := None, ad_updated := now\<rparr>)"

definition authenticate_admin ::
  "auth_env \<Rightarrow> string \<Rightarrow> string \<Rightarrow> instant \<Rightarrow> auth_state \<Rightarrow> admin_account option result \<times> auth_state" where
  "authenticate_admin ae name password now s =
     (case find_admin_by_username name s of
        None \<Rightarrow> (Inr None, s)
      | Some a \<Rightarrow>
          (case ae_verify ae password (ad_hash a) of
             None \<Rightarrow> (Inl (InternalError ''bcrypt''), s)
           | Some False \<Rightarrow> run_then (atomically (record_login_failure (ad_id a) now)) (\<lambda>_. answer None) s
           | Some True \<Rightarrow> (Inr (Some a), s)))"

definition admin_clashes :: "string \<Rightarrow> string \<Rightarrow> auth_state \<Rightarrow> bool" where
  "admin_clashes name email s \<longleftrightarrow> exists_row (\<lambda>a. ad_name a = name \<or> ad_email a = email) (admin_accounts s)"

definition new_admin :: "uuid \<Rightarrow> string \<Rightarrow> string \<Rightarrow> string \<Rightarrow> string option \<Rightarrow> instant \<Rightarrow> admin_account" where
  "new_admin i name email hash nickname now =
     \<lparr>ad_id = i, ad_name = name, ad_email = email, ad_hash = hash, ad_nickname = nickname, ad_avatar_url = None,
      ad_status = AdminActive, ad_last_login = None, ad_attempts = 0, ad_locked_until = None,
      ad_change_required = False, ad_password_changed = now, ad_created = now, ad_updated = now, ad_deleted = None\<rparr>"

definition insert_admin :: "admin_account \<Rightarrow> auth_state \<Rightarrow> (admin_account \<times> auth_state) result" where
  "insert_admin a s =
     (if char_count (ad_name a) > 50 \<or> char_count (ad_email a) > 100
         \<or> (case ad_nickname a of None \<Rightarrow> False | Some n \<Rightarrow> char_count n > 100)
      then Inl (DatabaseError ValueTooLong)
      else if admin_clashes (ad_name a) (ad_email a) s then Inl (DatabaseError UniqueViolation)
      else Inr (a, s\<lparr>admin_accounts := admin_accounts s @ [a]\<rparr>))"

definition create_admin_user ::
  "auth_env \<Rightarrow> uuid \<Rightarrow> string \<Rightarrow> string \<Rightarrow> string \<Rightarrow> string option \<Rightarrow> instant \<Rightarrow> auth_state
    \<Rightarrow> (admin_account \<times> auth_state) result" where
  "create_admin_user ae i name email password nickname now s =
     (case ae_hash ae password of
        None \<Rightarrow> Inl (InternalError ''bcrypt'')
      | Some h \<Rightarrow> insert_admin (new_admin i name email h nickname now) s)"

definition update_admin_user ::
  "uuid \<Rightarrow> string option \<Rightarrow> string option \<Rightarrow> instant \<Rightarrow> auth_state \<Rightarrow> admin_account option \<times> auth_state" where
  "update_admin_user i nickname avatar now s =
     (let f = (\<lambda>a. a\<lparr>ad_nickname := keep_or (ad_nickname a) nickname, ad_avatar_url := keep_or (ad_avatar_url a) avatar,
            ad_updated := now\<rparr>)
      in (map_option f (find_admin_by_id i s), write_admins (\<lambda>a. ad_id a = i \<and> ad_deleted a = None) f s))"

definition update_admin_password :: "uuid \<Rightarrow> string \<Rightarrow> instant \<Rightarrow> auth_state \<Rightarrow> bool \<times> auth_state" where
  "update_admin_password i h now s =
     (find_admin_by_id i s \<noteq> None,
      write_admins (\<lambda>a. ad_id a = i \<and> ad_deleted a = None)
        (\<lambda>a. a\<lparr>ad_hash := h, ad_password_changed := now, ad_updated := now\<rparr>) s)"

section \<open>The handlers\<close>

record admin_session =
  as_token :: string
  as_admin :: admin_account
  as_refresh :: string

definition admin_claims :: "auth_env \<Rightarrow> admin_account \<Rightarrow> instant \<Rightarrow> claims" where
  "admin_claims ae a now =
     \<lparr>cl_sub = ae_show ae (ad_id a), cl_name = ad_name a, cl_admin = True, cl_device = None,
      cl_exp = timestamp (now + hours 8), cl_iat = timestamp now\<rparr>"

definition issue_admin_session_response ::
  "auth_env \<Rightarrow> uuid \<Rightarrow> admin_account \<Rightarrow> instant \<Rightarrow> auth_state \<Rightarrow> admin_session result \<times> auth_state" where
  "issue_admin_session_response ae fresh a now =
     with_value (sign_token ae (admin_claims ae a now)) (\<lambda>token.
     run_then (\<lambda>s. internal_error
        (generate_and_store_refresh_token ae fresh (ae_show ae (ad_id a)) True None now s)) (\<lambda>refresh.
       answer \<lparr>as_token = token, as_admin = a, as_refresh = refresh\<rparr>))"

definition admin_login ::
  "auth_env \<Rightarrow> uuid \<Rightarrow> string \<Rightarrow> string \<Rightarrow> instant \<Rightarrow> auth_state \<Rightarrow> admin_session result \<times> auth_state" where
  "admin_login ae fresh name password now =
     with_value (require (\<not> (trim name = [] \<or> trim password = [])) (ValidationError ''user name and password'')) (\<lambda>_.
     run_then (authenticate_admin ae name password now) (\<lambda>found.
     with_value (case found of None \<Rightarrow> Inl InvalidCredentials | Some a \<Rightarrow> Inr a) (\<lambda>a.
     with_value (require (ad_status a = AdminActive) (Forbidden ''disabled or locked'')) (\<lambda>_.
     with_value (require (\<not> (case ad_locked_until a of None \<Rightarrow> False | Some l \<Rightarrow> l > now)) (Forbidden ''locked for a while'')) (\<lambda>_.
     run_then (\<lambda>s. (Inr (), update_login_info (ad_id a) now s)) (\<lambda>_.
       issue_admin_session_response ae fresh a now))))))"

definition admin_refresh_token ::
  "auth_env \<Rightarrow> string \<Rightarrow> instant \<Rightarrow> auth_state \<Rightarrow> admin_session result \<times> auth_state" where
  "admin_refresh_token ae raw now =
     (let token = trim raw; key = refresh_key token in
      with_value (require (token \<noteq> []) (ValidationError ''refresh_token'')) (\<lambda>_.
      query (\<lambda>s. case redis_get ae now key s of
          None \<Rightarrow> Inl (CacheError ''refresh token read'')
        | Some None \<Rightarrow> Inl (InvalidToken ''refresh token expired'')
        | Some (Some (TokenValue payload)) \<Rightarrow> Inr payload
        | Some (Some _) \<Rightarrow> Inl (InvalidToken ''refresh token'')) (\<lambda>payload.
      with_value (require (rp_admin payload) (InvalidToken ''refresh token type'')) (\<lambda>_.
      with_value (case ae_parse ae (rp_user payload) of None \<Rightarrow> Inl (InvalidToken ''user id'') | Some u \<Rightarrow> Inr u) (\<lambda>i.
      query (\<lambda>s. case find_admin_by_id i s of None \<Rightarrow> Inl (NotFound ''administrator'') | Some a \<Rightarrow> Inr a) (\<lambda>a.
      with_value (require (\<not> (ad_status a = AdminBanned \<or> ad_status a = AdminLocked)) (Forbidden ''banned'')) (\<lambda>_.
      with_value (sign_token ae (admin_claims ae a now)) (\<lambda>new_token.
      run_then (\<lambda>s. if \<not> ae_redis ae then (Inl (CacheError ''refresh token renewal''), s)
          else (Inr (), redis_expire now key refresh_token_ttl_seconds s)) (\<lambda>_.
        answer \<lparr>as_token = new_token, as_admin = a, as_refresh = token\<rparr>)))))))))"

definition count_active_admin_users :: "auth_state \<Rightarrow> nat" where
  "count_active_admin_users s = rows_affected (\<lambda>a. ad_deleted a = None) (admin_accounts s)"

definition get_admin_bootstrap_status :: "auth_state \<Rightarrow> bool" where
  "get_admin_bootstrap_status s \<longleftrightarrow> count_active_admin_users s = 0"

definition build_bootstrap_admin_email :: "auth_env \<Rightarrow> uuid \<Rightarrow> string \<Rightarrow> string" where
  "build_bootstrap_admin_email ae fresh username =
     (let local_part = filter (\<lambda>c. is_ascii_alphanumeric c \<or> c \<in> set ''._-'') (to_ascii_lowercase (trim username));
          local_part = (if local_part = [] then ''admin-'' @ ae_simple ae fresh else local_part)
      in local_part @ ''@bootstrap.redcode-im.local'')"

text \<open>\<open>super_role\<close>: the row of \<open>roles\<close> with the code \<open>super_admin\<close>, if it exists.\<close>

definition bootstrap_transaction ::
  "auth_env \<Rightarrow> uuid \<Rightarrow> uuid \<Rightarrow> uuid option \<Rightarrow> string \<Rightarrow> string \<Rightarrow> string option \<Rightarrow> instant \<Rightarrow> auth_state
    \<Rightarrow> (admin_account \<times> auth_state) result" where
  "bootstrap_transaction ae i fresh super_role username password display_name now s =
     (if count_active_admin_users s > 0 then Inl (AlreadyExists ''administrator'')
      else if find_admin_by_username username s \<noteq> None then Inl (AlreadyExists ''user name'')
      else case ae_hash ae password of
        None \<Rightarrow> Inl (InternalError ''bcrypt'')
      | Some h \<Rightarrow>
          and_then (insert_admin (new_admin i username (build_bootstrap_admin_email ae fresh username) h
              (Some (case display_name of None \<Rightarrow> username | Some n \<Rightarrow> n)) now) s) (\<lambda>(a, s').
          case super_role of
            None \<Rightarrow> Inl (InternalError ''no super_admin role'')
          | Some r \<Rightarrow> Inr (a, s'\<lparr>admin_roles := admin_roles s' @ [(i, r)]\<rparr>)))"

definition bootstrap_admin ::
  "auth_env \<Rightarrow> uuid \<Rightarrow> uuid \<Rightarrow> uuid \<Rightarrow> uuid option \<Rightarrow> string \<Rightarrow> string \<Rightarrow> string option \<Rightarrow> instant \<Rightarrow> auth_state
    \<Rightarrow> admin_session result \<times> auth_state" where
  "bootstrap_admin ae i fresh_email fresh_token super_role raw_name raw_password raw_display now =
     (let username = trim raw_name; password = trim raw_password;
          display_name = (case raw_display of None \<Rightarrow> None | Some v \<Rightarrow> if trim v = [] then None else Some (trim v)) in
      with_value (require (\<not> (username = [] \<or> password = [])) (ValidationError ''user name and password'')) (\<lambda>_.
      with_value (require (\<not> length username < 3) (ValidationError ''user name length'')) (\<lambda>_.
      with_value (require (\<not> length password < 8) (ValidationError ''password length'')) (\<lambda>_.
      run_then (atomically (bootstrap_transaction ae i fresh_email super_role username password display_name now)) (\<lambda>a.
      run_then (\<lambda>s. (Inr (), update_login_info (ad_id a) now s)) (\<lambda>_.
      query (\<lambda>s. case find_admin_by_id (ad_id a) s of None \<Rightarrow> Inl (InternalError ''administrator'') | Some b \<Rightarrow> Inr b) (\<lambda>b.
        issue_admin_session_response ae fresh_token b now)))))))"

definition change_current_admin_password ::
  "auth_env \<Rightarrow> claims \<Rightarrow> string \<Rightarrow> instant \<Rightarrow> auth_state \<Rightarrow> unit result \<times> auth_state" where
  "change_current_admin_password ae cl new_password now =
     with_value (token_user ae cl) (\<lambda>i.
     with_value (require (\<not> length new_password < 8) (ValidationError ''password length'')) (\<lambda>_.
     with_value (require (list_ex is_ascii_alphabetic new_password \<and> list_ex is_ascii_digit new_password)
       (ValidationError ''letters and digits'')) (\<lambda>_.
     with_value (case ae_hash ae new_password of None \<Rightarrow> Inl (InternalError ''bcrypt'') | Some h \<Rightarrow> Inr h) (\<lambda>h.
     run_then (fetching (update_admin_password i h now)) (\<lambda>updated.
     with_value (require updated (InternalError ''password'')) (\<lambda>_. answer ()))))))"

definition update_current_admin_user ::
  "auth_env \<Rightarrow> claims \<Rightarrow> string option \<Rightarrow> string option \<Rightarrow> instant \<Rightarrow> auth_state \<Rightarrow> admin_account result \<times> auth_state" where
  "update_current_admin_user ae cl nickname avatar now =
     with_value (token_user ae cl) (\<lambda>i.
     run_then (fetching (update_admin_user i nickname avatar now)) (\<lambda>updated.
     with_value (case updated of None \<Rightarrow> Inl (NotFound ''administrator'') | Some a \<Rightarrow> Inr a) answer))"

end
