(* ===== verification/SessionProperties.thy ===== *)
theory SessionProperties
  imports QrLogin AdminAuth
begin

text \<open>
  What the sessions guarantee.  The machine \<open>run_accounts\<close> serves any requests of users,
  administrators and anonymous computers at any instants, with Redis answering or not; the
  invariants of the cache are shown one handler at a time with the rules for \<open>keeps\<close>.
\<close>

section \<open>Requests\<close>






section \<open>Handlers and the cache\<close>




lemma redis_unchanged [simp]:
  "redis (snd (write_accounts P f s)) = redis s" "redis (snd (write_devices P' g s)) = redis s"
  "redis (snd (write_qr Q h s)) = redis s" "redis (write_admins R k s) = redis s"
  "redis (snd (get_captcha_setting now s)) = redis s"
  "redis (snd (get_user_account_limit_setting now s)) = redis s"
  by (simp_all add: write_accounts_def write_devices_def write_qr_def write_admins_def
      get_captcha_setting_def get_user_account_limit_setting_def split: option.splits)

lemma redis_unchanged_calls [simp]:
  "redis (snd (update_password u now h s)) = redis s" "redis (snd (delete_user u now s)) = redis s"
  "redis (snd (update_user_status u now st s)) = redis s"
  "redis (snd (revoke_login_device u d now s)) = redis s" "redis (snd (revoke_all_for_user u now s)) = redis s"
  "redis (snd (require_captcha_for_login now s)) = redis s"
  "redis (snd (is_universal_captcha_code code now s)) = redis s"
  "redis (snd (qr_create q ttl now s)) = redis s" "redis (snd (qr_confirm q u code now s)) = redis s"
  "redis (snd (qr_cancel q now s)) = redis s" "redis (mark_expired_if_needed q now s) = redis s"
  "redis (qr_clear_code q s) = redis s" "redis (snd (consume_login_code q s)) = redis s"
  "redis (snd (update_admin_password i h now s)) = redis s" "redis (update_login_info i now s) = redis s"
  "redis (snd (upsert_captcha_setting a b c e by now s)) = redis s"
  by (simp_all add: update_password_def delete_user_def update_user_status_def revoke_login_device_def
      revoke_all_for_user_def require_captcha_for_login_def is_universal_captcha_code_def qr_create_def
      qr_confirm_def qr_cancel_def mark_expired_if_needed_def qr_clear_code_def consume_login_code_def
      update_admin_password_def update_login_info_def upsert_captcha_setting_def Let_def case_prod_beta)

lemma upsert_device_redis: "upsert_device ae u d n p now s = Inr (x, s') \<Longrightarrow> redis s' = redis s"
  by (auto simp: upsert_device_def Let_def split: option.splits if_splits)



lemma insert_admin_redis: "insert_admin a s = Inr (x, s') \<Longrightarrow> redis s' = redis s"
  by (auto simp: insert_admin_def split: if_splits)



section \<open>The index of a device\<close>

text \<open>
  What is documented of the text of a UUID: it is read back as the UUID, and it is made of
  hexadecimal digits and hyphens, so it does not begin with the letters of the index keys
  and is left as it is by \<open>trim\<close>.
\<close>

definition uuid_texts :: "auth_env \<Rightarrow> bool" where
  "uuid_texts ae \<longleftrightarrow> (\<forall>u. ae_parse ae (ae_show ae u) = Some u) \<and> (\<forall>u y. ae_show ae u \<noteq> ''by-device:'' @ y)
     \<and> (\<forall>u. trim (ae_show ae u) = ae_show ae u \<and> ae_show ae u \<noteq> [])"

lemma uuid_texts_inj: "uuid_texts ae \<Longrightarrow> ae_show ae u = ae_show ae v \<longleftrightarrow> u = v"
  by (metis option.inject uuid_texts_def)

lemma key_inject [simp]:
  "refresh_key t = refresh_key t' \<longleftrightarrow> t = t'" "device_set_key d = device_set_key d' \<longleftrightarrow> d = d'"
  by (simp_all add: refresh_key_def device_set_key_def)

lemma keys_apart [simp]:
  "sms_key p \<noteq> refresh_key t" "refresh_key t \<noteq> sms_key p" "sms_key p \<noteq> device_set_key d" "device_set_key d \<noteq> sms_key p"
  by (simp_all add: sms_key_def refresh_key_def refresh_token_prefix_def device_set_key_def)

lemma refresh_key_of_device: "refresh_key t = device_set_key d \<longleftrightarrow> t = ''by-device:'' @ d"
  by (simp add: refresh_key_def refresh_token_prefix_def device_set_key_def)

definition no_index :: "string \<Rightarrow> bool" where
  "no_index t \<longleftrightarrow> (\<forall>y. t \<noteq> ''by-device:'' @ y)"

lemma no_index_keys: "no_index t \<Longrightarrow> refresh_key t \<noteq> device_set_key d" "no_index t \<Longrightarrow> device_set_key d \<noteq> refresh_key t"
  by (auto simp: no_index_def refresh_key_of_device dest: sym)

text \<open>What storing a token does to the cache.\<close>

lemma generate_cases:
  fixes ae :: auth_env and up :: bool and now :: instant
  defines "tok \<equiv> \<lambda>ft. ae_show ae ft" and "x \<equiv> now + seconds refresh_token_ttl_seconds"
  assumes g: "generate_and_store_refresh_token (ae\<lparr>ae_redis := up\<rparr>) ft u adm dev now s = (r, s')"
    and n: "no_index (ae_show ae ft)"
  obtains (off) e where "s' = s" "r = Inl e"
    | (token) p where "redis s' = (redis s)(refresh_key (tok ft) \<mapsto> (TokenValue p, Some x))" "dev = None \<or> (\<exists>e. r = Inl e)"
    | (indexed) p d ms where "r = Inr (tok ft)" "dev = Some d"
      "p = \<lparr>rp_user = u, rp_admin = adm, rp_device = dev\<rparr>"
      "redis s' = (redis s)(refresh_key (tok ft) \<mapsto> (TokenValue p, Some x),
          device_set_key d \<mapsto> (SetValue ms, Some x))"
      "ms = (case live now (device_set_key d) s of
          Some (SetValue old) \<Rightarrow> if tok ft \<in> set old then old else old @ [tok ft] | _ \<Rightarrow> [tok ft])"
proof (cases up)
  case False
  then show thesis using g off by (auto simp: generate_and_store_refresh_token_def Let_def)
next
  case True
  define p where "p = \<lparr>rp_user = u, rp_admin = adm, rp_device = dev\<rparr>"
  define s1 where "s1 = redis_set_ex now (refresh_key (tok ft)) (TokenValue p) refresh_token_ttl_seconds s"
  have s1: "redis s1 = (redis s)(refresh_key (tok ft) \<mapsto> (TokenValue p, Some x))"
    by (simp add: s1_def redis_set_ex_def x_def)
  show thesis
  proof (cases dev)
    case None
    then have "s' = s1" using g True by (simp add: generate_and_store_refresh_token_def s1_def p_def tok_def Let_def)
    then show thesis using token s1 None by simp
  next
    case (Some d)
    let ?K = "device_set_key d"
    have other: "redis s1 ?K = redis s ?K" using no_index_keys(2) [OF n] by (simp add: s1 tok_def)
    then have l: "live now ?K s1 = live now ?K s" by (simp add: live_def)
    show thesis
    proof (cases "redis_sadd now ?K (tok ft) s1")
      case None
      then have "s' = s1" "\<exists>e. r = Inl e"
        using g True Some \<open>dev = Some d\<close>
        by (auto simp: generate_and_store_refresh_token_def s1_def p_def tok_def Let_def)
      then show thesis using token s1 by simp
    next
      case (Some s2)
      define ms where "ms = (case live now ?K s of
          Some (SetValue old) \<Rightarrow> if tok ft \<in> set old then old else old @ [tok ft] | _ \<Rightarrow> [tok ft])"
      have s2: "\<exists>y. redis s2 = (redis s1)(?K \<mapsto> (SetValue ms, y)) \<and> (\<forall>i. y = Some i \<longrightarrow> now < i)"
        using Some l other by (auto simp: redis_sadd_def ms_def live_def split: option.splits cache_value.splits if_splits)
      then have "live now ?K s2 = Some (SetValue ms)" by (auto simp: live_def split: option.splits)
      then have "redis (redis_expire now ?K refresh_token_ttl_seconds s2) = (redis s1)(?K \<mapsto> (SetValue ms, Some x))"
        using s2 by (auto simp: redis_expire_def x_def)
      moreover have "r = Inr (tok ft)" "s' = redis_expire now ?K refresh_token_ttl_seconds s2"
        using g True \<open>dev = Some d\<close> Some
        by (simp_all add: generate_and_store_refresh_token_def s1_def p_def tok_def Let_def)
      ultimately show thesis using indexed \<open>dev = Some d\<close> s1 p_def ms_def by simp
    qed
  qed
qed

lemma uuid_texts_no_index: "uuid_texts ae \<Longrightarrow> no_index (ae_show ae u)"
  by (simp add: uuid_texts_def no_index_def)

text \<open>The members of the index are tokens: revoking a device never deletes the index of another one.\<close>

definition plain_sets :: "auth_state \<Rightarrow> bool" where
  "plain_sets s \<longleftrightarrow> (\<forall>d ms x. redis s (device_set_key d) = Some (SetValue ms, x) \<longrightarrow> (\<forall>t \<in> set ms. no_index t))"


lemma fold_del: "redis (fold (\<lambda>token. redis_del (refresh_key token)) ts s) key
    = (if key \<in> refresh_key ` set ts then None else redis s key)"
  by (induction ts arbitrary: s) (auto simp: redis_del_def)

lemma drop_device_tokens_redis:
  "redis (drop_device_tokens ae d now s) key =
     (if \<not> ae_redis ae then redis s key
      else if key = device_set_key d \<or> (\<exists>ms. live now (device_set_key d) s = Some (SetValue ms) \<and> key \<in> refresh_key ` set ms)
      then None else redis s key)"
  by (auto simp: drop_device_tokens_def Let_def redis_del_def fold_del redis_smembers_def
      split: option.splits cache_value.splits)






text \<open>
  A token is gone, or it is in the index of its device and the index lasts at least until
  \<open>e\<close>.  This holds for the requests that come before \<open>e\<close>.
\<close>

definition indexed :: "string \<Rightarrow> string \<Rightarrow> instant \<Rightarrow> auth_state \<Rightarrow> bool" where
  "indexed tok d e s \<longleftrightarrow> plain_sets s \<and> (redis s (refresh_key tok) \<noteq> None \<longrightarrow>
     (\<exists>ms x. redis s (device_set_key d) = Some (SetValue ms, Some x) \<and> tok \<in> set ms \<and> e \<le> x))"

lemma indexed_same_keys:
  "indexed tok d e s \<Longrightarrow> plain_sets s' \<Longrightarrow> redis s' (device_set_key d) = redis s (device_set_key d) \<Longrightarrow>
    redis s' (refresh_key tok) = redis s (refresh_key tok) \<Longrightarrow> indexed tok d e s'"
  by (simp add: indexed_def)









section \<open>Revoking a device\<close>

lemma login_opens:
  assumes "login ae fd ft req now s = (Inr resp, s')"
  shows "\<exists>a n p. open_login_session ae ft a (resolve_device_id ae fd (lq_device req)) n p now s = (Inr resp, s')"
  using assms by (auto simp: login_def Let_def with_value_Inr query_Inr)

lemma register_device_redis: "redis (snd (register_login_device ae u d n p now s)) = redis s"
  by (auto simp: register_login_device_def with_value_def atomically_def dest: upsert_device_redis split: sum.splits)

lemma internal_error_Inr: "internal_error r = (Inr a, s) \<longleftrightarrow> r = (Inr a, s)"
  by (auto simp: internal_error_def split: prod.splits sum.splits)

text \<open>A session that is opened leaves its token and the index of its device in the cache.\<close>

lemma open_session_stores:
  fixes ae :: auth_env and now :: instant and ft :: uuid and d :: string
  defines "tok \<equiv> ae_show ae ft" and "x \<equiv> now + seconds refresh_token_ttl_seconds"
  assumes o: "open_login_session (ae\<lparr>ae_redis := up\<rparr>) ft a d n p now s = (Inr resp, s')" and t: "uuid_texts ae"
  obtains ms where "lr_user resp = db_user_to_api_user_info ae a" "lr_device resp = Some d" "lr_refresh resp = Some tok"
    "tok \<in> set ms"
    "redis s' = (redis s)
      (refresh_key tok \<mapsto> (TokenValue \<lparr>rp_user = ae_show ae (ua_id a), rp_admin = False, rp_device = Some d\<rparr>, Some x),
       device_set_key d \<mapsto> (SetValue ms, Some x))"
proof -
  obtain s1 token refresh where
      r: "register_login_device (ae\<lparr>ae_redis := up\<rparr>) (ae_show ae (ua_id a)) d n p now s = (Inr (), s1)"
    and g: "generate_and_store_refresh_token (ae\<lparr>ae_redis := up\<rparr>) ft (ae_show ae (ua_id a)) False (Some d) now s1
        = (Inr refresh, s')"
    and resp: "resp = \<lparr>lr_token = token, lr_user = db_user_to_api_user_info (ae\<lparr>ae_redis := up\<rparr>) a,
        lr_device = Some d, lr_refresh = Some refresh\<rparr>"
    using o by (auto simp: open_login_session_def run_then_Inr with_value_Inr internal_error_Inr)
  have s1: "redis s1 = redis s" using register_device_redis by (metis r snd_conv)
  show thesis
  proof (rule generate_cases [OF g uuid_texts_no_index [OF t]])
    fix p d' ms
    assume "redis s' = (redis s1)(refresh_key (ae_show ae ft) \<mapsto> (TokenValue p, Some (now + seconds refresh_token_ttl_seconds)),
        device_set_key d' \<mapsto> (SetValue ms, Some (now + seconds refresh_token_ttl_seconds)))"
      and "ms = (case live now (device_set_key d') s1 of
          Some (SetValue old) \<Rightarrow> if ae_show ae ft \<in> set old then old else old @ [ae_show ae ft] | _ \<Rightarrow> [ae_show ae ft])"
      and "Some d = Some d'" "p = \<lparr>rp_user = ae_show ae (ua_id a), rp_admin = False, rp_device = Some d\<rparr>"
      and "Inr refresh = Inr (ae_show ae ft)"
    moreover have "ae_show ae ft \<in> set ms"
      using calculation(2) by (auto split: option.splits cache_value.splits)
    ultimately show thesis
      using that [of ms] by (simp add: resp s1 tok_def x_def db_user_to_api_user_info_def)
  qed simp_all
qed

lemma revoke_drops:
  assumes "revoke_device_handler ae cl dev now s = (Inr (), s')"
  obtains user t where "token_user ae cl = Inr user" "revoke_login_device user dev now s = (True, t)"
    "s' = drop_device_tokens ae (ae_show ae dev) now t" "redis t = redis s"
proof -
  obtain user where "token_user ae cl = Inr user" "fst (revoke_login_device user dev now s)"
    "s' = drop_device_tokens ae (ae_show ae dev) now (snd (revoke_login_device user dev now s))"
    using assms by (auto simp: revoke_device_handler_def with_value_Inr run_then_Inr fetching_def case_prod_beta)
  then show thesis
    by (intro that [of user "snd (revoke_login_device user dev now s)"]) (simp_all add: prod_eq_iff)
qed




text \<open>
  A concrete environment: the text of a UUID is that many zeros, a password is its own hash, and
  every token is signed alike.
\<close>

definition zeros :: "uuid \<Rightarrow> string" where
  "zeros u = replicate (Suc (unat u)) (CHR ''0'')"

definition sample_env :: auth_env where
  "sample_env = \<lparr>ae_show = zeros, ae_simple = zeros, ae_parse = (\<lambda>t. Some (of_nat (length t - 1))),
     ae_hash = Some, ae_verify = (\<lambda>password h. Some (password = h)), ae_sign = (\<lambda>_. Some ''token''),
     ae_decode = (\<lambda>_ _. None), ae_matches = (\<lambda>_ _. True), ae_redis = True\<rparr>"

lemma strip_zeros [simp]: "trim (zeros u) = zeros u" "zeros u \<noteq> []"
  by (intro trim_plain) (simp_all add: plain_char_def zeros_def last_replicate)

lemma length_zeros [simp]: "length (zeros u) = Suc (unat u)"
  by (simp add: zeros_def)

lemma sample_texts: "uuid_texts sample_env"
proof -
  have "no_index (zeros u)" for u by (simp add: no_index_def zeros_def)
  then show ?thesis by (simp add: uuid_texts_def sample_env_def no_index_def del: append.simps)
qed

definition sample_account :: user_account where
  "sample_account = \<lparr>ua_id = 1, ua_name = ''bob'', ua_email = ''b@b'', ua_hash = ''secret'', ua_nickname = None,
     ua_signature = None, ua_avatar_url = None, ua_avatar_key = None, ua_status = UserActive, ua_created = 0,
     ua_updated = 0, ua_deleted = None\<rparr>"

definition sample_accounts :: auth_state where
  "sample_accounts = \<lparr>core = empty_db\<lparr>users := [1]\<rparr>, accounts = [sample_account], login_devices = [],
     qr_sessions = [], admin_accounts = [], admin_roles = [], captcha = None, limits = None, redis = Map.empty\<rparr>"


definition sample_device :: login_device where
  "sample_device = \<lparr>ld_id = 2, ld_user = 1, ld_name = ''pc'', ld_platform = ''unknown'', ld_seen = 0,
     ld_created = 0, ld_revoked = None\<rparr>"


definition sample_payload :: cache_value where
  "sample_payload = TokenValue \<lparr>rp_user = zeros 1, rp_admin = False, rp_device = Some (zeros 2)\<rparr>"

definition sample_logged_in :: auth_state where
  "sample_logged_in = sample_accounts\<lparr>login_devices := [sample_device],
     redis := [refresh_key (zeros 3) \<mapsto> (sample_payload, Some (days 30)),
       device_set_key (zeros 2) \<mapsto> (SetValue [zeros 3], Some (days 30))]\<rparr>"


lemma sample_env_simps [simp]:
  "ae_show sample_env = zeros" "ae_parse sample_env t = Some (of_nat (length t - 1))"
  "ae_verify sample_env password h = Some (password = h)" "ae_sign sample_env c = Some ''token''"
  "ae_redis sample_env"
  by (simp_all add: sample_env_def)

lemma sample_redis [simp]: "sample_env\<lparr>ae_redis := True\<rparr> = sample_env"
  by (simp add: sample_env_def)

lemma sample_keys [simp]: "refresh_key (zeros u) \<noteq> device_set_key d" "device_set_key d \<noteq> refresh_key (zeros u)"
  using no_index_keys uuid_texts_no_index [OF sample_texts] by auto

lemma zeros_inject [simp]: "zeros u = zeros v \<longleftrightarrow> u = v"
  using uuid_texts_inj [OF sample_texts] by simp

lemma ttl_days [simp]: "refresh_token_ttl_seconds = 2592000"
  by (simp add: refresh_token_ttl_seconds_def)








section \<open>What revoking misses\<close>

lemma refresh_cases:
  assumes "refresh_token_handler ae fd raw now s = (Inr r, s')" "trim raw = tok"
  obtains p u a t where "live now (refresh_key tok) s = Some (TokenValue p)" "\<not> rp_admin p"
    "ae_parse ae (rp_user p) = Some u" "find_by_id u s = Some a"
    "register_login_device ae (ae_show ae (ua_id a)) (case rp_device p of None \<Rightarrow> ae_show ae fd | Some d \<Rightarrow> d) None None now s
      = (Inr (), t)" "s' = redis_expire now (refresh_key tok) refresh_token_ttl_seconds t"
  using assms
  by (auto simp: refresh_token_handler_def Let_def with_value_Inr query_Inr run_then_Inr redis_get_def
      split: option.splits cache_value.splits if_splits)

lemma refresh_succeeds:
  assumes "trim raw = tok" "tok \<noteq> []" "ae_redis ae" "\<forall>c. ae_sign ae c \<noteq> None"
    "live now (refresh_key tok) s = Some (TokenValue p)" "\<not> rp_admin p"
    "ae_parse ae (rp_user p) = Some u" "find_by_id u s = Some a"
    "register_login_device ae (ae_show ae (ua_id a)) (case rp_device p of None \<Rightarrow> ae_show ae fd | Some d \<Rightarrow> d) None None now s
      = (Inr (), t)"
  shows "\<exists>r. refresh_token_handler ae fd raw now s = (Inr r, redis_expire now (refresh_key tok) refresh_token_ttl_seconds t)"
proof -
  have "ua_status a = UserActive" using assms(8) by (auto simp: find_by_id_def find_Some_iff)
  then show ?thesis
    using assms by (auto simp: refresh_token_handler_def Let_def with_value_Inr query_Inr run_then_Inr redis_get_def sign_token_def
      split: option.splits)
qed

lemma register_device_keeps:
  "register_login_device ae u d n p now s = (Inr (), t) \<Longrightarrow> accounts t = accounts s \<and> core t = core s \<and>
    (\<exists>user \<in> set (users (core s)). ae_parse ae u = Some user)"
  by (auto simp: register_login_device_def with_value_Inr atomically_def upsert_device_def Let_def
      split: sum.splits option.splits if_splits)

lemma expire_keeps [simp]:
  "accounts (redis_expire now key ttl s) = accounts s" "core (redis_expire now key ttl s) = core s"
  "login_devices (redis_expire now key ttl s) = login_devices s"
  by (simp_all add: redis_expire_def split: option.splits)

lemma drop_keeps [simp]:
  "accounts (drop_device_tokens ae d now s) = accounts s" "core (drop_device_tokens ae d now s) = core s"
  "login_devices (drop_device_tokens ae d now s) = login_devices s"
proof -
  have "accounts (fold (\<lambda>token. redis_del (refresh_key token)) ts s) = accounts s \<and>
      core (fold (\<lambda>token. redis_del (refresh_key token)) ts s) = core s \<and>
      login_devices (fold (\<lambda>token. redis_del (refresh_key token)) ts s) = login_devices s" for ts
    by (induction ts arbitrary: s) (simp_all add: redis_del_def)
  then show "accounts (drop_device_tokens ae d now s) = accounts s" "core (drop_device_tokens ae d now s) = core s"
    "login_devices (drop_device_tokens ae d now s) = login_devices s"
    by (simp_all add: drop_device_tokens_def Let_def redis_del_def)
qed

lemma revoke_keeps:
  "revoke_login_device user dev now s = (True, t) \<Longrightarrow> accounts t = accounts s \<and> core t = core s \<and>
    (\<exists>x \<in> set (login_devices t). ld_user x = user \<and> ld_id x = dev)"
  by (auto simp: revoke_login_device_def write_devices_def rows_affected_def exists_update_where filter_empty_conv
      if_distrib [of ld_user] if_distrib [of ld_id] cong: if_cong)

text \<open>Registering a device that the user has makes it one that is not revoked.\<close>

lemma register_again:
  assumes "\<exists>x \<in> set (login_devices s). ld_user x = user \<and> ld_id x = dev"
    "ae_parse ae u = Some user" "ae_parse ae d = Some dev" "user \<in> set (users (core s))"
  shows "\<exists>t. register_login_device ae u d n p now s = (Inr (), t) \<and> redis t = redis s \<and>
    (\<exists>x \<in> set (login_devices t). ld_user x = user \<and> ld_id x = dev \<and> ld_revoked x = None)"
proof -
  let ?f = "\<lambda>x. x\<lparr>ld_name := nonblank_or_unknown n, ld_platform := nonblank_or_unknown p, ld_seen := now, ld_revoked := None\<rparr>"
  let ?t = "s\<lparr>login_devices := update_where (\<lambda>x. ld_id x = dev \<and> ld_user x = user) ?f (login_devices s)\<rparr>"
  obtain x where "x \<in> set (login_devices s)" "ld_user x = user" "ld_id x = dev" using assms(1) by blast
  then have "?f x \<in> set (login_devices ?t)" by (auto simp: update_where_def)
  moreover have "register_login_device ae u d n p now s = (Inr (), ?t)"
    using assms by (auto simp: register_login_device_def atomically_def upsert_device_def Let_def)
  ultimately show ?thesis
    using \<open>ld_user x = user\<close> \<open>ld_id x = dev\<close> by (intro exI [of _ ?t] conjI bexI [of _ "?f x"]) simp_all
qed

text \<open>
  A refresh renews the token and not the index of its device.  So when a session has been
  refreshed, a revocation of its device thirty days after the login or later is answered with
  success and deletes no token: the next refresh succeeds, and makes the device one that is not
  revoked.
\<close>

lemma revocation_misses_old_sessions:
  assumes texts: "uuid_texts ae" and works: "ae_redis ae" "\<forall>c. ae_sign ae c \<noteq> None"
    and login: "login ae fd ft req t0 s0 = (Inr resp, s1)" "lr_device resp = Some (ae_show ae dev)"
    and refresh: "refresh_token_handler ae fd1 (ae_show ae ft) t1 s1 = (Inr r1, s2)" "t0 \<le> t1"
    and revoke: "revoke_device_handler ae cl dev t2 s2 = (Inr (), s3)" "cl_sub cl = ui_id (lr_user resp)"
      "t0 + days 30 \<le> t2"
    and later: "t3 < t1 + days 30"
  shows "\<exists>r s4. refresh_token_handler ae fd3 (ae_show ae ft) t3 s3 = (Inr r, s4)
    \<and> (\<exists>d \<in> set (login_devices s4). ld_id d = dev \<and> ld_revoked d = None)"
proof -
  let ?tok = "ae_show ae ft" and ?d = "ae_show ae dev"
  have ae: "ae\<lparr>ae_redis := True\<rparr> = ae" using works by simp
  have n: "no_index ?tok" and trim: "trim ?tok = ?tok" "?tok \<noteq> []" and parse: "ae_parse ae (ae_show ae v) = Some v" for v
    using texts uuid_texts_no_index by (auto simp: uuid_texts_def)
  obtain a nm p where "open_login_session (ae\<lparr>ae_redis := True\<rparr>) ft a (resolve_device_id ae fd (lq_device req)) nm p t0 s0
      = (Inr resp, s1)"
    using login_opens [OF login(1)] ae by metis
  then obtain ms where user: "lr_user resp = db_user_to_api_user_info ae a"
      and s1: "redis s1 = (redis s0)
        (refresh_key ?tok \<mapsto> (TokenValue \<lparr>rp_user = ae_show ae (ua_id a), rp_admin = False, rp_device = Some ?d\<rparr>,
            Some (t0 + days 30)),
         device_set_key ?d \<mapsto> (SetValue ms, Some (t0 + days 30)))"
    by (rule open_session_stores) (use texts login(2) in \<open>auto simp: refresh_token_ttl_seconds_def\<close>)
  let ?p = "\<lparr>rp_user = ae_show ae (ua_id a), rp_admin = False, rp_device = Some ?d\<rparr>"
  have l1: "live t1 (refresh_key ?tok) s1 = (if t1 < t0 + days 30 then Some (TokenValue ?p) else None)"
    using s1 no_index_keys [OF n] by (simp add: live_def)
  obtain b t where b: "find_by_id (ua_id a) s1 = Some b"
      and t: "register_login_device ae (ae_show ae (ua_id b)) ?d None None t1 s1 = (Inr (), t)"
      and s2: "s2 = redis_expire t1 (refresh_key ?tok) refresh_token_ttl_seconds t"
      and alive: "live t1 (refresh_key ?tok) s1 = Some (TokenValue ?p)"
  proof (rule refresh_cases [OF refresh(1) trim(1)])
    fix q u b t
    assume q: "live t1 (refresh_key ?tok) s1 = Some (TokenValue q)" "ae_parse ae (rp_user q) = Some u"
        "find_by_id u s1 = Some b" "s2 = redis_expire t1 (refresh_key ?tok) refresh_token_ttl_seconds t"
      and r: "register_login_device ae (ae_show ae (ua_id b)) (case rp_device q of None \<Rightarrow> ae_show ae fd1 | Some d \<Rightarrow> d)
        None None t1 s1 = (Inr (), t)"
    have "q = ?p" using q(1) by (simp add: l1 split: if_splits)
    then show thesis using that [of b t] q r parse by simp
  qed
  have id: "ua_id b = ua_id a" using b by (auto simp: find_by_id_def dest: fetch_SomeD)
  have rt: "redis t = redis s1" using register_device_redis by (metis snd_conv t)
  note kt = register_device_keeps [OF t]
  have s2_tok: "redis s2 (refresh_key ?tok) = Some (TokenValue ?p, Some (t1 + days 30))"
      and s2_idx: "redis s2 (device_set_key ?d) = Some (SetValue ms, Some (t0 + days 30))"
    using alive s1 rt no_index_keys [OF n] by (auto simp: s2 redis_expire_def live_def refresh_token_ttl_seconds_def)
  obtain user t' where rv: "token_user ae cl = Inr user" "revoke_login_device user dev t2 s2 = (True, t')"
      "s3 = drop_device_tokens ae ?d t2 t'" "redis t' = redis s2"
    by (rule revoke_drops [OF revoke(1)])
  have u: "user = ua_id a"
    using rv(1) revoke(2) user parse by (simp add: token_user_def db_user_to_api_user_info_def)
  have "redis s3 (refresh_key ?tok) = Some (TokenValue ?p, Some (t1 + days 30))"
    using rv(3,4) s2_tok s2_idx revoke(3) no_index_keys [OF n] by (simp add: drop_device_tokens_redis live_def)
  then have tok3: "live t3 (refresh_key ?tok) s3 = Some (TokenValue ?p)" using later by (simp add: live_def)
  have b3: "find_by_id (ua_id a) s3 = Some b"
    using b revoke_keeps [OF rv(2)] kt by (simp add: rv(3) s2 find_by_id_def)
  obtain t4 where t4: "register_login_device ae (ae_show ae (ua_id b)) ?d None None t3 s3 = (Inr (), t4)"
      "\<exists>x \<in> set (login_devices t4). ld_user x = ua_id a \<and> ld_id x = dev \<and> ld_revoked x = None"
    using register_again [of s3 "ua_id a" dev ae "ae_show ae (ua_id b)" ?d None None t3]
      revoke_keeps [OF rv(2)] kt parse by (auto simp: rv(3) u id s2)
  have "\<exists>r. refresh_token_handler ae fd3 ?tok t3 s3 = (Inr r, redis_expire t3 (refresh_key ?tok) refresh_token_ttl_seconds t4)"
    by (rule refresh_succeeds [OF trim works tok3 _ _ b3]) (use t4 parse in auto)
  then show ?thesis using t4(2) by auto
qed

text \<open>The session of the sample, refreshed after ten days and revoked after thirty-one.\<close>

lemma sample_refresh:
  "\<exists>r s2. refresh_token_handler sample_env 9 (zeros 3) (days 10) sample_logged_in = (Inr r, s2)
    \<and> login_devices s2 = [sample_device\<lparr>ld_name := ''unknown'', ld_seen := days 10\<rparr>]"
proof -
  let ?t = "sample_logged_in\<lparr>login_devices := [sample_device\<lparr>ld_name := ''unknown'', ld_seen := days 10\<rparr>]\<rparr>"
  let ?p = "\<lparr>rp_user = zeros 1, rp_admin = False, rp_device = Some (zeros 2)\<rparr>"
  have "\<exists>r. refresh_token_handler sample_env 9 (zeros 3) (days 10) sample_logged_in
      = (Inr r, redis_expire (days 10) (refresh_key (zeros 3)) refresh_token_ttl_seconds ?t)"
    by (rule refresh_succeeds [where p = ?p and u = 1 and a = sample_account])
      (simp_all add: live_def sample_logged_in_def sample_payload_def find_by_id_def sample_accounts_def sample_account_def
        register_login_device_def atomically_def upsert_device_def nonblank_or_unknown_def sample_device_def
        update_where_def Let_def)
  then show ?thesis by auto
qed

text \<open>
  The index is kept under the text the client sent for its device and read under the canonical
  one, so a session opened with another spelling of the UUID is not reached by a revocation
  either; nor is one when Redis does not answer.
\<close>

lemma unindexed_token_survives:
  assumes "no_index tok" "revoke_device_handler ae cl dev now s = (Inr (), s')"
    "\<not> ae_redis ae \<or> (\<forall>ms. live now (device_set_key (ae_show ae dev)) s = Some (SetValue ms) \<longrightarrow> tok \<notin> set ms)"
  shows "redis s' (refresh_key tok) = redis s (refresh_key tok)"
proof -
  obtain t where t: "s' = drop_device_tokens ae (ae_show ae dev) now t" "redis t = redis s"
    by (rule revoke_drops [OF assms(2)])
  have "live now key t = live now key s" for key using t(2) by (simp add: live_def)
  then show ?thesis using assms(1,3) no_index_keys by (auto simp: t drop_device_tokens_redis)
qed

text \<open>A disabled administrator cannot log in, and can refresh.\<close>

lemma disabled_admin_refreshes:
  assumes "trim raw = tok" "tok \<noteq> []" "ae_redis ae" "\<forall>c. ae_sign ae c \<noteq> None"
    "live now (refresh_key tok) s = Some (TokenValue p)" "rp_admin p" "ae_parse ae (rp_user p) = Some i"
    "find_admin_by_id i s = Some a" "ad_status a = AdminInactive"
  shows "\<exists>r. fst (admin_refresh_token ae raw now s) = Inr r"
  using assms by (auto simp: admin_refresh_token_def Let_def with_value_def query_def redis_get_def require_def
      sign_token_def run_then_def answer_def split: option.splits)

text \<open>No handler ever sets \<open>locked_until\<close>: failed logins never lock an administrator.\<close>

lemma never_locked:
  "record_login_failure i now s = Inr (x, s') \<Longrightarrow>
    map ad_locked_until (admin_accounts s') = map ad_locked_until (admin_accounts s)"
  by (auto simp: record_login_failure_def write_admins_def update_where_def split: if_splits)

end
