(* ===== verification/QrProperties.thy ===== *)
theory QrProperties
  imports SessionProperties
begin




lemma qr_sessions_unchanged [simp]:
  "qr_sessions (redis_set_ex now key v ttl s) = qr_sessions s" "qr_sessions (redis_expire now key ttl s) = qr_sessions s"
  by (simp_all add: redis_set_ex_def redis_expire_def split: option.splits)














end
