(* ===== verification/Connections.thy ===== *)
theory Connections
  imports AdminAuth Membership "HOL-Library.AList" "HOL-Library.Multiset"
begin

text \<open>
  The sockets of one node (\<open>api/src/websocket/mod.rs\<close>): the connection manager with its indexes,
  the bounded queue of every socket, and the hub that keeps the node's subscriptions of Redis
  channels.  Sockets and the hub run side by side; a handler is a step up to the point where it
  waits for the hub.  The hash map from users to their connections is a list of entries, whose
  order is the order of iteration and may change at any time; the sender and the shutdown handle
  of an entry are those of the socket with its id.  Geolocation, login history and the presence
  key in Redis are left out.
\<close>

section \<open>Frames\<close>

datatype conn_format = JsonFormat | ProtobufFormat

definition from_query :: "string option \<Rightarrow> conn_format" where
  "from_query value =
     (case value of
        None \<Rightarrow> JsonFormat
      | Some v \<Rightarrow> if to_ascii_lowercase (trim v) \<in> set [''proto'', ''protobuf'', ''pb'', ''binary'']
                  then ProtobufFormat else JsonFormat)"

text \<open>What is pushed; events of the stores keep their room and a payload that is only passed on.\<close>

datatype push =
    Authed string string
  | Joined uuid
  | HasLeft uuid
  | RoomEvent uuid string
  | UserEvent string
  | QrStatusChanged uuid string "string option"
  | ErrorPush string
  | Pong
  | BinaryEcho string

type_synonym frame = "conn_format \<times> push"  \<comment> \<open>\<open>push.encode(format)\<close>\<close>

definition max_ws_outbound_queue_size :: nat where
  "max_ws_outbound_queue_size = 65536"

definition default_ws_outbound_queue_size :: nat where
  "default_ws_outbound_queue_size = 1024"

definition ws_outbound_queue_size_from_env :: "(string \<Rightarrow> string option) \<Rightarrow> nat" where
  "ws_outbound_queue_size_from_env env =
     (case env ''WS_OUTBOUND_QUEUE_SIZE'' of
        None \<Rightarrow> default_ws_outbound_queue_size
      | Some value \<Rightarrow>
          (case parse_unsigned 64 (trim value) of
             None \<Rightarrow> default_ws_outbound_queue_size
           | Some n \<Rightarrow> if n > 0 then min n max_ws_outbound_queue_size else default_ws_outbound_queue_size))"

section \<open>The connection manager\<close>

record connection =
  cn_user :: string
  cn_device :: "string option"
  cn_connected :: instant
  cn_ping :: instant
  cn_format :: conn_format

text \<open>
  The key of a throttle, \<open>{conn_id}:{room_id}\<close>, is a pair: the ids the server gives to its
  connections hold no colon.
\<close>

record manager =
  user_connections :: "(string \<times> (string \<times> connection) list) list"
  connection_rooms :: "string \<Rightarrow> uuid set option"
  room_subscribers :: "uuid \<Rightarrow> string set option"
  qr_subscribers :: "uuid \<Rightarrow> (string \<times> connection) list option"
  typing_throttles :: "string \<times> uuid \<Rightarrow> (instant \<times> bool) option"
  outboxes :: "string \<Rightarrow> frame list option"
  shutdowns :: "string set"
  queue_size :: nat

definition try_send_outbound :: "string \<Rightarrow> frame \<Rightarrow> manager \<Rightarrow> bool \<times> manager" where
  "try_send_outbound c frame m =
     (case outboxes m c of
        None \<Rightarrow> (False, m)
      | Some q \<Rightarrow>
          if length q < queue_size m then (True, m\<lparr>outboxes := (outboxes m)(c \<mapsto> q @ [frame])\<rparr>)
          else (False, m))"

definition owner :: "string \<Rightarrow> manager \<Rightarrow> (string \<times> (string \<times> connection) list) option" where
  "owner c m = find (\<lambda>(u, cs). map_of cs c \<noteq> None) (user_connections m)"

definition get_user_id_by_conn :: "string \<Rightarrow> manager \<Rightarrow> string option" where
  "get_user_id_by_conn c m = map_option fst (owner c m)"

definition register_connection ::
  "string \<Rightarrow> string \<Rightarrow> conn_format \<Rightarrow> string option \<Rightarrow> instant \<Rightarrow> manager \<Rightarrow> manager" where
  "register_connection c user format device now m =
     (let info = \<lparr>cn_user = user, cn_device = device, cn_connected = now, cn_ping = now, cn_format = format\<rparr>;
          cs = (case map_of (user_connections m) user of None \<Rightarrow> [] | Some cs \<Rightarrow> cs)
      in m\<lparr>user_connections := AList.update user (AList.update c info cs) (user_connections m)\<rparr>)"

text \<open>Taking a member out of a set of an index; an empty set goes.\<close>

definition drop_member :: "'a \<Rightarrow> 'a set option \<Rightarrow> 'a set option" where
  "drop_member x s =
     (case s of None \<Rightarrow> None | Some xs \<Rightarrow> if xs - {x} = {} then None else Some (xs - {x}))"

text \<open>The rooms left without subscribers; the order of the ids stands for that of a hash set.\<close>

definition unregister_connection :: "string \<Rightarrow> manager \<Rightarrow> uuid list \<times> manager" where
  "unregister_connection c m =
     (let m0 = m\<lparr>qr_subscribers := (\<lambda>q. case qr_subscribers m q of
                   None \<Rightarrow> None
                 | Some cs \<Rightarrow> if AList.delete c cs = [] then None else Some (AList.delete c cs)),
              typing_throttles := (\<lambda>k. if fst k = c then None else typing_throttles m k)\<rparr>
      in case owner c m of
           None \<Rightarrow> ([], m0)
         | Some (user, cs) \<Rightarrow>
             (let rooms = (case connection_rooms m c of None \<Rightarrow> {} | Some rs \<Rightarrow> rs);
                  empty_rooms = {r \<in> rooms. room_subscribers m r \<noteq> None \<and> drop_member c (room_subscribers m r) = None}
              in (sorted_list_of_set empty_rooms, m0
                \<lparr>user_connections := (if AList.delete c cs = [] then AList.delete user (user_connections m)
                    else AList.update user (AList.delete c cs) (user_connections m)),
                 connection_rooms := (connection_rooms m)(c := None),
                 room_subscribers := (\<lambda>r. if r \<in> rooms then drop_member c (room_subscribers m r)
                    else room_subscribers m r)\<rparr>)))"

definition disconnect_device :: "string \<Rightarrow> string \<Rightarrow> manager \<Rightarrow> manager" where
  "disconnect_device user device m =
     (let cs = (case map_of (user_connections m) user of None \<Rightarrow> [] | Some cs \<Rightarrow> cs)
      in m\<lparr>shutdowns := shutdowns m \<union> fst ` set (filter (\<lambda>(c, info). cn_device info = Some device) cs)\<rparr>)"

definition subscribe_room :: "string \<Rightarrow> uuid \<Rightarrow> manager \<Rightarrow> (string + bool) \<times> manager" where
  "subscribe_room c r m =
     (case owner c m of
        None \<Rightarrow> (Inl ''not authenticated'', m)
      | Some _ \<Rightarrow>
          (let rooms = (case connection_rooms m c of None \<Rightarrow> {} | Some rs \<Rightarrow> rs);
               subscribers = (case room_subscribers m r of None \<Rightarrow> {} | Some cs \<Rightarrow> cs)
           in (Inr (subscribers = {} \<and> r \<notin> rooms),
               m\<lparr>connection_rooms := (connection_rooms m)(c \<mapsto> insert r rooms),
                 room_subscribers := (room_subscribers m)(r \<mapsto> insert c subscribers)\<rparr>)))"

definition unsubscribe_room :: "string \<Rightarrow> uuid \<Rightarrow> manager \<Rightarrow> bool option \<times> manager" where
  "unsubscribe_room c r m =
     (let was_subscribed = (case connection_rooms m c of None \<Rightarrow> False | Some rs \<Rightarrow> r \<in> rs);
          room_became_empty = (room_subscribers m r \<noteq> None \<and> drop_member c (room_subscribers m r) = None)
      in (if was_subscribed then Some room_became_empty else None,
          m\<lparr>connection_rooms := (connection_rooms m)(c := drop_member r (connection_rooms m c)),
            room_subscribers := (room_subscribers m)(r := drop_member c (room_subscribers m r))\<rparr>))"

definition is_connection_subscribed_to_room :: "string \<Rightarrow> uuid \<Rightarrow> manager \<Rightarrow> bool" where
  "is_connection_subscribed_to_room c r m =
     (case connection_rooms m c of None \<Rightarrow> False | Some rs \<Rightarrow> r \<in> rs)"

text \<open>1200 milliseconds between two equal states.\<close>

definition can_emit_typing :: "string \<Rightarrow> uuid \<Rightarrow> bool \<Rightarrow> instant \<Rightarrow> manager \<Rightarrow> bool \<times> manager" where
  "can_emit_typing c r is_typing now m =
     (let emitted = (True, m\<lparr>typing_throttles := (typing_throttles m)((c, r) \<mapsto> (now, is_typing))\<rparr>)
      in case typing_throttles m (c, r) of
           None \<Rightarrow> emitted
         | Some (last_sent_at, last_is_typing) \<Rightarrow>
             if last_is_typing \<noteq> is_typing then emitted
             else if (now - last_sent_at) div 1000 \<ge> 1200 then emitted
             else (False, m))"

definition get_room_subscribers :: "uuid \<Rightarrow> manager \<Rightarrow> string set" where
  "get_room_subscribers r m = (case room_subscribers m r of None \<Rightarrow> {} | Some cs \<Rightarrow> cs)"

definition get_user_connections :: "string \<Rightarrow> manager \<Rightarrow> string list" where
  "get_user_connections user m = (case map_of (user_connections m) user of None \<Rightarrow> [] | Some cs \<Rightarrow> map fst cs)"

definition touch :: "string \<Rightarrow> instant \<Rightarrow> (string \<times> connection) list \<Rightarrow> (string \<times> connection) list" where
  "touch c now cs = AList.map_entry c (\<lambda>info. info\<lparr>cn_ping := now\<rparr>) cs"

definition update_ping :: "string \<Rightarrow> instant \<Rightarrow> manager \<Rightarrow> bool \<times> manager" where
  "update_ping c now m =
     (case owner c m of
        None \<Rightarrow> (False, m)
      | Some (user, cs) \<Rightarrow>
          (True, m\<lparr>user_connections := AList.map_entry user (touch c now) (user_connections m)\<rparr>))"

definition get_online_user_count :: "manager \<Rightarrow> nat" where
  "get_online_user_count m = length (user_connections m)"

definition is_user_online :: "string \<Rightarrow> manager \<Rightarrow> bool" where
  "is_user_online user m = (case map_of (user_connections m) user of None \<Rightarrow> False | Some cs \<Rightarrow> cs \<noteq> [])"

definition get_room_subscriber_count :: "uuid \<Rightarrow> manager \<Rightarrow> nat" where
  "get_room_subscriber_count r m = card (get_room_subscribers r m)"

text \<open>Each receiver has a queue of its own, so the order of sending does not matter.\<close>

definition send_all :: "(string \<Rightarrow> connection option) \<Rightarrow> push \<Rightarrow> manager \<Rightarrow> manager" where
  "send_all receivers p m =
     m\<lparr>outboxes := (\<lambda>c. case receivers c of
         None \<Rightarrow> outboxes m c
       | Some info \<Rightarrow> outboxes (snd (try_send_outbound c (cn_format info, p) m)) c)\<rparr>"

definition send_to_user :: "string \<Rightarrow> push \<Rightarrow> manager \<Rightarrow> manager" where
  "send_to_user user p m =
     (case map_of (user_connections m) user of None \<Rightarrow> m | Some cs \<Rightarrow> send_all (map_of cs) p m)"

definition connection_of :: "string \<Rightarrow> manager \<Rightarrow> connection option" where
  "connection_of c m = (case owner c m of None \<Rightarrow> None | Some (user, cs) \<Rightarrow> map_of cs c)"

definition send_to_room :: "uuid \<Rightarrow> push \<Rightarrow> manager \<Rightarrow> manager" where
  "send_to_room r p m =
     send_all (\<lambda>c. if c \<in> get_room_subscribers r m then connection_of c m else None) p m"

definition subscribe_qr :: "uuid \<Rightarrow> string \<Rightarrow> connection \<Rightarrow> manager \<Rightarrow> manager" where
  "subscribe_qr q c info m =
     m\<lparr>qr_subscribers := (qr_subscribers m)(q \<mapsto>
         AList.update c info (case qr_subscribers m q of None \<Rightarrow> [] | Some cs \<Rightarrow> cs))\<rparr>"

definition send_to_qr :: "uuid \<Rightarrow> push \<Rightarrow> manager \<Rightarrow> manager" where
  "send_to_qr q p m = (case qr_subscribers m q of None \<Rightarrow> m | Some cs \<Rightarrow> send_all (map_of cs) p m)"

section \<open>The node\<close>

text \<open>
  What a socket waits for when it asked the hub to look at a room: the room it joins, the one it
  left, or the rooms that are still to be looked at while it closes.  A command carries the
  socket and a ticket, the \<open>oneshot\<close> channel of its answer.
\<close>

datatype reason = Joining | Leaving | Closing "uuid list"

datatype phase = Ready | Awaiting uuid nat reason

record node =
  mgr :: manager
  tables :: db
  channels :: "uuid set"  \<comment> \<open>\<open>subscribed_channels\<close> of the hub, by room\<close>
  commands :: "(uuid \<times> nat \<times> string) list"
  busy :: "(uuid \<times> nat \<times> string \<times> bool) option"
  phases :: "string \<Rightarrow> phase option"
  formats :: "string \<Rightarrow> conn_format"
  tickets :: nat

definition reply :: "string \<Rightarrow> push \<Rightarrow> node \<Rightarrow> node" where
  "reply c p n = n\<lparr>mgr := snd (try_send_outbound c (formats n c, p) (mgr n))\<rparr>"

definition sync_room :: "uuid \<Rightarrow> string \<Rightarrow> reason \<Rightarrow> node \<Rightarrow> node" where
  "sync_room r c why n =
     n\<lparr>commands := commands n @ [(r, tickets n, c)], phases := (phases n)(c \<mapsto> Awaiting r (tickets n) why),
       tickets := Suc (tickets n)\<rparr>"

definition handle_auth :: "auth_env \<Rightarrow> string \<Rightarrow> string \<Rightarrow> instant \<Rightarrow> node \<Rightarrow> node" where
  "handle_auth ae c token now n =
     (case verify_token ae now token of
        None \<Rightarrow> reply c (ErrorPush ''unauthorized'') n
      | Some cl \<Rightarrow> reply c (Authed (cl_sub cl) c)
          (n\<lparr>mgr := register_connection c (cl_sub cl) (formats n c) (cl_device cl) now (mgr n)\<rparr>))"

definition handle_join :: "auth_env \<Rightarrow> string \<Rightarrow> uuid \<Rightarrow> node \<Rightarrow> node" where
  "handle_join ae c r n =
     (case get_user_id_by_conn c (mgr n) of
        None \<Rightarrow> reply c (ErrorPush ''not authenticated'') n
      | Some user_id \<Rightarrow>
          (case ae_parse ae user_id of
             None \<Rightarrow> reply c (ErrorPush ''invalid user_id'') n
           | Some user \<Rightarrow>
               if \<not> is_user_in_room r user (tables n) then reply c (ErrorPush ''forbidden'') n
               else (case subscribe_room c r (mgr n) of
                  (Inl e, m) \<Rightarrow> reply c (ErrorPush e) (n\<lparr>mgr := m\<rparr>)
                | (Inr True, m) \<Rightarrow> sync_room r c Joining (n\<lparr>mgr := m\<rparr>)
                | (Inr False, m) \<Rightarrow> reply c (Joined r) (n\<lparr>mgr := m\<rparr>))))"

definition handle_leave :: "string \<Rightarrow> uuid \<Rightarrow> node \<Rightarrow> node" where
  "handle_leave c r n =
     (case unsubscribe_room c r (mgr n) of
        (None, m) \<Rightarrow> reply c (ErrorPush ''not subscribed'') (n\<lparr>mgr := m\<rparr>)
      | (Some True, m) \<Rightarrow> sync_room r c Leaving (n\<lparr>mgr := m\<rparr>)
      | (Some False, m) \<Rightarrow> reply c (HasLeft r) (n\<lparr>mgr := m\<rparr>))"

text \<open>\<open>published\<close>: whether Redis took the event.  It comes back as an event of the channel.\<close>

definition handle_typing :: "auth_env \<Rightarrow> string \<Rightarrow> uuid \<Rightarrow> bool \<Rightarrow> instant \<Rightarrow> bool \<Rightarrow> node \<Rightarrow> node" where
  "handle_typing ae c r is_typing now published n =
     (case get_user_id_by_conn c (mgr n) of
        None \<Rightarrow> reply c (ErrorPush ''not authenticated'') n
      | Some user_id \<Rightarrow>
          if ae_parse ae user_id = None then reply c (ErrorPush ''invalid user_id'') n
          else if \<not> is_connection_subscribed_to_room c r (mgr n) then reply c (ErrorPush ''not subscribed'') n
          else (let (emit, m) = can_emit_typing c r is_typing now (mgr n) in
                if emit \<and> \<not> published then reply c (ErrorPush ''redis'') (n\<lparr>mgr := m\<rparr>) else n\<lparr>mgr := m\<rparr>))"

definition handle_qr_subscribe :: "string \<Rightarrow> uuid \<Rightarrow> instant \<Rightarrow> node \<Rightarrow> node" where
  "handle_qr_subscribe c q now n =
     n\<lparr>mgr := subscribe_qr q c \<lparr>cn_user = [], cn_device = None, cn_connected = now, cn_ping = now,
         cn_format = formats n c\<rparr> (mgr n)\<rparr>"

definition handle_ping :: "string \<Rightarrow> instant \<Rightarrow> node \<Rightarrow> node" where
  "handle_ping c now n = reply c Pong (n\<lparr>mgr := snd (update_ping c now (mgr n))\<rparr>)"

text \<open>
  The end of \<open>handle_socket\<close>: the rooms without subscribers are looked at one after the other,
  then the sender is gone.
\<close>

fun close_next :: "string \<Rightarrow> uuid list \<Rightarrow> node \<Rightarrow> node" where
  "close_next c [] n =
     n\<lparr>phases := (phases n)(c := None), mgr := (mgr n)\<lparr>outboxes := (outboxes (mgr n))(c := None)\<rparr>\<rparr>"
| "close_next c (r # rest) n = sync_room r c (Closing rest) n"

definition close_socket :: "string \<Rightarrow> node \<Rightarrow> node" where
  "close_socket c n =
     (let (empty_rooms, m) = unregister_connection c (mgr n) in close_next c empty_rooms (n\<lparr>mgr := m\<rparr>))"

text \<open>The socket goes on when the hub answered, or after three seconds.\<close>

definition resume :: "string \<Rightarrow> uuid \<Rightarrow> reason \<Rightarrow> bool \<Rightarrow> node \<Rightarrow> node" where
  "resume c r why ok n =
     (let n1 = n\<lparr>phases := (phases n)(c \<mapsto> Ready)\<rparr> in
      case why of
        Joining \<Rightarrow> if ok then reply c (Joined r) n1
          else reply c (ErrorPush ''pubsub'') (n1\<lparr>mgr := snd (unsubscribe_room c r (mgr n1))\<rparr>)
      | Leaving \<Rightarrow> reply c (HasLeft r) n1
      | Closing rest \<Rightarrow> close_next c rest n)"

section \<open>The hub\<close>

definition acknowledge :: "string \<Rightarrow> nat \<Rightarrow> bool \<Rightarrow> node \<Rightarrow> node" where
  "acknowledge c t ok n =
     (case phases n c of
        Some (Awaiting r t' why) \<Rightarrow> if t' = t then resume c r why ok n else n
      | _ \<Rightarrow> n)"

text \<open>
  One command of \<open>run_pubsub_hub\<close>: the hub looks whether the room has subscribers, and then, if
  the channel has to change, waits for Redis.  After a failure the set of channels is as it was
  and \<open>rebuild_pubsub\<close> subscribes them again.
\<close>

definition hub_take :: "node \<Rightarrow> node" where
  "hub_take n =
     (case (busy n, commands n) of
        (None, (r, t, c) # rest) \<Rightarrow>
          (let has_local_subscribers = (get_room_subscriber_count r (mgr n) > 0) in
           if has_local_subscribers = (r \<in> channels n) then acknowledge c t True (n\<lparr>commands := rest\<rparr>)
           else n\<lparr>commands := rest, busy := Some (r, t, c, has_local_subscribers)\<rparr>)
      | _ \<Rightarrow> n)"

definition hub_answer :: "bool \<Rightarrow> node \<Rightarrow> node" where
  "hub_answer ok n =
     (case busy n of
        None \<Rightarrow> n
      | Some (r, t, c, subscribe) \<Rightarrow>
          acknowledge c t ok (n\<lparr>busy := None, channels :=
            (if \<not> ok then channels n else if subscribe then insert r (channels n) else channels n - {r})\<rparr>))"

text \<open>An event of a channel reaches the sockets only when the node is subscribed to it.\<close>

definition hub_message :: "uuid \<Rightarrow> string \<Rightarrow> node \<Rightarrow> node" where
  "hub_message r payload n =
     (if r \<in> channels n then n\<lparr>mgr := send_to_room r (RoomEvent r payload) (mgr n)\<rparr> else n)"

section \<open>Events\<close>

datatype net_event =
    Connect string conn_format
  | Authenticate string string instant
  | JoinRoom string uuid
  | LeaveRoom string uuid
  | SetTyping string uuid bool instant bool
  | PingSocket string instant
  | PongSocket string instant
  | Unparsed string string
  | EchoBinary string string
  | SubscribeQr string uuid instant
  | CloseSocket string
  | ShutSocket string
  | TimeOut string
  | Drain string
  | HubTake
  | HubAnswer bool
  | ChannelEvent uuid string
  | PushToUser string push
  | PushToQr uuid push
  | DisconnectDevice string string
  | ChangeMembers instant change
  | Rehash "(string \<times> (string \<times> connection) list) list"

text \<open>
  A frame that parses is the event it means, whichever encoding it has; one that does not is
  \<open>Unparsed\<close>, with the text of the parser.  A binary frame is decoded only on a connection that
  talks protobuf, and sent back in base64 on the others.  A socket whose handler waits takes no
  event; the send task empties its queue meanwhile.
\<close>

definition on_socket :: "string \<Rightarrow> (node \<Rightarrow> node) \<Rightarrow> node \<Rightarrow> node" where
  "on_socket c f n = (if phases n c = Some Ready then f n else n)"

fun net_step :: "auth_env \<Rightarrow> net_event \<Rightarrow> node \<Rightarrow> node" where
  "net_step ae (Connect c f) n =
     (if phases n c = None \<and> outboxes (mgr n) c = None
      then n\<lparr>phases := (phases n)(c \<mapsto> Ready), formats := (formats n)(c := f),
             mgr := (mgr n)\<lparr>outboxes := (outboxes (mgr n))(c \<mapsto> []), shutdowns := shutdowns (mgr n) - {c}\<rparr>\<rparr>
      else n)"
| "net_step ae (Authenticate c token now) n = on_socket c (handle_auth ae c token now) n"
| "net_step ae (JoinRoom c r) n = on_socket c (handle_join ae c r) n"
| "net_step ae (LeaveRoom c r) n = on_socket c (handle_leave c r) n"
| "net_step ae (SetTyping c r on now published) n = on_socket c (handle_typing ae c r on now published) n"
| "net_step ae (PingSocket c now) n = on_socket c (handle_ping c now) n"
| "net_step ae (PongSocket c now) n = on_socket c (\<lambda>n. n\<lparr>mgr := snd (update_ping c now (mgr n))\<rparr>) n"
| "net_step ae (Unparsed c err) n = on_socket c (reply c (ErrorPush err)) n"
| "net_step ae (EchoBinary c encoded) n =
     on_socket c (\<lambda>n. if formats n c = JsonFormat then reply c (BinaryEcho encoded) n else n) n"
| "net_step ae (SubscribeQr c q now) n = on_socket c (handle_qr_subscribe c q now) n"
| "net_step ae (CloseSocket c) n = on_socket c (close_socket c) n"
| "net_step ae (ShutSocket c) n =
     (if c \<in> shutdowns (mgr n)
      then on_socket c (\<lambda>n. close_socket c (reply c (ErrorPush ''device revoked'') n)) n else n)"
| "net_step ae (TimeOut c) n =
     (case phases n c of Some (Awaiting r t why) \<Rightarrow> resume c r why False n | _ \<Rightarrow> n)"
| "net_step ae (Drain c) n =
     n\<lparr>mgr := (mgr n)\<lparr>outboxes := (outboxes (mgr n))(c := map_option tl (outboxes (mgr n) c))\<rparr>\<rparr>"
| "net_step ae HubTake n = hub_take n"
| "net_step ae (HubAnswer ok) n = hub_answer ok n"
| "net_step ae (ChannelEvent r payload) n = hub_message r payload n"
| "net_step ae (PushToUser user p) n = n\<lparr>mgr := send_to_user user p (mgr n)\<rparr>"
| "net_step ae (PushToQr q p) n = n\<lparr>mgr := send_to_qr q p (mgr n)\<rparr>"
| "net_step ae (DisconnectDevice user device) n = n\<lparr>mgr := disconnect_device user device (mgr n)\<rparr>"
| "net_step ae (ChangeMembers now ch) n = n\<lparr>tables := apply_change ch now (tables n)\<rparr>"
| "net_step ae (Rehash order) n =
     (if mset order = mset (user_connections (mgr n)) then n\<lparr>mgr := (mgr n)\<lparr>user_connections := order\<rparr>\<rparr> else n)"

fun net_run :: "auth_env \<Rightarrow> net_event list \<Rightarrow> node \<Rightarrow> node" where
  "net_run ae [] n = n"
| "net_run ae (e # es) n = net_run ae es (net_step ae e n)"

definition new_manager :: "nat \<Rightarrow> manager" where
  "new_manager capacity =
     \<lparr>user_connections = [], connection_rooms = (\<lambda>_. None), room_subscribers = (\<lambda>_. None),
      qr_subscribers = (\<lambda>_. None), typing_throttles = (\<lambda>_. None), outboxes = (\<lambda>_. None),
      shutdowns = {}, queue_size = capacity\<rparr>"

definition new_node :: "nat \<Rightarrow> db \<Rightarrow> node" where
  "new_node capacity d =
     \<lparr>mgr = new_manager capacity, tables = d, channels = {}, commands = [], busy = None, phases = (\<lambda>_. None),
      formats = (\<lambda>_. JsonFormat), tickets = 0\<rparr>"

end
