(* ===== verification/NetProperties.thy ===== *)
theory NetProperties
  imports Connections SessionProperties
begin

text \<open>
  What the node of \<open>Connections\<close> keeps true while sockets and hub interleave: its indexes agree,
  its channels follow its subscribers as long as Redis answers, and what a second login on a
  socket and the removal of a member leave behind.
\<close>

section \<open>The indexes\<close>

definition rooms_of :: "string \<Rightarrow> manager \<Rightarrow> uuid set" where
  "rooms_of c m = (case connection_rooms m c of None \<Rightarrow> {} | Some rs \<Rightarrow> rs)"

definition entry :: "string \<Rightarrow> string \<Rightarrow> manager \<Rightarrow> connection option" where
  "entry u c m = (case map_of (user_connections m) u of None \<Rightarrow> None | Some cs \<Rightarrow> map_of cs c)"

definition registered :: "string \<Rightarrow> manager \<Rightarrow> bool" where
  "registered c m \<longleftrightarrow> (\<exists>u. entry u c m \<noteq> None)"

definition users_ok :: "(string \<times> (string \<times> connection) list) list \<Rightarrow> bool" where
  "users_ok al \<longleftrightarrow> distinct (map fst al) \<and> (\<forall>u cs. map_of al u = Some cs \<longrightarrow> cs \<noteq> [] \<and> distinct (map fst cs))"

text \<open>
  A socket is a subscriber of exactly the rooms it lists; no entry is empty; sockets with rooms
  are registered.
\<close>

definition indexes_agree :: "manager \<Rightarrow> bool" where
  "indexes_agree m \<longleftrightarrow>
     (\<forall>c r. r \<in> rooms_of c m \<longleftrightarrow> c \<in> get_room_subscribers r m) \<and>
     (\<forall>c. connection_rooms m c \<noteq> Some {}) \<and> (\<forall>r. room_subscribers m r \<noteq> Some {}) \<and>
     (\<forall>r. finite (get_room_subscribers r m)) \<and> (\<forall>c. finite (rooms_of c m)) \<and>
     (\<forall>c. connection_rooms m c \<noteq> None \<longrightarrow> registered c m) \<and> users_ok (user_connections m)"

text \<open>The part of a manager that the indexes are made of.\<close>

definition same_index :: "manager \<Rightarrow> manager \<Rightarrow> bool" where
  "same_index m m' \<longleftrightarrow> user_connections m' = user_connections m \<and> connection_rooms m' = connection_rooms m
     \<and> room_subscribers m' = room_subscribers m"

lemma same_index_agree: "same_index m m' \<Longrightarrow> indexes_agree m' = indexes_agree m"
  by (simp add: same_index_def indexes_agree_def rooms_of_def get_room_subscribers_def registered_def entry_def)

lemma owner_Some:
  "users_ok (user_connections m) \<Longrightarrow> owner c m = Some (u, cs) \<Longrightarrow>
    map_of (user_connections m) u = Some cs \<and> map_of cs c \<noteq> None"
  by (auto simp: owner_def users_ok_def dest!: fetch_SomeD)

lemma owner_None: "users_ok (user_connections m) \<Longrightarrow> owner c m = None \<longleftrightarrow> \<not> registered c m"
proof -
  assume ok: "users_ok (user_connections m)"
  show ?thesis
  proof
    assume "owner c m = None"
    then have "\<forall>(u, cs) \<in> set (user_connections m). map_of cs c = None" by (auto simp: owner_def find_None_iff)
    then show "\<not> registered c m"
      by (auto simp: registered_def entry_def split: option.splits dest!: map_of_SomeD)
  next
    assume "\<not> registered c m"
    moreover have "registered c m" if "owner c m = Some (u, cs)" for u cs
      using owner_Some [OF ok that] unfolding registered_def by (intro exI [of _ u]) (simp add: entry_def)
    ultimately show "owner c m = None" by (metis not_None_eq surj_pair)
  qed
qed

lemma same_index_simps [simp]:
  "same_index m (snd (try_send_outbound c f m))" "same_index m (send_all rs p m)"
  "same_index m (send_to_user u p m)" "same_index m (send_to_room r p m)" "same_index m (send_to_qr q p m)"
  "same_index m (subscribe_qr q c i m)" "same_index m (disconnect_device u d m)"
  "same_index m (snd (can_emit_typing c r b now m))" "same_index m (m\<lparr>outboxes := x\<rparr>)"
  "same_index m (m\<lparr>outboxes := x, shutdowns := y\<rparr>)" "same_index m m"
  by (simp_all add: same_index_def try_send_outbound_def send_all_def send_to_user_def send_to_room_def
      send_to_qr_def subscribe_qr_def disconnect_device_def can_emit_typing_def Let_def split: option.splits prod.splits)

lemma drop_member_simps:
  "drop_member x None = None" "drop_member x (Some {x}) = None"
  "drop_member x s = None \<longleftrightarrow> (case s of None \<Rightarrow> True | Some xs \<Rightarrow> xs \<subseteq> {x})"
  "drop_member x s = Some ys \<longleftrightarrow> (\<exists>xs. s = Some xs \<and> ys = xs - {x} \<and> ys \<noteq> {})"
  by (auto simp: drop_member_def split: option.splits)

lemma rooms_drop: "(case drop_member x s of None \<Rightarrow> {} | Some ys \<Rightarrow> ys) = (case s of None \<Rightarrow> {} | Some xs \<Rightarrow> xs) - {x}"
  by (auto simp: drop_member_def split: option.splits)

text \<open>What the operations do to the users.\<close>

lemma users_ok_update: "users_ok al \<Longrightarrow> cs \<noteq> [] \<Longrightarrow> distinct (map fst cs) \<Longrightarrow> users_ok (AList.update u cs al)"
  by (auto simp: users_ok_def AList.distinct_update AList.update_conv' split: if_splits)

lemma users_ok_delete: "users_ok al \<Longrightarrow> users_ok (AList.delete u al)"
  by (auto simp: users_ok_def AList.distinct_delete AList.delete_conv' split: if_splits)

lemma users_ok_entry: "users_ok al \<Longrightarrow> map_of al u = Some cs \<Longrightarrow> cs \<noteq> [] \<and> distinct (map fst cs)"
  by (simp add: users_ok_def)

lemma register_entry:
  "entry u' c' (register_connection c u f d now m) \<noteq> None \<longleftrightarrow> u' = u \<and> c' = c \<or> entry u' c' m \<noteq> None"
  by (auto simp: entry_def register_connection_def Let_def AList.update_conv' split: option.splits)

lemma register_users:
  assumes "users_ok (user_connections m)"
  shows "users_ok (user_connections (register_connection c u f d now m))"
    "\<And>c'. registered c' (register_connection c u f d now m) \<longleftrightarrow> c' = c \<or> registered c' m"
    "is_user_online v (register_connection c u f d now m) \<longleftrightarrow> v = u \<or> is_user_online v m"
proof -
  show "users_ok (user_connections (register_connection c u f d now m))"
    using assms users_ok_entry [OF assms]
    by (auto simp: register_connection_def Let_def intro!: users_ok_update AList.distinct_update split: option.splits)
  show "registered c' (register_connection c u f d now m) \<longleftrightarrow> c' = c \<or> registered c' m" for c'
    by (auto simp: registered_def register_entry simp del: not_None_eq)
  show "is_user_online v (register_connection c u f d now m) \<longleftrightarrow> v = u \<or> is_user_online v m"
    by (auto simp: is_user_online_def register_connection_def Let_def AList.update_conv' split: option.splits)
qed

text \<open>Subscribing and unsubscribing.\<close>

lemma subscribe_effect:
  assumes "subscribe_room c r m = (Inr sync, m')"
  shows "user_connections m' = user_connections m"
    "rooms_of c' m' = (if c' = c then insert r (rooms_of c m) else rooms_of c' m)"
    "get_room_subscribers r' m' = (if r' = r then insert c (get_room_subscribers r m) else get_room_subscribers r' m)"
    "connection_rooms m' c' \<noteq> None \<longleftrightarrow> c' = c \<or> connection_rooms m c' \<noteq> None"
    "room_subscribers m' r' \<noteq> None \<longleftrightarrow> r' = r \<or> room_subscribers m r' \<noteq> None"
    "sync \<longleftrightarrow> get_room_subscribers r m = {} \<and> r \<notin> rooms_of c m" "owner c m \<noteq> None"
    "connection_rooms m' c' = Some {} \<longrightarrow> connection_rooms m c' = Some {}"
    "room_subscribers m' r' = Some {} \<longrightarrow> room_subscribers m r' = Some {}"
  using assms by (auto simp: subscribe_room_def rooms_of_def get_room_subscribers_def Let_def split: option.splits if_splits)

lemma unsubscribe_effect:
  assumes "unsubscribe_room c r m = (res, m')"
  shows "user_connections m' = user_connections m"
    "rooms_of c' m' = (if c' = c then rooms_of c m - {r} else rooms_of c' m)"
    "get_room_subscribers r' m' = (if r' = r then get_room_subscribers r m - {c} else get_room_subscribers r' m)"
    "connection_rooms m' c' \<noteq> None \<longrightarrow> connection_rooms m c' \<noteq> None"
    "connection_rooms m' c' = Some {} \<longrightarrow> connection_rooms m c' = Some {}"
    "room_subscribers m' r' = Some {} \<longrightarrow> room_subscribers m r' = Some {}"
    "res = (if r \<in> rooms_of c m then Some (room_subscribers m r \<noteq> None \<and> room_subscribers m' r = None) else None)"
  using assms
  by (auto simp: unsubscribe_room_def rooms_of_def get_room_subscribers_def Let_def rooms_drop drop_member_simps
      split: option.splits if_splits)

lemma rooms_empty: "rooms_of c m = {} \<longleftrightarrow> connection_rooms m c \<in> {None, Some {}}"
  by (auto simp: rooms_of_def split: option.splits)

lemma subscribers_empty: "get_room_subscribers r m = {} \<longleftrightarrow> room_subscribers m r \<in> {None, Some {}}"
  by (auto simp: get_room_subscribers_def split: option.splits)

lemma agreeD:
  assumes "indexes_agree m"
  shows "r \<in> rooms_of c m \<longleftrightarrow> c \<in> get_room_subscribers r m" "connection_rooms m c = None \<longleftrightarrow> rooms_of c m = {}"
    "room_subscribers m r = None \<longleftrightarrow> get_room_subscribers r m = {}" "finite (get_room_subscribers r m)"
    "finite (rooms_of c m)" "rooms_of c m \<noteq> {} \<Longrightarrow> registered c m" "users_ok (user_connections m)"
    "connection_rooms m c \<noteq> Some {}" "room_subscribers m r \<noteq> Some {}"
  using assms by (auto simp: indexes_agree_def rooms_empty subscribers_empty)

lemma same_users: "user_connections m' = user_connections m \<Longrightarrow> registered c m' = registered c m \<and> owner c m' = owner c m"
  by (simp add: registered_def entry_def owner_def)

lemma agree_subscribe:
  assumes "indexes_agree m" "subscribe_room c r m = (Inr sync, m')"
  shows "indexes_agree m'"
proof -
  note a = agreeD [OF assms(1)] and e = subscribe_effect [OF assms(2)]
  have reg: "registered c m" using owner_None [OF a(7)] e(7) by simp
  show ?thesis
    using a e(1,4,5,8,9) reg same_users [OF e(1)] by (auto simp: indexes_agree_def e(2,3))
qed

lemma agree_unsubscribe:
  assumes "indexes_agree m" "unsubscribe_room c r m = (res, m')"
  shows "indexes_agree m'"
proof -
  note a = agreeD [OF assms(1)] and e = unsubscribe_effect [OF assms(2)]
  show ?thesis
    using a e(1,4-6) same_users [OF e(1)] by (auto simp: indexes_agree_def e(2,3))
qed

lemma agree_register: "indexes_agree m \<Longrightarrow> indexes_agree (register_connection c u f d now m)"
proof -
  assume a: "indexes_agree m"
  let ?m = "register_connection c u f d now m"
  have "connection_rooms ?m = connection_rooms m" "room_subscribers ?m = room_subscribers m"
    by (simp_all add: register_connection_def Let_def)
  then show ?thesis
    using a register_users [OF agreeD(7) [OF a]] by (simp add: indexes_agree_def rooms_of_def get_room_subscribers_def)
qed

lemma map_of_map_entry: "map_of (AList.map_entry k f al) k' = (if k' = k then map_option f (map_of al k) else map_of al k')"
  by (induction al) auto

lemma fst_map_entry [simp]: "map fst (AList.map_entry k f al) = map fst al"
  by (induction al) auto

lemma ping_effect:
  "users_ok (user_connections m) \<Longrightarrow> users_ok (user_connections (snd (update_ping c now m)))"
  "entry u c' (snd (update_ping c now m)) = None \<longleftrightarrow> entry u c' m = None"
  "connection_rooms (snd (update_ping c now m)) = connection_rooms m"
  "room_subscribers (snd (update_ping c now m)) = room_subscribers m"
proof -
  have "touch c now cs = [] \<longleftrightarrow> cs = []" for cs by (cases cs) (auto simp: touch_def)
  then show "users_ok (user_connections m) \<Longrightarrow> users_ok (user_connections (snd (update_ping c now m)))"
    by (auto simp: users_ok_def update_ping_def map_of_map_entry touch_def
        simp del: map_of_eq_Some_iff split: option.splits if_splits)
  show "entry u c' (snd (update_ping c now m)) = None \<longleftrightarrow> entry u c' m = None"
    by (auto simp: entry_def update_ping_def map_of_map_entry touch_def split: option.splits if_splits)
qed (simp_all add: update_ping_def split: option.splits)

lemma agree_ping: "indexes_agree m \<Longrightarrow> indexes_agree (snd (update_ping c now m))"
  using ping_effect(1) [of m c now] ping_effect(2) [of _ _ c now m]
  by (simp add: indexes_agree_def rooms_of_def get_room_subscribers_def ping_effect(3,4) registered_def)

lemma unregister_entry:
  assumes ok: "users_ok (user_connections m)"
  shows "entry u' c' (snd (unregister_connection c m))
    = (if c' = c \<and> map_option fst (owner c m) = Some u' then None else entry u' c' m)"
proof (cases "owner c m")
  case None
  then show ?thesis by (simp add: unregister_connection_def entry_def)
next
  case (Some x)
  obtain u cs where x: "owner c m = Some (u, cs)" using Some by (cases x) simp
  note o = owner_Some [OF ok x]
  have users: "user_connections (snd (unregister_connection c m)) = (if AList.delete c cs = []
      then AList.delete u (user_connections m) else AList.update u (AList.delete c cs) (user_connections m))"
    by (simp add: unregister_connection_def x Let_def)
  show ?thesis
  proof (cases "AList.delete c cs = []")
    case True
    then have "(map_of cs)(c := None) = Map.empty" by (metis AList.delete_conv' map_of.simps(1))
    then show ?thesis using o x True
      by (auto simp: entry_def users AList.delete_conv' fun_upd_def fun_eq_iff split: if_splits)
  next
    case False
    then show ?thesis using o x by (auto simp: entry_def users AList.update_conv' AList.delete_conv')
  qed
qed

lemma unregister_effect:
  assumes a: "indexes_agree m" and m': "unregister_connection c m = (empty_rooms, m')"
  shows "users_ok (user_connections m')" "c' \<noteq> c \<Longrightarrow> registered c' m' = registered c' m"
    "rooms_of c' m' = (if c' = c then {} else rooms_of c' m)"
    "get_room_subscribers r m' = get_room_subscribers r m - {c}"
    "connection_rooms m' c' \<noteq> Some {}" "room_subscribers m' r \<noteq> Some {}"
    "set empty_rooms = {r. room_subscribers m r \<noteq> None \<and> room_subscribers m' r = None}"
proof -
  note d = agreeD [OF a]
  have all: "users_ok (user_connections m') \<and> (c' \<noteq> c \<longrightarrow> registered c' m' = registered c' m)
    \<and> rooms_of c' m' = (if c' = c then {} else rooms_of c' m)
    \<and> get_room_subscribers r m' = get_room_subscribers r m - {c}
    \<and> connection_rooms m' c' \<noteq> Some {} \<and> room_subscribers m' r \<noteq> Some {}
    \<and> set empty_rooms = {r. room_subscribers m r \<noteq> None \<and> room_subscribers m' r = None}" for c' r
  proof (cases "owner c m")
    case None
    then have "rooms_of c m = {}" using d(6,7) owner_None by blast
    moreover have "same_index m m'" "empty_rooms = []"
      using m' None by (auto simp: unregister_connection_def same_index_def)
    moreover have "c \<notin> get_room_subscribers r m" using calculation d(1) by blast
    ultimately show ?thesis
      using d(7,8,9) by (auto simp: same_index_def rooms_of_def get_room_subscribers_def registered_def entry_def)
  next
    case (Some x)
    obtain u cs where x: "x = (u, cs)" by (cases x)
    note o = owner_Some [OF d(7) Some [unfolded x]]
    have cs: "distinct (map fst cs)" using users_ok_entry [OF d(7)] o by blast
    have users: "user_connections m' = (if AList.delete c cs = [] then AList.delete u (user_connections m)
        else AList.update u (AList.delete c cs) (user_connections m))"
      and rooms: "connection_rooms m' = (connection_rooms m)(c := None)"
      and subs: "room_subscribers m' = (\<lambda>r. if r \<in> rooms_of c m then drop_member c (room_subscribers m r) else room_subscribers m r)"
      and gone: "set empty_rooms = {r \<in> rooms_of c m. room_subscribers m r \<noteq> None \<and> drop_member c (room_subscribers m r) = None}"
      using m' Some x d(5) [of c] by (auto simp: unregister_connection_def rooms_of_def Let_def split: option.splits)
    have ok: "users_ok (user_connections m')"
      using d(7) cs by (simp add: users users_ok_delete users_ok_update AList.distinct_delete)
    have reg: "c' \<noteq> c \<Longrightarrow> registered c' m' = registered c' m"
      using unregister_entry [OF d(7), of _ c' c] m' by (simp add: registered_def)
    have sub: "get_room_subscribers r m' = get_room_subscribers r m - {c}" for r
      using d(1) [of r c] by (auto simp: get_room_subscribers_def subs rooms_drop)
    have ne: "room_subscribers m' r \<noteq> Some {}" for r
      using d(9) by (auto simp: subs drop_member_simps)
    have "set empty_rooms = {r. room_subscribers m r \<noteq> None \<and> room_subscribers m' r = None}"
      by (auto simp: gone subs split: if_splits)
    then show ?thesis using ok reg sub ne d(8) by (auto simp: rooms rooms_of_def)
  qed
  show "users_ok (user_connections m')" "c' \<noteq> c \<Longrightarrow> registered c' m' = registered c' m"
    "rooms_of c' m' = (if c' = c then {} else rooms_of c' m)"
    "get_room_subscribers r m' = get_room_subscribers r m - {c}"
    "connection_rooms m' c' \<noteq> Some {}" "room_subscribers m' r \<noteq> Some {}"
    "set empty_rooms = {r. room_subscribers m r \<noteq> None \<and> room_subscribers m' r = None}"
    using all [of c' r] by simp_all
qed

lemma agree_unregister:
  assumes "indexes_agree m" "unregister_connection c m = (empty_rooms, m')"
  shows "indexes_agree m'"
proof -
  note a = agreeD [OF assms(1)] and e = unregister_effect [OF assms]
  have "registered c' m'" if "connection_rooms m' c' \<noteq> None" for c'
  proof -
    have "rooms_of c' m' \<noteq> {}" using that e(5) by (auto simp: rooms_empty)
    then have "c' \<noteq> c" "rooms_of c' m \<noteq> {}" using e(3) by (auto split: if_splits)
    then show ?thesis using a(6) e(2) by blast
  qed
  then show ?thesis using a e(1,5,6) by (auto simp: indexes_agree_def e(3,4))
qed

section \<open>The node keeps its indexes\<close>

lemma sync_room_mgr [simp]: "mgr (sync_room r c why n) = mgr n"
  by (simp add: sync_room_def)

lemma agree_reply [simp]: "indexes_agree (mgr (reply c p n)) = indexes_agree (mgr n)"
  unfolding reply_def by (rule same_index_agree) simp

lemma agree_quiet [simp]: "indexes_agree (m\<lparr>outboxes := x\<rparr>) = indexes_agree m"
  "indexes_agree (m\<lparr>outboxes := x, shutdowns := y\<rparr>) = indexes_agree m"
  by (rule same_index_agree; simp)+

lemma agree_close_next [simp]: "indexes_agree (mgr (close_next c rest n)) = indexes_agree (mgr n)"
  by (cases rest) simp_all

lemma agree_close: "indexes_agree (mgr n) \<Longrightarrow> indexes_agree (mgr (close_socket c n))"
  by (auto simp: close_socket_def dest: agree_unregister split: prod.splits)

lemma agree_resume: "indexes_agree (mgr n) \<Longrightarrow> indexes_agree (mgr (resume c r why ok n))"
  using agree_unsubscribe [of "mgr n" c r "fst (unsubscribe_room c r (mgr n))" "snd (unsubscribe_room c r (mgr n))"]
  by (auto simp: resume_def Let_def split: reason.splits)

lemma agree_acknowledge: "indexes_agree (mgr n) \<Longrightarrow> indexes_agree (mgr (acknowledge c t ok n))"
  by (auto simp: acknowledge_def intro: agree_resume split: option.splits phase.splits)

lemma agree_hub: "indexes_agree (mgr n) \<Longrightarrow> indexes_agree (mgr (hub_take n))"
  "indexes_agree (mgr n) \<Longrightarrow> indexes_agree (mgr (hub_answer ok n))"
  by (auto simp: hub_take_def hub_answer_def Let_def intro!: agree_acknowledge split: option.splits list.splits)

lemma agree_join: "indexes_agree (mgr n) \<Longrightarrow> indexes_agree (mgr (handle_join ae c r n))"
proof -
  assume a: "indexes_agree (mgr n)"
  have "indexes_agree m" if "subscribe_room c r (mgr n) = (x, m)" for x m
  proof (cases x)
    case (Inl e)
    then show ?thesis using that a by (auto simp: subscribe_room_def Let_def split: option.splits)
  qed (use that a agree_subscribe in blast)
  then show ?thesis using a by (auto simp: handle_join_def split: option.splits prod.splits sum.splits bool.splits)
qed

lemma agree_leave: "indexes_agree (mgr n) \<Longrightarrow> indexes_agree (mgr (handle_leave c r n))"
  by (auto simp: handle_leave_def dest: agree_unsubscribe split: option.splits prod.splits bool.splits)

lemma agree_auth: "indexes_agree (mgr n) \<Longrightarrow> indexes_agree (mgr (handle_auth ae c token now n))"
  by (auto simp: handle_auth_def agree_register split: option.splits)

lemma agree_typing: "indexes_agree (mgr n) \<Longrightarrow> indexes_agree (mgr (handle_typing ae c r b now p n))"
  using same_index_agree [OF same_index_simps(8)]
  by (auto simp: handle_typing_def Let_def case_prod_beta split: option.splits)

lemma rehash_distinct: "mset al = mset bl \<Longrightarrow> distinct (map fst bl) \<Longrightarrow> distinct (map fst al)"
  by (metis mset_eq_imp_distinct_iff mset_map)

lemma rehash_map: "distinct (map fst bl) \<Longrightarrow> mset al = mset bl \<Longrightarrow> map_of al = map_of bl"
  using rehash_distinct [of al bl] mset_eq_setD [of al bl] by (intro map_of_inject_set [THEN iffD2]) auto

lemma agree_rehash: "mset al = mset (user_connections m) \<Longrightarrow> indexes_agree m \<Longrightarrow> indexes_agree (m\<lparr>user_connections := al\<rparr>)"
proof -
  assume al: "mset al = mset (user_connections m)" and a: "indexes_agree m"
  have d: "distinct (map fst (user_connections m))" using agreeD(7) [OF a] by (simp add: users_ok_def)
  have d': "distinct (map fst al)" using d by (rule rehash_distinct [OF al])
  have "map_of al = map_of (user_connections m)" by (rule rehash_map [OF d al])
  then show ?thesis
    using a d' by (simp add: indexes_agree_def users_ok_def rooms_of_def get_room_subscribers_def registered_def entry_def)
qed

lemma agree_step: "indexes_agree (mgr n) \<Longrightarrow> indexes_agree (mgr (net_step ae e n))"
proof (cases e)
  case (PingSocket c now)
  then show "indexes_agree (mgr n) \<Longrightarrow> ?thesis" by (simp add: on_socket_def handle_ping_def agree_ping)
next
  case (PongSocket c now)
  then show "indexes_agree (mgr n) \<Longrightarrow> ?thesis" by (simp add: on_socket_def agree_ping)
next
  case (TimeOut c)
  then show "indexes_agree (mgr n) \<Longrightarrow> ?thesis" by (auto intro: agree_resume split: option.splits phase.splits)
next
  case (SubscribeQr c q now)
  then show "indexes_agree (mgr n) \<Longrightarrow> ?thesis"
    by (simp add: on_socket_def handle_qr_subscribe_def same_index_agree [OF same_index_simps(6)])
next
  case (PushToUser u p)
  then show "indexes_agree (mgr n) \<Longrightarrow> ?thesis" by (simp add: same_index_agree [OF same_index_simps(3)])
next
  case (PushToQr u p)
  then show "indexes_agree (mgr n) \<Longrightarrow> ?thesis" by (simp add: same_index_agree [OF same_index_simps(5)])
next
  case (ChannelEvent r p)
  then show "indexes_agree (mgr n) \<Longrightarrow> ?thesis" by (simp add: hub_message_def same_index_agree [OF same_index_simps(4)])
next
  case (DisconnectDevice u d)
  then show "indexes_agree (mgr n) \<Longrightarrow> ?thesis" by (simp add: same_index_agree [OF same_index_simps(7)])
qed (simp_all add: on_socket_def agree_auth agree_join agree_leave agree_typing agree_close agree_hub agree_rehash)

lemma agree_run: "indexes_agree (mgr n) \<Longrightarrow> indexes_agree (mgr (net_run ae es n))"
  by (induction es arbitrary: n) (simp_all add: agree_step)

lemma agree_new: "indexes_agree (mgr (new_node k d))"
  by (simp add: new_node_def new_manager_def indexes_agree_def rooms_of_def get_room_subscribers_def users_ok_def)

section \<open>The channels follow the subscribers\<close>

definition wanted :: "uuid \<Rightarrow> node \<Rightarrow> bool" where
  "wanted r n \<longleftrightarrow> room_subscribers (mgr n) r \<noteq> None"

definition closing :: "string \<Rightarrow> node \<Rightarrow> uuid set" where
  "closing c n = (case phases n c of Some (Awaiting q t (Closing rest)) \<Rightarrow> set rest | _ \<Rightarrow> {})"

definition others :: "string \<Rightarrow> node \<Rightarrow> uuid set" where
  "others c n = (\<Union>c' \<in> - {c}. closing c' n)"

text \<open>Rooms the hub will still look at.\<close>

definition owed :: "node \<Rightarrow> uuid set" where
  "owed n = fst ` set (commands n) \<union> (\<Union>c. closing c n)"

lemma owed_others: "(\<And>c'. c' \<noteq> c \<Longrightarrow> phases n' c' = phases n c') \<Longrightarrow>
    owed n' = fst ` set (commands n') \<union> closing c n' \<union> others c n"
proof -
  assume p: "\<And>c'. c' \<noteq> c \<Longrightarrow> phases n' c' = phases n c'"
  have "others c n' = others c n" using p by (simp add: others_def closing_def)
  moreover have "(\<Union>c. closing c n') = closing c n' \<union> others c n'" by (auto simp: others_def)
  ultimately show ?thesis by (simp add: owed_def Un_assoc)
qed

text \<open>The channel is as it should be, or will be when Redis has answered.\<close>

definition right :: "uuid \<Rightarrow> node \<Rightarrow> bool" where
  "right r n \<longleftrightarrow> (case busy n of
       Some (q, t, c, b) \<Rightarrow> if q = r then b = wanted r n else (r \<in> channels n) = wanted r n
     | None \<Rightarrow> (r \<in> channels n) = wanted r n)"

definition hub_ok :: "node \<Rightarrow> bool" where
  "hub_ok n \<longleftrightarrow> (\<forall>r. r \<in> owed n \<or> right r n)"

definition waiting_rooms :: "reason \<Rightarrow> uuid set" where
  "waiting_rooms why = (case why of Closing rest \<Rightarrow> set rest | _ \<Rightarrow> {})"

lemma closing_awaiting: "phases n c = Some (Awaiting q t why) \<Longrightarrow> closing c n = waiting_rooms why"
  by (simp add: closing_def waiting_rooms_def split: reason.splits)

lemma owed_sync: "owed (sync_room q c why n) = insert q (fst ` set (commands n)) \<union> waiting_rooms why \<union> others c n"
  by (subst owed_others [of c _ n])
    (auto simp: sync_room_def closing_def waiting_rooms_def split: reason.splits)

lemma reply_fields [simp]:
  "commands (reply c p n) = commands n" "phases (reply c p n) = phases n" "busy (reply c p n) = busy n"
  "channels (reply c p n) = channels n" "room_subscribers (mgr (reply c p n)) = room_subscribers (mgr n)"
  by (simp_all add: reply_def try_send_outbound_def split: option.splits)

lemma sync_fields [simp]: "busy (sync_room q c why n) = busy n" "channels (sync_room q c why n) = channels n"
  by (simp_all add: sync_room_def)

lemma owed_cong: "commands n' = commands n \<Longrightarrow> phases n' = phases n \<Longrightarrow> owed n' = owed n"
  by (simp add: owed_def closing_def)

lemma owed_ready: "phases n c \<in> {None, Some Ready} \<Longrightarrow> owed n = fst ` set (commands n) \<union> others c n"
  by (subst owed_others [of c n n]) (auto simp: closing_def)

text \<open>A step that leaves the hub alone keeps \<open>hub_ok\<close> when it leaves a command for each room it changes.\<close>

lemma right_cong:
  "busy n' = busy n \<Longrightarrow> channels n' = channels n \<Longrightarrow> wanted r n' = wanted r n \<Longrightarrow> right r n' = right r n"
  unfolding right_def by (simp only:)

lemma hub_okI:
  assumes "hub_ok n" "busy n' = busy n" "channels n' = channels n" "owed n \<subseteq> owed n'"
    "\<And>r. wanted r n' \<noteq> wanted r n \<Longrightarrow> r \<in> owed n'"
  shows "hub_ok n'"
  using assms right_cong [OF assms(2,3)] unfolding hub_ok_def by blast

lemma hub_ok_quiet:
  "hub_ok n \<Longrightarrow> busy n' = busy n \<Longrightarrow> channels n' = channels n \<Longrightarrow> commands n' = commands n \<Longrightarrow>
    phases n' = phases n \<Longrightarrow> room_subscribers (mgr n') = room_subscribers (mgr n) \<Longrightarrow> hub_ok n'"
  using owed_cong [of n' n] by (intro hub_okI [of n n']) (simp_all add: wanted_def)

lemma close_next_hub:
  "owed (close_next c rest n) = set rest \<union> fst ` set (commands n) \<union> others c n"
  "busy (close_next c rest n) = busy n" "channels (close_next c rest n) = channels n"
  "wanted r (close_next c rest n) = wanted r n"
proof -
  have "owed (n\<lparr>phases := (phases n)(c := None), mgr := m\<rparr>) = fst ` set (commands n) \<union> others c n" for m
    by (subst owed_others [of c _ n]) (auto simp: closing_def)
  then show "owed (close_next c rest n) = set rest \<union> fst ` set (commands n) \<union> others c n"
    by (cases rest) (auto simp: owed_sync waiting_rooms_def)
qed (cases rest; simp add: wanted_def)+

lemma resume_hub:
  assumes "phases n c = Some (Awaiting q t why)"
  shows "owed (resume c q why True n) = owed n" "busy (resume c q why True n) = busy n"
    "channels (resume c q why True n) = channels n" "wanted r (resume c q why True n) = wanted r n"
proof -
  have "owed n = fst ` set (commands n) \<union> waiting_rooms why \<union> others c n"
    using closing_awaiting [OF assms] owed_others [of c n n] by simp
  moreover have "owed (n\<lparr>phases := (phases n)(c \<mapsto> Ready)\<rparr>) = fst ` set (commands n) \<union> others c n"
    by (subst owed_others [of c _ n]) (auto simp: closing_def)
  moreover have "owed (reply c p n') = owed n'" for p n' by (rule owed_cong) simp_all
  ultimately show "owed (resume c q why True n) = owed n"
    by (cases why) (auto simp: resume_def Let_def close_next_hub waiting_rooms_def)
  show "wanted r (resume c q why True n) = wanted r n"
    using close_next_hub(4) [of r c _ n] by (cases why) (simp_all add: resume_def Let_def wanted_def)
qed (auto simp: resume_def Let_def close_next_hub split: reason.splits)

lemma ack_hub:
  "owed (acknowledge c t True n) = owed n" "busy (acknowledge c t True n) = busy n"
  "channels (acknowledge c t True n) = channels n" "wanted r (acknowledge c t True n) = wanted r n"
  using resume_hub [of n c] by (auto simp: acknowledge_def split: option.splits phase.splits)

lemma owed_reply: "owed (reply c p (n\<lparr>mgr := m\<rparr>)) = owed n"
  by (rule owed_cong) simp_all

lemma close_next_subscribers [simp]: "room_subscribers (mgr (close_next c rs n)) = room_subscribers (mgr n)"
  by (cases rs) simp_all

lemma wanted_iff: "indexes_agree (mgr n) \<Longrightarrow> get_room_subscriber_count r (mgr n) > 0 \<longleftrightarrow> wanted r n"
  using agreeD(3,4) [of "mgr n" r] by (simp add: get_room_subscriber_count_def wanted_def card_gt_0_iff)

lemma right_None: "busy n = None \<Longrightarrow> right r n \<longleftrightarrow> (r \<in> channels n) = wanted r n"
  by (simp add: right_def)

lemma right_Some: "busy n = Some (q, t, c, b) \<Longrightarrow>
    right r n \<longleftrightarrow> (if q = r then b = wanted r n else (r \<in> channels n) = wanted r n)"
  by (simp add: right_def)

lemma hub_ok_take:
  assumes a: "indexes_agree (mgr n)" and h: "hub_ok n"
  shows "hub_ok (hub_take n)"
proof (cases "busy n = None \<and> commands n \<noteq> []")
  case False
  then have "hub_take n = n" by (auto simp: hub_take_def split: option.splits list.splits)
  then show ?thesis using h by simp
next
  case True
  then obtain r t c rest where cmd: "commands n = (r, t, c) # rest" by (metis list.exhaust prod_cases3)
  let ?n = "n\<lparr>commands := rest\<rparr>"
  have less: "q \<noteq> r \<Longrightarrow> q \<in> owed n \<Longrightarrow> q \<in> owed ?n" for q
    using cmd by (auto simp: owed_def closing_def)
  have w: "wanted q ?n = wanted q n" for q by (simp add: wanted_def)
  show ?thesis
  proof (cases "wanted r n = (r \<in> channels n)")
    case eq: True
    have "q \<in> owed ?n \<or> right q ?n" for q
      using h less [of q] eq True by (cases "q = r") (auto simp: hub_ok_def right_None w)
    moreover have "hub_take n = acknowledge c t True ?n"
      using True cmd eq wanted_iff [OF a] by (simp add: hub_take_def)
    ultimately show ?thesis
      using right_cong [OF ack_hub(2,3,4)] by (simp add: hub_ok_def ack_hub(1))
  next
    case neq: False
    let ?m = "n\<lparr>commands := rest, busy := Some (r, t, c, wanted r n)\<rparr>"
    have "hub_take n = ?m" using True cmd neq wanted_iff [OF a] by (simp add: hub_take_def)
    moreover have "owed ?m = owed ?n" by (rule owed_cong) simp_all
    moreover have "q \<in> owed ?n \<or> right q ?m" for q
    proof (cases "q = r")
      case True
      then show ?thesis by (simp add: right_def wanted_def)
    next
      case other: False
      have "q \<in> owed n \<or> (q \<in> channels n) = wanted q n" using h True by (simp add: hub_ok_def right_None)
      then show ?thesis using less [OF other] other by (auto simp: right_def wanted_def)
    qed
    ultimately show ?thesis by (simp add: hub_ok_def)
  qed
qed

lemma hub_ok_answer:
  assumes h: "hub_ok n"
  shows "hub_ok (hub_answer True n)"
proof (cases "busy n")
  case None
  then show ?thesis using h by (simp add: hub_answer_def)
next
  case (Some x)
  obtain r t c b where x: "busy n = Some (r, t, c, b)" using Some by (metis prod_cases4)
  let ?n = "n\<lparr>busy := None, channels := (if b then insert r (channels n) else channels n - {r})\<rparr>"
  have "owed ?n = owed n" by (rule owed_cong) simp_all
  moreover have "wanted q ?n = wanted q n" for q by (simp add: wanted_def)
  moreover have "q \<in> owed n \<or> right q ?n" for q
  proof -
    have "q \<in> owed n \<or> right q n" using h by (simp add: hub_ok_def)
    then show ?thesis by (cases "q = r") (auto simp: right_def wanted_def x)
  qed
  ultimately have "hub_ok ?n" by (simp add: hub_ok_def)
  then show ?thesis
    using right_cong [OF ack_hub(2,3,4)] by (simp add: hub_answer_def x hub_ok_def ack_hub(1))
qed

lemma hub_ok_join:
  assumes a: "indexes_agree (mgr n)" and h: "hub_ok n" and c: "phases n c = Some Ready"
  shows "hub_ok (handle_join ae c r n)"
proof -
  have "hub_ok (handle_join ae c r n)" if "subscribe_room c r (mgr n) = (x, m)" for x m
  proof (cases x)
    case (Inl e)
    then have "m = mgr n" using that by (auto simp: subscribe_room_def Let_def split: option.splits)
    then show ?thesis using that Inl
      by (auto simp: handle_join_def intro!: hub_ok_quiet [OF h] split: option.splits)
  next
    case (Inr sync)
    note e = subscribe_effect [OF that [unfolded Inr]]
    note d = agreeD [OF a] and d' = agreeD [OF agree_subscribe [OF a that [unfolded Inr]]]
    have w: "room_subscribers m q \<noteq> None \<longleftrightarrow> q = r \<or> room_subscribers (mgr n) q \<noteq> None" for q
      by (rule e(5))
    let ?n = "n\<lparr>mgr := m\<rparr>"
    have owed: "owed ?n = owed n" by (rule owed_cong) simp_all
    have yes: "hub_ok (sync_room r c Joining ?n)"
    proof (rule hub_okI [OF h])
      have "others c ?n = others c n" by (simp add: others_def closing_def)
      then show sub: "owed n \<subseteq> owed (sync_room r c Joining ?n)"
        using owed_ready [of n c] c by (auto simp: owed_sync waiting_rooms_def)
      show "q \<in> owed (sync_room r c Joining ?n)" if "wanted q (sync_room r c Joining ?n) \<noteq> wanted q n" for q
        using that w [of q] by (auto simp: wanted_def owed_sync)
    qed simp_all
    have no: "hub_ok (reply c (Joined r) ?n)" if "\<not> sync"
    proof (rule hub_okI [OF h])
      have "room_subscribers (mgr n) r \<noteq> None" using that e(6) d(1,3) by auto
      then show "q \<in> owed (reply c (Joined r) ?n)" if "wanted q (reply c (Joined r) ?n) \<noteq> wanted q n" for q
        using that w [of q] by (auto simp: wanted_def)
    qed (simp_all add: owed_reply)
    have quiet: "hub_ok (reply c p n)" for p by (rule hub_ok_quiet [OF h]) simp_all
    show ?thesis
      using that Inr yes no quiet by (cases sync) (simp_all add: handle_join_def split: option.split)
  qed
  then show ?thesis by (metis surj_pair)
qed

lemma hub_ok_leave:
  assumes a: "indexes_agree (mgr n)" and h: "hub_ok n" and c: "phases n c = Some Ready"
  shows "hub_ok (handle_leave c r n)"
proof -
  obtain res m where u: "unsubscribe_room c r (mgr n) = (res, m)" by fastforce
  note e = unsubscribe_effect [OF u] and d = agreeD [OF a] and d' = agreeD [OF agree_unsubscribe [OF a u]]
  let ?n = "n\<lparr>mgr := m\<rparr>"
  have w: "(room_subscribers m q = None) = (room_subscribers (mgr n) q = None)" if "q \<noteq> r" for q
    using d(3) d'(3) e(3) that by simp
  have flip: "(room_subscribers m r = None) = (room_subscribers (mgr n) r = None)" if "res \<noteq> Some True"
  proof (cases "r \<in> rooms_of c (mgr n)")
    case True
    then show ?thesis using e(7) that d(3) d'(3) e(3) by auto
  next
    case False
    then show ?thesis using d(1,3) d'(3) e(3) by simp
  qed
  have "hub_ok (reply c p ?n)" if "res \<noteq> Some True" for p
  proof (rule hub_okI [OF h])
    show "q \<in> owed (reply c p ?n)" if "wanted q (reply c p ?n) \<noteq> wanted q n" for q
      using that w [of q] flip \<open>res \<noteq> Some True\<close> by (cases "q = r") (auto simp: wanted_def)
  qed (simp_all add: owed_reply)
  moreover have "hub_ok (sync_room r c Leaving ?n)"
  proof (rule hub_okI [OF h])
    have "others c ?n = others c n" by (simp add: others_def closing_def)
    then show "owed n \<subseteq> owed (sync_room r c Leaving ?n)"
      using owed_ready [of n c] c by (auto simp: owed_sync waiting_rooms_def)
    show "q \<in> owed (sync_room r c Leaving ?n)" if "wanted q (sync_room r c Leaving ?n) \<noteq> wanted q n" for q
      using that w [of q] by (auto simp: wanted_def owed_sync)
  qed simp_all
  ultimately show ?thesis using u by (auto simp: handle_leave_def split: option.split bool.split)
qed

lemma hub_ok_close:
  assumes a: "indexes_agree (mgr n)" and h: "hub_ok n" and c: "phases n c = Some Ready"
  shows "hub_ok (close_socket c n)"
proof -
  obtain rs m where u: "unregister_connection c (mgr n) = (rs, m)" by fastforce
  note e = unregister_effect [OF a u] and d = agreeD [OF a] and d' = agreeD [OF agree_unregister [OF a u]]
  let ?n = "n\<lparr>mgr := m\<rparr>"
  have "hub_ok (close_next c rs ?n)"
  proof (rule hub_okI [OF h])
    have "others c ?n = others c n" by (simp add: others_def closing_def)
    then show "owed n \<subseteq> owed (close_next c rs ?n)"
      using owed_ready [of n c] c by (auto simp: close_next_hub)
    have "room_subscribers (mgr n) q = None \<Longrightarrow> room_subscribers m q = None" for q
      using d(3) d'(3) e(4) by simp
    then show "q \<in> owed (close_next c rs ?n)" if "wanted q (close_next c rs ?n) \<noteq> wanted q n" for q
      using that e(7) by (auto simp: wanted_def close_next_hub)
  qed (simp_all add: close_next_hub)
  then show ?thesis by (simp add: close_socket_def u)
qed

text \<open>Steps during which Redis answers in time.\<close>

fun calm :: "net_event \<Rightarrow> bool" where
  "calm (HubAnswer ok) \<longleftrightarrow> ok"
| "calm (TimeOut c) \<longleftrightarrow> False"
| "calm e \<longleftrightarrow> True"

lemma room_subscribers_kept [simp]:
  "room_subscribers (register_connection c u f d now m) = room_subscribers m"
  "room_subscribers (snd (update_ping c now m)) = room_subscribers m"
  "room_subscribers (snd (can_emit_typing c r b now m)) = room_subscribers m"
  "room_subscribers (subscribe_qr q c i m) = room_subscribers m"
  "room_subscribers (send_to_user u p m) = room_subscribers m"
  "room_subscribers (send_to_room r p m) = room_subscribers m"
  "room_subscribers (send_to_qr q p m) = room_subscribers m"
  "room_subscribers (disconnect_device u dv m) = room_subscribers m"
  by (simp_all add: register_connection_def update_ping_def can_emit_typing_def subscribe_qr_def send_to_user_def
      send_to_room_def send_to_qr_def send_all_def disconnect_device_def Let_def split: option.splits)

lemma hub_ok_connect:
  assumes "hub_ok n" "phases n c = None" "phases n' = (phases n)(c \<mapsto> Ready)" "busy n' = busy n" "channels n' = channels n"
    "commands n' = commands n" "room_subscribers (mgr n') = room_subscribers (mgr n)"
  shows "hub_ok n'"
proof (rule hub_okI [OF assms(1,4,5)])
  have "closing c' n' = closing c' n" for c' using assms(2,3) by (simp add: closing_def)
  then show "owed n \<subseteq> owed n'" using assms(6) by (simp add: owed_def)
qed (use assms(7) in \<open>simp add: wanted_def\<close>)

lemma hub_ok_step:
  assumes a: "indexes_agree (mgr n)" and h: "hub_ok n" and e: "calm e"
  shows "hub_ok (net_step ae e n)"
proof (cases e)
  case (Connect c f)
  then show ?thesis using h by (auto intro: hub_ok_connect [OF h])
next
  case (Authenticate c token now)
  then show ?thesis using h
    by (auto simp: on_socket_def handle_auth_def intro!: hub_ok_quiet [OF h] split: option.split)
next
  case (JoinRoom c r)
  then show ?thesis using hub_ok_join [OF a h] h by (simp add: on_socket_def)
next
  case (LeaveRoom c r)
  then show ?thesis using hub_ok_leave [OF a h] h by (simp add: on_socket_def)
next
  case (SetTyping c r b now p)
  then show ?thesis using h
    by (auto simp: on_socket_def handle_typing_def Let_def case_prod_beta intro!: hub_ok_quiet [OF h] split: option.split)
next
  case (CloseSocket c)
  then show ?thesis using hub_ok_close [OF a h] h by (simp add: on_socket_def)
next
  case (ShutSocket c)
  have "hub_ok (reply c p n)" for p by (rule hub_ok_quiet [OF h]) simp_all
  then show ?thesis using hub_ok_close [of "reply c _ n" c] ShutSocket a h by (simp add: on_socket_def)
next
  case HubTake
  then show ?thesis using hub_ok_take [OF a h] by simp
next
  case (HubAnswer ok)
  then show ?thesis using hub_ok_answer [OF h] e by simp
next
  case (PingSocket c now)
  then show ?thesis using h by (auto simp: on_socket_def handle_ping_def intro!: hub_ok_quiet [OF h])
next
  case (PongSocket c now)
  then show ?thesis using h by (auto simp: on_socket_def intro!: hub_ok_quiet [OF h])
next
  case (Unparsed c err)
  then show ?thesis using h by (auto simp: on_socket_def intro!: hub_ok_quiet [OF h])
next
  case (EchoBinary c x)
  then show ?thesis using h by (auto simp: on_socket_def intro!: hub_ok_quiet [OF h])
next
  case (SubscribeQr c q now)
  then show ?thesis using h by (auto simp: on_socket_def handle_qr_subscribe_def intro!: hub_ok_quiet [OF h])
next
  case (ChannelEvent r p)
  then show ?thesis using h by (auto simp: hub_message_def intro!: hub_ok_quiet [OF h])
next
  case (Rehash al)
  then show ?thesis using h by (auto intro!: hub_ok_quiet [OF h])
qed (use e in \<open>auto intro!: hub_ok_quiet [OF h]\<close>)

lemma hub_ok_run:
  "indexes_agree (mgr n) \<Longrightarrow> hub_ok n \<Longrightarrow> \<forall>e \<in> set es. calm e \<Longrightarrow> hub_ok (net_run ae es n)"
  by (induction es arbitrary: n) (simp_all add: hub_ok_step agree_step)

lemma hub_ok_new: "hub_ok (new_node k d)"
  by (simp add: hub_ok_def right_def wanted_def new_node_def new_manager_def)

section \<open>Entries of closed sockets\<close>

text \<open>What happens elsewhere neither wakes a socket nor takes its entries away.\<close>

definition spares :: "string \<Rightarrow> node \<Rightarrow> node \<Rightarrow> bool" where
  "spares c n n' \<longleftrightarrow> phases n' c = phases n c \<and> (\<forall>u. entry u c (mgr n) \<noteq> None \<longrightarrow> entry u c (mgr n') \<noteq> None)"

lemma spares_refl [simp]: "spares c n n"
  by (simp add: spares_def)

lemma spares_trans: "spares c n n' \<Longrightarrow> spares c n' n'' \<Longrightarrow> spares c n n''"
  by (simp add: spares_def)

lemma spares_mgr:
  "(\<And>u. entry u c (mgr n) \<noteq> None \<Longrightarrow> entry u c m \<noteq> None) \<Longrightarrow> spares c n (n\<lparr>mgr := m\<rparr>)"
  by (simp add: spares_def)

lemma spares_users: "user_connections m = user_connections (mgr n) \<Longrightarrow> spares c n (n\<lparr>mgr := m\<rparr>)"
  by (simp add: spares_def entry_def)

lemma spares_quiet: "same_index (mgr n) m \<Longrightarrow> spares c n (n\<lparr>mgr := m\<rparr>)"
  by (rule spares_users) (simp add: same_index_def)

lemma spares_reply [simp]: "spares c n (reply c' p n)"
  unfolding reply_def by (rule spares_quiet) simp

lemma spares_sync: "c' \<noteq> c \<Longrightarrow> spares c n (sync_room r c' why n)"
  by (simp add: spares_def sync_room_def)

lemma spares_close_next: "c' \<noteq> c \<Longrightarrow> spares c n (close_next c' rs n)"
  by (cases rs) (simp_all add: spares_sync, simp add: spares_def entry_def)

lemma subscribe_users: "user_connections (snd (subscribe_room c r m)) = user_connections m"
  "user_connections (snd (unsubscribe_room c r m)) = user_connections m"
  by (simp_all add: subscribe_room_def unsubscribe_room_def Let_def split: option.split)

lemma spares_resume:
  assumes c: "c' \<noteq> c"
  shows "spares c n (resume c' r why ok n)"
proof -
  let ?n = "n\<lparr>phases := (phases n)(c' \<mapsto> Ready)\<rparr>"
  have n: "spares c n ?n" using c by (simp add: spares_def)
  moreover have "spares c ?n (?n\<lparr>mgr := snd (unsubscribe_room c' r (mgr ?n))\<rparr>)"
    by (rule spares_users) (simp add: subscribe_users)
  then have "spares c n (?n\<lparr>mgr := snd (unsubscribe_room c' r (mgr ?n))\<rparr>)" by (rule spares_trans [OF n])
  ultimately show ?thesis
    using spares_close_next [OF c] spares_trans [OF _ spares_reply]
    by (cases why; cases ok) (simp_all add: resume_def Let_def)
qed

lemma spares_acknowledge: "phases n c = None \<Longrightarrow> spares c n (acknowledge c' t ok n)"
  using spares_resume [of c' c] by (cases "c' = c") (simp_all add: acknowledge_def split: option.split phase.split)

lemma spares_hub:
  assumes "phases n c = None"
  shows "spares c n (hub_take n)" "spares c n (hub_answer ok n)"
proof -
  have same: "spares c n (acknowledge c' t b n')" if "phases n' = phases n" "mgr n' = mgr n" for c' t b n'
    using spares_acknowledge [of n' c c' t b] that assms by (simp add: spares_def)
  have fields: "spares c n (n\<lparr>commands := x, busy := y\<rparr>)" "spares c n (n\<lparr>commands := x\<rparr>)" for x y
    by (simp_all add: spares_def)
  show "spares c n (hub_take n)"
    by (simp add: hub_take_def Let_def same fields split: option.split list.split)
  show "spares c n (hub_answer ok n)"
    by (simp add: hub_answer_def same split: option.split)
qed

lemma spares_close:
  assumes "users_ok (user_connections (mgr n))" and c: "c' \<noteq> c"
  shows "spares c n (close_socket c' n)"
proof -
  obtain rs m where u: "unregister_connection c' (mgr n) = (rs, m)" by fastforce
  have "spares c n (n\<lparr>mgr := m\<rparr>)"
    using unregister_entry [OF assms(1), of _ c c'] u c by (intro spares_mgr) simp
  then show ?thesis using spares_trans [OF _ spares_close_next [OF c]] by (simp add: close_socket_def u)
qed

lemma spares_auth: "spares c n (handle_auth ae c' token now n)"
proof -
  have "spares c n (n\<lparr>mgr := register_connection c' u f d now (mgr n)\<rparr>)" for u f d
    by (rule spares_mgr) (simp only: register_entry simp_thms)
  then show ?thesis using spares_trans [OF _ spares_reply] by (simp add: handle_auth_def split: option.split)
qed

lemma spares_join:
  assumes c: "c' \<noteq> c"
  shows "spares c n (handle_join ae c' r n)"
proof -
  obtain x m where s: "subscribe_room c' r (mgr n) = (x, m)" by fastforce
  have "spares c n (n\<lparr>mgr := m\<rparr>)"
    by (rule spares_users) (use subscribe_users(1) [of c' r "mgr n"] s in simp)
  then show ?thesis
    using spares_trans [OF _ spares_reply] spares_trans [OF _ spares_sync [OF c]]
    by (simp add: handle_join_def s split: option.split sum.split bool.split)
qed

lemma spares_leave:
  assumes c: "c' \<noteq> c"
  shows "spares c n (handle_leave c' r n)"
proof -
  obtain x m where s: "unsubscribe_room c' r (mgr n) = (x, m)" by fastforce
  have "spares c n (n\<lparr>mgr := m\<rparr>)"
    by (rule spares_users) (use subscribe_users(2) [of c' r "mgr n"] s in simp)
  then show ?thesis
    using spares_trans [OF _ spares_reply] spares_trans [OF _ spares_sync [OF c]]
    by (simp add: handle_leave_def s split: option.split bool.split)
qed

lemma spares_typing: "spares c n (handle_typing ae c' r b now p n)"
proof -
  have "spares c n (n\<lparr>mgr := snd (can_emit_typing c' r b now (mgr n))\<rparr>)" by (rule spares_quiet) simp
  then show ?thesis
    using spares_trans [OF _ spares_reply] by (simp add: handle_typing_def Let_def case_prod_beta split: option.split)
qed

lemma spares_pong: "spares c n (n\<lparr>mgr := snd (update_ping c' now (mgr n))\<rparr>)"
  by (rule spares_mgr) (simp add: ping_effect(2))

lemma spares_ping: "spares c n (handle_ping c' now n)"
proof -
  have "spares c n (n\<lparr>mgr := snd (update_ping c' now (mgr n))\<rparr>)" by (rule spares_pong)
  then show ?thesis using spares_trans [OF _ spares_reply] by (simp add: handle_ping_def)
qed

text \<open>An entry that outlives its socket: ids are not used twice, so \<open>Connect c\<close> does not come again.\<close>

definition abandoned :: "string \<Rightarrow> string \<Rightarrow> node \<Rightarrow> bool" where
  "abandoned u c n \<longleftrightarrow> phases n c = None \<and> entry u c (mgr n) \<noteq> None"

lemma spares_abandoned: "spares c n n' \<Longrightarrow> abandoned u c n \<Longrightarrow> abandoned u c n'"
  by (simp add: spares_def abandoned_def)

lemma spares_socket: "phases n c = None \<Longrightarrow> (c' \<noteq> c \<Longrightarrow> spares c n (f n)) \<Longrightarrow> spares c n (on_socket c' f n)"
  by (cases "c' = c") (simp_all add: on_socket_def)

lemma spares_rehash:
  assumes "users_ok (user_connections (mgr n))" "mset al = mset (user_connections (mgr n))"
  shows "spares c n (n\<lparr>mgr := (mgr n)\<lparr>user_connections := al\<rparr>\<rparr>)"
proof (rule spares_mgr)
  have "map_of al = map_of (user_connections (mgr n))" using assms(1) by (intro rehash_map assms(2)) (simp add: users_ok_def)
  then show "entry u c (mgr n) \<noteq> None \<Longrightarrow> entry u c ((mgr n)\<lparr>user_connections := al\<rparr>) \<noteq> None" for u
    by (simp add: entry_def)
qed

lemma reply_users: "user_connections (mgr (reply c p n)) = user_connections (mgr n)"
  "connection_rooms (mgr (reply c p n)) = connection_rooms (mgr n)"
  using same_index_simps(1) [of "mgr n" c "(formats n c, p)"] by (simp_all add: reply_def same_index_def)

lemma spares_shut:
  assumes ok: "users_ok (user_connections (mgr n))" and c: "c' \<noteq> c"
  shows "spares c n (close_socket c' (reply c' p n))"
proof -
  have "spares c (reply c' p n) (close_socket c' (reply c' p n))" using ok by (intro spares_close c) (simp add: reply_users)
  then show ?thesis by (rule spares_trans [OF spares_reply])
qed

lemma spares_step:
  assumes a: "indexes_agree (mgr n)" and p: "phases n c = None" and e: "\<forall>f. e \<noteq> Connect c f"
  shows "spares c n (net_step ae e n)"
proof -
  note ok = agreeD(7) [OF a]
  show ?thesis
  proof (cases e)
    case (Connect c' f)
    then show ?thesis using e by (auto simp: spares_def entry_def)
  next
    case (TimeOut c')
    then show ?thesis using p spares_resume [of c' c] by (cases "c' = c") (simp_all split: option.split phase.split)
  next
    case (SubscribeQr c' q now)
    then show ?thesis by (simp add: on_socket_def handle_qr_subscribe_def spares_quiet)
  next
    case (Rehash al)
    then show ?thesis using spares_rehash [OF ok] by simp
  next
    case (ChangeMembers now ch)
    then show ?thesis by (simp add: spares_def)
  qed (use p in \<open>simp_all add: spares_socket spares_auth spares_join spares_leave spares_typing spares_ping spares_pong
      spares_close [OF ok] spares_shut [OF ok] spares_hub spares_quiet hub_message_def\<close>)
qed

lemma abandoned_run:
  assumes "indexes_agree (mgr n)" "abandoned u c n" "\<forall>f. Connect c f \<notin> set es"
  shows "abandoned u c (net_run ae es n)"
  using assms
proof (induction es arbitrary: n)
  case (Cons e es)
  have "abandoned u c (net_step ae e n)"
    using Cons.prems by (intro spares_abandoned [OF spares_step]) (auto simp: abandoned_def)
  then show ?case using Cons.IH [OF agree_step] Cons.prems by simp
qed simp

lemma abandoned_online: "indexes_agree (mgr n) \<Longrightarrow> abandoned u c n \<Longrightarrow> is_user_online u (mgr n)"
  by (auto simp: abandoned_def entry_def is_user_online_def split: option.splits)

text \<open>A fresh socket that authenticates twice and closes.\<close>

lemma fresh_no_rooms: "indexes_agree m \<Longrightarrow> get_user_id_by_conn c m = None \<Longrightarrow> rooms_of c m = {}"
  using owner_None [OF agreeD(7), of m c] agreeD(6) [of m c] by (auto simp: get_user_id_by_conn_def)

lemma close_abandons:
  assumes a: "indexes_agree (mgr n)" and r: "rooms_of c (mgr n) = {}"
    and e: "entry u1 c (mgr n) \<noteq> None" "entry u2 c (mgr n) \<noteq> None" "u1 \<noteq> u2"
  shows "abandoned u1 c (close_socket c n) \<or> abandoned u2 c (close_socket c n)"
proof -
  obtain rs m where u: "unregister_connection c (mgr n) = (rs, m)" by fastforce
  note eff = unregister_effect [OF a u] and d = agreeD [OF a] and d' = agreeD [OF agree_unregister [OF a u]]
  have "room_subscribers m q = None \<longleftrightarrow> room_subscribers (mgr n) q = None" for q
    using d(1) [of q c] r eff(4) [of q] by (simp add: d(3) d'(3))
  then have "q \<notin> set rs" for q
    by (cases "room_subscribers (mgr n) q") (simp_all only: eff(7) mem_Collect_eq simp_thms)
  then have "rs = []" by (cases rs) auto
  moreover have "entry u1 c m \<noteq> None \<or> entry u2 c m \<noteq> None"
    using unregister_entry [OF d(7), of _ c c] u e by (auto split: if_splits)
  ultimately show ?thesis by (auto simp: close_socket_def u abandoned_def entry_def)
qed

lemma auth_entry: "verify_token ae now tok = Some k \<Longrightarrow> entry (cl_sub k) c (mgr (handle_auth ae c tok now n)) \<noteq> None"
  using register_entry [of "cl_sub k" c c "cl_sub k" _ _ _ "mgr n"] reply_users
  by (simp add: handle_auth_def entry_def)

lemma auth_rooms: "rooms_of c' (mgr (handle_auth ae c tok now n)) = rooms_of c' (mgr n)"
  by (simp add: handle_auth_def rooms_of_def reply_users register_connection_def Let_def split: option.split)

section \<open>A concrete node\<close>

text \<open>A token is the text of its user; user 2 connects and joins room 10.\<close>

definition token_claims :: "string \<Rightarrow> claims" where
  "token_claims t = \<lparr>cl_sub = t, cl_name = [], cl_admin = False, cl_device = None, cl_exp = 0, cl_iat = 0\<rparr>"

definition two_users :: auth_env where
  "two_users = sample_env\<lparr>ae_decode := (\<lambda>_ t. Some (token_claims t))\<rparr>"

definition joined_events :: "net_event list" where
  "joined_events = [Connect ''c'' JsonFormat, Authenticate ''c'' ''000'' 1, JoinRoom ''c'' 10, HubTake, HubAnswer True]"

lemma net_run_append: "net_run ae (xs @ ys) n = net_run ae ys (net_run ae xs n)"
  by (induction xs arbitrary: n) simp_all

lemma two_users_simps [simp]: "verify_token two_users now tok = Some (token_claims tok)"
  "cl_sub (token_claims t) = t" "cl_device (token_claims t) = None" "ae_parse two_users ''000'' = Some 2"
  by (simp_all add: two_users_def verify_token_def token_claims_def)

lemma two_rooms_member: "is_user_in_room 10 2 two_rooms"
  by code_simp

definition joined_result :: node where
  "joined_result = net_run two_users joined_events (new_node 4 two_rooms)"

lemma joined_node:
  "channels joined_result = {10}" "commands joined_result = []" "busy joined_result = None"
  "phases joined_result = [''c'' \<mapsto> Ready]" "tables joined_result = two_rooms"
  "get_user_id_by_conn ''c'' (mgr joined_result) = Some ''000''"
  "is_connection_subscribed_to_room ''c'' 10 (mgr joined_result)"
  "outboxes (mgr joined_result) ''c'' = Some [(JsonFormat, Authed ''000'' ''c''), (JsonFormat, Joined 10)]"
  "queue_size (mgr joined_result) = 4"
  by (simp_all add: joined_result_def joined_events_def new_node_def new_manager_def on_socket_def handle_auth_def
      reply_def try_send_outbound_def register_connection_def handle_join_def get_user_id_by_conn_def
      owner_def two_rooms_member subscribe_room_def sync_room_def hub_take_def get_room_subscriber_count_def
      get_room_subscribers_def hub_answer_def acknowledge_def resume_def is_connection_subscribed_to_room_def)

text \<open>
  When Redis fails under the first socket of a room, a second one that joined meanwhile has been
  told it is in and stays without the channel, with no command left that would make up for it.
\<close>

lemma second_socket_joins_without_channel:
  "let n = net_run two_users [Connect ''c'' JsonFormat, Connect ''d'' JsonFormat, Authenticate ''c'' ''000'' 1,
      Authenticate ''d'' ''000'' 2, JoinRoom ''c'' 10, HubTake, JoinRoom ''d'' 10, HubAnswer False] (new_node 4 two_rooms)
   in get_room_subscribers 10 (mgr n) = {''d''} \<and> channels n = {} \<and> commands n = [] \<and> busy n = None
     \<and> outboxes (mgr n) ''d'' = Some [(JsonFormat, Authed ''000'' ''d''), (JsonFormat, Joined 10)]"
  by (simp add: new_node_def new_manager_def on_socket_def handle_auth_def
      reply_def try_send_outbound_def register_connection_def handle_join_def get_user_id_by_conn_def
      owner_def two_rooms_member subscribe_room_def sync_room_def hub_take_def get_room_subscriber_count_def
      get_room_subscribers_def hub_answer_def acknowledge_def resume_def unsubscribe_room_def drop_member_def Let_def
      insert_Diff_if)

section \<open>Properties\<close>

text \<open>
  C32: Whatever the sockets, the hub and Redis do, in any order, the indexes of the connection
  manager agree: the subscribers of a room are exactly the sockets that list the room, there are
  finitely many of them, and each of them belongs to a user.
\<close>

theorem sockets_indexed:
  "get_room_subscribers r (mgr (net_run ae es (new_node k d)))
      = {c. is_connection_subscribed_to_room c r (mgr (net_run ae es (new_node k d)))}
    \<and> finite (get_room_subscribers r (mgr (net_run ae es (new_node k d))))
    \<and> get_room_subscribers r (mgr (net_run ae es (new_node k d)))
      \<subseteq> {c. get_user_id_by_conn c (mgr (net_run ae es (new_node k d))) \<noteq> None}"
proof -
  let ?m = "mgr (net_run ae es (new_node k d))"
  note a = agreeD [OF agree_run [OF agree_new, of ae es k d]]
  have "is_connection_subscribed_to_room c r ?m \<longleftrightarrow> r \<in> rooms_of c ?m" for c
    by (simp add: is_connection_subscribed_to_room_def rooms_of_def split: option.split)
  moreover have "get_user_id_by_conn c ?m \<noteq> None" if "c \<in> get_room_subscribers r ?m" for c
  proof -
    have "registered c ?m" using a(1,6) that by blast
    then show ?thesis using owner_None [OF a(7), of c] by (simp add: get_user_id_by_conn_def)
  qed
  ultimately show ?thesis using a(1,4) by auto
qed

text \<open>
  C31: As long as Redis answers in time, the node listens to the right channels: once the hub has
  worked off its commands and no socket is closing, it is subscribed to the channel of a room
  exactly when a socket of the node has joined the room.
\<close>

theorem channels_follow_subscribers:
  assumes "\<forall>e \<in> set es. calm e"
    and "commands (net_run ae es (new_node k d)) = []" "busy (net_run ae es (new_node k d)) = None"
    and "\<forall>c. phases (net_run ae es (new_node k d)) c \<in> {None, Some Ready}"
  shows "channels (net_run ae es (new_node k d))
    = {r. get_room_subscribers r (mgr (net_run ae es (new_node k d))) \<noteq> {}}"
proof -
  let ?n = "net_run ae es (new_node k d)"
  have "closing c ?n = {}" for c using assms(4) by (auto simp: closing_def split: option.split phase.split dest!: spec [of _ c])
  then have "owed ?n = {}" using assms(2) by (simp add: owed_def)
  moreover have "hub_ok ?n" by (rule hub_ok_run [OF agree_new hub_ok_new assms(1)])
  ultimately have "(r \<in> channels ?n) = wanted r ?n" for r using right_None [OF assms(3)] by (simp add: hub_ok_def)
  then show ?thesis using agreeD(3) [OF agree_run [OF agree_new]] by (auto simp: wanted_def)
qed

lemma channels_follow_subscribers_witness:
  "channels (net_run two_users joined_events (new_node 4 two_rooms)) = {10}
    \<and> channels (net_run two_users joined_events (new_node 4 two_rooms))
      = {r. get_room_subscribers r (mgr (net_run two_users joined_events (new_node 4 two_rooms))) \<noteq> {}}"
proof -
  have calm: "\<forall>e \<in> set joined_events. calm e" by (simp add: joined_events_def)
  show ?thesis
    using channels_follow_subscribers [OF calm, of two_users 4 two_rooms] joined_node
    by (simp add: joined_result_def)
qed

text \<open>
  C34: Removing a member does not reach the sockets: a user whose socket joined a room gets the
  next event of the room through it after having been removed from the room, since no step but
  the user's own leaving or closing takes the socket off the room's list.
\<close>

theorem removed_member_keeps_receiving:
  assumes n: "n = net_run ae es (new_node k d)" and wf: "members_wf (tables n)"
    and whose: "get_user_id_by_conn c (mgr n) = Some s" "ae_parse ae s = Some u"
    and joined: "is_connection_subscribed_to_room c r (mgr n)" "r \<in> channels n"
    and member: "is_user_in_room r u (tables n)"
    and room: "outboxes (mgr n) c = Some q" "length q < queue_size (mgr n)"
  shows "\<not> is_user_in_room r u (tables (net_run ae [ChangeMembers now (Leave r u), ChannelEvent r p] n))
    \<and> (\<exists>f. outboxes (mgr (net_run ae [ChangeMembers now (Leave r u), ChannelEvent r p] n)) c
        = Some (q @ [(f, RoomEvent r p)]))"
proof -
  note a = agreeD [OF agree_run [OF agree_new, of ae es k d], folded n]
  have "r \<in> rooms_of c (mgr n)"
    using joined(1) by (simp add: is_connection_subscribed_to_room_def rooms_of_def split: option.splits)
  then have sub: "c \<in> get_room_subscribers r (mgr n)" by (simp only: a(1))
  obtain cs where o: "owner c (mgr n) = Some (s, cs)" using whose(1) by (auto simp: get_user_id_by_conn_def)
  obtain i where i: "connection_of c (mgr n) = Some i"
    using owner_Some [OF a(7) o] o by (auto simp: connection_of_def)
  have "outboxes (send_to_room r (RoomEvent r p) (mgr n)) c = Some (q @ [(cn_format i, RoomEvent r p)])"
    using room sub i by (simp add: send_to_room_def send_all_def try_send_outbound_def)
  moreover obtain b d' where rm: "remove_member now r u (tables n) = (b, d')" by fastforce
  moreover have "\<not> is_user_in_room r u d'" using remove_member_in [OF wf rm] by simp
  ultimately show ?thesis using joined(2) by (simp add: hub_message_def)
qed

lemma removed_member_keeps_receiving_witness:
  "\<not> is_user_in_room 10 2 (tables (net_run two_users (joined_events @ [ChangeMembers 9 (Leave 10 2), ChannelEvent 10 ''hi'']) (new_node 4 two_rooms)))
    \<and> (\<exists>q. outboxes (mgr (net_run two_users (joined_events @ [ChangeMembers 9 (Leave 10 2), ChannelEvent 10 ''hi'']) (new_node 4 two_rooms))) ''c''
        = Some q \<and> last q \<in> UNIV \<times> {RoomEvent 10 ''hi''})"
proof -
  show ?thesis
    using removed_member_keeps_receiving [OF refl, of two_users joined_events 4 two_rooms "''c''" "''000''" 2 10 _ 9 "''hi''"] joined_node
      two_rooms_wf two_rooms_member
    by (auto simp: net_run_append joined_result_def)
qed

text \<open>
  C33: A socket may authenticate more than once, and closing it takes back one login only: after a
  login as one user and then as another, one of the two stays online for good, whatever happens on
  the other sockets.
\<close>

theorem second_login_stays_online:
  assumes n: "n = net_run ae before (new_node k d)"
    and fresh: "phases n c = None" "outboxes (mgr n) c = None" "get_user_id_by_conn c (mgr n) = None"
    and tokens: "verify_token ae t1 tok1 = Some k1" "verify_token ae t2 tok2 = Some k2" "cl_sub k1 \<noteq> cl_sub k2"
    and after: "\<forall>f. Connect c f \<notin> set after"
  shows "\<exists>u \<in> {cl_sub k1, cl_sub k2}. is_user_online u (mgr (net_run ae after
    (net_run ae [Connect c f, Authenticate c tok1 t1, Authenticate c tok2 t2, CloseSocket c] n)))"
proof -
  let ?open = "net_step ae (Connect c f) n"
  let ?in1 = "handle_auth ae c tok1 t1 ?open" and ?in2 = "handle_auth ae c tok2 t2 (handle_auth ae c tok1 t1 ?open)"
  have a: "indexes_agree (mgr n)" unfolding n by (rule agree_run [OF agree_new])
  then have agree: "indexes_agree (mgr ?open)" "indexes_agree (mgr ?in1)" "indexes_agree (mgr ?in2)"
    by (simp_all only: agree_step agree_auth)
  have ready: "phases ?open c = Some Ready" "phases ?in1 c = Some Ready" "phases ?in2 c = Some Ready"
    using fresh tokens by (simp_all add: handle_auth_def)
  have "rooms_of c (mgr ?open) = {}" using fresh_no_rooms [OF a fresh(3)] by (simp add: rooms_of_def)
  then have rooms: "rooms_of c (mgr ?in2) = {}" using tokens by (simp add: auth_rooms)
  have "entry (cl_sub k1) c (mgr ?in1) \<noteq> None" "entry (cl_sub k2) c (mgr ?in2) \<noteq> None"
    using auth_entry tokens by blast+
  then have "entry (cl_sub k1) c (mgr ?in2) \<noteq> None" "entry (cl_sub k2) c (mgr ?in2) \<noteq> None"
    using spares_auth [of c ?in1 ae c tok2 t2] by (simp_all add: spares_def)
  then obtain u where u: "u \<in> {cl_sub k1, cl_sub k2}" "abandoned u c (close_socket c ?in2)"
    using close_abandons [OF agree(3) rooms] tokens(3) by blast
  have run: "net_run ae [Connect c f, Authenticate c tok1 t1, Authenticate c tok2 t2, CloseSocket c] n = close_socket c ?in2"
    using ready by (simp only: net_run.simps net_step.simps(2,11) on_socket_def if_True simp_thms)
  note last = agree_close [OF agree(3), of c]
  show ?thesis unfolding run using u(1) abandoned_online [OF agree_run [OF last] abandoned_run [OF last u(2) after]] by blast
qed

lemma second_login_stays_online_witness:
  "\<exists>u \<in> {''00'', ''000''}. is_user_online u (mgr (net_run two_users [CloseSocket ''b'']
    (net_run two_users [Connect ''c'' JsonFormat, Authenticate ''c'' ''00'' 1, Authenticate ''c'' ''000'' 2, CloseSocket ''c'']
      (new_node 4 two_rooms))))"
  using second_login_stays_online [of "new_node 4 two_rooms" two_users "[]" 4 two_rooms "''c''" 1 "''00''" "token_claims ''00''"
      2 "''000''" "token_claims ''000''" "[CloseSocket ''b'']" JsonFormat]
  by (simp add: new_node_def new_manager_def get_user_id_by_conn_def owner_def)

end
