(* ===== verification/PushConfig.thy ===== *)
theory PushConfig
  imports RuntimeGate Requests
begin

text \<open>
  What decides whether pushes are sent: the environment, the switches and the providers of the
  administrator (\<open>api/src/handlers/push_settings.rs\<close>,
  \<open>api/src/database/push_provider_config_store.rs\<close>), the encryption of their secrets
  (\<open>api/src/crypto/secret.rs\<close>), and the runtime of \<open>api/src/services/push.rs\<close>, which caches all
  of it for ten seconds.  AES-GCM, SHA-256, base64, the JSON parser and printer and the PEM parser
  are fields of \<open>push_lib\<close>; strings stand for their bytes.
\<close>

section \<open>The environment\<close>

text \<open>
  No word compared here has a letter that a character outside ASCII is the capital of, so the
  lower case of ASCII is enough.
\<close>

definition parse_bool_value :: "string \<Rightarrow> bool \<Rightarrow> bool" where
  "parse_bool_value value fallback =
     (let v = to_ascii_lowercase (trim value) in
      if v \<in> set [''1'', ''true'', ''yes'', ''y'', ''on''] then True
      else if v \<in> set [''0'', ''false'', ''no'', ''n'', ''off''] then False
      else fallback)"

definition env_flag :: "(string \<Rightarrow> string option) \<Rightarrow> string \<Rightarrow> bool \<Rightarrow> bool" where
  "env_flag env name fallback = (case env name of None \<Rightarrow> fallback | Some v \<Rightarrow> parse_bool_value v fallback)"

definition env_u64 :: "(string \<Rightarrow> string option) \<Rightarrow> string \<Rightarrow> nat \<Rightarrow> nat" where
  "env_u64 env name fallback =
     (case env name of None \<Rightarrow> fallback
      | Some v \<Rightarrow> (case parse_unsigned 64 (trim v) of None \<Rightarrow> fallback | Some n \<Rightarrow> n))"

definition env_usize :: "(string \<Rightarrow> string option) \<Rightarrow> string \<Rightarrow> nat \<Rightarrow> nat" where
  "env_usize = env_u64"

definition env_i64 :: "(string \<Rightarrow> string option) \<Rightarrow> string \<Rightarrow> int \<Rightarrow> int" where
  "env_i64 env name fallback =
     (case env name of None \<Rightarrow> fallback
      | Some v \<Rightarrow> (case parse_i64 (trim v) of None \<Rightarrow> fallback | Some n \<Rightarrow> n))"

definition env_i32 :: "(string \<Rightarrow> string option) \<Rightarrow> string \<Rightarrow> int \<Rightarrow> int" where
  "env_i32 env name fallback =
     (case env name of None \<Rightarrow> fallback
      | Some v \<Rightarrow> (case parse_i64 (trim v) of None \<Rightarrow> fallback
          | Some n \<Rightarrow> if - (2 ^ 31) \<le> n \<and> n < 2 ^ 31 then n else fallback))"

definition clamp :: "'a::linorder \<Rightarrow> 'a \<Rightarrow> 'a \<Rightarrow> 'a" where
  "clamp lo hi x = (if x < lo then lo else if x > hi then hi else x)"

lemma clamp_range: "lo \<le> hi \<Longrightarrow> lo \<le> clamp lo hi x \<and> clamp lo hi x \<le> hi"
  by (auto simp: clamp_def not_less)

text \<open>\<open>trim_end_matches\<close> on a character.\<close>

definition trim_end_char :: "char \<Rightarrow> string \<Rightarrow> string" where
  "trim_end_char c s = rev (dropWhile (\<lambda>x. x = c) (rev s))"

definition base_url :: "(string \<Rightarrow> string option) \<Rightarrow> string \<Rightarrow> string \<Rightarrow> string" where
  "base_url env name fallback =
     (case env name of None \<Rightarrow> fallback
      | Some v \<Rightarrow> (let u = trim_end_char (CHR ''/'') (trim v) in if u = [] then fallback else u))"

definition fcm_base_url :: "(string \<Rightarrow> string option) \<Rightarrow> string" where
  "fcm_base_url env = base_url env ''PUSH_FCM_BASE_URL'' ''https://fcm.googleapis.com''"

datatype apns_environment = Production | Sandbox

definition apns_environment_parse :: "string \<Rightarrow> apns_environment option" where
  "apns_environment_parse value =
     (let v = to_ascii_lowercase (trim value) in
      if v \<in> set [''production'', ''prod''] then Some Production
      else if v \<in> set [''sandbox'', ''development'', ''dev''] then Some Sandbox
      else None)"

definition apns_base_url :: "(string \<Rightarrow> string option) \<Rightarrow> apns_environment \<Rightarrow> string" where
  "apns_base_url env e = base_url env ''PUSH_APNS_BASE_URL''
     (case e of Production \<Rightarrow> ''https://api.push.apple.com'' | Sandbox \<Rightarrow> ''https://api.sandbox.push.apple.com'')"

section \<open>Secrets\<close>

record service_account =
  sv_project :: string
  sv_email :: string
  sv_key :: string
  sv_token_uri :: "string option"

record push_lib =
  pl_sha :: "string \<Rightarrow> string"
  pl_hex :: "string \<Rightarrow> string"
  pl_seal :: "string \<Rightarrow> string \<Rightarrow> string \<Rightarrow> string option"  \<comment> \<open>key, nonce, plaintext\<close>
  pl_open :: "string \<Rightarrow> string \<Rightarrow> string \<Rightarrow> string option"
  pl_b64 :: "string \<Rightarrow> string"
  pl_unb64 :: "string \<Rightarrow> string option"
  pl_utf8 :: "string \<Rightarrow> bool"
  pl_json_text :: "json \<Rightarrow> string"
  pl_account :: "string \<Rightarrow> service_account option"
  pl_ec_key :: "string \<Rightarrow> bool"

definition nonblank :: "string option \<Rightarrow> string option" where
  "nonblank v = (case v of None \<Rightarrow> None | Some s \<Rightarrow> if trim s = [] then None else Some s)"

definition derive_key :: "push_lib \<Rightarrow> (string \<Rightarrow> string option) \<Rightarrow> string option" where
  "derive_key lib env =
     (case nonblank (env ''DATA_ENCRYPTION_KEY'') of
        Some raw \<Rightarrow> Some (pl_sha lib (raw @ ''redcode-im-secret-config-v1''))
      | None \<Rightarrow>
          (case nonblank (env ''JWT_SECRET'') of
             Some raw \<Rightarrow> Some (pl_sha lib (raw @ ''redcode-im-secret-config-v1''))
           | None \<Rightarrow> None))"

definition encrypt_to_base64 :: "push_lib \<Rightarrow> string \<Rightarrow> string \<Rightarrow> string \<Rightarrow> string option" where
  "encrypt_to_base64 lib key nonce plaintext =
     map_option (\<lambda>c. pl_b64 lib (nonce @ c)) (pl_seal lib key nonce plaintext)"

definition decrypt_from_base64 :: "push_lib \<Rightarrow> string \<Rightarrow> string \<Rightarrow> string option" where
  "decrypt_from_base64 lib key text =
     (case pl_unb64 lib text of
        None \<Rightarrow> None
      | Some raw \<Rightarrow>
          if length raw < 12 then None
          else (case pl_open lib key (take 12 raw) (drop 12 raw) of
            None \<Rightarrow> None
          | Some p \<Rightarrow> if pl_utf8 lib p then Some p else None))"

definition sha256_hex :: "push_lib \<Rightarrow> string \<Rightarrow> string" where
  "sha256_hex lib plaintext = pl_hex lib (pl_sha lib plaintext)"

text \<open>What the libraries promise.\<close>

definition lib_ok :: "push_lib \<Rightarrow> bool" where
  "lib_ok lib \<longleftrightarrow>
     (\<forall>s. pl_unb64 lib (pl_b64 lib s) = Some s)
     \<and> (\<forall>s. trim (pl_b64 lib s) = pl_b64 lib s \<and> (pl_b64 lib s = [] \<longleftrightarrow> s = []))
     \<and> (\<forall>k n p c. pl_seal lib k n p = Some c \<longrightarrow> pl_open lib k n c = Some p)
     \<and> (\<forall>s. trim (pl_hex lib s) = pl_hex lib s \<and> (pl_hex lib s = [] \<longleftrightarrow> s = []))
     \<and> (\<forall>s. length (pl_sha lib s) = 32)"

lemma decrypt_encrypt:
  assumes "lib_ok lib" "length nonce = 12" "pl_utf8 lib p" "encrypt_to_base64 lib key nonce p = Some c"
  shows "decrypt_from_base64 lib key c = Some p" "trim c = c" "c \<noteq> []"
  using assms by (auto simp: lib_ok_def encrypt_to_base64_def decrypt_from_base64_def)

section \<open>Providers\<close>

text \<open>\<open>NULL\<close> in the columns of the secret is \<open>None\<close>.\<close>

record provider_config =
  pc_id :: uuid
  pc_provider :: string
  pc_platform :: string
  pc_enabled :: bool
  pc_public :: json
  pc_secret :: "string option"
  pc_fingerprint :: "string option"
  pc_updated_by :: "uuid option"

definition get_config :: "string \<Rightarrow> string \<Rightarrow> provider_config list \<Rightarrow> provider_config option" where
  "get_config provider platform t = fetch_optional (\<lambda>c. pc_provider c = provider \<and> pc_platform c = platform) t"

definition keep_unless :: "'a option \<Rightarrow> 'a option \<Rightarrow> 'a option" where
  "keep_unless a b = (case a of None \<Rightarrow> b | Some x \<Rightarrow> Some x)"

definition upsert_config ::
  "uuid \<Rightarrow> string \<Rightarrow> string \<Rightarrow> bool \<Rightarrow> json \<Rightarrow> string option \<Rightarrow> string option \<Rightarrow> uuid option
     \<Rightarrow> provider_config list \<Rightarrow> provider_config list" where
  "upsert_config new_id provider platform enabled public secret fingerprint by t =
     (case get_config provider platform t of
        Some _ \<Rightarrow> update_where (\<lambda>c. pc_provider c = provider \<and> pc_platform c = platform)
          (\<lambda>c. c\<lparr>pc_enabled := enabled, pc_public := public, pc_secret := keep_unless secret (pc_secret c),
            pc_fingerprint := keep_unless fingerprint (pc_fingerprint c), pc_updated_by := by\<rparr>) t
      | None \<Rightarrow> t @ [\<lparr>pc_id = new_id, pc_provider = provider, pc_platform = platform, pc_enabled = enabled,
          pc_public = public, pc_secret = secret, pc_fingerprint = fingerprint, pc_updated_by = by\<rparr>])"

record apns_config =
  ap_team :: string
  ap_key :: string
  ap_bundle :: string
  ap_url :: string
  ap_private :: string

definition json_field :: "string \<Rightarrow> json \<Rightarrow> json option" where
  "json_field k v = (case v of JObject ms \<Rightarrow> map_of ms k | _ \<Rightarrow> None)"

definition json_string :: "json option \<Rightarrow> string option" where
  "json_string v = (case v of Some (JString s) \<Rightarrow> Some s | _ \<Rightarrow> None)"

text \<open>\<open>ApnsProviderConfig\<close> as \<open>serde\<close> reads it: three strings, and the environment, which has a default.\<close>

definition apns_provider_config :: "json \<Rightarrow> (string \<times> string \<times> string \<times> string) option" where
  "apns_provider_config public =
     (case (json_string (json_field ''team_id'' public), json_string (json_field ''key_id'' public),
            json_string (json_field ''bundle_id'' public)) of
        (Some t, Some k, Some b) \<Rightarrow>
          (case json_field ''environment'' public of
             None \<Rightarrow> Some (t, k, b, ''production'')
           | Some (JString e) \<Rightarrow> Some (t, k, b, e)
           | Some _ \<Rightarrow> None)
      | _ \<Rightarrow> None)"

definition apns_from_config ::
  "push_lib \<Rightarrow> (string \<Rightarrow> string option) \<Rightarrow> json \<Rightarrow> string \<Rightarrow> apns_config option" where
  "apns_from_config lib env public private_key_p8 =
     (case apns_provider_config public of
        None \<Rightarrow> None
      | Some (team, key, bundle, environment) \<Rightarrow>
          (case apns_environment_parse environment of
             None \<Rightarrow> None
           | Some e \<Rightarrow>
               if trim team = [] \<or> trim key = [] \<or> trim bundle = [] \<or> trim private_key_p8 = []
                 \<or> \<not> pl_ec_key lib (trim private_key_p8) then None
               else Some \<lparr>ap_team = trim team, ap_key = trim key, ap_bundle = trim bundle,
                 ap_url = apns_base_url env e, ap_private = trim private_key_p8\<rparr>))"

section \<open>The runtime\<close>

definition push_runtime_ttl :: int where
  "push_runtime_ttl = seconds 10"

record push_runtime =
  pr_loaded :: instant
  pr_enabled :: bool
  pr_skip :: bool
  pr_fcm_fp :: "string option"
  pr_apns_fp :: "string option"
  pr_fcm :: "service_account option"
  pr_apns :: "apns_config option"

definition default_push_runtime :: "instant \<Rightarrow> push_runtime" where
  "default_push_runtime now =
     \<lparr>pr_loaded = now - 10 * push_runtime_ttl, pr_enabled = True, pr_skip = True, pr_fcm_fp = None,
      pr_apns_fp = None, pr_fcm = None, pr_apns = None\<rparr>"

definition invalidate_push_runtime_cache :: "instant \<Rightarrow> push_runtime \<Rightarrow> push_runtime" where
  "invalidate_push_runtime_cache now r = r\<lparr>pr_loaded := now - 10 * push_runtime_ttl\<rparr>"

text \<open>A switch: the setting in the database, which a failed query leaves to the environment.\<close>

definition push_switch :: "(string \<Rightarrow> string option) \<Rightarrow> string \<Rightarrow> general_setting option \<Rightarrow> bool" where
  "push_switch env name setting =
     (let b = env_flag env name True in
      case setting of None \<Rightarrow> b | Some g \<Rightarrow> parse_bool_value (gs_value g) b)"

text \<open>The ciphertext of an enabled provider.\<close>

definition provider_secret :: "provider_config option \<Rightarrow> (provider_config \<times> string) option" where
  "provider_secret cfg =
     (case cfg of None \<Rightarrow> None
      | Some c \<Rightarrow> if pc_enabled c then
          (case pc_secret c of None \<Rightarrow> None | Some s \<Rightarrow> if trim s = [] then None else Some (c, trim s))
        else None)"

definition config_fingerprint :: "push_lib \<Rightarrow> provider_config \<Rightarrow> string \<Rightarrow> string" where
  "config_fingerprint lib cfg raw =
     (case nonblank (pc_fingerprint cfg) of None \<Rightarrow> sha256_hex lib raw | Some fp \<Rightarrow> fp)
       @ '':'' @ sha256_hex lib (pl_json_text lib (pc_public cfg))"

text \<open>
  The next client of a provider and its fingerprint; the old client stays when the fingerprint is
  the one it was made from.  \<open>None\<close> outside: there is no key, and the runtime stays as it is.
\<close>

definition next_client ::
  "push_lib \<Rightarrow> (string \<Rightarrow> string option) \<Rightarrow> (provider_config \<Rightarrow> string \<Rightarrow> 'c option) \<Rightarrow> string option \<Rightarrow> 'c option
     \<Rightarrow> provider_config option \<Rightarrow> (string option \<times> 'c option) option" where
  "next_client lib env build old_fp old cfg =
     (case provider_secret cfg of
        None \<Rightarrow> Some (None, None)
      | Some (c, text) \<Rightarrow>
          (case derive_key lib env of
             None \<Rightarrow> None
           | Some key \<Rightarrow>
               (case decrypt_from_base64 lib key text of
                  None \<Rightarrow> Some (None, None)
                | Some raw \<Rightarrow>
                    (let fp = config_fingerprint lib c raw in
                     Some (Some fp, if old_fp = Some fp then old else build c raw)))))"

text \<open>
  \<open>config_db\<close>: what the four queries answer, each \<open>None\<close> when it fails or finds nothing.  Without a
  key the switches are new and the clients are the old ones.
\<close>

record config_db =
  cd_enabled :: "general_setting option"
  cd_skip :: "general_setting option"
  cd_fcm :: "provider_config option"
  cd_apns :: "provider_config option"

definition reload_push_runtime ::
  "push_lib \<Rightarrow> (string \<Rightarrow> string option) \<Rightarrow> config_db \<Rightarrow> instant \<Rightarrow> push_runtime \<Rightarrow> push_runtime" where
  "reload_push_runtime lib env q now r =
     (let r' = r\<lparr>pr_enabled := push_switch env ''PUSH_ENABLED'' (cd_enabled q),
                 pr_skip := push_switch env ''PUSH_SKIP_IF_ONLINE'' (cd_skip q), pr_loaded := now\<rparr>
      in case next_client lib env (\<lambda>c raw. pl_account lib raw) (pr_fcm_fp r) (pr_fcm r) (cd_fcm q) of
           None \<Rightarrow> r'
         | Some (fcm_fp, fcm) \<Rightarrow>
             (case next_client lib env (\<lambda>c raw. apns_from_config lib env (pc_public c) raw)
                     (pr_apns_fp r) (pr_apns r) (cd_apns q) of
                None \<Rightarrow> r'
              | Some (apns_fp, apns) \<Rightarrow>
                  r'\<lparr>pr_fcm_fp := fcm_fp, pr_apns_fp := apns_fp, pr_fcm := fcm, pr_apns := apns\<rparr>))"

definition push_runtime_snapshot ::
  "push_lib \<Rightarrow> (string \<Rightarrow> string option) \<Rightarrow> config_db \<Rightarrow> instant \<Rightarrow> push_runtime \<Rightarrow> push_runtime" where
  "push_runtime_snapshot lib env q now r =
     (if pr_loaded r > now - push_runtime_ttl then r else reload_push_runtime lib env q now r)"

section \<open>The handlers of the administrator\<close>

record push_settings =
  runtime_db :: db
  provider_configs :: "provider_config list"
  push_runtime :: push_runtime

definition config_view :: "(string \<Rightarrow> string \<Rightarrow> bool) \<Rightarrow> push_settings \<Rightarrow> config_db" where
  "config_view down s =
     \<lparr>cd_enabled = get_general_setting ''push_enabled'' (runtime_db s),
      cd_skip = get_general_setting ''push_skip_if_online'' (runtime_db s),
      cd_fcm = (if down ''fcm'' ''all'' then None else get_config ''fcm'' ''all'' (provider_configs s)),
      cd_apns = (if down ''apns'' ''ios'' then None else get_config ''apns'' ''ios'' (provider_configs s))\<rparr>"

definition bool_text :: "bool \<Rightarrow> string" where
  "bool_text b = (if b then ''true'' else ''false'')"

definition update_push_settings_admin ::
  "instant \<Rightarrow> uuid option \<Rightarrow> bool \<Rightarrow> bool \<Rightarrow> push_settings \<Rightarrow> unit result \<times> push_settings" where
  "update_push_settings_admin now sub enabled skip s =
     (case sub of
        None \<Rightarrow> (Inl (ValidationError ''uuid''), s)
      | Some editor \<Rightarrow> (Inr (), s
          \<lparr>runtime_db := upsert_general_setting now ''push_skip_if_online'' (bool_text skip) (Some editor)
             (upsert_general_setting now ''push_enabled'' (bool_text enabled) (Some editor) (runtime_db s)),
           push_runtime := invalidate_push_runtime_cache now (push_runtime s)\<rparr>))"

record provider_request =
  pq_enabled :: bool
  pq_account :: "string option"
  pq_team :: "string option"
  pq_key :: "string option"
  pq_bundle :: "string option"
  pq_environment :: "string option"
  pq_private :: "string option"

record provider_view =
  vw_provider :: string
  vw_enabled :: bool
  vw_public :: json
  vw_has_secret :: bool
  vw_fingerprint :: "string option"

definition provider_view_of :: "provider_config \<Rightarrow> provider_view" where
  "provider_view_of c =
     \<lparr>vw_provider = pc_provider c, vw_enabled = pc_enabled c, vw_public = pc_public c,
      vw_has_secret = (nonblank (pc_secret c) \<noteq> None), vw_fingerprint = pc_fingerprint c\<rparr>"

text \<open>The columns a request wants written: the public part, the ciphertext and the fingerprint.\<close>

type_synonym provider_columns = "json \<times> string option \<times> string option"

definition seal_secret ::
  "push_lib \<Rightarrow> (string \<Rightarrow> string option) \<Rightarrow> string \<Rightarrow> string \<Rightarrow> (string option \<times> string option) result" where
  "seal_secret lib env nonce plaintext =
     (case derive_key lib env of
        None \<Rightarrow> Inl (InternalError ''no key'')
      | Some key \<Rightarrow>
          (case encrypt_to_base64 lib key nonce plaintext of
             None \<Rightarrow> Inl (InternalError ''encryption'')
           | Some c \<Rightarrow> Inr (Some c, Some (sha256_hex lib plaintext))))"

definition account_public :: "service_account \<Rightarrow> json" where
  "account_public a = JObject [(''client_email'', JString (sv_email a)), (''project_id'', JString (sv_project a)),
     (''token_uri'', case sv_token_uri a of None \<Rightarrow> JNull | Some u \<Rightarrow> JString u)]"

definition fcm_columns ::
  "push_lib \<Rightarrow> (string \<Rightarrow> string option) \<Rightarrow> string \<Rightarrow> provider_config option \<Rightarrow> provider_request
     \<Rightarrow> provider_columns result" where
  "fcm_columns lib env nonce existing q =
     (let public = (case existing of None \<Rightarrow> JObject [] | Some c \<Rightarrow> pc_public c) in
      if pq_enabled q \<and> (case existing of None \<Rightarrow> True | Some c \<Rightarrow> pc_secret c = None) \<and> nonblank (pq_account q) = None
      then Inl (ValidationError ''service_account_json'')
      else case pq_account q of
        None \<Rightarrow> Inr (public, None, None)
      | Some raw \<Rightarrow>
          if trim raw = [] then Inl (ValidationError ''service_account_json'')
          else (case pl_account lib (trim raw) of
            None \<Rightarrow> Inl (ValidationError ''service_account_json'')
          | Some a \<Rightarrow>
              if trim (sv_project a) = [] \<or> trim (sv_email a) = [] \<or> trim (sv_key a) = []
              then Inl (ValidationError ''service_account_json'')
              else and_then (seal_secret lib env nonce (trim raw)) (\<lambda>(secret, fp).
                Inr (account_public a, secret, fp))))"

definition or_field :: "string option \<Rightarrow> string \<Rightarrow> string" where
  "or_field v old = (case nonblank v of None \<Rightarrow> old | Some s \<Rightarrow> trim s)"

definition public_text :: "string \<Rightarrow> string \<Rightarrow> provider_config option \<Rightarrow> string" where
  "public_text name fallback existing =
     (case existing of None \<Rightarrow> trim fallback
      | Some c \<Rightarrow> trim (case json_string (json_field name (pc_public c)) of None \<Rightarrow> fallback | Some s \<Rightarrow> s))"

definition environment_field :: "string option \<Rightarrow> string \<Rightarrow> string result" where
  "environment_field v old =
     (case nonblank v of
        None \<Rightarrow> Inr old
      | Some e \<Rightarrow>
          (case apns_environment_parse e of
             None \<Rightarrow> Inl (ValidationError ''environment'')
           | Some Production \<Rightarrow> Inr ''production''
           | Some Sandbox \<Rightarrow> Inr ''sandbox''))"

text \<open>\<open>str::contains\<close> on a text.\<close>

fun contains_text :: "string \<Rightarrow> string \<Rightarrow> bool" where
  "contains_text needle [] = (needle = [])"
| "contains_text needle (c # s) = (strip_prefix needle (c # s) \<noteq> None \<or> contains_text needle s)"

definition apns_columns ::
  "push_lib \<Rightarrow> (string \<Rightarrow> string option) \<Rightarrow> (string \<Rightarrow> string) \<Rightarrow> string \<Rightarrow> provider_config option \<Rightarrow> provider_request
     \<Rightarrow> provider_columns result" where
  "apns_columns lib env lower nonce existing q =
     (let team = or_field (pq_team q) (public_text ''team_id'' [] existing);
          key = or_field (pq_key q) (public_text ''key_id'' [] existing);
          bundle = or_field (pq_bundle q) (public_text ''bundle_id'' [] existing)
      in and_then (environment_field (pq_environment q) (lower (public_text ''environment'' ''production'' existing)))
           (\<lambda>environment.
         if pq_enabled q \<and> (team = [] \<or> key = [] \<or> bundle = []) then Inl (ValidationError ''team_id, key_id, bundle_id'')
         else if pq_enabled q \<and> (case existing of None \<Rightarrow> True | Some c \<Rightarrow> nonblank (pc_secret c) = None)
           \<and> nonblank (pq_private q) = None then Inl (ValidationError ''private_key_p8'')
         else
           (let public = JObject [(''bundle_id'', JString bundle), (''environment'', JString environment),
                  (''key_id'', JString key), (''team_id'', JString team)]
            in case pq_private q of
                 None \<Rightarrow> Inr (public, None, None)
               | Some raw \<Rightarrow>
                   if trim raw = [] \<or> \<not> contains_text ''BEGIN PRIVATE KEY'' (trim raw)
                   then Inl (ValidationError ''private_key_p8'')
                   else and_then (seal_secret lib env nonce (trim raw)) (\<lambda>(secret, fp). Inr (public, secret, fp)))))"

definition upsert_push_provider_admin ::
  "push_lib \<Rightarrow> (string \<Rightarrow> string option) \<Rightarrow> (string \<Rightarrow> string) \<Rightarrow> string \<Rightarrow> uuid \<Rightarrow> instant \<Rightarrow> uuid option \<Rightarrow> string
     \<Rightarrow> provider_request \<Rightarrow> push_settings \<Rightarrow> provider_view result \<times> push_settings" where
  "upsert_push_provider_admin lib env lower nonce new_id now sub path q s =
     (let provider = to_ascii_lowercase (trim path) in
      if provider \<noteq> ''fcm'' \<and> provider \<noteq> ''apns'' then (Inl (ValidationError ''provider''), s)
      else case sub of
        None \<Rightarrow> (Inl (ValidationError ''uuid''), s)
      | Some editor \<Rightarrow>
          (let platform = (if provider = ''apns'' then ''ios'' else ''all'');
               existing = get_config provider platform (provider_configs s)
           in case (if provider = ''fcm'' then fcm_columns lib env nonce existing q
                    else apns_columns lib env lower nonce existing q) of
                Inl e \<Rightarrow> (Inl e, s)
              | Inr (public, secret, fp) \<Rightarrow>
                  (let t = upsert_config new_id provider platform (pq_enabled q) public secret fp (Some editor)
                         (provider_configs s)
                   in (case get_config provider platform t of
                         None \<Rightarrow> Inl (DatabaseError RowNotFound)
                       | Some c \<Rightarrow> Inr (provider_view_of c),
                       s\<lparr>provider_configs := t,
                         push_runtime := invalidate_push_runtime_cache now (push_runtime s)\<rparr>))))"

section \<open>What is saved is what is used\<close>

lemma get_after_upsert_config:
  "\<exists>c. get_config p f (upsert_config i p f b public secret fp by t) = Some c \<and> pc_enabled c = b \<and> pc_public c = public
    \<and> (secret \<noteq> None \<longrightarrow> pc_secret c = secret) \<and> (fp \<noteq> None \<longrightarrow> pc_fingerprint c = fp)"
proof (cases "get_config p f t")
  case None
  then have "find (\<lambda>c. pc_provider c = p \<and> pc_platform c = f) (t @ [c]) = Some c"
    if "pc_provider c = p" "pc_platform c = f" for c
    using that by (induction t) (auto simp: get_config_def split: if_splits)
  then show ?thesis using None by (simp add: upsert_config_def) (simp add: get_config_def)
next
  case (Some c)
  let ?u = "\<lambda>c. c\<lparr>pc_enabled := b, pc_public := public, pc_secret := keep_unless secret (pc_secret c),
    pc_fingerprint := keep_unless fp (pc_fingerprint c), pc_updated_by := by\<rparr>"
  have "find (\<lambda>c. pc_provider c = p \<and> pc_platform c = f)
      (update_where (\<lambda>c. pc_provider c = p \<and> pc_platform c = f) ?u t) = Some (?u c)"
    using Some unfolding get_config_def by (induction t) (auto simp: update_where_def split: if_splits)
  then show ?thesis using Some
    by (auto simp: upsert_config_def get_config_def keep_unless_def split: option.splits)
qed

end
