(* ===== verification/PushClients.thy ===== *)
theory PushClients
  imports PushConfig
begin

text \<open>
  The clients of the push services in \<open>api/src/services/push.rs\<close>: the tokens they authenticate
  with, the request to the service, how its answer is classified, and the loop that tries again.
  The HTTP client, the signatures and the JSON decoders are fields of \<open>push_net\<close>.
\<close>

section \<open>Errors\<close>

datatype send_error_kind = Transport | Config | Http nat "string option"

record send_error =
  se_kind :: send_error_kind
  se_message :: string

definition is_client_error :: "nat \<Rightarrow> bool" where
  "is_client_error status \<longleftrightarrow> 400 \<le> status \<and> status < 500"

definition is_success :: "nat \<Rightarrow> bool" where
  "is_success status \<longleftrightarrow> 200 \<le> status \<and> status < 300"

definition fcm_is_unregistered :: "send_error \<Rightarrow> bool" where
  "fcm_is_unregistered e =
     (case se_kind e of Http _ (Some code) \<Rightarrow> to_ascii_lowercase code = ''unregistered'' | _ \<Rightarrow> False)"

text \<open>\<open>lower\<close> is \<open>str::to_lowercase\<close>.\<close>

definition fcm_is_invalid_token :: "(string \<Rightarrow> string) \<Rightarrow> send_error \<Rightarrow> bool" where
  "fcm_is_invalid_token lower e =
     (case se_kind e of
        Http status _ \<Rightarrow>
          status = 400 \<and> (let message = lower (se_message e) in
            contains_text ''not a valid fcm registration token'' message
            \<or> contains_text ''registration token is not a valid'' message
            \<or> contains_text ''invalid registration token'' message)
      | _ \<Rightarrow> False)"

definition is_permanent :: "send_error \<Rightarrow> bool" where
  "is_permanent e =
     (case se_kind e of
        Transport \<Rightarrow> False
      | Config \<Rightarrow> True
      | Http status _ \<Rightarrow> status \<noteq> 429 \<and> is_client_error status)"

definition apns_is_unregistered :: "send_error \<Rightarrow> bool" where
  "apns_is_unregistered e =
     (case se_kind e of Http _ (Some reason) \<Rightarrow> to_ascii_lowercase reason = ''unregistered'' | _ \<Rightarrow> False)"

definition apns_is_invalid_token :: "send_error \<Rightarrow> bool" where
  "apns_is_invalid_token e =
     (case se_kind e of
        Http _ (Some reason) \<Rightarrow> reason \<in> set [''BadDeviceToken'', ''DeviceTokenNotForTopic'', ''MissingDeviceToken'']
      | _ \<Rightarrow> False)"

text \<open>\<open>status_text\<close>: how a status code is printed.\<close>

definition fcm_to_log_string :: "(nat \<Rightarrow> string) \<Rightarrow> send_error \<Rightarrow> string" where
  "fcm_to_log_string status_text e =
     (case se_kind e of
        Http status code \<Rightarrow>
          (case nonblank code of
             Some c \<Rightarrow> ''status='' @ status_text status @ '' code='' @ c @ '' '' @ se_message e
           | None \<Rightarrow> ''status='' @ status_text status @ '' '' @ se_message e)
      | _ \<Rightarrow> se_message e)"

definition apns_to_log_string :: "(nat \<Rightarrow> string) \<Rightarrow> send_error \<Rightarrow> string" where
  "apns_to_log_string status_text e =
     (case se_kind e of
        Http status reason \<Rightarrow>
          (case nonblank reason of
             Some r \<Rightarrow> ''status='' @ status_text status @ '' reason='' @ r @ '' '' @ se_message e
           | None \<Rightarrow> ''status='' @ status_text status @ '' '' @ se_message e)
      | _ \<Rightarrow> se_message e)"

section \<open>Sending\<close>

text \<open>A request either fails on the way or is answered with a status and a body.\<close>

datatype http_reply = NoReply string | Reply nat string

text \<open>
  \<open>pn_oauth_body\<close>: the access token and its seconds; \<open>pn_fcm_error\<close>: the message of the error and
  the error codes of its details; \<open>pn_apns_reason\<close>: the reason.
\<close>

record push_net =
  pn_sign_account :: "service_account \<Rightarrow> string \<Rightarrow> instant \<Rightarrow> string option"
  pn_sign_apns :: "apns_config \<Rightarrow> instant \<Rightarrow> string option"
  pn_oauth :: "string \<Rightarrow> string \<Rightarrow> http_reply"
  pn_oauth_body :: "string \<Rightarrow> (string \<times> int) option"
  pn_fcm :: "string \<Rightarrow> string \<Rightarrow> json \<Rightarrow> http_reply"  \<comment> \<open>URL, access token, body\<close>
  pn_fcm_error :: "string \<Rightarrow> (string option \<times> string option list) option"
  pn_apns :: "string \<Rightarrow> string \<Rightarrow> string \<Rightarrow> json \<Rightarrow> http_reply"  \<comment> \<open>URL, provider token, topic, body\<close>
  pn_apns_reason :: "string \<Rightarrow> string option"

type_synonym cached_token = "(string \<times> instant) option"

definition header_value :: "string \<Rightarrow> bool" where
  "header_value s \<longleftrightarrow> list_all (\<lambda>c. (of_char c :: nat) = 9 \<or> 32 \<le> (of_char c :: nat) \<and> (of_char c :: nat) \<noteq> 127) s"

definition access_token ::
  "push_net \<Rightarrow> service_account \<Rightarrow> instant \<Rightarrow> cached_token \<Rightarrow> (send_error + string) \<times> cached_token" where
  "access_token net sa now cached =
     (let fetch =
        (let token_uri = (case sv_token_uri sa of None \<Rightarrow> ''https://oauth2.googleapis.com/token'' | Some u \<Rightarrow> u) in
         case pn_sign_account net sa token_uri now of
           None \<Rightarrow> (Inl \<lparr>se_kind = Config, se_message = ''private_key''\<rparr>, cached)
         | Some jwt \<Rightarrow>
             (case pn_oauth net token_uri jwt of
                NoReply e \<Rightarrow> (Inl \<lparr>se_kind = Transport, se_message = e\<rparr>, cached)
              | Reply status body \<Rightarrow>
                  if \<not> is_success status
                  then (Inl \<lparr>se_kind = (if is_client_error status then Config else Transport), se_message = body\<rparr>, cached)
                  else (case pn_oauth_body net body of
                    None \<Rightarrow> (Inl \<lparr>se_kind = Transport, se_message = ''token body''\<rparr>, cached)
                  | Some (token, expires_in) \<Rightarrow> (Inr token, Some (token, now + seconds expires_in)))))
      in case cached of
           Some (token, expires_at) \<Rightarrow> if expires_at > now + seconds 60 then (Inr token, cached) else fetch
         | None \<Rightarrow> fetch)"

definition provider_token ::
  "push_net \<Rightarrow> apns_config \<Rightarrow> instant \<Rightarrow> cached_token \<Rightarrow> (send_error + string) \<times> cached_token" where
  "provider_token net ap now cached =
     (let fetch =
        (case pn_sign_apns net ap now of
           None \<Rightarrow> (Inl \<lparr>se_kind = Config, se_message = ''private_key_p8''\<rparr>, cached)
         | Some token \<Rightarrow> (Inr token, Some (token, now + seconds (50 * 60))))
      in case cached of
           Some (token, expires_at) \<Rightarrow> if expires_at > now + seconds (5 * 60) then (Inr token, cached) else fetch
         | None \<Rightarrow> fetch)"

fun first_code :: "string option list \<Rightarrow> string option" where
  "first_code [] = None"
| "first_code (None # cs) = first_code cs"
| "first_code (Some c # cs) = Some c"

definition fcm_answer :: "push_net \<Rightarrow> http_reply \<Rightarrow> send_error option" where
  "fcm_answer net reply =
     (case reply of
        NoReply e \<Rightarrow> Some \<lparr>se_kind = Transport, se_message = e\<rparr>
      | Reply status body \<Rightarrow>
          if is_success status then None
          else (case pn_fcm_error net body of
            None \<Rightarrow> Some \<lparr>se_kind = Http status None, se_message = body\<rparr>
          | Some (message, codes) \<Rightarrow> Some \<lparr>se_kind = Http status (nonblank (first_code codes)),
              se_message = (case message of None \<Rightarrow> body | Some m \<Rightarrow> m)\<rparr>))"

text \<open>The data of a push is a map from texts to texts, here a list without repeated keys.\<close>

definition fcm_payload :: "string \<Rightarrow> string \<Rightarrow> string \<Rightarrow> (string \<times> string) list \<Rightarrow> json" where
  "fcm_payload device_token title body data =
     JObject [(''message'', JObject [(''token'', JString device_token),
       (''notification'', JObject [(''title'', JString title), (''body'', JString body)]),
       (''data'', JObject (map (\<lambda>(k, v). (k, JString v)) data))])]"

definition fcm_send_to_token ::
  "push_net \<Rightarrow> (string \<Rightarrow> string option) \<Rightarrow> service_account \<Rightarrow> instant \<Rightarrow> string \<Rightarrow> string \<Rightarrow> string
     \<Rightarrow> (string \<times> string) list \<Rightarrow> cached_token \<Rightarrow> send_error option \<times> cached_token" where
  "fcm_send_to_token net env sa now device_token title body data cached =
     (case access_token net sa now cached of
        (Inl e, cached') \<Rightarrow> (Some e, cached')
      | (Inr token, cached') \<Rightarrow>
          (if \<not> header_value (''Bearer '' @ token)
           then Some \<lparr>se_kind = Config, se_message = ''Authorization''\<rparr>
           else fcm_answer net (pn_fcm net (fcm_base_url env @ ''/v1/projects/'' @ sv_project sa @ ''/messages:send'')
             token (fcm_payload device_token title body data)), cached'))"

definition apns_answer :: "push_net \<Rightarrow> http_reply \<Rightarrow> send_error option" where
  "apns_answer net reply =
     (case reply of
        NoReply e \<Rightarrow> Some \<lparr>se_kind = Transport, se_message = e\<rparr>
      | Reply status body \<Rightarrow>
          if is_success status then None
          else (let reason = nonblank (pn_apns_reason net body) in
            Some \<lparr>se_kind = Http status reason, se_message = (case reason of None \<Rightarrow> body | Some r \<Rightarrow> r)\<rparr>))"

definition apns_payload :: "string \<Rightarrow> string \<Rightarrow> (string \<times> string) list \<Rightarrow> json" where
  "apns_payload title body data =
     JObject ((''aps'', JObject [(''alert'', JObject [(''title'', JString title), (''body'', JString body)]),
         (''sound'', JString ''default'')])
       # map (\<lambda>(k, v). (k, JString v)) (filter (\<lambda>(k, v). k \<noteq> ''aps'') data))"

definition apns_send_to_token ::
  "push_net \<Rightarrow> apns_config \<Rightarrow> instant \<Rightarrow> string \<Rightarrow> string \<Rightarrow> string \<Rightarrow> (string \<times> string) list \<Rightarrow> cached_token
     \<Rightarrow> send_error option \<times> cached_token" where
  "apns_send_to_token net ap now device_token title body data cached =
     (case provider_token net ap now cached of
        (Inl e, cached') \<Rightarrow> (Some e, cached')
      | (Inr token, cached') \<Rightarrow>
          (if \<not> header_value (''bearer '' @ token) then Some \<lparr>se_kind = Config, se_message = ''Authorization''\<rparr>
           else if \<not> header_value (ap_bundle ap) then Some \<lparr>se_kind = Config, se_message = ''apns-topic''\<rparr>
           else apns_answer net (pn_apns net (ap_url ap @ ''/3/device/'' @ device_token) token (ap_bundle ap)
             (apns_payload title body data)), cached'))"

section \<open>Trying again\<close>

definition push_send_max_attempts :: int where
  "push_send_max_attempts = 3"

definition push_send_retry_base_ms :: nat where
  "push_send_retry_base_ms = 300"

record send_outcome =
  so_ok :: bool
  so_attempt :: int
  so_error :: "string option"
  so_deactivate :: bool

text \<open>
  \<open>answers\<close> gives the result of each attempt; \<open>gone\<close> and \<open>render\<close> are the provider's
  \<open>is_unregistered() || is_invalid_token()\<close> and \<open>to_log_string\<close>.  The pauses are not part of it.
\<close>

function send_with_retry ::
  "(send_error \<Rightarrow> bool) \<Rightarrow> (send_error \<Rightarrow> string) \<Rightarrow> (int \<Rightarrow> send_error option) \<Rightarrow> int \<Rightarrow> send_outcome" where
  "send_with_retry gone render answers attempt =
     (case answers attempt of
        None \<Rightarrow> \<lparr>so_ok = True, so_attempt = attempt, so_error = None, so_deactivate = False\<rparr>
      | Some e \<Rightarrow>
          if is_permanent e \<or> attempt \<ge> push_send_max_attempts
          then \<lparr>so_ok = False, so_attempt = attempt, so_error = Some (render e), so_deactivate = gone e\<rparr>
          else send_with_retry gone render answers (attempt + 1))"
  by pat_completeness auto

termination
  by (relation "measure (\<lambda>(_, _, _, attempt). nat (push_send_max_attempts - attempt))")
    (auto simp: push_send_max_attempts_def)

declare send_with_retry.simps [simp del]

definition fcm_gone :: "(string \<Rightarrow> string) \<Rightarrow> send_error \<Rightarrow> bool" where
  "fcm_gone lower e \<longleftrightarrow> fcm_is_unregistered e \<or> fcm_is_invalid_token lower e"

definition apns_gone :: "send_error \<Rightarrow> bool" where
  "apns_gone e \<longleftrightarrow> apns_is_unregistered e \<or> apns_is_invalid_token e"

text \<open>\<open>300 * 2 ^ (attempt - 1)\<close> milliseconds, saturating.\<close>

definition retry_delay_ms :: "int \<Rightarrow> nat" where
  "retry_delay_ms attempt =
     min (push_send_retry_base_ms * min (2 ^ nat (clamp 0 16 (attempt - 1))) (2 ^ 64 - 1)) (2 ^ 64 - 1)"

lemma send_attempts:
  "1 \<le> attempt \<Longrightarrow> attempt \<le> push_send_max_attempts \<Longrightarrow>
    attempt \<le> so_attempt (send_with_retry gone render answers attempt)
    \<and> so_attempt (send_with_retry gone render answers attempt) \<le> push_send_max_attempts"
proof (induction gone render answers attempt rule: send_with_retry.induct)
  case (1 gone render answers attempt)
  then show ?case
    by (subst (1 2) send_with_retry.simps) (force split: option.split)
qed

text \<open>Every attempt before the last one failed in a way that may pass.\<close>

lemma send_result:
  "r = send_with_retry gone render answers attempt \<Longrightarrow>
    (so_ok r \<longleftrightarrow> answers (so_attempt r) = None)
    \<and> (so_deactivate r \<longrightarrow> (\<exists>e. answers (so_attempt r) = Some e \<and> gone e))
    \<and> (\<forall>k. attempt \<le> k \<longrightarrow> k < so_attempt r \<longrightarrow> (\<exists>e. answers k = Some e \<and> \<not> is_permanent e))"
proof (induction gone render answers attempt arbitrary: r rule: send_with_retry.induct)
  case (1 gone render answers attempt)
  show ?case
  proof (cases "\<exists>e. answers attempt = Some e \<and> \<not> (is_permanent e \<or> attempt \<ge> push_send_max_attempts)")
    case True
    then obtain e where e: "answers attempt = Some e" "\<not> (is_permanent e \<or> attempt \<ge> push_send_max_attempts)" by blast
    then have r: "r = send_with_retry gone render answers (attempt + 1)"
      using 1(2) send_with_retry.simps [of gone render answers attempt] by simp
    have "k = attempt \<or> attempt + 1 \<le> k" if "attempt \<le> k" for k using that by linarith
    then show ?thesis using 1(1) [OF e r] e by blast
  next
    case False
    then have "so_attempt r = attempt" "so_ok r \<longleftrightarrow> answers attempt = None"
      "so_deactivate r \<longrightarrow> (\<exists>e. answers attempt = Some e \<and> gone e)"
      using 1(2) send_with_retry.simps [of gone render answers attempt] by (auto split: option.splits)
    then show ?thesis by simp
  qed
qed

end
