(* ===== verification/Push.thy ===== *)
theory Push
  imports PushClients Sessions Files
begin

text \<open>
  Notifications: the devices of \<open>api/src/database/push_device_store.rs\<close> with the handlers of
  \<open>api/src/handlers/push.rs\<close>, and in \<open>api/src/services/push.rs\<close> what a notification says, whom it
  is for and how it is sent.  \<open>push_env\<close> holds what the step sees from outside: which queries
  fail, who is online, and what the push services answer to each attempt.
\<close>

section \<open>Devices\<close>

record push_device =
  pd_id :: uuid
  pd_user :: uuid
  pd_platform :: string
  pd_channel :: string
  pd_device :: string
  pd_token :: string
  pd_active :: bool
  pd_seen :: instant

datatype notification_setting = AllMessages | MentionsOnly | MutedRoom

record push_log =
  lg_push :: uuid
  lg_user :: uuid
  lg_device :: string
  lg_platform :: string
  lg_channel :: string
  lg_provider :: string
  lg_event :: string
  lg_room :: "uuid option"
  lg_message :: "uuid option"
  lg_request :: "uuid option"
  lg_title :: string
  lg_body :: string
  lg_data :: "(string \<times> string) list"
  lg_attempt :: int
  lg_success :: bool
  lg_error :: "string option"
  lg_created :: instant

record snapshot =
  ps_id :: uuid
  ps_room :: uuid
  ps_sender :: uuid
  ps_username :: string
  ps_nickname :: "string option"
  ps_content :: string
  ps_type :: message_type
  ps_preview :: string

datatype push_payload =
    SnapshotPayload snapshot
  | LegacyPayload uuid
  | FriendPayload uuid uuid string uuid "string option"
  | GroupPayload "uuid list" uuid string string string string
  | OtherPayload

datatype job_status = JobPending | JobDone | JobFailed | JobRetry

record push_job =
  pj_id :: uuid
  pj_type :: string
  pj_payload :: push_payload
  pj_status :: job_status
  pj_attempts :: int
  pj_next :: instant
  pj_error :: "string option"
  pj_created :: instant
  pj_updated :: instant

record push_world = push_settings +
  pw_accounts :: "user_account list"
  pw_parts :: "message_part list"
  pw_notify :: "uuid \<Rightarrow> uuid \<Rightarrow> notification_setting"  \<comment> \<open>room, member\<close>
  pw_devices :: "push_device list"
  pw_jobs :: "push_job list"
  pw_logs :: "push_log list"

definition same_push_device :: "string \<Rightarrow> push_device \<Rightarrow> bool" where
  "same_push_device device p \<longleftrightarrow> pd_device p = device"

definition renewed_device :: "instant \<Rightarrow> uuid \<Rightarrow> string \<Rightarrow> string \<Rightarrow> string \<Rightarrow> string \<Rightarrow> push_device \<Rightarrow> push_device" where
  "renewed_device now user platform channel device token p =
     p\<lparr>pd_user := user, pd_platform := platform, pd_channel := channel, pd_device := device, pd_token := token,
       pd_active := True, pd_seen := now\<rparr>"

text \<open>The statement with \<open>ON CONFLICT (device_id)\<close>; a token is unique too.\<close>

definition insert_push_device ::
  "instant \<Rightarrow> uuid \<Rightarrow> uuid \<Rightarrow> string \<Rightarrow> string \<Rightarrow> string \<Rightarrow> string \<Rightarrow> push_world
     \<Rightarrow> sqlx_error + (push_device \<times> push_world)" where
  "insert_push_device now new_id user platform channel device token w =
     (let t = pw_devices w; renew = renewed_device now user platform channel device token in
      if user \<notin> set (users (runtime_db w)) then Inl ForeignKeyViolation
      else if exists_row (\<lambda>p. pd_token p = token \<and> pd_device p \<noteq> device) t then Inl UniqueViolation
      else case fetch_optional (same_push_device device) t of
        Some p \<Rightarrow> Inr (renew p, w\<lparr>pw_devices := update_where (same_push_device device) renew t\<rparr>)
      | None \<Rightarrow>
          (let p = \<lparr>pd_id = new_id, pd_user = user, pd_platform = platform, pd_channel = channel, pd_device = device,
                pd_token = token, pd_active = True, pd_seen = now\<rparr>
           in Inr (p, w\<lparr>pw_devices := t @ [p]\<rparr>)))"

text \<open>After an error the row of the token is bound to the caller, if there is one.\<close>

definition upsert_push_device ::
  "instant \<Rightarrow> uuid \<Rightarrow> uuid \<Rightarrow> string \<Rightarrow> string \<Rightarrow> string \<Rightarrow> string \<Rightarrow> push_world
     \<Rightarrow> sqlx_error + (push_device \<times> push_world)" where
  "upsert_push_device now new_id user platform channel device token w =
     (case insert_push_device now new_id user platform channel device token w of
        Inr r \<Rightarrow> Inr r
      | Inl e \<Rightarrow>
          (let t = pw_devices w; P = (\<lambda>p. pd_token p = token);
               renew = renewed_device now user platform channel device token
           in case fetch_optional P t of
                None \<Rightarrow> Inl e
              | Some p \<Rightarrow>
                  if user \<notin> set (users (runtime_db w)) then Inl ForeignKeyViolation
                  else if exists_row (\<lambda>p. pd_device p = device \<and> pd_token p \<noteq> token) t then Inl UniqueViolation
                  else Inr (renew p, w\<lparr>pw_devices := update_where P renew t\<rparr>)))"

definition deactivate_device :: "uuid \<Rightarrow> string \<Rightarrow> push_world \<Rightarrow> bool \<times> push_world" where
  "deactivate_device user device w =
     (let P = (\<lambda>p. pd_user p = user \<and> pd_device p = device \<and> pd_active p)
      in (rows_affected P (pw_devices w) > 0,
          w\<lparr>pw_devices := update_where P (\<lambda>p. p\<lparr>pd_active := False\<rparr>) (pw_devices w)\<rparr>))"

definition deactivate_all_for_user :: "uuid \<Rightarrow> push_world \<Rightarrow> nat \<times> push_world" where
  "deactivate_all_for_user user w =
     (let P = (\<lambda>p. pd_user p = user \<and> pd_active p)
      in (rows_affected P (pw_devices w), w\<lparr>pw_devices := update_where P (\<lambda>p. p\<lparr>pd_active := False\<rparr>) (pw_devices w)\<rparr>))"

definition list_active_devices_for_users :: "uuid list \<Rightarrow> push_world \<Rightarrow> push_device list" where
  "list_active_devices_for_users targets w =
     sort_key (\<lambda>p. - pd_seen p) (filter (\<lambda>p. pd_user p \<in> set targets \<and> pd_active p) (pw_devices w))"

record register_push_request =
  rp_device_id :: string
  rp_device_platform :: string
  rp_device_channel :: string
  rp_device_token :: string

definition fits :: "nat \<Rightarrow> string \<Rightarrow> bool" where
  "fits n s \<longleftrightarrow> s \<noteq> [] \<and> length s \<le> n"

definition register_push_device ::
  "(string \<Rightarrow> string) \<Rightarrow> instant \<Rightarrow> uuid \<Rightarrow> uuid option \<Rightarrow> register_push_request \<Rightarrow> push_world
     \<Rightarrow> string result \<times> push_world" where
  "register_push_device lower now new_id sub req =
     with_value (claims_user_id sub) (\<lambda>user.
       let device = trim (rp_device_id req); token = trim (rp_device_token req);
           platform = lower (trim (rp_device_platform req)); channel = lower (trim (rp_device_channel req))
       in with_value (require (fits 128 device) (ValidationError ''device_id'')) (\<lambda>_.
          with_value (require (fits 4096 token) (ValidationError ''device_token'')) (\<lambda>_.
          with_value (require (fits 32 platform) (ValidationError ''platform'')) (\<lambda>_.
          with_value (require (fits 32 channel) (ValidationError ''channel'')) (\<lambda>_.
          run_then (atomically (\<lambda>w. from_sqlx (upsert_push_device now new_id user platform channel device token w)))
            (\<lambda>_. answer device))))))"

definition unregister_push_device :: "uuid option \<Rightarrow> string \<Rightarrow> push_world \<Rightarrow> bool result \<times> push_world" where
  "unregister_push_device sub device =
     with_value (claims_user_id sub) (\<lambda>user.
     with_value (require (fits 128 (trim device)) (ValidationError ''device_id'')) (\<lambda>_ w.
       let (deleted, w') = deactivate_device user (trim device) w in (Inr deleted, w')))"

definition update_notification_settings ::
  "uuid option \<Rightarrow> uuid \<Rightarrow> int \<Rightarrow> push_world \<Rightarrow> int result \<times> push_world" where
  "update_notification_settings sub room value =
     with_value (claims_user_id sub) (\<lambda>user.
     with_value (if value = 0 then Inr AllMessages else if value = 1 then Inr MentionsOnly
        else if value = 2 then Inr MutedRoom else Inl (ValidationError ''notification settings'')) (\<lambda>setting w.
       (Inr value, if is_user_in_room room user (runtime_db w)
          then w\<lparr>pw_notify := (pw_notify w)(room := (pw_notify w room)(user := setting))\<rparr> else w)))"

section \<open>Texts\<close>

text \<open>The characters of a string, each as its bytes.\<close>

function chars_of :: "string \<Rightarrow> string list" where
  "chars_of [] = []"
| "chars_of (c # s) = (c # takeWhile continues_char s) # chars_of (dropWhile continues_char s)"
  by pat_completeness auto

termination
  by (relation "measure length") (auto simp: le_imp_less_Suc length_dropWhile_le)

definition truncate_with_ellipsis :: "string \<Rightarrow> nat \<Rightarrow> string" where
  "truncate_with_ellipsis s max_len =
     (if length (chars_of s) \<le> max_len then s
      else concat (take max_len (chars_of s)) @ utf8 [226, 128, 166])"

fun part_preview :: "message_part \<Rightarrow> string option" where
  "part_preview p =
     (case mp_type p of
        TextPart \<Rightarrow> (case nonblank (mp_text p) of None \<Rightarrow> None | Some t \<Rightarrow> Some (truncate_with_ellipsis (trim t) 80))
      | ImagePart \<Rightarrow> Some (utf8 [91, 229, 155, 190, 231, 137, 135, 93])
      | VideoPart \<Rightarrow> Some (utf8 [91, 232, 167, 134, 233, 162, 145, 93])
      | AudioPart \<Rightarrow> Some (utf8 [91, 232, 175, 173, 233, 159, 179, 93])
      | FilePart \<Rightarrow> Some (utf8 [91, 230, 150, 135, 228, 187, 182, 93]))"

fun first_preview :: "message_part list \<Rightarrow> string" where
  "first_preview [] = utf8 [91, 230, 150, 176, 230, 182, 136, 230, 129, 175, 93]"
| "first_preview (p # ps) = (case part_preview p of Some t \<Rightarrow> t | None \<Rightarrow> first_preview ps)"

definition preview_text :: "message \<Rightarrow> message_part list \<Rightarrow> string" where
  "preview_text m parts =
     (if trim (msg_content m) \<noteq> [] then truncate_with_ellipsis (trim (msg_content m)) 80 else first_preview parts)"

definition snapshot_from_message :: "message \<Rightarrow> user_account \<Rightarrow> message_part list \<Rightarrow> snapshot" where
  "snapshot_from_message m sender parts =
     \<lparr>ps_id = msg_id m, ps_room = msg_room m, ps_sender = msg_sender m, ps_username = ua_name sender,
      ps_nickname = ua_nickname sender, ps_content = msg_content m, ps_type = msg_type m,
      ps_preview = preview_text m parts\<rparr>"

definition e2ee_content :: string where
  "e2ee_content = utf8 [227, 128, 144, 229, 138, 160, 229, 175, 134, 230, 182, 136, 230, 129, 175, 227, 128, 145]"

definition e2ee_preview :: string where
  "e2ee_preview = utf8 [228, 189, 160, 230, 148, 182, 229, 136, 176, 228, 184, 128, 230, 157, 161, 229, 138, 160, 229,
     175, 134, 230, 182, 136, 230, 129, 175]"

definition sanitize_for_e2ee :: "snapshot \<Rightarrow> snapshot" where
  "sanitize_for_e2ee s = s\<lparr>ps_content := e2ee_content, ps_preview := e2ee_preview\<rparr>"

text \<open>A runtime that cannot be read counts as plaintext.\<close>

definition build_push_snapshot :: "db \<Rightarrow> message \<Rightarrow> user_account \<Rightarrow> message_part list \<Rightarrow> snapshot" where
  "build_push_snapshot d m sender parts =
     (let s = snapshot_from_message m sender parts
      in if is_e2ee_runtime d = Inr True then sanitize_for_e2ee s else s)"

section \<open>Mentions\<close>

definition is_mention_char :: "(string \<Rightarrow> bool) \<Rightarrow> string \<Rightarrow> bool" where
  "is_mention_char alnum ch =
     (case ch of
        [c] \<Rightarrow> if (of_char c :: nat) < 128 then is_ascii_alphanumeric c \<or> c \<in> set ''_-'' else alnum ch
      | _ \<Rightarrow> alnum ch)"

definition email_char :: "string \<Rightarrow> bool" where
  "email_char ch = (case ch of [c] \<Rightarrow> is_ascii_alphanumeric c \<or> c \<in> set ''_.+-'' | _ \<Rightarrow> False)"

definition trim_matches :: "char \<Rightarrow> string \<Rightarrow> string" where
  "trim_matches c s = trim_end_char c (dropWhile (\<lambda>x. x = c) s)"

definition normalize_mention_token :: "(string \<Rightarrow> string) \<Rightarrow> string \<Rightarrow> string" where
  "normalize_mention_token lower raw = lower (trim_matches (CHR ''@'') (trim raw))"

definition is_mention_all_token :: "string \<Rightarrow> bool" where
  "is_mention_all_token token \<longleftrightarrow>
     token \<in> set [''all'', ''everyone'', ''here'', utf8 [229, 133, 168, 228, 189, 147], utf8 [229, 133, 168, 229, 145, 152],
       utf8 [230, 137, 128, 230, 156, 137, 228, 186, 186],
       utf8 [229, 133, 168, 228, 189, 147, 230, 136, 144, 229, 145, 152],
       utf8 [229, 133, 168, 228, 189, 147, 228, 186, 186, 229, 145, 152]]"

text \<open>The loop over the characters; \<open>prev\<close> is the one before.\<close>

function mention_tokens :: "(string \<Rightarrow> bool) \<Rightarrow> string \<Rightarrow> string list \<Rightarrow> string list" where
  "mention_tokens alnum prev [] = []"
| "mention_tokens alnum prev (ch # chs) =
     (if ch \<noteq> ''@'' \<or> email_char prev then mention_tokens alnum ch chs
      else (let word = takeWhile (is_mention_char alnum) chs in
            concat word # mention_tokens alnum (last (ch # word)) (dropWhile (is_mention_char alnum) chs)))"
  by pat_completeness auto

termination
  by (relation "measure (\<lambda>(_, _, chs). length chs)") (auto simp: le_imp_less_Suc length_dropWhile_le)

record mention_decision =
  md_all :: bool
  md_users :: "uuid set"

definition no_mentions :: mention_decision where
  "no_mentions = \<lparr>md_all = False, md_users = {}\<rparr>"

text \<open>The keys under which a member is mentioned.\<close>

definition mention_keys :: "(string \<Rightarrow> string) \<Rightarrow> user_account \<Rightarrow> string set" where
  "mention_keys lower a =
     (\<lambda>n. normalize_mention_token lower n) ` (insert (ua_name a) (set_option (ua_nickname a))) - {[]}"

definition parse_mentions_from_content ::
  "(string \<Rightarrow> bool) \<Rightarrow> (string \<Rightarrow> string) \<Rightarrow> string \<Rightarrow> user_account list \<Rightarrow> mention_decision" where
  "parse_mentions_from_content alnum lower content members =
     (if trim content = [] then no_mentions
      else (let tokens = filter (\<lambda>t. t \<noteq> [])
              (map (normalize_mention_token lower) (mention_tokens alnum [] (chars_of (trim content))))
            in \<lparr>md_all = list_ex is_mention_all_token tokens,
                md_users = ua_id ` {a \<in> set members. \<exists>t \<in> set tokens. \<not> is_mention_all_token t \<and> t \<in> mention_keys lower a}\<rparr>))"

definition should_send_for_setting :: "notification_setting \<Rightarrow> room_type \<Rightarrow> uuid \<Rightarrow> mention_decision \<Rightarrow> bool" where
  "should_send_for_setting setting kind target mentions =
     (case setting of
        AllMessages \<Rightarrow> True
      | MutedRoom \<Rightarrow> False
      | MentionsOnly \<Rightarrow> kind \<noteq> GroupRoom \<or> md_all mentions \<or> target \<in> md_users mentions)"

section \<open>Sending a notification\<close>

datatype push_read = ReadRoom | ReadSettings | ReadMembers | ReadDevices | ReadMessage | ReadParts

record push_env =
  pe_lower :: "string \<Rightarrow> string"
  pe_alnum :: "string \<Rightarrow> bool"
  pe_show :: "uuid \<Rightarrow> string"
  pe_lib :: push_lib
  pe_env :: "string \<Rightarrow> string option"
  pe_config_down :: "string \<Rightarrow> string \<Rightarrow> bool"
  pe_down :: "push_read \<Rightarrow> bool"
  pe_online :: "uuid \<Rightarrow> bool"  \<comment> \<open>\<open>is_user_online\<close> of this node\<close>
  pe_presence :: "(uuid \<Rightarrow> bool) option"  \<comment> \<open>\<open>EXISTS\<close> on the presence keys\<close>
  pe_fcm :: "service_account \<Rightarrow> string \<Rightarrow> int \<Rightarrow> send_error option"
  pe_apns :: "apns_config \<Rightarrow> string \<Rightarrow> int \<Rightarrow> send_error option"
  pe_status_text :: "nat \<Rightarrow> string"
  pe_push_id :: uuid
  pe_now :: instant

definition load_runtime :: "push_env \<Rightarrow> push_world \<Rightarrow> push_world" where
  "load_runtime pe w =
     w\<lparr>push_runtime := push_runtime_snapshot (pe_lib pe) (pe_env pe)
         (config_view (pe_config_down pe) (push_settings.truncate w)) (pe_now pe) (push_runtime w)\<rparr>"

definition filter_targets_skip_online :: "push_env \<Rightarrow> uuid list \<Rightarrow> uuid list" where
  "filter_targets_skip_online pe targets =
     (let candidates = filter (\<lambda>u. \<not> pe_online pe u) targets
      in case pe_presence pe of None \<Rightarrow> candidates | Some online \<Rightarrow> filter (\<lambda>u. \<not> online u) candidates)"

record notice =
  nt_title :: string
  nt_body :: string
  nt_data :: "(string \<times> string) list"
  nt_event :: string
  nt_room :: "uuid option"
  nt_message :: "uuid option"
  nt_request :: "uuid option"

definition log_of :: "push_env \<Rightarrow> string \<Rightarrow> notice \<Rightarrow> push_device \<Rightarrow> send_outcome \<Rightarrow> push_log" where
  "log_of pe provider n p outcome =
     \<lparr>lg_push = pe_push_id pe, lg_user = pd_user p, lg_device = pd_device p, lg_platform = pd_platform p,
      lg_channel = pd_channel p, lg_provider = provider, lg_event = nt_event n, lg_room = nt_room n,
      lg_message = nt_message n, lg_request = nt_request n, lg_title = nt_title n, lg_body = nt_body n,
      lg_data = nt_data n, lg_attempt = so_attempt outcome, lg_success = so_ok outcome,
      lg_error = so_error outcome, lg_created = pe_now pe\<rparr>"

text \<open>One turn of the loop over the answers, in the order of the devices.\<close>

definition settle_device :: "push_env \<Rightarrow> string \<Rightarrow> notice \<Rightarrow> (string \<Rightarrow> send_outcome) \<Rightarrow> push_device \<Rightarrow> push_world \<Rightarrow> push_world" where
  "settle_device pe provider n send p w =
     (let outcome = send (pd_token p);
          w1 = (if so_deactivate outcome then snd (deactivate_device (pd_user p) (pd_device p) w) else w)
      in w1\<lparr>pw_logs := pw_logs w1 @ [log_of pe provider n p outcome]\<rparr>)"

definition send_fcm_to_devices_and_log ::
  "push_env \<Rightarrow> service_account \<Rightarrow> push_device list \<Rightarrow> notice \<Rightarrow> push_world \<Rightarrow> push_world" where
  "send_fcm_to_devices_and_log pe fcm receivers n =
     fold (settle_device pe ''fcm'' n
         (\<lambda>token. send_with_retry (fcm_gone (pe_lower pe)) (fcm_to_log_string (pe_status_text pe)) (pe_fcm pe fcm token) 1))
       (filter (\<lambda>p. pd_channel p = ''fcm'') receivers)"

definition send_apns_to_devices_and_log ::
  "push_env \<Rightarrow> apns_config \<Rightarrow> push_device list \<Rightarrow> notice \<Rightarrow> push_world \<Rightarrow> push_world" where
  "send_apns_to_devices_and_log pe apns receivers n =
     fold (settle_device pe ''apns'' n
         (\<lambda>token. send_with_retry apns_gone (apns_to_log_string (pe_status_text pe)) (pe_apns pe apns token) 1))
       (filter (\<lambda>p. pd_channel p = ''apns'') receivers)"

definition no_provider :: "push_world \<Rightarrow> bool" where
  "no_provider w \<longleftrightarrow> pr_fcm (push_runtime w) = None \<and> pr_apns (push_runtime w) = None"

text \<open>The second half of both kinds of notification: from the targets to the devices.\<close>

definition send_to_targets :: "push_env \<Rightarrow> uuid list \<Rightarrow> notice \<Rightarrow> push_world \<Rightarrow> (string + unit) \<times> push_world" where
  "send_to_targets pe targets n w =
     (let filtered = (if pr_skip (push_runtime w) then filter_targets_skip_online pe targets else targets) in
      if filtered = [] then (Inr (), w)
      else if pe_down pe ReadDevices then (Inl ''push_devices'', w)
      else
        (let receivers = list_active_devices_for_users filtered w;
             w1 = (case pr_fcm (push_runtime w) of None \<Rightarrow> w | Some c \<Rightarrow> send_fcm_to_devices_and_log pe c receivers n w);
             w2 = (case pr_apns (push_runtime w) of None \<Rightarrow> w1 | Some c \<Rightarrow> send_apns_to_devices_and_log pe c receivers n w1)
         in (Inr (), w2)))"

definition send_basic_notification :: "push_env \<Rightarrow> uuid list \<Rightarrow> notice \<Rightarrow> push_world \<Rightarrow> (string + unit) \<times> push_world" where
  "send_basic_notification pe targets n w =
     (let n' = n\<lparr>nt_data := nt_data n @ [(''push_id'', pe_show pe (pe_push_id pe))]\<rparr>; w1 = load_runtime pe w in
      if \<not> pr_enabled (push_runtime w1) \<or> no_provider w1 then (Inr (), w1)
      else send_to_targets pe targets n' w1)"

definition notify_friend_request ::
  "push_env \<Rightarrow> uuid \<Rightarrow> uuid \<Rightarrow> string \<Rightarrow> uuid \<Rightarrow> string option \<Rightarrow> push_world \<Rightarrow> (string + unit) \<times> push_world" where
  "notify_friend_request pe request requester name target message =
     send_basic_notification pe [target]
       \<lparr>nt_title = utf8 [230, 150, 176, 231, 154, 132, 229, 165, 189, 229, 143, 139, 232, 175, 183, 230, 177, 130],
        nt_body = (case nonblank message of
            Some m \<Rightarrow> name @ '': '' @ truncate_with_ellipsis (trim m) 80
          | None \<Rightarrow> name @ utf8 [32, 230, 131, 179, 230, 183, 187, 229, 138, 160, 228, 189, 160, 228, 184, 186, 229, 165, 189,
              229, 143, 139]),
        nt_data = [(''type'', ''friend_request''), (''request_id'', pe_show pe request),
          (''requester_id'', pe_show pe requester), (''requester_name'', name)],
        nt_event = ''friend_request'', nt_room = None, nt_message = None, nt_request = Some request\<rparr>"

definition notify_group_event ::
  "push_env \<Rightarrow> uuid list \<Rightarrow> uuid \<Rightarrow> string \<Rightarrow> string \<Rightarrow> string \<Rightarrow> string \<Rightarrow> push_world \<Rightarrow> (string + unit) \<times> push_world" where
  "notify_group_event pe targets room room_name event title body =
     send_basic_notification pe targets
       \<lparr>nt_title = title, nt_body = body,
        nt_data = [(''type'', ''group_event''), (''event'', event), (''room_id'', pe_show pe room), (''room_name'', room_name)],
        nt_event = ''group_event'', nt_room = Some room, nt_message = None, nt_request = None\<rparr>"

fun room_type_text :: "room_type \<Rightarrow> string" where
  "room_type_text PrivateRoom = ''private''"
| "room_type_text GroupRoom = ''group''"
| "room_type_text PublicRoom = ''public''"
| "room_type_text FavoriteRoom = ''favorite''"

definition list_member_notification_settings :: "uuid \<Rightarrow> push_world \<Rightarrow> (uuid \<times> notification_setting) list" where
  "list_member_notification_settings room w =
     map (\<lambda>m. (mb_user m, pw_notify w room (mb_user m)))
       (filter (\<lambda>m. mb_room m = room \<and> mb_deleted m = None) (room_members (runtime_db w)))"

definition list_members_with_user_info :: "uuid \<Rightarrow> push_world \<Rightarrow> user_account list" where
  "list_members_with_user_info room w =
     concat (map (\<lambda>m. filter (\<lambda>a. ua_id a = mb_user m \<and> ua_deleted a = None) (pw_accounts w))
       (list_members room (runtime_db w)))"

definition sender_name :: "snapshot \<Rightarrow> string" where
  "sender_name s = (case nonblank (ps_nickname s) of None \<Rightarrow> ps_username s | Some n \<Rightarrow> trim n)"

definition message_note :: "push_env \<Rightarrow> snapshot \<Rightarrow> room \<Rightarrow> notice" where
  "message_note pe s r =
     (let title = (if rm_type r = GroupRoom then rm_name r else sender_name s);
          body = (if rm_type r = GroupRoom then sender_name s @ '': '' @ ps_preview s else ps_preview s)
      in \<lparr>nt_title = title, nt_body = body,
          nt_data = [(''type'', ''message''), (''room_id'', pe_show pe (ps_room s)), (''message_id'', pe_show pe (ps_id s)),
            (''room_type'', room_type_text (rm_type r)), (''sender_id'', pe_show pe (ps_sender s)),
            (''sender_name'', sender_name s), (''chat_name'', title), (''push_id'', pe_show pe (pe_push_id pe))],
          nt_event = ''message'', nt_room = Some (ps_room s), nt_message = Some (ps_id s), nt_request = None\<rparr>)"

definition message_targets :: "snapshot \<Rightarrow> room \<Rightarrow> mention_decision \<Rightarrow> (uuid \<times> notification_setting) list \<Rightarrow> uuid list" where
  "message_targets s r mentions members =
     map fst (filter (\<lambda>(u, setting). u \<noteq> ps_sender s \<and> should_send_for_setting setting (rm_type r) u mentions) members)"

definition notify_new_message_snapshot :: "push_env \<Rightarrow> snapshot \<Rightarrow> push_world \<Rightarrow> (string + unit) \<times> push_world" where
  "notify_new_message_snapshot pe s w0 =
     (let w = load_runtime pe w0 in
      if \<not> pr_enabled (push_runtime w) \<or> no_provider w \<or> ps_type s = SystemMsg then (Inr (), w)
      else if pe_down pe ReadRoom then (Inl ''room'', w)
      else case get_room (ps_room s) (runtime_db w) of
        Inl _ \<Rightarrow> (Inr (), w)
      | Inr r \<Rightarrow>
          if pe_down pe ReadSettings then (Inl ''notification settings'', w)
          else
            (let members = list_member_notification_settings (ps_room s) w;
                 asks = (rm_type r = GroupRoom \<and> CHR ''@'' \<in> set (ps_content s)
                   \<and> (\<exists>m \<in> set members. snd m = MentionsOnly))
             in if asks \<and> pe_down pe ReadMembers then (Inl ''members'', w)
                else send_to_targets pe
                  (message_targets s r
                    (if asks then parse_mentions_from_content (pe_alnum pe) (pe_lower pe) (ps_content s)
                       (list_members_with_user_info (ps_room s) w) else no_mentions) members)
                  (message_note pe s r) w))"

end
