(* ===== verification/PushQueue.thy ===== *)
theory PushQueue
  imports Push
begin

text \<open>
  The queue of push jobs, \<open>api/src/database/push_job_store.rs\<close>, with the worker and the cleanup of
  \<open>api/src/services/push.rs\<close> and the counts of \<open>api/src/handlers/push_queue.rs\<close>.  Several nodes run
  the worker on one queue: claiming a batch and settling one of its jobs are separate steps.
\<close>

section \<open>The store\<close>

definition enqueue_job :: "uuid \<Rightarrow> string \<Rightarrow> push_payload \<Rightarrow> instant \<Rightarrow> instant \<Rightarrow> push_world \<Rightarrow> push_world" where
  "enqueue_job new_id type payload next_run_at now w =
     w\<lparr>pw_jobs := pw_jobs w @ [\<lparr>pj_id = new_id, pj_type = type, pj_payload = payload, pj_status = JobPending,
       pj_attempts = 0, pj_next = next_run_at, pj_error = None, pj_created = now, pj_updated = now\<rparr>]\<rparr>"

definition is_retryable_status :: "job_status \<Rightarrow> bool" where
  "is_retryable_status s \<longleftrightarrow> s = JobPending \<or> s = JobRetry"

definition is_done_status :: "job_status \<Rightarrow> bool" where
  "is_done_status s \<longleftrightarrow> s = JobDone"

definition job_due :: "instant \<Rightarrow> push_job \<Rightarrow> bool" where
  "job_due now j \<longleftrightarrow> is_retryable_status (pj_status j) \<and> pj_next j \<le> now"

text \<open>
  The ids that \<open>claim_due_jobs\<close> locks: the first ones by \<open>next_run_at\<close> and \<open>created_at\<close>.
\<close>

definition picked :: "nat \<Rightarrow> instant \<Rightarrow> push_job list \<Rightarrow> uuid list" where
  "picked limit now t = map pj_id (take limit (sort_key pj_next (sort_key pj_created (filter (job_due now) t))))"

definition leased_job :: "instant \<Rightarrow> int \<Rightarrow> push_job \<Rightarrow> push_job" where
  "leased_job now lease_seconds j = j\<lparr>pj_next := now + seconds lease_seconds, pj_updated := now\<rparr>"

definition claim_due_jobs :: "nat \<Rightarrow> int \<Rightarrow> instant \<Rightarrow> push_world \<Rightarrow> push_job list \<times> push_world" where
  "claim_due_jobs limit lease_seconds now w =
     (let ids = picked limit now (pw_jobs w); P = (\<lambda>j. pj_id j \<in> set ids)
      in (map (leased_job now lease_seconds) (filter P (pw_jobs w)),
          w\<lparr>pw_jobs := update_where P (leased_job now lease_seconds) (pw_jobs w)\<rparr>))"

definition update_job :: "uuid \<Rightarrow> (push_job \<Rightarrow> push_job) \<Rightarrow> push_world \<Rightarrow> push_world" where
  "update_job i f w = w\<lparr>pw_jobs := update_where (\<lambda>j. pj_id j = i) f (pw_jobs w)\<rparr>"

definition mark_job_done :: "uuid \<Rightarrow> instant \<Rightarrow> push_world \<Rightarrow> push_world" where
  "mark_job_done i now = update_job i (\<lambda>j. j\<lparr>pj_status := JobDone, pj_error := None, pj_updated := now\<rparr>)"

definition mark_job_retry :: "uuid \<Rightarrow> string \<Rightarrow> instant \<Rightarrow> instant \<Rightarrow> push_world \<Rightarrow> push_world" where
  "mark_job_retry i err next_run_at now =
     update_job i (\<lambda>j. j\<lparr>pj_status := JobRetry, pj_attempts := pj_attempts j + 1, pj_error := Some err,
       pj_next := next_run_at, pj_updated := now\<rparr>)"

definition mark_job_failed :: "uuid \<Rightarrow> string \<Rightarrow> instant \<Rightarrow> push_world \<Rightarrow> push_world" where
  "mark_job_failed i err now =
     update_job i (\<lambda>j. j\<lparr>pj_status := JobFailed, pj_attempts := pj_attempts j + 1, pj_error := Some err, pj_updated := now\<rparr>)"

definition old_job :: "instant \<Rightarrow> push_job \<Rightarrow> bool" where
  "old_job limit j \<longleftrightarrow> pj_status j \<in> {JobDone, JobFailed} \<and> pj_updated j < limit"

definition cleanup_done_failed_batch :: "int \<Rightarrow> int \<Rightarrow> instant \<Rightarrow> push_world \<Rightarrow> nat \<times> push_world" where
  "cleanup_done_failed_batch retention_days limit now w =
     (let before = now - seconds (86400 * clamp 0 3650 retention_days);
          ids = map pj_id (take (nat (clamp 1 200000 limit)) (sort_key pj_updated (filter (old_job before) (pw_jobs w))))
      in (rows_affected (\<lambda>j. pj_id j \<in> set ids) (pw_jobs w),
          w\<lparr>pw_jobs := delete_where (\<lambda>j. pj_id j \<in> set ids) (pw_jobs w)\<rparr>))"

section \<open>Configuration\<close>

record push_queue_config =
  qc_enabled :: bool
  qc_concurrency :: nat
  qc_batch :: int
  qc_lease :: int
  qc_poll :: nat
  qc_max_attempts :: int
  qc_retry_base :: int
  qc_retry_max :: int

definition push_queue_config_from_env :: "(string \<Rightarrow> string option) \<Rightarrow> push_queue_config" where
  "push_queue_config_from_env env =
     \<lparr>qc_enabled = env_flag env ''PUSH_DB_QUEUE_ENABLED'' True,
      qc_concurrency = clamp 1 200 (env_usize env ''PUSH_DB_QUEUE_CONCURRENCY'' (env_usize env ''PUSH_JOB_CONCURRENCY'' 20)),
      qc_batch = clamp 1 2000 (env_i64 env ''PUSH_DB_QUEUE_BATCH_SIZE'' 200),
      qc_lease = clamp 5 3600 (env_i64 env ''PUSH_DB_QUEUE_LEASE_SECONDS'' 120),
      qc_poll = clamp 1 60 (env_u64 env ''PUSH_DB_QUEUE_POLL_INTERVAL_SECONDS'' 2),
      qc_max_attempts = clamp 1 100 (env_i32 env ''PUSH_DB_QUEUE_MAX_ATTEMPTS'' 12),
      qc_retry_base = clamp 1 3600 (env_i64 env ''PUSH_DB_QUEUE_RETRY_BASE_SECONDS'' 2),
      qc_retry_max = clamp 1 (24 * 3600) (env_i64 env ''PUSH_DB_QUEUE_RETRY_MAX_SECONDS'' 300)\<rparr>"

text \<open>\<open>u64\<close> arithmetic that saturates.\<close>

definition sat_u64 :: "int \<Rightarrow> int" where
  "sat_u64 n = min n (2 ^ 64 - 1)"

definition push_db_next_retry_at :: "push_queue_config \<Rightarrow> int \<Rightarrow> instant \<Rightarrow> instant" where
  "push_db_next_retry_at cfg attempts now =
     now + seconds (min (sat_u64 (qc_retry_base cfg * sat_u64 (2 ^ nat (clamp 0 16 attempts)))) (qc_retry_max cfg))"

record push_cleanup_config =
  kc_enabled :: bool
  kc_retention :: int
  kc_interval :: nat
  kc_batch :: int
  kc_max_batches :: int

definition push_cleanup_config_from_env :: "(string \<Rightarrow> string option) \<Rightarrow> push_cleanup_config" where
  "push_cleanup_config_from_env env =
     \<lparr>kc_enabled = env_flag env ''PUSH_DB_QUEUE_CLEANUP_ENABLED'' True,
      kc_retention = clamp 1 3650 (env_i64 env ''PUSH_DB_QUEUE_RETENTION_DAYS'' 7),
      kc_interval = clamp 60 (30 * 86400) (env_u64 env ''PUSH_DB_QUEUE_CLEANUP_INTERVAL_SECONDS'' 86400),
      kc_batch = clamp 1 200000 (env_i64 env ''PUSH_DB_QUEUE_CLEANUP_BATCH_SIZE'' 10000),
      kc_max_batches = clamp 1 10000 (env_i64 env ''PUSH_DB_QUEUE_CLEANUP_MAX_BATCHES'' 20)\<rparr>"

section \<open>Enqueueing\<close>

text \<open>\<open>stored\<close>: whether the insert succeeds; a failure is only logged.\<close>

definition enqueue_push_job_to_db ::
  "push_env \<Rightarrow> bool \<Rightarrow> uuid \<Rightarrow> string \<Rightarrow> push_payload \<Rightarrow> push_world \<Rightarrow> push_world" where
  "enqueue_push_job_to_db pe stored new_id type payload w0 =
     (let w = load_runtime pe w0 in
      if \<not> pr_enabled (push_runtime w) \<or> no_provider w \<or> \<not> stored then w
      else enqueue_job new_id type payload (pe_now pe) (pe_now pe) w)"

definition enqueue_new_message :: "push_env \<Rightarrow> bool \<Rightarrow> uuid \<Rightarrow> snapshot \<Rightarrow> push_world \<Rightarrow> push_world" where
  "enqueue_new_message pe stored new_id s = enqueue_push_job_to_db pe stored new_id ''message'' (SnapshotPayload s)"

definition enqueue_friend_request ::
  "push_env \<Rightarrow> bool \<Rightarrow> uuid \<Rightarrow> uuid \<Rightarrow> uuid \<Rightarrow> string \<Rightarrow> uuid \<Rightarrow> string option \<Rightarrow> push_world \<Rightarrow> push_world" where
  "enqueue_friend_request pe stored new_id request requester name target message =
     enqueue_push_job_to_db pe stored new_id ''friend_request'' (FriendPayload request requester name target message)"

definition enqueue_group_event ::
  "push_env \<Rightarrow> bool \<Rightarrow> uuid \<Rightarrow> uuid list \<Rightarrow> uuid \<Rightarrow> string \<Rightarrow> string \<Rightarrow> string \<Rightarrow> string \<Rightarrow> push_world \<Rightarrow> push_world" where
  "enqueue_group_event pe stored new_id targets room room_name event title body =
     enqueue_push_job_to_db pe stored new_id ''group_event'' (GroupPayload targets room room_name event title body)"

section \<open>The worker\<close>

datatype job_outcome = OutcomeDone | OutcomeRetry string | OutcomeFailed string

definition outcome_of :: "(string + unit) \<times> push_world \<Rightarrow> job_outcome \<times> push_world" where
  "outcome_of x = (case x of (Inr _, w) \<Rightarrow> (OutcomeDone, w) | (Inl e, w) \<Rightarrow> (OutcomeRetry e, w))"

definition notify_legacy_message :: "push_env \<Rightarrow> uuid \<Rightarrow> push_world \<Rightarrow> job_outcome \<times> push_world" where
  "notify_legacy_message pe i w =
     (if pe_down pe ReadMessage then (OutcomeRetry ''message'', w)
      else case fetch_optional (\<lambda>m. msg_id m = i) (messages (runtime_db w)) of
        None \<Rightarrow> (OutcomeDone, w)
      | Some m \<Rightarrow>
          (case fetch_optional (\<lambda>a. ua_id a = msg_sender m) (pw_accounts w) of
             None \<Rightarrow> (OutcomeDone, w)
           | Some sender \<Rightarrow>
               if pe_down pe ReadParts then (OutcomeRetry ''message_parts'', w)
               else outcome_of (notify_new_message_snapshot pe (snapshot_from_message m sender
                 (sort_key mp_position (filter (\<lambda>p. mp_message p = i) (pw_parts w)))) w)))"

definition process_push_db_job :: "push_env \<Rightarrow> push_job \<Rightarrow> push_world \<Rightarrow> job_outcome \<times> push_world" where
  "process_push_db_job pe j w =
     (if pj_type j = ''message'' then
        (case pj_payload j of
           SnapshotPayload s \<Rightarrow> outcome_of (notify_new_message_snapshot pe s w)
         | LegacyPayload i \<Rightarrow> notify_legacy_message pe i w
         | _ \<Rightarrow> (OutcomeFailed ''payload'', w))
      else if pj_type j = ''friend_request'' then
        (case pj_payload j of
           FriendPayload request requester name target message \<Rightarrow>
             outcome_of (notify_friend_request pe request requester name target message w)
         | _ \<Rightarrow> (OutcomeFailed ''payload'', w))
      else if pj_type j = ''group_event'' then
        (case pj_payload j of
           GroupPayload targets room room_name event title body \<Rightarrow>
             outcome_of (notify_group_event pe targets room room_name event title body w)
         | _ \<Rightarrow> (OutcomeFailed ''payload'', w))
      else (OutcomeFailed ''job_type'', w))"

text \<open>One claimed job, with the record that the claim returned.\<close>

definition run_push_job :: "push_queue_config \<Rightarrow> push_env \<Rightarrow> push_job \<Rightarrow> push_world \<Rightarrow> push_world" where
  "run_push_job cfg pe j w =
     (if pj_attempts j \<ge> qc_max_attempts cfg then mark_job_failed (pj_id j) ''too many attempts'' (pe_now pe) w
      else case process_push_db_job pe j w of
        (OutcomeDone, w') \<Rightarrow> mark_job_done (pj_id j) (pe_now pe) w'
      | (OutcomeRetry err, w') \<Rightarrow>
          mark_job_retry (pj_id j) err (push_db_next_retry_at cfg (pj_attempts j) (pe_now pe)) (pe_now pe) w'
      | (OutcomeFailed err, w') \<Rightarrow> mark_job_failed (pj_id j) err (pe_now pe) w')"

text \<open>A turn of the worker, with what each of the jobs sees.\<close>

definition run_push_db_queue_once :: "push_queue_config \<Rightarrow> instant \<Rightarrow> (uuid \<Rightarrow> push_env) \<Rightarrow> push_world \<Rightarrow> push_world" where
  "run_push_db_queue_once cfg now see w =
     (if \<not> qc_enabled cfg then w
      else (let (claimed, w') = claim_due_jobs (nat (qc_batch cfg)) (qc_lease cfg) now w
            in fold (\<lambda>j. run_push_job cfg (see (pj_id j)) j) claimed w'))"

text \<open>The loop of the cleanup: it stops at a batch that is not full.\<close>

fun cleanup_batches :: "nat \<Rightarrow> push_cleanup_config \<Rightarrow> instant \<Rightarrow> push_world \<Rightarrow> nat \<times> push_world" where
  "cleanup_batches 0 cfg now w = (0, w)"
| "cleanup_batches (Suc k) cfg now w =
     (let (deleted, w') = cleanup_done_failed_batch (kc_retention cfg) (kc_batch cfg) now w in
      if deleted < nat (kc_batch cfg) then (deleted, w')
      else (let (more, w'') = cleanup_batches k cfg now w' in (deleted + more, w'')))"

definition cleanup_push_job_queue_once :: "push_cleanup_config \<Rightarrow> bool \<Rightarrow> instant \<Rightarrow> push_world \<Rightarrow> nat \<times> push_world" where
  "cleanup_push_job_queue_once cfg locked now w =
     (if kc_enabled cfg \<and> locked then cleanup_batches (nat (kc_max_batches cfg)) cfg now w else (0, w))"

record queue_stats =
  qs_pending :: nat
  qs_retry :: nat
  qs_done :: nat
  qs_failed :: nat
  qs_due :: nat

definition get_push_job_queue_stats :: "instant \<Rightarrow> push_world \<Rightarrow> queue_stats" where
  "get_push_job_queue_stats now w =
     (let count = (\<lambda>P. length (filter P (pw_jobs w)))
      in \<lparr>qs_pending = count (\<lambda>j. pj_status j = JobPending), qs_retry = count (\<lambda>j. pj_status j = JobRetry),
          qs_done = count (\<lambda>j. pj_status j = JobDone), qs_failed = count (\<lambda>j. pj_status j = JobFailed),
          qs_due = count (job_due now)\<rparr>)"

end
