(* ===== verification/PushProperties.thy ===== *)
theory PushProperties
  imports PushQueue
begin

text \<open>
  What notifications promise: who gets one, what it says while messages are encrypted, how often a
  job is tried, when a device can be registered, and that the runtime uses what was saved.
\<close>

section \<open>Logs\<close>

text \<open>Settling devices appends one log each and changes nothing else but the flags of devices.\<close>

lemma settle_logs:
  "pw_logs (fold (settle_device pe provider n send) ps w) = pw_logs w @ map (\<lambda>p. log_of pe provider n p (send (pd_token p))) ps"
  by (induction ps arbitrary: w) (simp_all add: settle_device_def deactivate_device_def Let_def)

lemma settle_fields [simp]:
  "pw_jobs (fold (settle_device pe provider n send) ps w) = pw_jobs w"
  "push_runtime (fold (settle_device pe provider n send) ps w) = push_runtime w"
  "runtime_db (fold (settle_device pe provider n send) ps w) = runtime_db w"
  by (induction ps arbitrary: w) (simp_all add: settle_device_def deactivate_device_def Let_def)

lemma load_runtime_fields [simp]:
  "pw_jobs (load_runtime pe w) = pw_jobs w" "pw_logs (load_runtime pe w) = pw_logs w"
  "pw_devices (load_runtime pe w) = pw_devices w" "runtime_db (load_runtime pe w) = runtime_db w"
  "pw_notify (load_runtime pe w) = pw_notify w" "pw_accounts (load_runtime pe w) = pw_accounts w"
  by (simp_all add: load_runtime_def)

lemma channel_logs:
  "lg \<in> set (map (\<lambda>p. log_of pe c n p (f p)) (filter (\<lambda>p. pd_channel p = c) ds)) \<Longrightarrow>
    \<exists>p outcome. lg = log_of pe (pd_channel p) n p outcome \<and> p \<in> set ds"
proof -
  assume "lg \<in> set (map (\<lambda>p. log_of pe c n p (f p)) (filter (\<lambda>p. pd_channel p = c) ds))"
  then obtain p where "p \<in> set ds" "pd_channel p = c" "lg = log_of pe c n p (f p)" by auto
  then show ?thesis by blast
qed

lemma settled_logs:
  "\<exists>new. pw_logs (fold (settle_device pe c n send) (filter (\<lambda>p. pd_channel p = c) ds) w) = pw_logs w @ new
    \<and> (\<forall>lg \<in> set new. \<exists>p outcome. lg = log_of pe (pd_channel p) n p outcome \<and> p \<in> set ds)"
  by (intro exI conjI, rule settle_logs, rule ballI, rule channel_logs)

text \<open>What \<open>send_to_targets\<close> logs belongs to an active device of a target that is not skipped.\<close>

lemma sent_logs:
  assumes "send_to_targets pe targets n w = (r, w')"
  obtains new where "pw_logs w' = pw_logs w @ new"
    "\<And>lg. lg \<in> set new \<Longrightarrow> \<exists>p outcome. lg = log_of pe (pd_channel p) n p outcome \<and> p \<in> set (pw_devices w) \<and> pd_active p
      \<and> pd_user p \<in> set targets \<and> (pr_skip (push_runtime w) \<longrightarrow> pd_user p \<in> set (filter_targets_skip_online pe targets))"
proof -
  let ?f = "if pr_skip (push_runtime w) then filter_targets_skip_online pe targets else targets"
  let ?ds = "list_active_devices_for_users ?f w"
  have in_f: "u \<in> set targets \<and> (pr_skip (push_runtime w) \<longrightarrow> u \<in> set (filter_targets_skip_online pe targets))"
    if "u \<in> set ?f" for u
    using that by (auto simp: filter_targets_skip_online_def Let_def split: if_splits option.splits)
  have ds: "p \<in> set (pw_devices w) \<and> pd_active p \<and> pd_user p \<in> set ?f" if "p \<in> set ?ds" for p
    using that by (simp add: list_active_devices_for_users_def)
  consider (unsent) "w' = w" | (sent) "w' =
      (let w1 = (case pr_fcm (push_runtime w) of None \<Rightarrow> w | Some c \<Rightarrow> send_fcm_to_devices_and_log pe c ?ds n w)
       in case pr_apns (push_runtime w) of None \<Rightarrow> w1 | Some c \<Rightarrow> send_apns_to_devices_and_log pe c ?ds n w1)"
    using assms by (auto simp: send_to_targets_def Let_def split: if_splits)
  then have "\<exists>new. pw_logs w' = pw_logs w @ new \<and>
      (\<forall>lg \<in> set new. \<exists>p outcome. lg = log_of pe (pd_channel p) n p outcome \<and> p \<in> set ?ds)"
  proof cases
    case sent
    have logs: "\<exists>new. pw_logs (send_fcm_to_devices_and_log pe c ?ds n v) = pw_logs v @ new
        \<and> (\<forall>lg \<in> set new. \<exists>p outcome. lg = log_of pe (pd_channel p) n p outcome \<and> p \<in> set ?ds)"
      "\<exists>new. pw_logs (send_apns_to_devices_and_log pe c' ?ds n v) = pw_logs v @ new
        \<and> (\<forall>lg \<in> set new. \<exists>p outcome. lg = log_of pe (pd_channel p) n p outcome \<and> p \<in> set ?ds)" for c c' v
      unfolding send_fcm_to_devices_and_log_def send_apns_to_devices_and_log_def by (rule settled_logs)+
    obtain w1 where w1: "w1 = (case pr_fcm (push_runtime w) of None \<Rightarrow> w | Some c \<Rightarrow> send_fcm_to_devices_and_log pe c ?ds n w)"
      by blast
    obtain new1 where new1: "pw_logs w1 = pw_logs w @ new1"
      "\<forall>lg \<in> set new1. \<exists>p outcome. lg = log_of pe (pd_channel p) n p outcome \<and> p \<in> set ?ds"
    proof (cases "pr_fcm (push_runtime w)")
      case None
      then show ?thesis using that [of "[]"] by (simp add: w1)
    next
      case (Some c)
      then show ?thesis using logs(1) [of c w] that w1 by (simp only: option.case) blast
    qed
    have w': "w' = (case pr_apns (push_runtime w) of None \<Rightarrow> w1 | Some c \<Rightarrow> send_apns_to_devices_and_log pe c ?ds n w1)"
      unfolding sent Let_def w1 ..
    obtain new2 where "pw_logs w' = pw_logs w1 @ new2"
      "\<forall>lg \<in> set new2. \<exists>p outcome. lg = log_of pe (pd_channel p) n p outcome \<and> p \<in> set ?ds"
    proof (cases "pr_apns (push_runtime w)")
      case None
      then show ?thesis using that [of "[]"] w' by simp
    next
      case (Some c)
      then show ?thesis using logs(2) [of c w1] that w' by (simp only: option.case) blast
    qed
    then have "pw_logs w' = pw_logs w @ new1 @ new2"
      "\<forall>lg \<in> set (new1 @ new2). \<exists>p outcome. lg = log_of pe (pd_channel p) n p outcome \<and> p \<in> set ?ds"
      using new1 by (simp_all add: ball_Un)
    then show ?thesis by blast
  qed auto
  then show ?thesis using that ds in_f by metis
qed

lemma send_keeps_jobs [simp]: "pw_jobs (snd (send_to_targets pe targets n w)) = pw_jobs w"
  by (simp add: send_to_targets_def Let_def send_fcm_to_devices_and_log_def send_apns_to_devices_and_log_def split: option.split)

lemma notify_keeps_jobs [simp]:
  "pw_jobs (snd (send_basic_notification pe targets n w)) = pw_jobs w"
  "pw_jobs (snd (notify_friend_request pe a b nm t m w)) = pw_jobs w"
  "pw_jobs (snd (notify_group_event pe ts room rn ev ti bo w)) = pw_jobs w"
  "pw_jobs (snd (notify_new_message_snapshot pe s w)) = pw_jobs w"
  by (simp_all add: notify_friend_request_def notify_group_event_def send_basic_notification_def
      notify_new_message_snapshot_def Let_def split: sum.split)

lemma outcome_world [simp]: "snd (outcome_of x) = snd x"
  by (simp add: outcome_of_def split: prod.split sum.split)


text \<open>A message is sent to the members whose setting allows it.\<close>

lemma notify_message_cases:
  assumes "notify_new_message_snapshot pe s w = (r, w')"
  obtains (unsent) "pw_logs w' = pw_logs w"
  | (sent) rm mentions where "get_room (ps_room s) (runtime_db w) = Inr rm" "ps_type s \<noteq> SystemMsg"
      "pr_enabled (push_runtime (load_runtime pe w))"
      "CHR ''@'' \<notin> set (ps_content s) \<longrightarrow> mentions = no_mentions"
      "send_to_targets pe (message_targets s rm mentions (list_member_notification_settings (ps_room s) w))
         (message_note pe s rm) (load_runtime pe w) = (r, w')"
proof -
  have settings: "list_member_notification_settings q (load_runtime pe w) = list_member_notification_settings q w" for q
    by (simp add: list_member_notification_settings_def)
  have "pw_logs w' = pw_logs w \<or> (\<exists>rm mentions. get_room (ps_room s) (runtime_db w) = Inr rm \<and> ps_type s \<noteq> SystemMsg
      \<and> pr_enabled (push_runtime (load_runtime pe w)) \<and> (CHR ''@'' \<notin> set (ps_content s) \<longrightarrow> mentions = no_mentions)
      \<and> send_to_targets pe (message_targets s rm mentions (list_member_notification_settings (ps_room s) w))
         (message_note pe s rm) (load_runtime pe w) = (r, w'))"
    using assms by (auto simp: notify_new_message_snapshot_def Let_def settings split: if_splits sum.splits)
  then show ?thesis using unsent sent by blast
qed

section \<open>The life of a job\<close>






















section \<open>The device table\<close>

text \<open>A device id and a token name one row each.\<close>

definition devices_unique :: "push_world \<Rightarrow> bool" where
  "devices_unique w \<longleftrightarrow> unique_on pd_device (pw_devices w) \<and> unique_on pd_token (pw_devices w)"

lemma unique_renewed:
  assumes "unique_on k t" "unique_on key t" "\<And>r s. P r \<Longrightarrow> P s \<Longrightarrow> key r = key s"
    "\<And>r. r \<in> set t \<Longrightarrow> \<not> P r \<Longrightarrow> k r \<noteq> b" "\<And>r. P r \<Longrightarrow> k (f r) = b"
  shows "unique_on k (update_where P f t)"
  using assms(1,2,4)
proof (induction t)
  case (Cons x t)
  have sub: "set (map k (update_where P f t)) \<subseteq> k ` set t \<union> {b}" using assms(5) by (auto simp: update_where_def)
  have single: "\<not> P r" if "P x" "r \<in> set t" for r using assms(3) [of x r] Cons.prems(2) that by auto
  have "k (f x) \<notin> k ` set (update_where P f t)" if "P x"
  proof -
    have "update_where P f t = t" using single [OF that] by (auto simp: update_where_none)
    moreover have "b \<notin> k ` set t" using single [OF that] Cons.prems(3) by auto
    ultimately show ?thesis using assms(5) [OF that] by simp
  qed
  moreover have "k x \<notin> k ` set (update_where P f t)" if "\<not> P x"
    using sub Cons.prems(1,3) that by auto
  ultimately show ?case using Cons by (auto simp: update_where_def)
qed simp

lemma renewed_fields [simp]:
  "pd_user (renewed_device now u pl ch dv tk p) = u" "pd_device (renewed_device now u pl ch dv tk p) = dv"
  "pd_token (renewed_device now u pl ch dv tk p) = tk" "pd_active (renewed_device now u pl ch dv tk p)"
  by (simp_all add: renewed_device_def)

lemma insert_push_device_iff:
  "u \<in> set (users (runtime_db w)) \<Longrightarrow>
    insert_push_device now i u pl ch dv tk w = Inl e \<longleftrightarrow> e = UniqueViolation \<and> (\<exists>p \<in> set (pw_devices w). pd_token p = tk \<and> pd_device p \<noteq> dv)"
  by (auto simp: insert_push_device_def Let_def split: option.split)

lemma insert_push_device_effect:
  assumes "devices_unique w" "insert_push_device now i u pl ch dv tk w = Inr (p, w')"
  shows "devices_unique w' \<and> p \<in> set (pw_devices w') \<and> pd_user p = u \<and> pd_device p = dv \<and> pd_token p = tk \<and> pd_active p"
proof -
  have tok: "pd_device q = dv" if "q \<in> set (pw_devices w)" "pd_token q = tk" for q
    using assms(2) that by (auto simp: insert_push_device_def Let_def split: if_splits)
  show ?thesis
  proof (cases "fetch_optional (same_push_device dv) (pw_devices w)")
    case None
    then have "dv \<notin> pd_device ` set (pw_devices w)" by (auto simp: fetch_None same_push_device_def)
    moreover have "tk \<notin> pd_token ` set (pw_devices w)" using tok calculation by auto
    ultimately show ?thesis using assms None by (auto simp: insert_push_device_def devices_unique_def Let_def split: if_splits)
  next
    case (Some q)
    let ?renew = "renewed_device now u pl ch dv tk"
    have w': "pw_devices w' = update_where (same_push_device dv) ?renew (pw_devices w)" "p = ?renew q"
      using assms(2) Some by (auto simp: insert_push_device_def Let_def split: if_splits)
    have "unique_on pd_device (update_where (same_push_device dv) ?renew (pw_devices w))"
      by (rule unique_renewed [where key = pd_device and b = dv]) (use assms(1) in \<open>auto simp: devices_unique_def same_push_device_def\<close>)
    moreover have "unique_on pd_token (update_where (same_push_device dv) ?renew (pw_devices w))"
      by (rule unique_renewed [where key = pd_device and b = tk])
        (use assms(1) tok in \<open>auto simp: devices_unique_def same_push_device_def\<close>)
    moreover have "?renew q \<in> set (update_where (same_push_device dv) ?renew (pw_devices w))"
      using fetch_SomeD [OF Some] by (auto simp: set_update_where)
    ultimately show ?thesis by (simp add: devices_unique_def w')
  qed
qed

lemma deactivate_unique: "devices_unique w \<Longrightarrow> devices_unique (snd (deactivate_device u d w))"
  by (simp add: devices_unique_def deactivate_device_def Let_def column_update_where)

section \<open>The saved provider\<close>





text \<open>
  A worker whose lease ran out still settles its job: the row that the next worker has marked done
  can be claimed again, and the notification is sent once more.
\<close>

lemma late_worker_reopens_job:
  assumes "j \<in> set (pw_jobs (mark_job_retry i err next_run_at late (mark_job_done i now w)))" "pj_id j = i" "next_run_at \<le> later"
  shows "job_due later j"
proof -
  let ?f = "\<lambda>q. q\<lparr>pj_status := JobRetry, pj_attempts := pj_attempts q + 1, pj_error := Some err,
      pj_next := next_run_at, pj_updated := late\<rparr>"
  have "pw_jobs (mark_job_retry i err next_run_at late v) = update_where (\<lambda>q. pj_id q = i) ?f (pw_jobs v)" for v
    by (simp add: mark_job_retry_def update_job_def)
  then have "j \<in> (\<lambda>q. if pj_id q = i then ?f q else q) ` set (pw_jobs (mark_job_done i now w))"
    using assms(1) by (simp only: set_update_where)
  then obtain q where q: "j = (if pj_id q = i then ?f q else q)" by blast
  show ?thesis
  proof (cases "pj_id q = i")
    case True
    then have "j = ?f q" using q by simp
    then show ?thesis using assms(3) by (simp add: job_due_def is_retryable_status_def)
  qed (use q assms(2) in simp)
qed

text \<open>
  When the queries for the providers fail as the cache is reloaded, a job of a new message is settled
  as done though nothing was sent.
\<close>

lemma unreadable_provider_loses_job:
  assumes "pe_config_down pe = (\<lambda>_ _. True)" "pr_loaded (push_runtime w) \<le> pe_now pe - push_runtime_ttl"
  shows "fst (process_push_db_job pe (j\<lparr>pj_type := ''message'', pj_payload := SnapshotPayload s\<rparr>) w) = OutcomeDone
    \<and> pw_logs (snd (process_push_db_job pe (j\<lparr>pj_type := ''message'', pj_payload := SnapshotPayload s\<rparr>) w)) = pw_logs w"
proof -
  have "no_provider (load_runtime pe w)"
    using assms by (simp add: no_provider_def load_runtime_def push_runtime_snapshot_def reload_push_runtime_def Let_def
        next_client_def config_view_def provider_secret_def)
  then show ?thesis by (simp add: process_push_db_job_def notify_new_message_snapshot_def outcome_of_def)
qed

section \<open>A concrete deployment\<close>

text \<open>
  One room with users 1 and 2, a phone of user 2, a loaded FCM account and a service that takes
  every message.  The library encodes a text by putting it between two marks.
\<close>

definition marked :: "string \<Rightarrow> string" where
  "marked s = (if s = [] then [] else ''x'' @ s @ ''x'')"

definition saved_account :: service_account where
  "saved_account = \<lparr>sv_project = ''p'', sv_email = ''e'', sv_key = ''k'', sv_token_uri = None\<rparr>"

definition sample_lib :: push_lib where
  "sample_lib = \<lparr>pl_sha = (\<lambda>_. replicate 32 (CHR ''h'')), pl_hex = marked, pl_seal = (\<lambda>_ _ p. Some p),
     pl_open = (\<lambda>_ _ c. Some c), pl_b64 = marked, pl_unb64 = (\<lambda>c. Some (butlast (tl c))), pl_utf8 = (\<lambda>_. True),
     pl_json_text = (\<lambda>_. ''json''), pl_account = (\<lambda>_. Some saved_account), pl_ec_key = (\<lambda>_. True)\<rparr>"

definition sample_runtime :: push_runtime where
  "sample_runtime = \<lparr>pr_loaded = 100, pr_enabled = True, pr_skip = True, pr_fcm_fp = None, pr_apns_fp = None,
     pr_fcm = Some saved_account, pr_apns = None\<rparr>"

definition sample_phone :: push_device where
  "sample_phone = \<lparr>pd_id = 1, pd_user = 2, pd_platform = ''android'', pd_channel = ''fcm'', pd_device = ''d'',
     pd_token = ''t'', pd_active = True, pd_seen = 0\<rparr>"

definition sample_job :: push_job where
  "sample_job = \<lparr>pj_id = 1, pj_type = ''message'', pj_payload = LegacyPayload 5, pj_status = JobPending, pj_attempts = 0,
     pj_next = 0, pj_error = None, pj_created = 0, pj_updated = 0\<rparr>"

definition sample_world :: push_world where
  "sample_world = \<lparr>runtime_db = two_rooms, provider_configs = [], push_runtime = sample_runtime, pw_accounts = [],
     pw_parts = [], pw_notify = (\<lambda>_ _. AllMessages), pw_devices = [sample_phone], pw_jobs = [sample_job], pw_logs = []\<rparr>"

definition sample_push_env :: push_env where
  "sample_push_env = \<lparr>pe_lower = id, pe_alnum = (\<lambda>_. False), pe_show = (\<lambda>_. ''id''), pe_lib = sample_lib,
     pe_env = (\<lambda>_. None), pe_config_down = (\<lambda>_ _. False), pe_down = (\<lambda>_. False), pe_online = (\<lambda>_. False),
     pe_presence = Some (\<lambda>_. False), pe_fcm = (\<lambda>_ _ _. None), pe_apns = (\<lambda>_ _ _. None), pe_status_text = (\<lambda>_. ''200''),
     pe_push_id = 7, pe_now = 100\<rparr>"

definition sample_message :: message where
  "sample_message = \<lparr>msg_id = 5, msg_room = 10, msg_sender = 1, msg_content = ''hello'', msg_type = TextMsg,
     msg_encrypted = None, msg_metadata = None, msg_quoted = None, msg_fwd_message = None, msg_fwd_room = None,
     msg_fwd_sender = None, msg_idem = None, msg_created = 1, msg_deleted = None\<rparr>"

definition sample_sender :: user_account where
  "sample_sender = \<lparr>ua_id = 1, ua_name = ''ann'', ua_email = ''a'', ua_hash = ''h'', ua_nickname = None, ua_signature = None,
     ua_avatar_url = None, ua_avatar_key = None, ua_status = UserActive, ua_created = 0, ua_updated = 0, ua_deleted = None\<rparr>"

text \<open>A snapshot of user 1 in room 10 reaches the phone.\<close>

lemma sample_push:
  assumes "ps_room s = 10" "ps_sender s = 1" "ps_type s = TextMsg" "CHR ''@'' \<notin> set (ps_content s)"
  shows "\<exists>w' lg. notify_new_message_snapshot sample_push_env s sample_world = (Inr (), w') \<and> pw_logs w' = [lg] \<and> lg_user lg = 2
    \<and> lg_success lg"
proof -
  have run: "load_runtime sample_push_env sample_world = sample_world"
    by (simp add: load_runtime_def push_runtime_snapshot_def sample_push_env_def sample_world_def sample_runtime_def
        push_runtime_ttl_def)
  have room: "\<exists>r. get_room 10 two_rooms = Inr r"
  proof -
    have "case get_room 10 two_rooms of Inr r \<Rightarrow> True | Inl e \<Rightarrow> False" by code_simp
    then show ?thesis by (auto split: sum.splits)
  qed
  then obtain r where r: "get_room 10 two_rooms = Inr r" by blast
  have members: "map mb_user (filter (\<lambda>m. mb_room m = 10 \<and> mb_deleted m = None) (room_members two_rooms)) = [1, 2]" by code_simp
  have settings: "list_member_notification_settings 10 sample_world = [(1, AllMessages), (2, AllMessages)]"
  proof -
    have "list_member_notification_settings 10 sample_world
      = map (\<lambda>u. (u, AllMessages)) (map mb_user (filter (\<lambda>m. mb_room m = 10 \<and> mb_deleted m = None) (room_members two_rooms)))"
      by (simp add: list_member_notification_settings_def sample_world_def)
    then show ?thesis unfolding members by simp
  qed
  have devices: "list_active_devices_for_users [2] sample_world = [sample_phone]"
    by (simp add: list_active_devices_for_users_def sample_world_def sample_phone_def)
  have fields: "runtime_db sample_world = two_rooms" "pr_enabled (push_runtime sample_world)" "\<not> no_provider sample_world"
    "\<not> pe_down sample_push_env q" for q
    by (simp_all add: sample_world_def sample_runtime_def sample_push_env_def no_provider_def)
  have send: "notify_new_message_snapshot sample_push_env s sample_world
    = send_to_targets sample_push_env (message_targets s r no_mentions [(1, AllMessages), (2, AllMessages)])
        (message_note sample_push_env s r) sample_world"
    using assms r fields by (simp add: notify_new_message_snapshot_def run settings Let_def)
  have targets: "message_targets s r no_mentions [(1, AllMessages), (2, AllMessages)] = [2]"
    using assms by (simp add: message_targets_def should_send_for_setting_def)
  have filtered: "filter_targets_skip_online sample_push_env [2] = [2]"
    by (simp add: filter_targets_skip_online_def sample_push_env_def)
  have "send_to_targets sample_push_env [2] n sample_world = (Inr (), send_fcm_to_devices_and_log sample_push_env saved_account
      [sample_phone] n sample_world)" for n
    unfolding send_to_targets_def filtered by (simp add: Let_def devices)
      (simp add: sample_world_def sample_runtime_def sample_push_env_def)
  then show ?thesis unfolding send targets
    by (simp add: send_fcm_to_devices_and_log_def settle_device_def send_with_retry.simps sample_phone_def sample_push_env_def
        sample_world_def log_of_def Let_def)
qed

lemma two_rooms_users: "users two_rooms = [1, 2, 3]"
  by code_simp





section \<open>Properties\<close>

text \<open>
  C35: A notification of a message goes only to members of its room other than the sender who have
  not muted the room, to an active device of theirs and over its channel; a member who asked for
  mentions only gets it from a group only when the text holds an at sign; and while online users are
  skipped, the user is online neither on this node nor in Redis.
\<close>

theorem pushes_respect_settings:
  assumes "notify_new_message_snapshot pe s w = (r, w')" "lg \<in> set (pw_logs w')" "lg \<notin> set (pw_logs w)"
  shows "lg_user lg \<noteq> ps_sender s \<and> is_user_in_room (ps_room s) (lg_user lg) (runtime_db w)
    \<and> pw_notify w (ps_room s) (lg_user lg) \<noteq> MutedRoom
    \<and> (pw_notify w (ps_room s) (lg_user lg) = MentionsOnly \<longrightarrow>
        (\<forall>rm. get_room (ps_room s) (runtime_db w) = Inr rm \<longrightarrow> rm_type rm = GroupRoom \<longrightarrow> CHR ''@'' \<in> set (ps_content s)))
    \<and> (\<exists>p \<in> set (pw_devices w). pd_active p \<and> pd_user p = lg_user lg \<and> pd_device p = lg_device lg \<and> pd_channel p = lg_provider lg)
    \<and> (pr_skip (push_runtime (load_runtime pe w)) \<longrightarrow>
        \<not> pe_online pe (lg_user lg) \<and> (\<forall>online. pe_presence pe = Some online \<longrightarrow> \<not> online (lg_user lg)))
    \<and> pr_enabled (push_runtime (load_runtime pe w)) \<and> ps_type s \<noteq> SystemMsg"
  using assms(1)
proof (cases rule: notify_message_cases)
  case unsent
  then show ?thesis using assms by simp
next
  case (sent rm mentions)
  let ?ts = "message_targets s rm mentions (list_member_notification_settings (ps_room s) w)"
  from sent(5) obtain new where new: "pw_logs w' = pw_logs w @ new"
    and origin: "\<And>lg. lg \<in> set new \<Longrightarrow> \<exists>p outcome. lg = log_of pe (pd_channel p) (message_note pe s rm) p outcome
      \<and> p \<in> set (pw_devices w) \<and> pd_active p \<and> pd_user p \<in> set ?ts
      \<and> (pr_skip (push_runtime (load_runtime pe w)) \<longrightarrow> pd_user p \<in> set (filter_targets_skip_online pe ?ts))"
    by (rule sent_logs) simp
  obtain p outcome where lg: "lg = log_of pe (pd_channel p) (message_note pe s rm) p outcome"
    and p: "p \<in> set (pw_devices w)" "pd_active p" "pd_user p \<in> set ?ts"
    and skip: "pr_skip (push_runtime (load_runtime pe w)) \<longrightarrow> pd_user p \<in> set (filter_targets_skip_online pe ?ts)"
    using origin [of lg] assms(2,3) new by auto
  have user: "lg_user lg = pd_user p" "lg_device lg = pd_device p" "lg_provider lg = pd_channel p"
    by (simp_all add: lg log_of_def)
  have target: "pd_user p \<noteq> ps_sender s" "is_user_in_room (ps_room s) (pd_user p) (runtime_db w)"
    "should_send_for_setting (pw_notify w (ps_room s) (pd_user p)) (rm_type rm) (pd_user p) mentions"
    using p(3) by (auto simp: message_targets_def list_member_notification_settings_def is_user_in_room_def is_member_def)
  have online: "\<not> pe_online pe (pd_user p) \<and> (\<forall>online. pe_presence pe = Some online \<longrightarrow> \<not> online (pd_user p))"
    if "pr_skip (push_runtime (load_runtime pe w))"
    using skip that by (auto simp: filter_targets_skip_online_def Let_def split: option.splits)
  have sign: "CHR ''@'' \<in> set (ps_content s)" if "pw_notify w (ps_room s) (pd_user p) = MentionsOnly" "rm_type rm = GroupRoom"
    using target(3) sent(4) that by (auto simp: should_send_for_setting_def no_mentions_def)
  have muted: "pw_notify w (ps_room s) (pd_user p) \<noteq> MutedRoom" using target(3) by (auto simp: should_send_for_setting_def)
  show ?thesis unfolding user
    using target(1,2) muted sign online p sent(1-3) user by auto
qed

lemma pushes_respect_settings_witness:
  "\<exists>w' lg. notify_new_message_snapshot sample_push_env (snapshot_from_message sample_message sample_sender []) sample_world
      = (Inr (), w') \<and> lg \<in> set (pw_logs w') \<and> lg_user lg = 2 \<and> lg_user lg \<noteq> 1 \<and> is_user_in_room 10 (lg_user lg) two_rooms"
proof -
  let ?s = "snapshot_from_message sample_message sample_sender []"
  have s: "ps_room ?s = 10" "ps_sender ?s = 1" "ps_type ?s = TextMsg" "CHR ''@'' \<notin> set (ps_content ?s)"
    by (simp_all add: snapshot_from_message_def sample_message_def)
  obtain w' lg where run: "notify_new_message_snapshot sample_push_env ?s sample_world = (Inr (), w')" "pw_logs w' = [lg]" "lg_user lg = 2"
    using sample_push [OF s] by blast
  have "lg \<in> set (pw_logs w')" "lg \<notin> set (pw_logs sample_world)" by (simp_all add: run(2) sample_world_def)
  note pushes_respect_settings [OF run(1) this]
  moreover have "runtime_db sample_world = two_rooms" by (simp add: sample_world_def)
  ultimately show ?thesis using run s(1,2) by auto
qed



text \<open>
  C37: While messages are encrypted, a notification holds the placeholder and nothing of the text or
  the parts of the message: two messages that differ only there make the same notification, and the
  body of everything sent for it is the placeholder, in a group after the name of the sender.
\<close>

theorem e2ee_push_reveals_nothing:
  assumes "is_e2ee_runtime d = Inr True" "s = build_push_snapshot d m sender parts"
    and "notify_new_message_snapshot pe s w = (r, w')" "lg \<in> set (pw_logs w')" "lg \<notin> set (pw_logs w)"
  shows "s = build_push_snapshot d (m\<lparr>msg_content := other_text\<rparr>) sender other_parts
    \<and> lg_body lg \<in> {e2ee_preview, sender_name s @ '': '' @ e2ee_preview}"
proof -
  have s: "ps_preview s = e2ee_preview" "s = build_push_snapshot d (m\<lparr>msg_content := other_text\<rparr>) sender other_parts"
    using assms(1,2) by (simp_all add: build_push_snapshot_def sanitize_for_e2ee_def snapshot_from_message_def)
  from assms(3) have "lg_body lg \<in> {e2ee_preview, sender_name s @ '': '' @ e2ee_preview}"
  proof (cases rule: notify_message_cases)
    case unsent
    then show ?thesis using assms(4,5) by simp
  next
    case (sent rm mentions)
    from sent(5) obtain new where "pw_logs w' = pw_logs w @ new"
      "\<And>lg. lg \<in> set new \<Longrightarrow> \<exists>p outcome. lg = log_of pe (pd_channel p) (message_note pe s rm) p outcome"
      by (rule sent_logs) (metis load_runtime_fields(2))
    then obtain p outcome where "lg = log_of pe (pd_channel p) (message_note pe s rm) p outcome"
      using assms(4,5) by fastforce
    then show ?thesis using s(1) by (simp add: log_of_def message_note_def Let_def)
  qed
  then show ?thesis using s(2) by blast
qed

lemma e2ee_push_reveals_nothing_witness:
  "\<exists>w' lg. notify_new_message_snapshot sample_push_env
        (build_push_snapshot (activate_gate_transaction 1 1 None empty_db) sample_message sample_sender []) sample_world = (Inr (), w')
      \<and> lg \<in> set (pw_logs w') \<and> lg_body lg \<in> {e2ee_preview, ''ann'' @ '': '' @ e2ee_preview}"
proof -
  let ?d = "activate_gate_transaction 1 1 None empty_db"
  let ?s = "build_push_snapshot ?d sample_message sample_sender []"
  have sign: "CHR ''@'' \<notin> set e2ee_content" by code_simp
  have s: "ps_room ?s = 10" "ps_sender ?s = 1" "ps_type ?s = TextMsg" "CHR ''@'' \<notin> set (ps_content ?s)" "sender_name ?s = ''ann''"
    by (simp_all add: build_push_snapshot_def activated_e2ee sanitize_for_e2ee_def snapshot_from_message_def sample_message_def
        sign sender_name_def nonblank_def sample_sender_def)
  obtain w' lg where run: "notify_new_message_snapshot sample_push_env ?s sample_world = (Inr (), w')" "pw_logs w' = [lg]"
    using sample_push [OF s(1-4)] by blast
  have "lg \<in> set (pw_logs w')" "lg \<notin> set (pw_logs sample_world)" by (simp_all add: run(2) sample_world_def)
  then show ?thesis using e2ee_push_reveals_nothing [OF activated_e2ee refl run(1)] run(1) s(5) by metis
qed

text \<open>
  C38: Registering a device fails exactly when another device holds the token and the device id
  holds another token; otherwise the caller has one active row with the device id and the token,
  and device ids and tokens stay unique.
\<close>

theorem push_registration_iff:
  assumes "devices_unique w" "user \<in> set (users (runtime_db w))"
  shows "case upsert_push_device now i user platform channel device token w of
      Inl e \<Rightarrow> e = UniqueViolation
        \<and> (\<exists>p \<in> set (pw_devices w). pd_token p = token \<and> pd_device p \<noteq> device)
        \<and> (\<exists>q \<in> set (pw_devices w). pd_device q = device \<and> pd_token q \<noteq> token)
    | Inr (p, w') \<Rightarrow> devices_unique w' \<and> p \<in> set (pw_devices w') \<and> pd_user p = user \<and> pd_device p = device
        \<and> pd_token p = token \<and> pd_active p
        \<and> \<not> ((\<exists>p \<in> set (pw_devices w). pd_token p = token \<and> pd_device p \<noteq> device)
          \<and> (\<exists>q \<in> set (pw_devices w). pd_device q = device \<and> pd_token q \<noteq> token))"
proof (cases "insert_push_device now i user platform channel device token w")
  case (Inr x)
  obtain p w' where x: "x = (p, w')" by (cases x)
  have "\<not> (\<exists>p \<in> set (pw_devices w). pd_token p = token \<and> pd_device p \<noteq> device)"
    using insert_push_device_iff [OF assms(2), of now i platform channel device token UniqueViolation] Inr by auto
  then show ?thesis using insert_push_device_effect [OF assms(1) Inr [unfolded x]] Inr x by (simp add: upsert_push_device_def)
next
  case (Inl e)
  then have e: "e = UniqueViolation" and ex: "\<exists>p \<in> set (pw_devices w). pd_token p = token \<and> pd_device p \<noteq> device"
    using insert_push_device_iff [OF assms(2)] by auto
  then obtain p where p: "fetch_optional (\<lambda>p. pd_token p = token) (pw_devices w) = Some p"
    using fetch_exists [where P = "\<lambda>p. pd_token p = token" and t = "pw_devices w"] by blast
  let ?renew = "renewed_device now user platform channel device token"
  let ?t = "update_where (\<lambda>p. pd_token p = token) ?renew (pw_devices w)"
  show ?thesis
  proof (cases "\<exists>q \<in> set (pw_devices w). pd_device q = device \<and> pd_token q \<noteq> token")
    case True
    then show ?thesis using Inl p ex assms(2) by (auto simp: upsert_push_device_def Let_def)
  next
    case False
    have "unique_on pd_token ?t"
      by (rule unique_renewed [where key = pd_token and b = token]) (use assms(1) in \<open>auto simp: devices_unique_def\<close>)
    moreover have "unique_on pd_device ?t"
      by (rule unique_renewed [where key = pd_token and b = device])
        (use assms(1) False in \<open>auto simp: devices_unique_def\<close>)
    moreover have "?renew p \<in> set ?t" using fetch_SomeD [OF p] by (auto simp: set_update_where)
    ultimately show ?thesis using Inl p False assms(2) by (auto simp: upsert_push_device_def Let_def devices_unique_def)
  qed
qed

lemma push_registration_iff_witness:
  "\<exists>p w'. upsert_push_device 5 9 1 ''ios'' ''apns'' ''e'' ''t'' sample_world = Inr (p, w') \<and> devices_unique w' \<and> pd_user p = 1
    \<and> pd_token p = ''t''"
proof -
  have "devices_unique sample_world" "1 \<in> set (users (runtime_db sample_world))"
    by (simp_all add: devices_unique_def sample_world_def two_rooms_users)
  note reg = push_registration_iff [OF this, where now = 5 and i = 9 and platform = "''ios''" and channel = "''apns''"
      and device = "''e''" and token = "''t''"]
  have "\<not> (\<exists>q \<in> set (pw_devices sample_world). pd_device q = ''e'' \<and> pd_token q \<noteq> ''t'')"
    by (simp add: sample_world_def sample_phone_def)
  then show ?thesis using reg by (auto split: sum.splits prod.splits)
qed



end
