(* ===== verification/Spec2Isabelle.thy ===== *)
theory Spec2Isabelle
  imports ProtocolState E2eeHandlers GroupProperties FileProperties MessageProperties Migrations QrProperties NetProperties PushProperties
begin

text \<open>
  A verification development for redcode-im, an instant messenger with end-to-end encryption:
  the Rust server under \<open>api/\<close> and the client core \<open>e2ee-core/\<close>.

  \<^bold>\<open>Reading the model.\<close>  The database is a record of tables (\<open>Schema\<close>), a table a list of rows
  (\<open>Prelude\<close>); a store method is a function from the database to a result and the new database;
  an error is a value of \<open>app_error\<close> (\<open>AppErrors\<close>).  A method that runs in one transaction returns
  a new database only when it succeeds; locks make its steps one step.  Identifiers, random
  values and the clock (\<open>id::generate\<close>, \<open>NOW()\<close>) are arguments.  Error texts are ASCII tags.

  \<^bold>\<open>Theories.\<close>
  \<^item> \<open>Prelude\<close>: bytes, UUIDs, big-endian integers, Rust strings, tables.
  \<^item> \<open>AppErrors\<close>: \<open>api/src/error.rs\<close>; the contract \<open>retryable\<close> of an idempotent operation.
  \<^item> \<open>Envelope\<close>: the wire envelope in \<open>e2ee-core/src/lib.rs\<close> and
    \<open>api/src/services/e2ee_envelope.rs\<close>; the contract \<open>byte_codec\<close>.
  \<^item> \<open>ProtocolState\<close>: the serialised client state of \<open>e2ee-core/src/lib.rs\<close>.
  \<^item> \<open>Schema\<close>: the rows of the tables and the database record.
  \<^item> \<open>Membership\<close>: rooms and members of \<open>api/src/database/room_store.rs\<close> and the revision trigger;
    the interface \<open>bump_closed\<close> between membership and the encryption tables.
  \<^item> \<open>Devices\<close>, \<open>KeyPackages\<close>: \<open>api/src/database/e2ee_mls_store.rs\<close>; the contract
    \<open>one_time_store\<close> of handing out items once.
  \<^item> \<open>ControlLog\<close>: \<open>api/src/database/e2ee_control_store.rs\<close>.
  \<^item> \<open>RuntimeGate\<close>: \<open>api/src/services/message_runtime.rs\<close>, \<open>api/src/services/e2ee_runtime_gate.rs\<close>
    and the stores under them: the administrator's switch to encrypted messaging.
  \<^item> \<open>E2eeSystem\<close>: the encryption service as one machine with reachable states; its invariants and
    the properties that span the four components.
  \<^item> \<open>Requests\<close>: what the handlers share, Rust's \<open>?\<close>, the loop that checks every item, the token's
    user id, the base64 fields.
  \<^item> \<open>PreKeys\<close>: the older pre-key bundles, \<open>api/src/database/e2ee_key_store.rs\<close> and the handlers
    \<open>upload_key_bundle\<close> and \<open>get_key_bundles\<close>; an interpretation of \<open>one_time_store\<close>.
  \<^item> \<open>Friends\<close>: \<open>api/src/database/friend_store.rs\<close>, \<open>user_block_store.rs\<close> and their handlers, and
    the abstract relation \<open>social\<close> that the store refines.
  \<^item> \<open>E2eeHandlers\<close>: the MLS handlers of \<open>api/src/handlers/e2ee.rs\<close>, whose accepted requests are
    transitions of the machine of \<open>E2eeSystem\<close>.
  \<^item> \<open>GroupStore\<close>: \<open>api/src/database/group_management_store.rs\<close>, settings, rules, join requests,
    invitations, administrators, mutes and the log of a group.
  \<^item> \<open>GroupHandlers\<close>: \<open>api/src/handlers/group_management.rs\<close>, the handlers of
    \<open>api/src/handlers/room.rs\<close> that change members, and the check before a group message.
  \<^item> \<open>GroupRoles\<close>: all of them as one service; the roles it keeps consistent, and the contracts
    \<open>group_service\<close> and \<open>group_closed\<close> of a fact that every request preserves.
  \<^item> \<open>GroupProperties\<close>: what the group service promises and where it does not.
  \<^item> \<open>MultipartPlan\<close>: \<open>api/src/services/multipart_upload.rs\<close>, the plan of an upload in parts, with
    the arithmetic of \<open>i64\<close>; that its loop returns, and that the parts fit the file.
  \<^item> \<open>Files\<close>: the state of uploads, \<open>api/src/database/file_upload_store.rs\<close>, the reads of
    \<open>storage_provider_store.rs\<close>, and the storage service as the record \<open>s3\<close> of its answers.
  \<^item> \<open>Attachments\<close>: \<open>api/src/database/message_store.rs\<close>, commits of files to rooms, and messages
    with their parts.
  \<^item> \<open>UploadSessions\<close>: \<open>api/src/database/file_upload_multipart_store.rs\<close> and
    \<open>api/src/handlers/multipart_upload.rs\<close>.
  \<^item> \<open>AttachmentHandlers\<close>, \<open>Messaging\<close>: the attachment handlers and the message handlers of
    \<open>api/src/handlers/message.rs\<close>, with \<open>api/src/services/upload_policy.rs\<close>.
  \<^item> \<open>FileWorkers\<close>: the cleanup \<open>api/src/services/file_upload_cleanup.rs\<close>, the audit
    \<open>file_upload_audit.rs\<close> and its queue \<open>api/src/database/file_upload_audit_store.rs\<close>.
  \<^item> \<open>FileInvariant\<close>, \<open>FileSystem\<close>: the invariant of files and messages, and one preservation lemma
    for each handler and worker.
  \<^item> \<open>UploadProperties\<close>, \<open>MessageProperties\<close>: what single operations promise (a merge is whole, an
    audit ends, a repeated encrypted send is one message, encrypted mode refuses plaintext).
  \<^item> \<open>FileProperties\<close>: all of them as one machine with reachable worlds, and that no file a message
    names is ever missing.

  \<^item> \<open>SqlScript\<close>: the splitter of SQL scripts of \<open>api/src/database/mod.rs\<close>, and the tokeniser it
    agrees with.
  \<^item> \<open>Migrations\<close>: the pool settings and the migration of the schema in the same file, with its
    ledger, checksums and adoption, over any sequence of starts that may fail anywhere.
  \<^item> \<open>Accounts\<close>: users, login devices and account settings (\<open>user_store.rs\<close>,
    \<open>user_device_store.rs\<close>, \<open>settings_store.rs\<close> of \<open>api/src/database\<close>).
  \<^item> \<open>Sessions\<close>: registration, the logins, refresh tokens and their index in Redis, revocation and
    passwords (\<open>auth.rs\<close>, \<open>auth_device.rs\<close> and parts of \<open>user.rs\<close> of \<open>api/src/handlers\<close>).
  \<^item> \<open>QrLogin\<close>, \<open>AdminAuth\<close>: login by QR code, and the administrators with the middlewares of
    \<open>api/src/auth/mod.rs\<close>.
  \<^item> \<open>SessionProperties\<close>, \<open>QrProperties\<close>: these as one machine over timed requests, with the contract
    \<open>cache_invariant\<close> of a fact about the cache that every handler preserves; what a revocation
    ends and what it misses, and that a login code is polled once.

  \<^item> \<open>Connections\<close>: the sockets of one node, \<open>api/src/websocket/mod.rs\<close>: the connection manager,
    the bounded queues, what each event of a client does, and the hub of the Redis channels.
  \<^item> \<open>NetProperties\<close>: what the node keeps true while sockets and hub interleave, what it does not
    notice about its members, and what a second login leaves behind.

  \<^item> \<open>PushConfig\<close>: the switches and providers of notifications and the runtime that caches them
    (\<open>api/src/handlers/push_settings.rs\<close>, \<open>push_provider_config_store.rs\<close>, \<open>api/src/crypto/secret.rs\<close>).
  \<^item> \<open>PushClients\<close>, \<open>Push\<close>, \<open>PushQueue\<close>: \<open>api/src/services/push.rs\<close>: the clients of FCM and APNs and
    the loop that tries again; devices, texts, mentions and targets; the queue of
    \<open>api/src/database/push_job_store.rs\<close> with its worker and cleanup.
  \<^item> \<open>PushProperties\<close>: whom a notification reaches and what it says, how often a job is taken, when a
    device can be registered, that a saved account is used, and how a late worker repeats a job.

  \<^bold>\<open>Bounds.\<close>  The only fuel is in \<open>strip_all\<close> (\<open>Prelude\<close>), which cuts at most as many encodings as
  the string has bytes; \<open>strip_all_done\<close> shows that nothing is left to cut.  The loops of
  \<open>SqlScript\<close> are recursions on the text that is left.  The loop \<open>enlarge\<close> is a
  \<open>partial_function\<close> without fuel, and \<open>part_loop_returns\<close> shows that it returns; the loop of
  a push that tries again ends after three attempts, by its measure.

  \<^bold>\<open>Assumptions.\<close>  A store method is one step: either it is one SQL statement, or it runs in a
  transaction that locks the rows it decides on.  A handler that reads and then writes in separate
  statements is modelled in the order of the code with nothing in between; where the interleaving
  matters and the code does not exclude it, a theorem shows the effect (\<open>respond_race\<close>).
  PostgreSQL, Redis counters, base64, Ed25519 and the UUID parser are arguments of the definitions,
  as are bcrypt, JWT, the regular expressions and SHA-256; the tokens in Redis are a map with
  expiry, and each command is refused when Redis does not answer.  \<open>uuid_texts\<close> says what the text
  of a UUID is relied on for.  The text of a migration is what the file holds, and PostgreSQL runs
  a statement on a content without a type of its own.
  The object storage does what \<open>honest\<close> says: it tells the truth about what is stored, and a failed
  deletion or merge changes nothing.  Clients upload only under keys that were signed for them, the
  random part makes a new key unused, and keys of avatars, releases and reports do not start with
  \<open>messages/\<close>.  The hub has reached Redis once, a channel carries only the events of its room, and
  the id of a connection is not used twice.  \<open>lib_ok\<close> says that decoding and decryption undo
  encoding and encryption; what the push services answer to each attempt is an argument, and their
  answers are settled in the order of the devices.  One run of a worker is a step for each clock value; the locks of the deletion make
  the check of the references and the deletion one step.

  \<^bold>\<open>Not modelled.\<close>  The encoding of WebSocket frames, the presence keys in Redis, the test pushes and push logs of the administrator, the
  client of the object storage, broadcasts, listings and reactions of messages, the grants that \<open>relay_only\<close> keeps in Redis, log writers,
  metrics and geolocation (input and output around third-party services); \<open>OpenMLS\<close> behind
  \<open>e2ee-core/src/session.rs\<close>; the administrator's pages, profile pages, releases, emoji
  packs and reports, which are queries without state of their own; the desktop shell and the
  Android, iOS and web clients.
\<close>

end
